(* ===== verification/Prelude.thy ===== *)
theory Prelude
  imports Main "HOL-Library.Char_ord" "HOL-Library.List_Lexorder"
begin

section \<open>Shared vocabulary\<close>

text \<open>
  Exceptions, results, association lists (Python dictionaries in insertion order) and the
  lemma collections every component uses. An exception carries its message only where the
  program reads the message back (\<open>BudgetExceeded\<close>, \<open>ApprovalRejected\<close>, and exceptions
  of host code, whose class name and text are recorded in the run).
\<close>

datatype exc =
    ValueError
  | TypeError
  | KeyError
  | RuntimeError
  | InvalidTransition
  | BudgetExceeded string
  | RunCancelled
  | UnmeteredUsage
  | AppendOnlyViolation
  | ResumeRefused
  | LockUnavailable
  | TornLogTail
  | JSONDecodeError
  | ObservationRefused
  | PathRefused string
  | SourceTooLarge
  | FileMissing
  | OSError
  | ApprovalRejected string
  | ToolDenied string
  | ToolSchemaError
  | ToolTimeout
  | InspectError
  | Foreign string string

type_synonym 'a result = "exc + 'a"

named_theorems guards \<open>unfolding rules of validation predicates\<close>
named_theorems ops \<open>unfolding rules of the state-changing operations\<close>

definition bind_res :: "'a result \<Rightarrow> ('a \<Rightarrow> 'b result) \<Rightarrow> 'b result" where
  "bind_res m f = (case m of Inl e \<Rightarrow> Inl e | Inr x \<Rightarrow> f x)"

lemma bind_res_simps [simp]:
  "bind_res (Inl e) f = Inl e" "bind_res (Inr x) f = f x"
  by (simp_all add: bind_res_def)

lemma bind_res_Inr: "bind_res m f = Inr y \<longleftrightarrow> (\<exists>x. m = Inr x \<and> f x = Inr y)"
  by (cases m) auto

lemma bind_res_Inl:
  "bind_res m f = Inl e \<longleftrightarrow> m = Inl e \<or> (\<exists>x. m = Inr x \<and> f x = Inl e)"
  by (cases m) auto

text \<open>\<open>require b e\<close> is \<open>if not b: raise e\<close>.\<close>

definition require :: "bool \<Rightarrow> exc \<Rightarrow> unit result" where
  "require b e = (if b then Inr () else Inl e)"

lemma require_simps [simp]:
  "require True e = Inr ()" "require False e = Inl e"
  "require b e = Inr u \<longleftrightarrow> b" "require b e = Inl e' \<longleftrightarrow> \<not> b \<and> e' = e"
  by (auto simp: require_def)

fun map_res :: "('a \<Rightarrow> 'b result) \<Rightarrow> 'a list \<Rightarrow> 'b list result" where
  "map_res f [] = Inr []"
| "map_res f (x # xs) = bind_res (f x) (\<lambda>y. bind_res (map_res f xs) (\<lambda>ys. Inr (y # ys)))"

lemma map_res_Inr:
  "map_res f xs = Inr ys \<Longrightarrow> length ys = length xs \<and> list_all2 (\<lambda>x y. f x = Inr y) xs ys"
  by (induction xs arbitrary: ys) (auto simp: bind_res_Inr)

lemma map_res_set:
  "map_res f xs = Inr ys \<Longrightarrow> y \<in> set ys \<Longrightarrow> \<exists>x \<in> set xs. f x = Inr y"
  by (induction xs arbitrary: ys) (auto simp: bind_res_Inr)

lemma map_res_mem:
  "map_res f xs = Inr ys \<Longrightarrow> x \<in> set xs \<Longrightarrow> \<exists>y \<in> set ys. f x = Inr y"
  by (induction xs arbitrary: ys) (auto simp: bind_res_Inr)

text \<open>\<open>returns m P\<close>: whenever \<open>m\<close> returns, its value satisfies \<open>P\<close>. The rules follow the code.\<close>

named_theorems returning \<open>rules for what a computation returns\<close>

definition returns :: "'a result \<Rightarrow> ('a \<Rightarrow> bool) \<Rightarrow> bool" where
  "returns m P \<longleftrightarrow> (\<forall>x. m = Inr x \<longrightarrow> P x)"

lemma returnsD: "returns m P \<Longrightarrow> m = Inr x \<Longrightarrow> P x"
  by (simp add: returns_def)

lemma returnsI: "(\<And>x. m = Inr x \<Longrightarrow> P x) \<Longrightarrow> returns m P"
  by (simp add: returns_def)

lemma returns_Inl [returning]: "returns (Inl e) P"
  by (simp add: returns_def)

lemma returns_Inr [returning]: "P x \<Longrightarrow> returns (Inr x) P"
  by (simp add: returns_def)

lemma returns_bind [returning]:
  "(\<And>x. m = Inr x \<Longrightarrow> returns (f x) P) \<Longrightarrow> returns (bind_res m f) P"
  by (auto simp: returns_def bind_res_Inr)

lemma returns_if [returning]:
  "(c \<Longrightarrow> returns m P) \<Longrightarrow> (\<not> c \<Longrightarrow> returns m' P) \<Longrightarrow> returns (if c then m else m') P"
  by simp

lemma returns_option [returning]:
  "(v = None \<Longrightarrow> returns m P) \<Longrightarrow> (\<And>x. v = Some x \<Longrightarrow> returns (f x) P)
     \<Longrightarrow> returns (case v of None \<Rightarrow> m | Some x \<Rightarrow> f x) P"
  by (cases v) simp_all

lemma returns_sum [returning]:
  "(\<And>e. v = Inl e \<Longrightarrow> returns (f e) P) \<Longrightarrow> (\<And>x. v = Inr x \<Longrightarrow> returns (g x) P)
     \<Longrightarrow> returns (case v of Inl e \<Rightarrow> f e | Inr x \<Rightarrow> g x) P"
  by (cases v) simp_all

lemma returns_prod [returning]:
  "(\<And>a b. v = (a, b) \<Longrightarrow> returns (f a b) P) \<Longrightarrow> returns (case v of (a, b) \<Rightarrow> f a b) P"
  by (cases v) simp_all

lemma returns_mono: "returns m P \<Longrightarrow> (\<And>x. P x \<Longrightarrow> Q x) \<Longrightarrow> returns m Q"
  by (auto simp: returns_def)

section \<open>Dictionaries in insertion order\<close>

text \<open>
  A Python dictionary keeps the position of a key that is assigned again. \<open>dict_set\<close>
  overwrites in place and appends a new key; \<open>map_of\<close> is the lookup.
\<close>

fun dict_set :: "'k \<Rightarrow> 'v \<Rightarrow> ('k \<times> 'v) list \<Rightarrow> ('k \<times> 'v) list" where
  "dict_set k v [] = [(k, v)]"
| "dict_set k v ((k', v') # d) = (if k' = k then (k, v) # d else (k', v') # dict_set k v d)"

lemma map_of_dict_set [simp]: "map_of (dict_set k v d) = (map_of d)(k \<mapsto> v)"
  by (induction d) auto

lemma keys_dict_set:
  "map fst (dict_set k v d) = (if k \<in> fst ` set d then map fst d else map fst d @ [k])"
  by (induction d) (force)+

lemma distinct_dict_set: "distinct (map fst d) \<Longrightarrow> distinct (map fst (dict_set k v d))"
  by (auto simp: keys_dict_set image_def)

text \<open>A dictionary comprehension \<open>{key(x): val(x) for x in xs}\<close>: a later key wins.\<close>

definition dict_of :: "('a \<Rightarrow> 'k) \<Rightarrow> ('a \<Rightarrow> 'v) \<Rightarrow> 'a list \<Rightarrow> ('k \<times> 'v) list" where
  "dict_of key val xs = fold (\<lambda>x. dict_set (key x) (val x)) xs []"

lemma map_of_fold_dict_set:
  "map_of (fold (\<lambda>x. dict_set (key x) (val x)) xs d) =
     map_of d ++ map_of (rev (map (\<lambda>x. (key x, val x)) xs))"
proof (induction xs arbitrary: d)
  case Nil
  then show ?case by simp
next
  case (Cons x xs)
  have "(map_of d)(key x \<mapsto> val x) ++ map_of (rev (map (\<lambda>x. (key x, val x)) xs)) =
      map_of d ++ map_of (rev (map (\<lambda>x. (key x, val x)) (x # xs)))"
    by (auto simp: map_add_def fun_eq_iff split: option.splits)
  then show ?case by (simp only: fold_simps o_apply Cons.IH map_of_dict_set)
qed

lemma map_of_dict_of:
  "map_of (dict_of key val xs) = map_of (rev (map (\<lambda>x. (key x, val x)) xs))"
  by (simp add: dict_of_def map_of_fold_dict_set)

lemma map_of_rev_distinct:
  "distinct (map fst d) \<Longrightarrow> map_of (rev d) = map_of d"
  by (rule sym, rule map_of_inject_set [THEN iffD2]) (auto simp: rev_map [symmetric])

text \<open>With distinct keys the comprehension finds exactly the element that has the key.\<close>

lemma dict_of_lookup:
  assumes "distinct (map key xs)" and "x \<in> set xs"
  shows "map_of (dict_of key val xs) (key x) = Some (val x)"
proof -
  have d: "distinct (map fst (map (\<lambda>x. (key x, val x)) xs))"
    using assms(1) by (simp add: comp_def)
  then show ?thesis
    using assms(2) by (simp add: map_of_dict_of map_of_rev_distinct)
qed

lemma dict_of_lookup_Some:
  "map_of (dict_of key val xs) k = Some v \<Longrightarrow> \<exists>x \<in> set xs. key x = k \<and> val x = v"
  by (auto simp: map_of_dict_of dest!: map_of_SomeD)

lemma dict_of_lookup_None:
  "map_of (dict_of key val xs) k = None \<longleftrightarrow> k \<notin> key ` set xs"
  by (force simp: map_of_dict_of map_of_eq_None_iff)

lemma dict_set_fresh: "k \<notin> fst ` set d \<Longrightarrow> dict_set k v d = d @ [(k, v)]"
  by (induction d) force+

lemma fold_dict_set_fresh:
  "distinct (map fst (d @ xs)) \<Longrightarrow> fold (\<lambda>x. dict_set (fst x) (snd x)) xs d = d @ xs"
proof (induction xs arbitrary: d)
  case Nil
  then show ?case by simp
next
  case (Cons x xs)
  then have "dict_set (fst x) (snd x) d = d @ [x]"
    by (subst dict_set_fresh) auto
  with Cons show ?case by simp
qed

lemma dict_of_distinct: "distinct (map fst xs) \<Longrightarrow> dict_of fst snd xs = xs"
  by (simp add: dict_of_def fold_dict_set_fresh)

section \<open>Lists\<close>

text \<open>\<open>sorted(set(xs))\<close>.\<close>

definition sorted_set :: "string list \<Rightarrow> string list" where
  "sorted_set xs = remdups (sort xs)"

lemma set_sorted_set [simp]: "set (sorted_set xs) = set xs"
  by (simp add: sorted_set_def)

lemma sorted_set_empty [simp]: "sorted_set xs = [] \<longleftrightarrow> xs = []"
  by (metis set_empty set_sorted_set)

lemma sorted_set_cong: "set xs = set ys \<Longrightarrow> sorted_set xs = sorted_set ys"
  by (metis sorted_set_def sorted_distinct_set_unique distinct_remdups set_remdups set_sort
      sorted_remdups sorted_sort)

text \<open>Replace the first element equal to \<open>a\<close>: \<open>xs[xs.index(a)] = b\<close>.\<close>

fun replace_first :: "'a \<Rightarrow> 'a \<Rightarrow> 'a list \<Rightarrow> 'a list" where
  "replace_first a b [] = []"
| "replace_first a b (x # xs) = (if x = a then b # xs else x # replace_first a b xs)"

lemma length_replace_first [simp]: "length (replace_first a b xs) = length xs"
  by (induction xs) auto

lemma map_replace_first:
  "f a = f b \<Longrightarrow> map f (replace_first a b xs) = map f xs"
  by (induction xs) auto

lemma replace_first_set:
  "distinct xs \<Longrightarrow> a \<in> set xs \<Longrightarrow> set (replace_first a b xs) = insert b (set xs - {a})"
  by (induction xs) auto

lemma replace_first_subset: "set (replace_first a b xs) \<subseteq> insert b (set xs)"
  by (induction xs) auto

lemma replace_first_in: "a \<in> set xs \<Longrightarrow> b \<in> set (replace_first a b xs)"
  by (induction xs) auto

end
