(* ===== verification/PyText.thy ===== *)
theory PyText
  imports Prelude
begin

section \<open>Python strings\<close>

text \<open>
  A Python string is a sequence of code points; here \<open>string\<close> is read as a sequence of
  code points below 256 (Latin-1), which covers the Swedish letters of the program's tables.
  \<open>str.lower\<close>, \<open>str.strip\<close> and \<open>str.splitlines\<close> agree with CPython on that range. The one
  character the program writes outside it, the em dash of its messages, is kept as code
  point 151 (\<open>em_dash\<close>), which no Latin-1 text uses as a letter.
\<close>

definition em_dash :: string where "em_dash = [CHR 0x97]"

definition code :: "char \<Rightarrow> nat" where "code c = of_char c"

abbreviation LF :: char where "LF \<equiv> CHR 0x0A"
abbreviation CR :: char where "CR \<equiv> CHR 0x0D"
abbreviation NEL :: char where "NEL \<equiv> CHR 0x85"

definition is_space :: "char \<Rightarrow> bool" where
  "is_space c \<longleftrightarrow> c \<in> {CHR 0x09, LF, CHR 0x0B, CHR 0x0C, CR, CHR 0x1C, CHR 0x1D, CHR 0x1E,
     CHR 0x1F, CHR '' '', NEL, CHR 0xA0}"

definition is_linebreak :: "char \<Rightarrow> bool" where
  "is_linebreak c \<longleftrightarrow> c \<in> {LF, CHR 0x0B, CHR 0x0C, CR, CHR 0x1C, CHR 0x1D, CHR 0x1E, NEL}"

definition ch_digit :: "char \<Rightarrow> bool" where
  "ch_digit c \<longleftrightarrow> 48 \<le> code c \<and> code c \<le> 57"

definition lower_char :: "char \<Rightarrow> char" where
  "lower_char c = (let n = code c in
     if 65 \<le> n \<and> n \<le> 90 \<or> 192 \<le> n \<and> n \<le> 222 \<and> n \<noteq> 215 then char_of (n + 32) else c)"

definition lower :: "string \<Rightarrow> string" where
  "lower s = map lower_char s"

definition lstrip :: "string \<Rightarrow> string" where "lstrip s = dropWhile is_space s"
definition rstrip :: "string \<Rightarrow> string" where "rstrip s = rev (dropWhile is_space (rev s))"
definition strip :: "string \<Rightarrow> string" where "strip s = lstrip (rstrip s)"

definition strip_chars :: "string \<Rightarrow> string \<Rightarrow> string" where
  "strip_chars cs s = dropWhile (\<lambda>c. c \<in> set cs) (rev (dropWhile (\<lambda>c. c \<in> set cs) (rev s)))"
definition lstrip_chars :: "string \<Rightarrow> string \<Rightarrow> string" where
  "lstrip_chars cs s = dropWhile (\<lambda>c. c \<in> set cs) s"
definition rstrip_chars :: "string \<Rightarrow> string \<Rightarrow> string" where
  "rstrip_chars cs s = rev (dropWhile (\<lambda>c. c \<in> set cs) (rev s))"

text \<open>\<open>not s.strip()\<close>: nothing but white space.\<close>

definition blank :: "string \<Rightarrow> bool" where "blank s \<longleftrightarrow> list_all is_space s"

fun starts_with :: "string \<Rightarrow> string \<Rightarrow> bool" where
  "starts_with s [] = True"
| "starts_with [] (p # ps) = False"
| "starts_with (c # cs) (p # ps) = (c = p \<and> starts_with cs ps)"

definition ends_with :: "string \<Rightarrow> string \<Rightarrow> bool" where
  "ends_with s p = starts_with (rev s) (rev p)"

text \<open>\<open>needle in hay\<close>.\<close>

fun contains :: "string \<Rightarrow> string \<Rightarrow> bool" where
  "contains [] n = (n = [])"
| "contains (c # cs) n = (starts_with (c # cs) n \<or> contains cs n)"

fun join :: "string \<Rightarrow> string list \<Rightarrow> string" where
  "join sep [] = []"
| "join sep [x] = x"
| "join sep (x # y # ys) = x @ sep @ join sep (y # ys)"

text \<open>\<open>s.split(c)\<close> for a one-character separator; \<open>split_ws\<close> is \<open>s.split()\<close>.\<close>

fun split_on :: "char \<Rightarrow> string \<Rightarrow> string list" where
  "split_on c [] = [[]]"
| "split_on c (x # xs) = (if x = c then [] # split_on c xs
     else (case split_on c xs of [] \<Rightarrow> [[x]] | y # ys \<Rightarrow> (x # y) # ys))"

fun split_ws_aux :: "string \<Rightarrow> string \<Rightarrow> string list" where
  "split_ws_aux acc [] = (if acc = [] then [] else [rev acc])"
| "split_ws_aux acc (c # cs) =
     (if is_space c then (if acc = [] then [] else [rev acc]) @ split_ws_aux [] cs
      else split_ws_aux (c # acc) cs)"

definition split_ws :: "string \<Rightarrow> string list" where "split_ws s = split_ws_aux [] s"

text \<open>
  \<open>str.splitlines\<close>: each line with the terminator that ended it, empty for a last line
  without one. A carriage return followed by a line feed is one terminator.
\<close>

fun split_terms :: "string \<Rightarrow> string \<Rightarrow> (string \<times> string) list" where
  "split_terms acc [] = (if acc = [] then [] else [(rev acc, [])])"
| "split_terms acc [c] = (if is_linebreak c then [(rev acc, [c])] else [(rev (c # acc), [])])"
| "split_terms acc (c # d # ds) =
     (if c = CR \<and> d = LF then (rev acc, [c, d]) # split_terms [] ds
      else if is_linebreak c then (rev acc, [c]) # split_terms [] (d # ds)
      else split_terms (c # acc) (d # ds))"

definition splitlines :: "string \<Rightarrow> string list" where
  "splitlines s = map fst (split_terms [] s)"

definition splitlines_keep :: "string \<Rightarrow> string list" where
  "splitlines_keep s = map (\<lambda>(l, t). l @ t) (split_terms [] s)"

lemma concat_split_terms: "concat (map (\<lambda>(l, t). l @ t) (split_terms acc s)) = rev acc @ s"
  by (induction acc s rule: split_terms.induct) auto

lemma concat_splitlines_keep: "concat (splitlines_keep s) = s"
  by (simp add: splitlines_keep_def concat_split_terms)

lemma split_terms_step:
  "\<not> is_linebreak c \<Longrightarrow> split_terms acc (c # cs) = split_terms (c # acc) cs"
  by (cases cs) (auto simp: is_linebreak_def)

lemma split_terms_LF: "split_terms acc (LF # cs) = (rev acc, [LF]) # split_terms [] cs"
  by (cases cs) (auto simp: is_linebreak_def)

text \<open>A line free of every terminator, followed by a line feed, is read back as one line.\<close>

lemma split_terms_line:
  "\<forall>c \<in> set l. \<not> is_linebreak c \<Longrightarrow>
     split_terms acc (l @ LF # rest) = (rev acc @ l, [LF]) # split_terms [] rest"
  by (induction l arbitrary: acc) (auto simp: split_terms_step split_terms_LF)

lemma splitlines_keep_line:
  "\<forall>c \<in> set l. \<not> is_linebreak c \<Longrightarrow>
     splitlines_keep (l @ LF # rest) = (l @ [LF]) # splitlines_keep rest"
  by (simp add: splitlines_keep_def split_terms_line)

lemma split_terms_tail:
  "\<forall>c \<in> set l. \<not> is_linebreak c \<Longrightarrow>
     split_terms acc l = (if acc = [] \<and> l = [] then [] else [(rev acc @ l, [])])"
  by (induction l arbitrary: acc) (auto simp: split_terms_step)

lemma splitlines_keep_tail:
  "\<forall>c \<in> set l. \<not> is_linebreak c \<Longrightarrow> splitlines_keep l = (if l = [] then [] else [l])"
  by (simp add: splitlines_keep_def split_terms_tail)

lemma splitlines_keep_Nil [simp]: "splitlines_keep [] = []"
  by (simp add: splitlines_keep_def)

section \<open>Rendering\<close>

fun digit :: "nat \<Rightarrow> char" where
  "digit n = char_of (48 + n)"

fun str_nat :: "nat \<Rightarrow> string" where
  "str_nat n = (if n < 10 then [digit n] else str_nat (n div 10) @ [digit (n mod 10)])"

declare str_nat.simps [simp del]

definition str_int :: "int \<Rightarrow> string" where
  "str_int i = (if i < 0 then ''-'' @ str_nat (nat (- i)) else str_nat (nat i))"

definition hex_digit :: "nat \<Rightarrow> char" where
  "hex_digit n = (if n < 10 then char_of (48 + n) else char_of (87 + n))"

definition hex2 :: "char \<Rightarrow> string" where
  "hex2 c = [hex_digit (code c div 16), hex_digit (code c mod 16)]"

text \<open>\<open>json.dumps(s, ensure_ascii=False)\<close>: the control characters below 32 are escaped,
  every other character, U+0085 among them, is written as it is.\<close>

definition json_char :: "char \<Rightarrow> string" where
  "json_char c =
     (if c = CHR 0x22 then [CHR 0x5C, CHR 0x22] else if c = CHR 0x5C then [CHR 0x5C, CHR 0x5C]
      else if c = LF then [CHR 0x5C, CHR ''n''] else if c = CR then [CHR 0x5C, CHR ''r'']
      else if c = CHR 0x09 then [CHR 0x5C, CHR ''t''] else if c = CHR 0x08 then [CHR 0x5C, CHR ''b'']
      else if c = CHR 0x0C then [CHR 0x5C, CHR ''f'']
      else if code c < 32 then CHR 0x5C # ''u00'' @ hex2 c
      else [c])"

definition json_str :: "string \<Rightarrow> string" where
  "json_str s = CHR 0x22 # concat (map json_char s) @ [CHR 0x22]"

definition json_str_list :: "string list \<Rightarrow> string" where
  "json_str_list xs = ''['' @ join '', '' (map json_str xs) @ '']''"

text \<open>\<open>repr(s)\<close>: single quotes unless the text has one and no double quote.\<close>

definition repr_char :: "char \<Rightarrow> char \<Rightarrow> string" where
  "repr_char q c =
     (if c = q \<or> c = CHR 0x5C then [CHR 0x5C, c]
      else if c = LF then [CHR 0x5C, CHR ''n''] else if c = CR then [CHR 0x5C, CHR ''r'']
      else if c = CHR 0x09 then [CHR 0x5C, CHR ''t'']
      else if code c < 32 \<or> 127 \<le> code c \<and> code c \<le> 160 \<and> [c] \<noteq> em_dash \<or> code c = 173
        then CHR 0x5C # CHR ''x'' # hex2 c
      else [c])"

definition py_repr :: "string \<Rightarrow> string" where
  "py_repr s = (let q = (if CHR 0x27 \<in> set s \<and> CHR 0x22 \<notin> set s then CHR 0x22 else CHR 0x27)
     in [q] @ concat (map (repr_char q) s) @ [q])"

section \<open>fnmatch\<close>

text \<open>
  \<open>fnmatch.fnmatch\<close> on POSIX: \<open>*\<close> any run of characters (a slash included), \<open>?\<close> one
  character, \<open>[seq]\<close> and \<open>[!seq]\<close> a character set with ranges; a \<open>[\<close> that is never
  closed is literal.
\<close>

fun in_set :: "char \<Rightarrow> string \<Rightarrow> bool" where
  "in_set x [] = False"
| "in_set x [a] = (x = a)"
| "in_set x [a, b] = (x = a \<or> x = b)"
| "in_set x (a # b # c # cs) =
     (if b = CHR ''-'' then (code a \<le> code x \<and> code x \<le> code c) \<or> in_set x cs
      else x = a \<or> in_set x (b # c # cs))"

definition split_bracket :: "string \<Rightarrow> (bool \<times> string \<times> string) option" where
  "split_bracket p =
     (let neg = starts_with p ''!''; p1 = (if neg then tl p else p);
          first = (if starts_with p1 '']'' then [CHR 0x5D] else []);
          p2 = drop (length first) p1;
          body = takeWhile (\<lambda>c. c \<noteq> CHR 0x5D) p2;
          rest = drop (length body) p2
      in if rest = [] then None else Some (neg, first @ body, tl rest))"

lemma split_bracket_shorter:
  "split_bracket p = Some (n, b, r) \<Longrightarrow> length r < Suc (length p)"
  by (auto simp: split_bracket_def Let_def split: if_splits)

function fnmatch :: "string \<Rightarrow> string \<Rightarrow> bool" where
  "fnmatch s [] = (s = [])"
| "fnmatch s (p # ps) =
     (if p = CHR ''*'' then fnmatch s ps \<or> (if s = [] then False else fnmatch (tl s) (p # ps))
      else if s = [] then False
      else if p = CHR ''?'' then fnmatch (tl s) ps
      else if p = CHR ''['' then
        (case split_bracket ps of
           None \<Rightarrow> hd s = p \<and> fnmatch (tl s) ps
         | Some nbr \<Rightarrow> (in_set (hd s) (fst (snd nbr)) \<noteq> fst nbr) \<and> fnmatch (tl s) (snd (snd nbr)))
      else hd s = p \<and> fnmatch (tl s) ps)"
  by pat_completeness auto
termination
  by (relation "measure (\<lambda>(s, p). length s + length p)")
     (auto dest!: split_bracket_shorter simp: neq_Nil_conv)

declare fnmatch.simps(2) [simp del]

section \<open>Lemmas\<close>

lemma starts_with_append [simp]: "starts_with (p @ s) p"
  by (induction p) auto

lemma starts_with_iff: "starts_with s p \<longleftrightarrow> (\<exists>r. s = p @ r)"
  by (induction s p rule: starts_with.induct) auto

lemma contains_iff: "contains s n \<longleftrightarrow> (\<exists>a b. s = a @ n @ b)"
proof (induction s)
  case Nil
  then show ?case by auto
next
  case (Cons c s)
  have "(\<exists>a b. c # s = a @ n @ b) \<longleftrightarrow> (\<exists>b. c # s = n @ b) \<or> (\<exists>a b. s = a @ n @ b)"
    by (metis append_Cons append_Nil list.exhaust list.inject)
  then show ?case by (simp add: Cons.IH starts_with_iff)
qed

lemma contains_refl [simp]: "contains s s"
  by (metis append_Nil append_Nil2 contains_iff)

lemma strip_idem_char: "dropWhile P xs = [] \<longleftrightarrow> list_all P xs"
  by (induction xs) auto

lemma strip_empty: "strip s = [] \<longleftrightarrow> blank s"
proof -
  have "list_all is_space (rev (dropWhile is_space (rev s))) \<longleftrightarrow> list_all is_space s"
    by (metis dropWhile_eq_Nil_conv list_all_iff rev_rev_ident set_rev takeWhile_dropWhile_id
        list_all_append set_takeWhileD)
  then show ?thesis
    by (simp only: strip_def lstrip_def rstrip_def blank_def strip_idem_char)
qed

lemma split_on_nonempty [simp]: "split_on c s \<noteq> []"
  by (cases s) (auto split: list.splits)

lemma split_on_append:
  "split_on c (s @ c # t) = split_on c s @ split_on c t"
proof (induction s)
  case Nil
  then show ?case by simp
next
  case (Cons x s)
  then show ?case by (cases "split_on c s") auto
qed

end
