(* ===== verification/PyValue.thy ===== *)
theory PyValue
  imports Complex_Main PyText
begin

section \<open>Dynamically typed values\<close>

text \<open>
  What \<open>json.loads\<close> returns and what a caller may pass where the code tests types at run
  time. A boolean is an \<open>int\<close> in Python; the tests of the code exclude it first, so the two
  are separate constructors. Finite floats are reals: the code compares them and adds one
  to a clock reading, and rounding is not modelled. A float carries its own \<open>repr\<close> text.
\<close>

datatype pyfloat = Fin real | PosInf | NegInf | NaN

datatype pyval =
    PNone
  | PBool bool
  | PInt int
  | PFloat pyfloat string
  | PStr string
  | PList "pyval list"
  | PDict "(string \<times> pyval) list"

type_synonym dict = "(string \<times> pyval) list"

fun is_str :: "pyval \<Rightarrow> bool" where
  "is_str (PStr _) = True" | "is_str _ = False"

fun is_int :: "pyval \<Rightarrow> bool" where
  "is_int (PInt _) = True" | "is_int _ = False"

fun is_dict :: "pyval \<Rightarrow> bool" where
  "is_dict (PDict _) = True" | "is_dict _ = False"

definition get_or :: "(string \<times> pyval) list \<Rightarrow> string \<Rightarrow> pyval \<Rightarrow> pyval" where
  "get_or d k v = (case map_of d k of None \<Rightarrow> v | Some x \<Rightarrow> x)"

definition get_key :: "(string \<times> pyval) list \<Rightarrow> string \<Rightarrow> pyval result" where
  "get_key d k = (case map_of d k of None \<Rightarrow> Inl KeyError | Some x \<Rightarrow> Inr x)"

text \<open>\<open>bool(v)\<close>: the truth value of a JSON value.\<close>

fun truthy :: "pyval \<Rightarrow> bool" where
  "truthy PNone = False"
| "truthy (PBool b) = b"
| "truthy (PInt i) = (i \<noteq> 0)"
| "truthy (PFloat f _) = (f \<noteq> Fin 0)"
| "truthy (PStr s) = (s \<noteq> [])"
| "truthy (PList xs) = (xs \<noteq> [])"
| "truthy (PDict d) = (d \<noteq> [])"

text \<open>\<open>repr(v)\<close> and \<open>str(v)\<close>.\<close>

fun repr_val :: "pyval \<Rightarrow> string" where
  "repr_val PNone = ''None''"
| "repr_val (PBool b) = (if b then ''True'' else ''False'')"
| "repr_val (PInt i) = str_int i"
| "repr_val (PFloat f t) = t"
| "repr_val (PStr s) = py_repr s"
| "repr_val (PList xs) = ''['' @ join '', '' (map repr_val xs) @ '']''"
| "repr_val (PDict d) =
     ''{'' @ join '', '' (map (\<lambda>(k, v). py_repr k @ '': '' @ repr_val v) d) @ ''}''"

definition str_val :: "pyval \<Rightarrow> string" where
  "str_val v = (case v of PStr s \<Rightarrow> s | _ \<Rightarrow> repr_val v)"

lemma str_val_PStr [simp]: "str_val (PStr s) = s"
  by (simp add: str_val_def)

text \<open>Length in bytes of the UTF-8 encoding: \<open>len(s.encode("utf-8"))\<close>.\<close>

definition utf8_width :: "char \<Rightarrow> nat" where
  "utf8_width c = (if code c < 128 then 1 else if [c] = em_dash then 3 else 2)"

definition utf8_len :: "string \<Rightarrow> nat" where
  "utf8_len s = sum_list (map utf8_width s)"

lemma utf8_len_append [simp]: "utf8_len (s @ t) = utf8_len s + utf8_len t"
  by (simp add: utf8_len_def)

lemma utf8_len_Nil [simp]: "utf8_len [] = 0"
  by (simp add: utf8_len_def)

lemma length_le_utf8_len: "length s \<le> utf8_len s"
  by (induction s) (auto simp: utf8_len_def utf8_width_def)

section \<open>Integers from values\<close>

fun digits_value :: "int \<Rightarrow> string \<Rightarrow> int option" where
  "digits_value acc [] = None"
| "digits_value acc [c] = (if ch_digit c then Some (10 * acc + int (code c) - 48) else None)"
| "digits_value acc (c # d # cs) =
     (if \<not> ch_digit c then None
      else digits_value (10 * acc + int (code c) - 48)
        (if d = CHR ''_'' \<and> cs \<noteq> [] then cs else d # cs))"

definition int_of_text :: "string \<Rightarrow> int option" where
  "int_of_text s = (let t = strip s in
     if starts_with t ''-'' then map_option uminus (digits_value 0 (tl t))
     else digits_value 0 (if starts_with t ''+'' then tl t else t))"

text \<open>\<open>int(v)\<close>; an infinite float is an \<open>OverflowError\<close>.\<close>

definition py_int :: "pyval \<Rightarrow> int result" where
  "py_int v = (case v of
     PInt i \<Rightarrow> Inr i
   | PBool b \<Rightarrow> Inr (if b then 1 else 0)
   | PFloat f _ \<Rightarrow> (case f of Fin x \<Rightarrow> Inr (if x < 0 then - \<lfloor>- x\<rfloor> else \<lfloor>x\<rfloor>)
       | NaN \<Rightarrow> Inl ValueError | _ \<Rightarrow> Inl (Foreign ''OverflowError'' []))
   | PStr s \<Rightarrow> (case int_of_text s of None \<Rightarrow> Inl ValueError | Some i \<Rightarrow> Inr i)
   | _ \<Rightarrow> Inl TypeError)"

end
