(* ===== verification/Redaction.thy ===== *)
theory Redaction
  imports PyValue
begin

section \<open>What is masked on the way out (atlas_core/redaction.py)\<close>

text \<open>
  The patterns are regular expressions of Python's \<open>re\<close>. \<open>ends r s i\<close> lists the positions
  where a match of \<open>r\<close> that starts at \<open>i\<close> may end, in the order the backtracking matcher tries
  them, so its head is the match \<open>re\<close> reports. A repetition only goes on after an iteration
  that consumed something, so \<open>length s + 1 - i\<close> rounds are enough. Texts are Latin-1, so the
  case folding of \<open>(?i)\<close> is that of ASCII letters for the ASCII literals used here.
\<close>

datatype rx =
    Lit string
  | LitI string
  | Cls "char \<Rightarrow> bool"
  | Seq rx rx
  | Alt rx rx
  | Rep bool nat "nat option" rx
  | WordB

definition ch_upper :: "char \<Rightarrow> bool" where
  "ch_upper c \<longleftrightarrow> 65 \<le> code c \<and> code c \<le> 90"
definition ch_lower :: "char \<Rightarrow> bool" where
  "ch_lower c \<longleftrightarrow> 97 \<le> code c \<and> code c \<le> 122"
definition ch_alnum :: "char \<Rightarrow> bool" where
  "ch_alnum c \<longleftrightarrow> ch_upper c \<or> ch_lower c \<or> ch_digit c"

text \<open>\<open>\w\<close> on Latin-1: the ASCII letters, digits and underscore, and the other characters for
  which \<open>str.isalnum\<close> holds.\<close>

definition ch_word :: "char \<Rightarrow> bool" where
  "ch_word c \<longleftrightarrow> ch_alnum c \<or> c = CHR ''_''
     \<or> code c \<in> {170, 178, 179, 181, 185, 186, 188, 189, 190}
     \<or> 192 \<le> code c \<and> code c \<noteq> 215 \<and> code c \<noteq> 247"

definition alnum_or :: "string \<Rightarrow> char \<Rightarrow> bool" where
  "alnum_or extra c \<longleftrightarrow> ch_alnum c \<or> c \<in> set extra"

definition word_at :: "string \<Rightarrow> nat \<Rightarrow> bool" where
  "word_at s i \<longleftrightarrow> i < length s \<and> ch_word (s ! i)"

definition boundary :: "string \<Rightarrow> nat \<Rightarrow> bool" where
  "boundary s i \<longleftrightarrow> (0 < i \<and> word_at s (i - 1)) \<noteq> word_at s i"

fun reps :: "bool \<Rightarrow> nat \<Rightarrow> nat option \<Rightarrow> (nat \<Rightarrow> nat list) \<Rightarrow> nat \<Rightarrow> nat \<Rightarrow> nat \<Rightarrow> nat list" where
  "reps g lo hi f 0 k i = (if lo \<le> k then [i] else [])"
| "reps g lo hi f (Suc n) k i =
     (let more = (if (case hi of None \<Rightarrow> True | Some h \<Rightarrow> k < h)
                  then concat (map (reps g lo hi f n (Suc k)) (filter (\<lambda>j. i < j) (f i))) else []);
          stop = (if lo \<le> k then [i] else [])
      in if g then more @ stop else stop @ more)"

fun ends :: "rx \<Rightarrow> string \<Rightarrow> nat \<Rightarrow> nat list" where
  "ends (Lit w) s i = (if take (length w) (drop i s) = w then [i + length w] else [])"
| "ends (LitI w) s i =
     (if lower (take (length w) (drop i s)) = lower w then [i + length w] else [])"
| "ends (Cls p) s i = (if i < length s \<and> p (s ! i) then [Suc i] else [])"
| "ends (Seq a b) s i = concat (map (ends b s) (ends a s i))"
| "ends (Alt a b) s i = ends a s i @ ends b s i"
| "ends (Rep g lo hi r) s i = reps g lo hi (ends r s) (length s + 1 - i) 0 i"
| "ends WordB s i = (if boundary s i then [i] else [])"

definition searches :: "rx \<Rightarrow> string \<Rightarrow> bool" where
  "searches r s \<longleftrightarrow> list_ex (\<lambda>i. ends r s i \<noteq> []) [0..<length s + 1]"

text \<open>\<open>pattern.sub(new, s)\<close> for a pattern that never matches the empty text.\<close>

function sub_at :: "rx \<Rightarrow> string \<Rightarrow> string \<Rightarrow> nat \<Rightarrow> string" where
  "sub_at r new s i =
     (if length s \<le> i then []
      else (case ends r s i of
          [] \<Rightarrow> s ! i # sub_at r new s (Suc i)
        | j # _ \<Rightarrow> if i < j then new @ sub_at r new s j else s ! i # sub_at r new s (Suc i)))"
  by pat_completeness auto
termination
  by (relation "measure (\<lambda>(r, new, s, i). length s - i)") auto

declare sub_at.simps [simp del]

definition re_sub :: "rx \<Rightarrow> string \<Rightarrow> string \<Rightarrow> string" where
  "re_sub r new s = sub_at r new s 0"

subsection \<open>The patterns\<close>

definition seqs :: "rx list \<Rightarrow> rx" where
  "seqs rs = foldr Seq (butlast rs) (last rs)"

definition at_least :: "nat \<Rightarrow> (char \<Rightarrow> bool) \<Rightarrow> rx" where
  "at_least n p = Rep True n None (Cls p)"

definition exactly :: "nat \<Rightarrow> (char \<Rightarrow> bool) \<Rightarrow> rx" where
  "exactly n p = Rep True n (Some n) (Cls p)"

definition optional :: "rx \<Rightarrow> rx" where
  "optional r = Rep True 0 (Some 1) r"

definition key_begin :: rx where
  "key_begin = seqs [Lit ''-----BEGIN '', at_least 0 (\<lambda>c. ch_upper c \<or> c = CHR '' ''),
     Lit ''PRIVATE KEY-----'']"

definition key_end :: rx where
  "key_end = seqs [Lit ''-----END '', at_least 0 (\<lambda>c. ch_upper c \<or> c = CHR '' ''),
     Lit ''PRIVATE KEY-----'']"

definition secret_patterns :: "rx list" where
  "secret_patterns =
    [seqs [key_begin, Rep False 0 None (Cls (\<lambda>_. True)), key_end],
     seqs [key_begin, Rep True 0 None (seqs [at_least 0 is_space, Lit [LF],
       at_least 16 (alnum_or ''+/''), Rep True 0 (Some 2) (Lit ''='')])],
     seqs [Lit ''github_pat_'', at_least 20 (alnum_or ''_'')],
     seqs [Lit ''gh'', Cls (\<lambda>c. c \<in> set ''pousr''), Lit ''_'', at_least 20 ch_alnum],
     seqs [Lit ''sk-ant-'', at_least 20 (alnum_or ''-'')],
     seqs [Lit ''sk-'', Alt (Lit ''proj'') (Alt (Lit ''svcacct'') (Lit ''admin'')), Lit ''-'',
       at_least 20 (alnum_or ''_-'')],
     seqs [Lit ''sk-'', at_least 32 ch_alnum],
     seqs [Lit ''AKIA'', exactly 16 (\<lambda>c. ch_digit c \<or> ch_upper c)],
     seqs [Lit ''xox'', Cls (\<lambda>c. c \<in> set ''baprs''), Lit ''-'', at_least 10 (alnum_or ''-'')],
     seqs [Lit ''AIza'', exactly 35 (alnum_or ''_-'')],
     seqs [LitI ''aws_secret_access_key'', at_least 0 is_space, Cls (\<lambda>c. c \<in> set '':=''),
       at_least 0 is_space, optional (Cls (\<lambda>c. c = CHR 0x27 \<or> c = CHR 0x22)),
       exactly 40 (alnum_or ''/+'')],
     seqs [WordB, LitI ''bearer'', at_least 1 is_space, at_least 20 (alnum_or ''._~+/-''),
       Rep True 0 None (Lit ''='')],
     seqs [Lit ''eyJ'', at_least 10 (alnum_or ''_-''), Lit ''.'', at_least 10 (alnum_or ''_-''),
       Lit ''.'', at_least 10 (alnum_or ''_-'')]]"

definition home_path :: rx where
  "home_path = seqs [Alt (Lit ''/Users'') (Lit ''/home''), Lit ''/'',
     at_least 1 (\<lambda>c. c \<noteq> CHR ''/'' \<and> \<not> is_space c)]"

definition email :: rx where
  "email = seqs [WordB, at_least 1 (alnum_or ''._%+-''), Lit ''@'', at_least 1 (alnum_or ''.-''),
     Lit ''.'', at_least 2 (\<lambda>c. ch_upper c \<or> ch_lower c), WordB]"

definition redacted_mark :: string where "redacted_mark = ''[REDACTED]''"

definition verbatim_keys :: "string list" where
  "verbatim_keys = [''schema'', ''source_id'', ''snapshot_id'', ''finding_id'', ''run_id'',
     ''content_sha256'', ''commit'', ''source_type'', ''worktree_state'', ''confidentiality'',
     ''verification'', ''is_evidence'', ''line_start'', ''line_end'', ''collected_at'', ''taken_at'',
     ''created_at'', ''status'', ''stop_reason'', ''stop_class'', ''state_machine'', ''verdict'',
     ''verification_method'']"

subsection \<open>Classifying and masking\<close>

definition classify_confidentiality :: "string \<Rightarrow> string" where
  "classify_confidentiality t =
     (if list_ex (\<lambda>p. searches p t) secret_patterns then ''secret''
      else if searches home_path t \<or> searches email t then ''internal'' else ''unknown'')"

definition redact_text :: "string \<Rightarrow> string" where
  "redact_text t =
     re_sub email redacted_mark (re_sub home_path redacted_mark
       (fold (\<lambda>p t. re_sub p redacted_mark t) secret_patterns t))"

fun redact_document :: "pyval \<Rightarrow> pyval" where
  "redact_document (PStr s) = PStr (redact_text s)"
| "redact_document (PDict d) =
     PDict (map (\<lambda>(k, v). (k, if k \<in> set verbatim_keys then v else redact_document v)) d)"
| "redact_document (PList xs) = PList (map redact_document xs)"
| "redact_document v = v"

section \<open>Lemmas\<close>

text \<open>A lower bound on what a pattern consumes.\<close>

fun min_len :: "rx \<Rightarrow> nat" where
  "min_len (Lit w) = length w"
| "min_len (LitI w) = length w"
| "min_len (Cls p) = 1"
| "min_len (Seq a b) = min_len a + min_len b"
| "min_len (Alt a b) = min (min_len a) (min_len b)"
| "min_len (Rep g lo hi r) = lo * min_len r"
| "min_len WordB = 0"

lemma reps_min:
  assumes "\<And>i j. j \<in> set (f i) \<Longrightarrow> i + m \<le> j"
  shows "j \<in> set (reps g lo hi f n k i) \<Longrightarrow> i + (lo - k) * m \<le> j"
proof (induction n arbitrary: k i)
  case 0
  then show ?case by (auto split: if_splits)
next
  case (Suc n)
  have step: "i + (lo - k) * m \<le> j" if "i' \<in> set (f i)" and "i' + (lo - Suc k) * m \<le> j" for i'
  proof (cases "lo \<le> k")
    case True
    with assms that show ?thesis by fastforce
  next
    case False
    then have "lo - k = Suc (lo - Suc k)" by simp
    with assms [OF that(1)] that(2) show ?thesis by simp
  qed
  from Suc.prems have "j = i \<and> lo \<le> k \<or>
      (\<exists>i' \<in> set (f i). j \<in> set (reps g lo hi f n (Suc k) i'))"
    by (auto simp: Let_def split: if_splits)
  with Suc.IH step show ?case by fastforce
qed

lemma ends_min: "j \<in> set (ends r s i) \<Longrightarrow> i + min_len r \<le> j"
proof (induction r arbitrary: i j)
  case (Seq a b)
  then obtain k where "k \<in> set (ends a s i)" "j \<in> set (ends b s k)" by auto
  with Seq.IH show ?case by fastforce
next
  case (Alt a b)
  then have "j \<in> set (ends a s i) \<or> j \<in> set (ends b s i)" by simp
  with Alt.IH show ?case by (fastforce simp: min_def)
next
  case (Rep g lo hi r)
  from Rep.prems have "j \<in> set (reps g lo hi (ends r s) (length s + 1 - i) 0 i)" by simp
  from reps_min [of "ends r s" "min_len r", OF Rep.IH this] show ?case by simp
qed (auto split: if_splits)

lemma secret_patterns_consume: "p \<in> set secret_patterns \<Longrightarrow> 0 < min_len p"
  by (auto simp: secret_patterns_def seqs_def at_least_def exactly_def optional_def key_begin_def
      key_end_def)

lemma home_email_consume: "0 < min_len home_path" "0 < min_len email"
  by (simp_all add: home_path_def email_def seqs_def at_least_def)

lemma sub_at_unmatched:
  "\<forall>k. i \<le> k \<longrightarrow> k \<le> length s \<longrightarrow> ends r s k = [] \<Longrightarrow> i \<le> length s \<Longrightarrow>
     sub_at r new s i = drop i s"
proof (induction r new s i rule: sub_at.induct)
  case (1 r new s i)
  show ?case
  proof (cases "i = length s")
    case True
    then show ?thesis by (simp add: sub_at.simps)
  next
    case False
    with 1 have "sub_at r new s (Suc i) = drop (Suc i) s" and "ends r s i = []" by auto
    with False 1 show ?thesis by (subst sub_at.simps) (simp add: Cons_nth_drop_Suc)
  qed
qed

lemma re_sub_unmatched: "\<not> searches r s \<Longrightarrow> re_sub r new s = s"
  using sub_at_unmatched [of 0 s r new]
  by (simp add: re_sub_def searches_def list_ex_iff) (metis atLeastLessThan_iff le_less le0)

lemma fold_re_sub_unmatched:
  "\<forall>p \<in> set ps. \<not> searches p t \<Longrightarrow> fold (\<lambda>p t. re_sub p new t) ps t = t"
  by (induction ps) (auto simp: re_sub_unmatched)

lemma redact_text_unknown: "classify_confidentiality t = ''unknown'' \<Longrightarrow> redact_text t = t"
  by (auto simp: classify_confidentiality_def redact_text_def re_sub_unmatched
      fold_re_sub_unmatched list_ex_iff split: if_splits)

text \<open>What a document keeps when the strings redaction may touch are blanked.\<close>

fun skeleton :: "pyval \<Rightarrow> pyval" where
  "skeleton (PStr s) = PStr []"
| "skeleton (PDict d) =
     PDict (map (\<lambda>(k, v). (k, if k \<in> set verbatim_keys then v else skeleton v)) d)"
| "skeleton (PList xs) = PList (map skeleton xs)"
| "skeleton v = v"

fun strings_of :: "pyval \<Rightarrow> string list" where
  "strings_of (PStr s) = [s]"
| "strings_of (PDict d) =
     concat (map (\<lambda>(k, v). if k \<in> set verbatim_keys then [] else strings_of v) d)"
| "strings_of (PList xs) = concat (map strings_of xs)"
| "strings_of v = []"

lemma skeleton_redact: "skeleton (redact_document v) = skeleton v"
  by (induction v rule: redact_document.induct) (auto simp: case_prod_beta)

lemma strings_redact: "strings_of (redact_document v) = map redact_text (strings_of v)"
proof (induction v rule: redact_document.induct)
  case (2 d)
  have "(if fst x \<in> set verbatim_keys then [] else strings_of (redact_document (snd x))) =
      map redact_text (if fst x \<in> set verbatim_keys then [] else strings_of (snd x))"
    if "x \<in> set d" for x
    using 2 that by (cases x) force
  then have "map (\<lambda>x. if fst x \<in> set verbatim_keys then [] else strings_of (redact_document (snd x))) d =
      map (\<lambda>x. map redact_text (if fst x \<in> set verbatim_keys then [] else strings_of (snd x))) d"
    by (rule map_cong [OF refl])
  then show ?case
    by (simp add: map_concat comp_def case_prod_beta cong: if_cong)
       (intro arg_cong [where f = concat] map_cong refl, blast)
next
  case (3 xs)
  then have "map (\<lambda>x. strings_of (redact_document x)) xs =
      map (\<lambda>x. map redact_text (strings_of x)) xs" by simp
  then show ?case
    by (simp add: map_concat comp_def) (intro arg_cong [where f = concat] map_cong refl, blast)
qed simp_all

lemma redact_document_id:
  "\<forall>s \<in> set (strings_of v). redact_text s = s \<Longrightarrow> redact_document v = v"
proof (induction v rule: redact_document.induct)
  case (2 d)
  have "(\<lambda>(k, v). (k, if k \<in> set verbatim_keys then v else redact_document v)) x = x"
    if "x \<in> set d" for x
    using 2 that by (cases x) force
  then have "map (\<lambda>(k, v). (k, if k \<in> set verbatim_keys then v else redact_document v)) d = d"
    by (rule map_idI)
  then show ?case by simp
next
  case (3 xs)
  then show ?case by (auto intro!: map_idI)
qed simp_all

section \<open>Properties\<close>

text \<open>Redaction touches nothing but text it would classify: a document keeps its shape, its
  keys, everything that is not a string and every value under a verbatim key; each other
  string is masked on its own; and a document none of whose strings is classified comes out
  unchanged.\<close>

theorem redaction_confined:
  "skeleton (redact_document v) = skeleton v
   \<and> strings_of (redact_document v) = map redact_text (strings_of v)
   \<and> (list_all (\<lambda>s. classify_confidentiality s = ''unknown'') (strings_of v) \<longrightarrow>
        redact_document v = v)"
  by (auto simp: skeleton_redact strings_redact list_all_iff
      intro!: redact_document_id redact_text_unknown)

lemma plain_text_unknown: "classify_confidentiality ''read'' = ''unknown''"
  by code_simp

theorem redaction_confined_witness:
  "redact_document (PDict [(''status'', PStr ''/home/ann''), (''note'', PStr ''read'')]) =
     PDict [(''status'', PStr ''/home/ann''), (''note'', PStr ''read'')]"
  by (rule redaction_confined [THEN conjunct2, THEN conjunct2, THEN mp])
     (simp add: verbatim_keys_def plain_text_unknown)

end
