(* ===== verification/Redaction_Limits.thy ===== *)
theory Redaction_Limits
  imports Redaction
begin

section \<open>A limit of the masking (atlas_core/redaction.py)\<close>

text \<open>
  One evaluated text on which two passes of the masking differ. It stands apart from
  \<open>Redaction\<close> because running thirteen patterns inside the kernel takes a minute.
\<close>

text \<open>Masking is not idempotent, although the mark is chosen so that it be: a home directory
  under a doubled slash leaves a mark where the next pass reads a user's name.\<close>

theorem redaction_not_idempotent:
  "redact_text ''/home//home/b'' = ''/home/[REDACTED]''
   \<and> redact_text (redact_text ''/home//home/b'') = ''[REDACTED]''"
  by code_simp

end
