(* ===== verification/Observations.thy ===== *)
theory Observations
  imports PyValue
begin

section \<open>Observation.v1 (atlas_core/observation.py)\<close>

text \<open>
  One thing that was read, with its provenance, and the validation every construction path
  runs. \<open>sha\<close> is the hexadecimal SHA-256 of a text's UTF-8 bytes, a parameter of whatever
  derives or compares a digest. Every refusal of the constructor is a \<open>ValueError\<close>.
\<close>

definition unknown :: string where "unknown = ''unknown''"

definition source_types :: "string list" where
  "source_types = [''local_file'', ''github_file'', ''ci'', ''memory'']"
definition confidentiality_classes :: "string list" where
  "confidentiality_classes = [''public'', ''internal'', ''secret'', unknown]"
definition worktree_states :: "string list" where
  "worktree_states = [''clean'', ''dirty'', unknown]"

record observation =
  source_id :: string
  source_type :: string
  path :: string
  collected_at :: string
  content_sha256 :: string
  excerpt :: string
  line_start :: int
  line_end :: int
  snapshot_id :: string
  repo :: string
  ref :: string
  commit :: string
  worktree_state :: string
  confidentiality :: string
  total_lines :: "int option"

definition NUL :: string where "NUL = [CHR 0x00]"

definition derive_source_id :: "(string \<Rightarrow> string) \<Rightarrow> string \<Rightarrow> string \<Rightarrow> string \<Rightarrow> string" where
  "derive_source_id sha snap ty p = take 16 (sha (join NUL [snap, ty, p]))"

subsection \<open>Validation\<close>

definition is_hex :: "char \<Rightarrow> bool" where
  "is_hex c \<longleftrightarrow> 48 \<le> code c \<and> code c \<le> 57 \<or> 97 \<le> code c \<and> code c \<le> 102"

text \<open>\<open>re.compile(r"^[0-9a-f]{64}$").match(s)\<close>: the dollar also matches before one final
  line feed.\<close>

definition sha256_shape :: "string \<Rightarrow> bool" where
  "sha256_shape s = (let t = (if ends_with s [LF] then butlast s else s)
     in length t = 64 \<and> list_all is_hex t)"

definition check_enum :: "string \<Rightarrow> string list \<Rightarrow> bool" where
  "check_enum v allowed \<longleftrightarrow> v \<in> set allowed"

definition known_or_unknown :: "string \<Rightarrow> bool" where
  "known_or_unknown v \<longleftrightarrow> v = unknown \<or> (\<not> blank v \<and> v = strip v)"

definition slash :: "char \<Rightarrow> char" where
  "slash c = (if c = CHR 0x5C then CHR ''/'' else c)"

definition posix_anchored :: "string \<Rightarrow> bool" where
  "posix_anchored p \<longleftrightarrow> starts_with p ''/''"

definition windows_anchored :: "string \<Rightarrow> bool" where
  "windows_anchored p \<longleftrightarrow> starts_with (map slash p) ''/'' \<or> (2 \<le> length p \<and> p ! 1 = CHR '':'')"

definition contained_path :: "string \<Rightarrow> bool" where
  "contained_path p \<longleftrightarrow>
     \<not> posix_anchored p \<and> ''..'' \<notin> set (split_on (CHR ''/'') p)
     \<and> \<not> windows_anchored p \<and> ''..'' \<notin> set (split_on (CHR ''/'') (map slash p))"

definition check_digest :: "string \<Rightarrow> bool" where
  "check_digest d \<longleftrightarrow> d = unknown \<or> sha256_shape d"

definition check_line_range :: "string \<Rightarrow> int \<Rightarrow> int \<Rightarrow> bool" where
  "check_line_range ex a b \<longleftrightarrow>
     0 \<le> a \<and> 0 \<le> b \<and> (if ex \<noteq> [] then 1 \<le> a \<and> a \<le> b else a = 0 \<and> b = 0)"

definition check_total :: "int \<Rightarrow> int option \<Rightarrow> bool" where
  "check_total b t = (case t of None \<Rightarrow> True | Some n \<Rightarrow> 0 \<le> n \<and> b \<le> n)"

definition observation_ok :: "(string \<Rightarrow> string) \<Rightarrow> observation \<Rightarrow> bool" where
  "observation_ok sha ob \<longleftrightarrow>
     check_enum (source_type ob) source_types
     \<and> check_enum (worktree_state ob) worktree_states
     \<and> check_enum (confidentiality ob) confidentiality_classes
     \<and> \<not> blank (path ob) \<and> contained_path (path ob)
     \<and> \<not> blank (collected_at ob)
     \<and> known_or_unknown (repo ob) \<and> known_or_unknown (ref ob)
     \<and> known_or_unknown (commit ob) \<and> known_or_unknown (snapshot_id ob)
     \<and> check_digest (content_sha256 ob)
     \<and> check_line_range (excerpt ob) (line_start ob) (line_end ob)
     \<and> check_total (line_end ob) (total_lines ob)
     \<and> source_id ob = derive_source_id sha (snapshot_id ob) (source_type ob) (path ob)"

definition mk_observation :: "(string \<Rightarrow> string) \<Rightarrow> observation \<Rightarrow> observation result" where
  "mk_observation sha ob = (if observation_ok sha ob then Inr ob else Inl ValueError)"

text \<open>\<open>Observation.create\<close>: the id is derived, whatever the record carries there.\<close>

definition create_observation :: "(string \<Rightarrow> string) \<Rightarrow> observation \<Rightarrow> observation result" where
  "create_observation sha ob = mk_observation sha
     (ob\<lparr>source_id := derive_source_id sha (snapshot_id ob) (source_type ob) (path ob)\<rparr>)"

subsection \<open>Queries\<close>

definition is_verifiable :: "observation \<Rightarrow> bool" where
  "is_verifiable ob \<longleftrightarrow> content_sha256 ob \<noteq> unknown"

definition commit_identifies_content :: "observation \<Rightarrow> bool" where
  "commit_identifies_content ob \<longleftrightarrow> commit ob \<noteq> unknown \<and> worktree_state ob = ''clean''"

definition read_in_full :: "observation \<Rightarrow> bool option" where
  "read_in_full ob = (case total_lines ob of None \<Rightarrow> None
     | Some n \<Rightarrow> if n = 0 then Some (line_end ob = 0)
                 else Some (line_start ob = 1 \<and> n \<le> line_end ob))"

section \<open>Lemmas\<close>

lemma mk_observation_Inr [simp]: "mk_observation sha ob = Inr ob' \<longleftrightarrow> observation_ok sha ob \<and> ob' = ob"
  by (auto simp: mk_observation_def)

lemma observation_okD:
  assumes "observation_ok sha ob"
  shows "source_id ob = derive_source_id sha (snapshot_id ob) (source_type ob) (path ob)"
    "contained_path (path ob)" "check_digest (content_sha256 ob)"
    "0 \<le> line_start ob" "0 \<le> line_end ob"
    "excerpt ob = [] \<longleftrightarrow> line_start ob = 0"
    "excerpt ob \<noteq> [] \<Longrightarrow> 1 \<le> line_start ob \<and> line_start ob \<le> line_end ob"
    "source_type ob \<in> set source_types"
  using assms
  by (auto simp: observation_ok_def check_line_range_def check_enum_def split: if_splits)

lemma split_on_single: "c \<notin> set w \<Longrightarrow> split_on c w = [w]"
  by (induction w) auto

text \<open>A word between two separators (or ends of the text) is one of the components.\<close>

lemma split_on_component:
  assumes "c \<notin> set w" and "a = [] \<or> last a = c" and "b = [] \<or> hd b = c"
  shows "w \<in> set (split_on c (a @ w @ b))"
proof -
  have "w \<in> set (split_on c (w @ b))"
  proof (cases b)
    case Nil
    with assms(1) show ?thesis by (simp add: split_on_single)
  next
    case (Cons x xs)
    with assms(1,3) show ?thesis by (simp add: split_on_append split_on_single)
  qed
  moreover have "set (split_on c (w @ b)) \<subseteq> set (split_on c (a @ w @ b))"
  proof (cases a rule: rev_cases)
    case Nil
    then show ?thesis by simp
  next
    case (snoc a' x)
    with assms(2) show ?thesis by (simp add: split_on_append)
  qed
  ultimately show ?thesis by blast
qed

section \<open>Properties\<close>

text \<open>A recorded path never names something outside its snapshot, whether a POSIX or a
  Windows host reads it: it is not rooted, carries no drive, and no component between two
  separators of either kind is a step to the parent. \<open>create\<close> enforces it whatever the
  caller passes.\<close>

theorem observation_path_contained:
  assumes "create_observation sha ob = Inr ob'"
  shows "path ob' \<noteq> [] \<and> hd (path ob') \<notin> {CHR ''/'', CHR 0x5C}
    \<and> \<not> (\<exists>d r. path ob' = d # CHR '':'' # r)
    \<and> \<not> (\<exists>a b. path ob' = a @ ''..'' @ b \<and> (a = [] \<or> last a \<in> {CHR ''/'', CHR 0x5C})
            \<and> (b = [] \<or> hd b \<in> {CHR ''/'', CHR 0x5C}))"
proof -
  let ?p = "path ob'"
  have ok: "observation_ok sha ob'" using assms by (simp add: create_observation_def)
  then have c: "contained_path ?p" and ne: "?p \<noteq> []"
    by (auto simp: observation_ok_def blank_def)
  have head: "hd ?p \<notin> {CHR ''/'', CHR 0x5C}"
    using c ne by (cases ?p) (auto simp: contained_path_def posix_anchored_def
        windows_anchored_def slash_def)
  have drive: "\<not> (\<exists>d r. ?p = d # CHR '':'' # r)"
    using c by (auto simp: contained_path_def windows_anchored_def)
  have parent: "False" if "?p = a @ ''..'' @ b" "a = [] \<or> last a \<in> {CHR ''/'', CHR 0x5C}"
    "b = [] \<or> hd b \<in> {CHR ''/'', CHR 0x5C}" for a b
  proof -
    have m: "map slash ?p = map slash a @ ''..'' @ map slash b"
      using that(1) by (simp add: slash_def)
    have "map slash a = [] \<or> last (map slash a) = CHR ''/''"
      using that(2) by (cases "a = []") (auto simp: slash_def last_map)
    moreover have "map slash b = [] \<or> hd (map slash b) = CHR ''/''"
      using that(3) by (cases "b = []") (auto simp: slash_def hd_map)
    ultimately have "''..'' \<in> set (split_on (CHR ''/'') (map slash a @ ''..'' @ map slash b))"
      by (intro split_on_component) auto
    with m c show False by (simp add: contained_path_def)
  qed
  from ne head drive parent show ?thesis by blast
qed

definition sample_digest :: string where
  "sample_digest = replicate 64 (CHR ''a'')"

definition sample_observation :: observation where
  "sample_observation = \<lparr>source_id = [], source_type = ''local_file'', path = ''docs/a.md'',
     collected_at = ''t0'', content_sha256 = sample_digest, excerpt = ''x'', line_start = 1,
     line_end = 1, snapshot_id = ''s0'', repo = unknown, ref = unknown, commit = unknown,
     worktree_state = unknown, confidentiality = unknown, total_lines = Some 1\<rparr>"

lemma sample_digest_shape [simp]: "sha256_shape sample_digest"
  by (simp add: sha256_shape_def sample_digest_def ends_with_def numeral_eq_Suc is_hex_def code_def)

lemma create_sample:
  "create_observation (\<lambda>_. sample_digest) sample_observation =
     Inr (sample_observation\<lparr>source_id := take 16 sample_digest\<rparr>)"
  by (simp add: create_observation_def mk_observation_def observation_ok_def
      sample_observation_def check_enum_def source_types_def worktree_states_def
      confidentiality_classes_def contained_path_def posix_anchored_def windows_anchored_def
      slash_def blank_def is_space_def known_or_unknown_def check_digest_def
      check_line_range_def check_total_def derive_source_id_def unknown_def strip_def
      lstrip_def rstrip_def)

theorem observation_path_contained_witness:
  "path (sample_observation\<lparr>source_id := take 16 sample_digest\<rparr>) \<noteq> []"
  using observation_path_contained [OF create_sample] by blast

text \<open>The digest check accepts 64 hexadecimal characters followed by one line feed, so a
  validated observation (or citation) can carry a digest of 65 characters that no SHA-256
  of any text equals: the dollar of the pattern matches before a final line feed.\<close>

theorem digest_shape_accepts_line_feed:
  "sha256_shape (sample_digest @ [LF]) \<and> length (sample_digest @ [LF]) = 65"
  by (simp add: sha256_shape_def sample_digest_def ends_with_def numeral_eq_Suc is_hex_def
      code_def butlast_append)

end
