(* ===== verification/Review_Plan.thy ===== *)
theory Review_Plan
  imports Observations
begin

section \<open>What a review asks (atlas_core/review_plan.py)\<close>

text \<open>
  The topic table, the plan a task narrows to, which declared literal answers it, and which of
  its patterns are still unread. A plan's constructor refuses with a \<open>ValueError\<close>.
\<close>

definition unknown_topic :: string where "unknown_topic = ''unknown''"
definition max_patterns :: nat where "max_patterns = 6"

record review_topic =
  tp_code :: string
  tp_question :: string
  tp_keywords :: "string list"
  tp_patterns :: "string list"
  tp_answering :: "string list"

definition gate_parity_paths :: "string list" where
  "gate_parity_paths = [''release-check.sh'', ''.github/workflows/tests.yml'',
     ''.github/workflows/markdownlint.yml'', ''.github/workflows/mq-stack-gate.yml'',
     ''scripts/check-gate-parity.py'']"

definition topic_secrets :: review_topic where
  "topic_secrets = \<lparr>tp_code = ''secrets'',
     tp_question = ''Does this repository commit a credential, a default password or a '' @
       ''token in plain text?'',
     tp_keywords = [''secret'', ''hemlig'', (''l'' @ [CHR 0xF6] @ ''senord''), ''losenord'',
       ''password'', ''token'', ''credential'', ''nyckel''],
     tp_patterns = [''*.env'', ''settings*'', ''config*'', ''.env*''],
     tp_answering = [''password='', ''passwd='', ''pwd='', (''l'' @ [CHR 0xF6] @ ''senord=''),
       ''secret='', ''token='', ''api_key='', ''apikey='', ''access_key='', ''private key'']\<rparr>"

definition topic_ci_gate_parity :: review_topic where
  "topic_ci_gate_parity = \<lparr>tp_code = ''ci_gate_parity'',
     tp_question = ''Do the local release gate and the in-scope GitHub Actions '' @
       ''workflows declare the same checks and targets, apart from '' @
       ''explicit exceptions?'',
     tp_keywords = [''release-check'', ''gate parity'', ''gate-parity''],
     tp_patterns = gate_parity_paths,
     tp_answering = []\<rparr>"

definition topic_ci :: review_topic where
  "topic_ci = \<lparr>tp_code = ''ci'',
     tp_question = ''Does the CI configuration run the checks it claims to run?'',
     tp_keywords = [''ci'', ''workflow'', ''actions'', ''pipeline'', ''bygge'', ''build''],
     tp_patterns = [''.github/workflows/*'', ''Makefile'', ''*.yml'', ''*.sh'', ''scripts/*''],
     tp_answering = []\<rparr>"

definition topic_tests :: review_topic where
  "topic_tests = \<lparr>tp_code = ''tests'',
     tp_question = ''Is there a test suite, and does the project say how to run it?'',
     tp_keywords = [''test'', ''tester'', (''t'' @ [CHR 0xE4] @ ''ckning''), ''tackning'', ''coverage'',
       ''suite''],
     tp_patterns = [''tests/*'', ''test_*'', ''pyproject.toml'', ''README.md''],
     tp_answering = []\<rparr>"

definition topic_release_changelog :: review_topic where
  "topic_release_changelog = \<lparr>tp_code = ''release_changelog'',
     tp_question = ''Does the first semver release heading in CHANGELOG.md match the '' @
       ''package version in pyproject.toml?'',
     tp_keywords = [''changelog-version'', ''changelog version'', ''release-heading'',
       ''release heading'', ''release-rubrik'', ''release rubrik''],
     tp_patterns = [''CHANGELOG.md'', ''pyproject.toml''],
     tp_answering = []\<rparr>"

definition topic_release_metadata :: review_topic where
  "topic_release_metadata = \<lparr>tp_code = ''release_metadata'',
     tp_question = ''Do VERSION, pyproject.toml and MANIFEST.json declare the same '' @
       ''package version?'',
     tp_keywords = [''manifest.json'', ''pyproject.toml'', ''version metadata'', ''versionsmetadata'',
       ''package version metadata''],
     tp_patterns = [''VERSION'', ''pyproject.toml'', ''MANIFEST.json''],
     tp_answering = []\<rparr>"

definition topic_release :: review_topic where
  "topic_release = \<lparr>tp_code = ''release'',
     tp_question = ''Do the version, the changelog and the release process agree with '' @
       ''each other?'',
     tp_keywords = [''release'', (''sl'' @ [CHR 0xE4] @ ''pp''), ''slapp'', ''version'', ''changelog'',
       ''tag''],
     tp_patterns = [''CHANGELOG.md'', ''pyproject.toml'', ''README.md''],
     tp_answering = []\<rparr>"

definition topic_documentation :: review_topic where
  "topic_documentation = \<lparr>tp_code = ''documentation'',
     tp_question = ''Does the documentation say what this project is, how to install '' @
       ''it and how to run it?'',
     tp_keywords = [''dokumentation'', ''docs'', ''readme'', ''installation'', ''installera'',
       ''install'', (''komma ig'' @ [CHR 0xE5] @ ''ng''), ''onboarding'', ''instruktion''],
     tp_patterns = [''README.md'', ''docs/*'', ''CONTRIBUTING.md''],
     tp_answering = []\<rparr>"

definition topics :: "review_topic list" where
  "topics = [topic_secrets, topic_ci_gate_parity, topic_ci, topic_tests, topic_release_changelog,
     topic_release_metadata, topic_release, topic_documentation]"

record review_plan =
  rp_snapshot :: string
  rp_topic :: string
  rp_question :: string
  rp_patterns :: "string list"
  rp_rationale :: string
  rp_answering :: "string list"

definition plan_ok :: "review_plan \<Rightarrow> bool" where
  "plan_ok p \<longleftrightarrow> \<not> blank (rp_question p) \<and> \<not> blank (rp_snapshot p)
     \<and> length (rp_patterns p) \<le> max_patterns"

definition mk_plan :: "review_plan \<Rightarrow> review_plan result" where
  "mk_plan p = (if plan_ok p then Inr p else Inl ValueError)"

definition narrowed :: "review_plan \<Rightarrow> bool" where
  "narrowed p \<longleftrightarrow> rp_topic p \<noteq> unknown_topic"

definition detect_topic :: "string \<Rightarrow> review_topic option" where
  "detect_topic task =
     (let t = lower task in find (\<lambda>tp. list_ex (\<lambda>k. contains t k) (tp_keywords tp)) topics)"

definition build_review_plan :: "string \<Rightarrow> string \<Rightarrow> review_plan result" where
  "build_review_plan task sid = (case detect_topic task of
     Some tp \<Rightarrow> mk_plan \<lparr>rp_snapshot = sid, rp_topic = tp_code tp, rp_question = tp_question tp,
       rp_patterns = tp_patterns tp,
       rp_rationale = ''The task names '' @ tp_code tp @ ''; these are the paths that '' @
         ''carry the answer in a repository of this shape.'',
       rp_answering = tp_answering tp\<rparr>
   | None \<Rightarrow> mk_plan \<lparr>rp_snapshot = sid, rp_topic = unknown_topic, rp_question = strip task,
       rp_patterns = [],
       rp_rationale = ''The task matched no known review topic, so no sources were '' @
         ''selected. Naming files anyway would send a read after a question '' @
         ''nobody asked.'',
       rp_answering = []\<rparr>)"

definition answers_question :: "review_plan \<Rightarrow> string \<Rightarrow> bool" where
  "answers_question p claim_text =
     (if rp_answering p = [] then True
      else (let t = lower claim_text in list_ex (\<lambda>l. contains t (lower l)) (rp_answering p)))"

definition unread_patterns :: "review_plan \<Rightarrow> string list \<Rightarrow> string list \<Rightarrow> string list" where
  "unread_patterns p read_paths resolved =
     filter (\<lambda>pt. pt \<notin> set resolved \<and> \<not> list_ex (\<lambda>q. fnmatch q pt) read_paths) (rp_patterns p)"

section \<open>Lemmas\<close>

lemma topics_bounded: "tp \<in> set topics \<Longrightarrow> length (tp_patterns tp) \<le> max_patterns"
  by (auto simp: topics_def topic_secrets_def topic_ci_gate_parity_def topic_ci_def
      topic_tests_def topic_release_changelog_def topic_release_metadata_def topic_release_def
      topic_documentation_def gate_parity_paths_def max_patterns_def)

lemma topics_named: "tp \<in> set topics \<Longrightarrow> tp_code tp \<noteq> unknown_topic \<and> \<not> blank (tp_question tp)"
  by (auto simp: topics_def topic_secrets_def topic_ci_gate_parity_def topic_ci_def
      topic_tests_def topic_release_changelog_def topic_release_metadata_def topic_release_def
      topic_documentation_def unknown_topic_def blank_def is_space_def)

lemma detect_topic_Some: "detect_topic task = Some tp \<Longrightarrow> tp \<in> set topics"
  by (auto simp: detect_topic_def Let_def find_Some_iff)

text \<open>With a snapshot id that is not blank, a plan is refused only for a blank task.\<close>

lemma build_review_plan_Inr:
  assumes "\<not> blank sid"
  shows "(\<exists>p. build_review_plan task sid = Inr p) \<longleftrightarrow> detect_topic task \<noteq> None \<or> \<not> blank (strip task)"
  using assms topics_bounded topics_named detect_topic_Some [of task]
  by (auto simp: build_review_plan_def mk_plan_def plan_ok_def split: option.splits)

lemma mk_plan_Inr: "mk_plan p = Inr q \<longleftrightarrow> q = p \<and> plan_ok p"
  by (auto simp: mk_plan_def)

lemma build_review_plan_ok: "build_review_plan task sid = Inr p \<Longrightarrow> plan_ok p"
  by (auto simp: build_review_plan_def mk_plan_Inr split: option.splits)

lemma build_review_plan_fields:
  assumes "build_review_plan task sid = Inr p"
  shows "rp_snapshot p = sid \<and> (narrowed p \<longleftrightarrow> detect_topic task \<noteq> None)"
  using assms topics_named detect_topic_Some [of task]
  by (auto simp: build_review_plan_def mk_plan_def narrowed_def split: option.splits if_splits)

end
