(* ===== verification/Containment.thy ===== *)
theory Containment
  imports PyValue
begin

section \<open>Contained reads (atlas_core/containment.py)\<close>

text \<open>
  What the code asks of the machine it runs on is a \<open>host\<close>: the hexadecimal SHA-256 of a text,
  git in a directory (exit code and standard output, or nothing when it could not be run),
  \<open>Path(p).expanduser().resolve()\<close>, \<open>(root / p).resolve()\<close> for a resolved root, and the open
  without following a link. The open returns the number of bytes and their decoded text, or
  how it failed: the final component is a link, or an exception of \<open>OSError\<close> (\<open>FileMissing\<close>
  for the three not-found classes). Two operations at different times take two hosts.
\<close>

datatype open_error = LinkRefused | OpenError exc

record host =
  sha :: "string \<Rightarrow> string"
  git :: "string \<Rightarrow> string list \<Rightarrow> (int \<times> string) option"
  resolve :: "string \<Rightarrow> string"
  resolve_under :: "string \<Rightarrow> string \<Rightarrow> string"
  open_file :: "string \<Rightarrow> open_error + int \<times> string"

text \<open>The components of an absolute path without its root.\<close>

definition path_parts :: "string \<Rightarrow> string list" where
  "path_parts p = filter (\<lambda>w. w \<noteq> []) (split_on (CHR ''/'') p)"

text \<open>\<open>target.relative_to(root)\<close> succeeds.\<close>

definition is_under :: "string \<Rightarrow> string \<Rightarrow> bool" where
  "is_under r t \<longleftrightarrow> take (length (path_parts r)) (path_parts t) = path_parts r"

definition resolve_within :: "host \<Rightarrow> string \<Rightarrow> string \<Rightarrow> string result" where
  "resolve_within h r p =
     (let base = resolve h r in
      if starts_with p ''/'' then
        Inl (PathRefused (''absolute paths are not read from a snapshot: '' @ py_repr p))
      else (let target = resolve_under h base p in
        if is_under base target then Inr target
        else Inl (PathRefused (py_repr p @ '' resolves to '' @ target @ '', outside the snapshot root''))))"

text \<open>Text mode and \<open>replace("\r\n", "\n").replace("\r", "\n")\<close>.\<close>

function universal_newlines :: "string \<Rightarrow> string" where
  "universal_newlines [] = []"
| "universal_newlines (c # cs) =
     (if c = CR then LF # universal_newlines (if cs \<noteq> [] \<and> hd cs = LF then tl cs else cs)
      else c # universal_newlines cs)"
  by pat_completeness auto
termination
  by (relation "measure length") (auto simp: less_Suc_eq_le)

definition read_within :: "host \<Rightarrow> string \<Rightarrow> string \<Rightarrow> int option \<Rightarrow> string result" where
  "read_within h r p max_bytes =
     bind_res (resolve_within h r p) (\<lambda>target.
     (case open_file h target of
        Inl LinkRefused \<Rightarrow>
          Inl (PathRefused (py_repr p @ '' became a symbolic link before it could be read''))
      | Inl (OpenError e) \<Rightarrow> Inl e
      | Inr (nbytes, decoded) \<Rightarrow>
          (case max_bytes of
             None \<Rightarrow> Inr (universal_newlines decoded)
           | Some m \<Rightarrow> if m < 0 then Inl ValueError
                      else if m < nbytes then Inl SourceTooLarge
                      else Inr (universal_newlines decoded))))"

section \<open>Lemmas\<close>

lemma path_parts_append: "path_parts (r @ CHR ''/'' # p) = path_parts r @ path_parts p"
  by (simp add: path_parts_def split_on_append)

lemma is_under_child [simp]: "is_under r (r @ CHR ''/'' # p)"
  by (simp add: is_under_def path_parts_append)

lemma universal_newlines_no_CR: "CR \<notin> set (universal_newlines s)"
  by (induction s rule: universal_newlines.induct) (auto split: if_splits)

lemma universal_newlines_id: "CR \<notin> set s \<Longrightarrow> universal_newlines s = s"
  by (induction s rule: universal_newlines.induct) auto

lemma read_within_Inr:
  "read_within h r p mb = Inr content \<longleftrightarrow>
     (\<exists>nbytes decoded. \<not> starts_with p ''/'' \<and> is_under (resolve h r) (resolve_under h (resolve h r) p)
        \<and> open_file h (resolve_under h (resolve h r) p) = Inr (nbytes, decoded)
        \<and> content = universal_newlines decoded
        \<and> (\<forall>m. mb = Some m \<longrightarrow> 0 \<le> m \<and> nbytes \<le> m))"
  by (auto simp: read_within_def resolve_within_def bind_res_Inr Let_def
      split: sum.splits open_error.splits option.splits if_splits)

text \<open>A host whose paths resolve to themselves.\<close>

lemma read_within_plain [simp]:
  "read_within \<lparr>sha = a, git = b, resolve = (\<lambda>r. r), resolve_under = (\<lambda>r p. r @ CHR ''/'' # p),
     open_file = f\<rparr> r p None =
   (if starts_with p ''/''
    then Inl (PathRefused (''absolute paths are not read from a snapshot: '' @ py_repr p))
    else (case f (r @ CHR ''/'' # p) of
        Inl LinkRefused \<Rightarrow>
          Inl (PathRefused (py_repr p @ '' became a symbolic link before it could be read''))
      | Inl (OpenError e) \<Rightarrow> Inl e
      | Inr (nbytes, decoded) \<Rightarrow> Inr (universal_newlines decoded)))"
  by (simp add: read_within_def resolve_within_def Let_def cong: if_cong sum.case_cong)

section \<open>Properties\<close>

text \<open>C38. A contained read opens exactly one file, and only when the name is relative and resolves,
  links followed, to the root or below it; every other name is refused before anything is
  opened. What it returns has no carriage return left, and under a limit the file was no
  larger than the limit, with the text the unlimited read returns.\<close>

theorem read_is_contained:
  "(case read_within h r p mb of
      Inr content \<Rightarrow> \<not> starts_with p ''/'' \<and> is_under (resolve h r) (resolve_under h (resolve h r) p)
        \<and> (\<exists>nbytes decoded. open_file h (resolve_under h (resolve h r) p) = Inr (nbytes, decoded)
             \<and> content = universal_newlines decoded \<and> (mb = None \<or> (\<exists>m. mb = Some m \<and> nbytes \<le> m)))
        \<and> CR \<notin> set content \<and> read_within h r p None = Inr content
    | Inl e \<Rightarrow> True)
   \<and> (\<not> (\<not> starts_with p ''/'' \<and> is_under (resolve h r) (resolve_under h (resolve h r) p)) \<longleftrightarrow>
        (\<forall>files. \<exists>why. read_within (h\<lparr>open_file := files\<rparr>) r p mb = Inl (PathRefused why)))"
proof (rule conjI)
  show "case read_within h r p mb of
      Inr content \<Rightarrow> \<not> starts_with p ''/'' \<and> is_under (resolve h r) (resolve_under h (resolve h r) p)
        \<and> (\<exists>nbytes decoded. open_file h (resolve_under h (resolve h r) p) = Inr (nbytes, decoded)
             \<and> content = universal_newlines decoded \<and> (mb = None \<or> (\<exists>m. mb = Some m \<and> nbytes \<le> m)))
        \<and> CR \<notin> set content \<and> read_within h r p None = Inr content
    | Inl e \<Rightarrow> True"
  proof (cases "read_within h r p mb")
    case (Inr content)
    then obtain n t where "\<not> starts_with p ''/''"
      "is_under (resolve h r) (resolve_under h (resolve h r) p)"
      "open_file h (resolve_under h (resolve h r) p) = Inr (n, t)"
      "content = universal_newlines t" "\<forall>m. mb = Some m \<longrightarrow> 0 \<le> m \<and> n \<le> m"
      unfolding read_within_Inr by blast
    moreover from this have "read_within h r p None = Inr content"
      by (auto simp: read_within_Inr)
    ultimately show ?thesis
      unfolding Inr by (cases mb) (auto simp: universal_newlines_no_CR)
  qed simp
  show "(\<not> (\<not> starts_with p ''/'' \<and> is_under (resolve h r) (resolve_under h (resolve h r) p))) =
      (\<forall>files. \<exists>why. read_within (h\<lparr>open_file := files\<rparr>) r p mb = Inl (PathRefused why))"
    (is "?refused = ?always")
  proof
    show "?refused \<Longrightarrow> ?always"
      by (auto simp: read_within_def resolve_within_def Let_def)
    assume always: ?always
    show ?refused
    proof (rule ccontr)
      assume "\<not> ?refused"
      then have "read_within (h\<lparr>open_file := (\<lambda>_. Inl (OpenError OSError))\<rparr>) r p mb = Inl OSError"
        by (auto simp: read_within_def resolve_within_def Let_def)
      moreover from always obtain why where
        "read_within (h\<lparr>open_file := (\<lambda>_. Inl (OpenError OSError))\<rparr>) r p mb = Inl (PathRefused why)"
        by blast
      ultimately show False by simp
    qed
  qed
qed

end
