(* ===== verification/Snapshots.thy ===== *)
theory Snapshots
  imports Observations Containment Redaction
begin

section \<open>Snapshots, collection and drift (atlas_core/snapshot.py)\<close>

text \<open>
  The state a run reads: taking a snapshot, collecting observations from it and verifying
  them again later. A read returns the text or the exception it raises: \<open>PathRefused\<close>,
  \<open>FileMissing\<close> (the three not-found classes of \<open>OSError\<close>), another \<open>OSError\<close>, or
  \<open>SourceTooLarge\<close>.
\<close>

text \<open>What \<open>hashlib.sha256(...).hexdigest()\<close> promises about its result.\<close>

definition hex_digests :: "(string \<Rightarrow> string) \<Rightarrow> bool" where
  "hex_digests f \<longleftrightarrow> (\<forall>s. length (f s) = 64 \<and> list_all is_hex (f s))"

definition default_max_lines :: int where "default_max_lines = 80"

record snapshot =
  snap_id :: string
  root :: string
  taken_at :: string
  snap_commit :: string
  snap_ref :: string
  snap_worktree :: string

subsection \<open>Reading lines\<close>

definition slice_index :: "int \<Rightarrow> int \<Rightarrow> nat" where
  "slice_index n i = nat (if i < 0 then max 0 (i + n) else min i n)"

text \<open>\<open>xs[i:j]\<close> with Python's treatment of negative and large indices.\<close>

definition py_slice :: "'a list \<Rightarrow> int \<Rightarrow> int \<Rightarrow> 'a list" where
  "py_slice xs i j = (let n = int (length xs); a = slice_index n i; b = slice_index n j
     in take (b - a) (drop a xs))"

definition first_prefixed_line :: "string \<Rightarrow> string \<Rightarrow> int result" where
  "first_prefixed_line content prefix =
     (case find (\<lambda>(i, l). starts_with l prefix) (enumerate 1 (splitlines content)) of
        None \<Rightarrow> Inl ValueError | Some (i, _) \<Rightarrow> Inr (int i))"

definition excerpt_of :: "string \<Rightarrow> int \<Rightarrow> int \<Rightarrow> (string \<times> int \<times> int) result" where
  "excerpt_of content max_lines start =
     (if max_lines < 1 then Inl ValueError
      else if start < 1 then Inl ValueError
      else (let ls = splitlines content in
        if ls = [] then (if start \<noteq> 1 then Inl ValueError else Inr ([], 0, 0))
        else if int (length ls) < start then Inl ValueError
        else (let kept = py_slice ls (start - 1) (start - 1 + max_lines)
              in Inr (join [LF] kept, start, start + int (length kept) - 1))))"

definition lines_at :: "string \<Rightarrow> int \<Rightarrow> int \<Rightarrow> string" where
  "lines_at content a b =
     (if a < 1 then [] else join [LF] (py_slice (splitlines content) (a - 1) b))"

subsection \<open>Snapshots\<close>

definition git_answer :: "host \<Rightarrow> string \<Rightarrow> string list \<Rightarrow> string" where
  "git_answer h dir args = (case git h dir args of
     None \<Rightarrow> unknown
   | Some (rc, out) \<Rightarrow> if rc \<noteq> 0 then unknown else strip out)"

definition worktree_state_of :: "host \<Rightarrow> string \<Rightarrow> string \<Rightarrow> string" where
  "worktree_state_of h dir c =
     (if c = unknown then unknown
      else (let status = git_answer h dir [''status'', ''--porcelain''] in
        if status = unknown then unknown else if status \<noteq> [] then ''dirty'' else ''clean''))"

definition derive_snapshot_id :: "host \<Rightarrow> string \<Rightarrow> string \<Rightarrow> string \<Rightarrow> string" where
  "derive_snapshot_id h dir c w = take 16 (sha h (join NUL [dir, c, w]))"

definition take_snapshot :: "host \<Rightarrow> string \<Rightarrow> string \<Rightarrow> snapshot" where
  "take_snapshot h now r =
     (let dir = resolve h r;
          c = git_answer h dir [''rev-parse'', ''HEAD''];
          b = git_answer h dir [''rev-parse'', ''--abbrev-ref'', ''HEAD''];
          w = worktree_state_of h dir c
      in \<lparr>snap_id = derive_snapshot_id h dir c w, root = dir, taken_at = now,
          snap_commit = c, snap_ref = b, snap_worktree = w\<rparr>)"

definition has_moved :: "host \<Rightarrow> snapshot \<Rightarrow> bool" where
  "has_moved h s \<longleftrightarrow> snap_id (take_snapshot h [] (root s)) \<noteq> snap_id s"

subsection \<open>Collecting an observation\<close>

record collect_args =
  max_lines :: int
  start_line :: int
  anchor_prefix :: "string option"
  stated_class :: "string option"
  max_bytes :: "int option"

definition default_collect :: collect_args where
  "default_collect = \<lparr>max_lines = default_max_lines, start_line = 1, anchor_prefix = None,
     stated_class = None, max_bytes = None\<rparr>"

definition anchor_line :: "string \<Rightarrow> collect_args \<Rightarrow> int result" where
  "anchor_line content a = (case anchor_prefix a of
     None \<Rightarrow> Inr (start_line a)
   | Some p \<Rightarrow>
      if start_line a \<noteq> 1 then Inl ValueError
      else if p = [] \<or> LF \<in> set p \<or> CR \<in> set p then Inl ValueError
      else if 128 < length p then Inl ValueError
      else first_prefixed_line content p)"

definition collect_observation ::
  "host \<Rightarrow> string \<Rightarrow> snapshot \<Rightarrow> string \<Rightarrow> collect_args \<Rightarrow> observation result" where
  "collect_observation h now s p a =
     bind_res (read_within h (root s) p (max_bytes a)) (\<lambda>content.
     bind_res (anchor_line content a) (\<lambda>start.
     bind_res (excerpt_of content (max_lines a) start) (\<lambda>(ex, ls, le).
     create_observation (sha h)
       \<lparr>source_id = [], source_type = ''local_file'', path = p, collected_at = now,
        content_sha256 = sha h content, excerpt = ex, line_start = ls, line_end = le,
        snapshot_id = snap_id s, repo = unknown, ref = snap_ref s, commit = snap_commit s,
        worktree_state = snap_worktree s,
        confidentiality = (case stated_class a of None \<Rightarrow> classify_confidentiality content | Some c \<Rightarrow> c),
        total_lines = Some (int (length (splitlines content)))\<rparr>)))"

subsection \<open>Verifying an observation again\<close>

datatype vresult = Fresh | Stale | Missing | Refused | Unverifiable

record verification =
  v_result :: vresult
  v_reason :: string
  v_sha256 :: string

definition is_evidence :: "verification \<Rightarrow> bool" where
  "is_evidence v \<longleftrightarrow> v_result v = Fresh"

text \<open>Only \<open>PathRefused\<close> and the not-found classes are caught; any other exception of the
  read leaves the function.\<close>

definition verify_observation :: "host \<Rightarrow> observation \<Rightarrow> string \<Rightarrow> verification result" where
  "verify_observation h ob r =
     (if \<not> is_verifiable ob then
        Inr \<lparr>v_result = Unverifiable, v_reason = ''observation carries no content digest'',
             v_sha256 = unknown\<rparr>
      else if source_type ob \<noteq> ''local_file'' then
        Inr \<lparr>v_result = Unverifiable,
             v_reason = ''a '' @ source_type ob @ '' source is not re-read from the snapshot root'',
             v_sha256 = unknown\<rparr>
      else (case read_within h r (path ob) None of
        Inl (PathRefused msg) \<Rightarrow> Inr \<lparr>v_result = Refused, v_reason = msg, v_sha256 = unknown\<rparr>
      | Inl FileMissing \<Rightarrow> Inr \<lparr>v_result = Missing,
          v_reason = path ob @ '' is no longer readable'', v_sha256 = unknown\<rparr>
      | Inl e \<Rightarrow> Inl e
      | Inr content \<Rightarrow>
          (let observed = sha h content in
           if observed \<noteq> content_sha256 ob then
             Inr \<lparr>v_result = Stale, v_reason = ''content digest does not match what was observed'',
                  v_sha256 = observed\<rparr>
           else if lines_at content (line_start ob) (line_end ob) \<noteq> excerpt ob then
             Inr \<lparr>v_result = Stale,
                  v_reason = ''excerpt no longer matches the line range it claims'',
                  v_sha256 = observed\<rparr>
           else Inr \<lparr>v_result = Fresh, v_reason = ''content digest and line range both match'',
                     v_sha256 = observed\<rparr>)))"

record drift_report =
  head_moved :: bool
  not_evidence :: "(string \<times> verification) list"

definition is_consistent :: "drift_report \<Rightarrow> bool" where
  "is_consistent r \<longleftrightarrow> \<not> head_moved r \<and> not_evidence r = []"

definition verify_all :: "host \<Rightarrow> observation list \<Rightarrow> string \<Rightarrow> (string \<times> verification) list result" where
  "verify_all h obs r =
     bind_res (map_res (\<lambda>ob. bind_res (verify_observation h ob r) (\<lambda>v. Inr (source_id ob, v))) obs)
       (\<lambda>vs. Inr (dict_of fst snd vs))"

definition detect_drift :: "host \<Rightarrow> snapshot \<Rightarrow> observation list \<Rightarrow> drift_report result" where
  "detect_drift h s obs =
     bind_res (verify_all h obs (root s)) (\<lambda>vs. Inr
       \<lparr>head_moved = has_moved h s, not_evidence = filter (\<lambda>(_, v). \<not> is_evidence v) vs\<rparr>)"

section \<open>Lemmas\<close>

lemma slice_index_in [simp]: "0 \<le> i \<Longrightarrow> i \<le> n \<Longrightarrow> slice_index n i = nat i"
  by (simp add: slice_index_def)

lemma py_slice_nonneg:
  "0 \<le> i \<Longrightarrow> 0 \<le> j \<Longrightarrow> py_slice xs i j = take (nat j - nat i) (drop (nat i) xs)"
  by (auto simp: py_slice_def slice_index_def Let_def min_def)

lemma length_py_slice:
  "0 \<le> i \<Longrightarrow> 0 \<le> m \<Longrightarrow> int (length (py_slice xs i (i + m))) = min m (max 0 (int (length xs) - i))"
  by (auto simp: py_slice_nonneg nat_add_distrib min_def max_def)

lemma py_slice_self:
  "0 \<le> i \<Longrightarrow> 0 \<le> m \<Longrightarrow>
     py_slice xs i (i + int (length (py_slice xs i (i + m)))) = py_slice xs i (i + m)"
  by (auto simp: py_slice_nonneg nat_add_distrib min_def)

lemma excerpt_of_Inr:
  assumes "excerpt_of content m start = Inr (ex, a, b)"
  shows "lines_at content a b = ex \<and> b - a + 1 \<le> m + 1 \<and>
    (if splitlines content = [] then ex = [] \<and> a = 0 \<and> b = 0
     else a = start \<and> 1 \<le> a \<and> a \<le> b \<and> b \<le> int (length (splitlines content)) \<and> b - a + 1 \<le> m)"
proof (cases "splitlines content = []")
  case True
  then show ?thesis using assms by (auto simp: excerpt_of_def lines_at_def split: if_splits)
next
  case False
  let ?ls = "splitlines content"
  let ?k = "py_slice ?ls (start - 1) (start - 1 + m)"
  have b: "1 \<le> m" "1 \<le> start" "start \<le> int (length ?ls)" "ex = join [LF] ?k" "a = start"
    "b = start + int (length ?k) - 1"
    using assms False by (auto simp: excerpt_of_def Let_def split: if_splits)
  have len: "int (length ?k) = min m (max 0 (int (length ?ls) - (start - 1)))"
    using b by (intro length_py_slice) auto
  have "b = start - 1 + int (length ?k)" using b(6) by simp
  then have "py_slice ?ls (start - 1) b = ?k"
    using b(1,2) by (simp only: py_slice_self)
  then have "lines_at content a b = ex"
    using b(2,4,5) by (simp add: lines_at_def)
  then show ?thesis using b len False by auto
qed

lemma verify_fresh_iff:
  "verify_observation h ob r = Inr v \<and> is_evidence v \<longleftrightarrow>
     verify_observation h ob r = Inr v \<and> is_verifiable ob \<and> source_type ob = ''local_file''
     \<and> (\<exists>content. read_within h r (path ob) None = Inr content \<and> sha h content = content_sha256 ob
          \<and> lines_at content (line_start ob) (line_end ob) = excerpt ob)"
  by (auto simp: verify_observation_def is_evidence_def Let_def split: sum.splits exc.splits if_splits)

lemma verify_fresh:
  assumes "is_verifiable ob" "source_type ob = ''local_file''"
    "read_within h r (path ob) None = Inr content" "sha h content = content_sha256 ob"
    "lines_at content (line_start ob) (line_end ob) = excerpt ob"
  shows "\<exists>v. verify_observation h ob r = Inr v \<and> is_evidence v"
  using assms by (auto simp: verify_observation_def is_evidence_def)

lemma verify_returns:
  "read_within h r (path ob) None = Inr content \<Longrightarrow> \<exists>v. verify_observation h ob r = Inr v"
  by (simp add: verify_observation_def Let_def)

lemma collect_Inr:
  assumes "collect_observation h now s p a = Inr ob"
  obtains content start where
    "read_within h (root s) p (max_bytes a) = Inr content"
    "anchor_line content a = Inr start"
    "excerpt_of content (max_lines a) start = Inr (excerpt ob, line_start ob, line_end ob)"
    "content_sha256 ob = sha h content" "path ob = p" "source_type ob = ''local_file''"
    "snapshot_id ob = snap_id s" "total_lines ob = Some (int (length (splitlines content)))"
    "observation_ok (sha h) ob"
  using assms
  by (auto simp: collect_observation_def bind_res_Inr create_observation_def)

lemma hex_digests_not_unknown: "hex_digests f \<Longrightarrow> f s \<noteq> unknown"
  by (auto simp: hex_digests_def unknown_def dest: spec [where x = s])

lemma verify_all_Inr:
  assumes "verify_all h obs r = Inr vs" and "distinct (map source_id obs)"
  shows "list_all2 (\<lambda>ob kv. fst kv = source_id ob \<and> verify_observation h ob r = Inr (snd kv)) obs vs"
proof -
  obtain ws where w: "map_res (\<lambda>ob. bind_res (verify_observation h ob r)
      (\<lambda>v. Inr (source_id ob, v))) obs = Inr ws" "vs = dict_of fst snd ws"
    using assms(1) by (auto simp: verify_all_def bind_res_Inr)
  have l: "list_all2 (\<lambda>ob kv. fst kv = source_id ob \<and> verify_observation h ob r = Inr (snd kv)) obs ws"
    using map_res_Inr [OF w(1)] by (auto simp: bind_res_Inr elim!: list_all2_mono)
  then have "map fst ws = map source_id obs"
    by (induction rule: list_all2_induct) auto
  then have "vs = ws" using assms(2) w(2) by (simp add: dict_of_distinct)
  with l show ?thesis by simp
qed

section \<open>Properties\<close>

text \<open>C37. Collecting and verifying round-trips: whatever window is asked for, an observation
  verifies as fresh evidence as long as the same text is read again, and verifies as no
  evidence once the text read has another digest. The bound on the excerpt never moves the
  identity that verification compares.\<close>

theorem collect_verify_roundtrip:
  assumes "hex_digests (sha h)" and "sha h' = sha h"
    and "collect_observation h now s p a = Inr ob"
    and "read_within h (root s) p (max_bytes a) = Inr content"
    and "read_within h' (root s) p None = Inr content'"
  shows "\<exists>v. verify_observation h' ob (root s) = Inr v
    \<and> (content' = content \<longrightarrow> is_evidence v)
    \<and> (sha h content' \<noteq> sha h content \<longrightarrow> \<not> is_evidence v)"
proof -
  obtain start where c: "excerpt_of content (max_lines a) start =
      Inr (excerpt ob, line_start ob, line_end ob)" "content_sha256 ob = sha h content"
    "path ob = p" "source_type ob = ''local_file''"
    using collect_Inr [OF assms(3)] assms(4) by (metis sum.inject(2))
  have v: "is_verifiable ob"
    using hex_digests_not_unknown [OF assms(1)] c(2) by (simp add: is_verifiable_def)
  have ex: "lines_at content (line_start ob) (line_end ob) = excerpt ob"
    using excerpt_of_Inr [OF c(1)] by simp
  obtain w where w: "verify_observation h' ob (root s) = Inr w"
    using verify_returns [of h' "root s" ob] c(3) assms(5) by blast
  moreover have "content' = content \<Longrightarrow> is_evidence w"
    using verify_fresh [of ob h' "root s" content'] v c ex assms(2,5) w by auto
  moreover have "sha h content' \<noteq> sha h content \<Longrightarrow> \<not> is_evidence w"
    using verify_fresh_iff [of h' ob "root s" w] w c assms(2,5) by auto
  ultimately show ?thesis by blast
qed

definition sample_host :: host where
  "sample_host = \<lparr>sha = (\<lambda>_. sample_digest), git = (\<lambda>_ _. None), resolve = (\<lambda>r. r),
     resolve_under = (\<lambda>r p. r @ ''/'' @ p), open_file = (\<lambda>_. Inr (3, ''a'' @ [LF] @ ''b''))\<rparr>"

definition sample_snapshot :: snapshot where
  "sample_snapshot = \<lparr>snap_id = ''s0'', root = ''/r'', taken_at = ''t'', snap_commit = unknown,
     snap_ref = unknown, snap_worktree = unknown\<rparr>"

definition sample_collected :: observation where
  "sample_collected = sample_observation\<lparr>source_id := take 16 sample_digest,
     excerpt := ''a'' @ [LF] @ ''b'', line_end := 2, total_lines := Some 2\<rparr>"

lemma sample_hex: "hex_digests (sha sample_host)"
  by (simp add: hex_digests_def sample_host_def sample_digest_def numeral_eq_Suc is_hex_def code_def)

lemma splitlines_ab [simp]: "splitlines [CHR ''a'', LF, CHR ''b''] = [''a'', ''b'']"
  by (simp add: splitlines_def is_linebreak_def)

lemma classify_ab [simp]: "classify_confidentiality [CHR ''a'', LF, CHR ''b''] = ''unknown''"
  by code_simp

lemma sample_path [simp]: "path sample_collected = ''docs/a.md''"
  by (simp add: sample_collected_def sample_observation_def)

lemma sample_verifiable [simp]: "is_verifiable sample_collected"
  by (simp add: sample_collected_def sample_observation_def is_verifiable_def unknown_def
      sample_digest_def numeral_eq_Suc)

lemma sample_read_with [simp]:
  "\<not> starts_with p ''/'' \<Longrightarrow> f (r @ CHR ''/'' # p) = Inr (n, t) \<Longrightarrow>
     read_within (sample_host\<lparr>open_file := f\<rparr>) r p None = Inr (universal_newlines t)"
  "\<not> starts_with p ''/'' \<Longrightarrow> f (r @ CHR ''/'' # p) = Inl (OpenError e) \<Longrightarrow>
     read_within (sample_host\<lparr>open_file := f\<rparr>) r p None = Inl e"
  "\<not> starts_with p ''/'' \<Longrightarrow> read_within sample_host r p None = Inr [CHR ''a'', LF, CHR ''b'']"
  by (simp_all add: sample_host_def)

lemma max_bytes_default [simp]: "max_bytes default_collect = None"
  by (simp add: default_collect_def)

lemma sample_collect:
  "collect_observation sample_host ''t0'' sample_snapshot ''docs/a.md'' default_collect =
     Inr sample_collected"
  using create_sample
  by (simp add: collect_observation_def sample_host_def sample_snapshot_def default_collect_def
      anchor_line_def excerpt_of_def default_max_lines_def py_slice_def slice_index_def
      sample_collected_def create_observation_def mk_observation_def observation_ok_def
      sample_observation_def check_total_def check_line_range_def derive_source_id_def
      unknown_def confidentiality_classes_def check_enum_def split: if_splits)

theorem collect_verify_roundtrip_witness:
  "\<exists>v. verify_observation sample_host sample_collected (root sample_snapshot) = Inr v \<and> is_evidence v"
  using collect_verify_roundtrip [OF sample_hex refl sample_collect, of "''a'' @ [LF] @ ''b''"
      "''a'' @ [LF] @ ''b''"]
  by auto

text \<open>What a collected observation says about its extent is true: the excerpt is a run of
  at most the requested number of consecutive lines of the source, the counted total is the
  source's, and the observation claims to have read the source in full exactly when the
  excerpt is all of its lines.\<close>

theorem collected_extent_honest:
  assumes "collect_observation h now s p a = Inr ob"
    and "read_within h (root s) p (max_bytes a) = Inr content"
  shows "total_lines ob = Some (int (length (splitlines content)))
    \<and> line_end ob - line_start ob < max 1 (max_lines a)
    \<and> excerpt ob = lines_at content (line_start ob) (line_end ob)
    \<and> (read_in_full ob = Some True \<longleftrightarrow>
         line_end ob - line_start ob + (if splitlines content = [] then 0 else 1)
           = int (length (splitlines content)))"
proof -
  obtain start where c: "excerpt_of content (max_lines a) start =
      Inr (excerpt ob, line_start ob, line_end ob)"
    "total_lines ob = Some (int (length (splitlines content)))"
    using collect_Inr [OF assms(1)] assms(2) by (metis sum.inject(2))
  note e = excerpt_of_Inr [OF c(1)]
  show ?thesis
  proof (cases "splitlines content = []")
    case True
    then show ?thesis using e c(2) by (auto simp: read_in_full_def)
  next
    case False
    then show ?thesis using e c(2) by (auto simp: read_in_full_def)
  qed
qed

theorem collected_extent_honest_witness:
  "total_lines sample_collected = Some 2 \<and> read_in_full sample_collected = Some True"
  using collected_extent_honest [OF sample_collect, of "''a'' @ [LF] @ ''b''"]
  by simp (simp add: sample_collected_def sample_observation_def)

text \<open>A drift check that returns is exact: it reports a consistent state if and only if
  the snapshot identity of the root is unchanged and every observation of the run is a local
  file whose text, read again, has the recorded digest and the recorded excerpt at its lines.\<close>

theorem drift_consistent_iff:
  assumes "detect_drift h s obs = Inr rep" and "distinct (map source_id obs)"
  shows "is_consistent rep \<longleftrightarrow>
    snap_id (take_snapshot h [] (root s)) = snap_id s
    \<and> (\<forall>ob \<in> set obs. is_verifiable ob \<and> source_type ob = ''local_file''
        \<and> (\<exists>content. read_within h (root s) (path ob) None = Inr content
             \<and> sha h content = content_sha256 ob
             \<and> lines_at content (line_start ob) (line_end ob) = excerpt ob))"
proof -
  obtain vs where v: "verify_all h obs (root s) = Inr vs"
    "rep = \<lparr>head_moved = has_moved h s, not_evidence = filter (\<lambda>(_, v). \<not> is_evidence v) vs\<rparr>"
    using assms(1) by (auto simp: detect_drift_def bind_res_Inr)
  have l: "list_all2 (\<lambda>ob kv. fst kv = source_id ob \<and>
      verify_observation h ob (root s) = Inr (snd kv)) obs vs"
    by (rule verify_all_Inr [OF v(1) assms(2)])
  have "(\<forall>kv \<in> set vs. is_evidence (snd kv)) \<longleftrightarrow>
      (\<forall>ob \<in> set obs. is_verifiable ob \<and> source_type ob = ''local_file''
        \<and> (\<exists>content. read_within h (root s) (path ob) None = Inr content
             \<and> sha h content = content_sha256 ob
             \<and> lines_at content (line_start ob) (line_end ob) = excerpt ob))"
    using l
  proof (induction rule: list_all2_induct)
    case Nil
    then show ?case by simp
  next
    case (Cons ob obs kv vs)
    then show ?case using verify_fresh_iff [of h ob "root s" "snd kv"] by auto
  qed
  then show ?thesis
    using v(2) by (auto simp: is_consistent_def has_moved_def filter_empty_conv)
qed

theorem drift_consistent_iff_witness:
  "\<exists>rep. detect_drift sample_host sample_snapshot [sample_collected] = Inr rep
     \<and> (is_consistent rep \<longleftrightarrow> snap_id (take_snapshot sample_host [] ''/r'') = ''s0'')"
proof -
  obtain v where v: "verify_observation sample_host sample_collected (root sample_snapshot) = Inr v"
    using verify_returns [of sample_host "root sample_snapshot" sample_collected] by auto
  then obtain rep where r: "detect_drift sample_host sample_snapshot [sample_collected] = Inr rep"
    by (auto simp: detect_drift_def verify_all_def)
  show ?thesis
    using drift_consistent_iff [OF r] r
    by (auto simp: sample_snapshot_def sample_collected_def sample_observation_def sample_host_def
        is_verifiable_def unknown_def sample_digest_def numeral_eq_Suc lines_at_def py_slice_def
        slice_index_def)
qed

text \<open>A source whose read fails for any reason other than a refusal or a missing file (a
  permission withdrawn during the run, say) is not reported as drift: the exception leaves
  \<open>verify_observation\<close>, and with it the whole drift check.\<close>

theorem unreadable_source_escapes_drift:
  assumes "is_verifiable ob" and "source_type ob = ''local_file''"
    and "read_within h (root s) (path ob) None = Inl OSError"
  shows "verify_observation h ob (root s) = Inl OSError \<and> detect_drift h s (ob # obs) = Inl OSError"
  using assms by (simp add: verify_observation_def detect_drift_def verify_all_def)

theorem unreadable_source_escapes_drift_witness:
  "detect_drift (sample_host\<lparr>open_file := \<lambda>_. Inl (OpenError OSError)\<rparr>) sample_snapshot
     [sample_collected] = Inl OSError"
  using unreadable_source_escapes_drift [of sample_collected
      "sample_host\<lparr>open_file := \<lambda>_. Inl (OpenError OSError)\<rparr>" sample_snapshot "[]"]
  by simp (simp add: sample_collected_def sample_observation_def)

text \<open>A readable source whose window is one empty line (the text of a single line feed,
  for one) cannot be collected: the excerpt is the empty string, and the observation's
  own validation refuses an empty excerpt that covers a line.\<close>

theorem blank_line_not_collectable:
  assumes "read_within h (root s) p None = Inr [LF]"
  shows "collect_observation h now s p default_collect = Inl ValueError"
  using assms
  by (simp add: collect_observation_def default_collect_def anchor_line_def excerpt_of_def
      default_max_lines_def splitlines_def is_linebreak_def py_slice_def slice_index_def
      create_observation_def mk_observation_def observation_ok_def check_line_range_def)

theorem blank_line_not_collectable_witness:
  "collect_observation (sample_host\<lparr>open_file := \<lambda>_. Inr (1, [LF])\<rparr>) ''t0'' sample_snapshot
     ''empty.txt'' default_collect = Inl ValueError"
  using blank_line_not_collectable [of "sample_host\<lparr>open_file := \<lambda>_. Inr (1, [LF])\<rparr>"
      sample_snapshot "''empty.txt''" "''t0''"] by simp

end
