(* ===== verification/Findings.thy ===== *)
theory Findings
  imports Snapshots
begin

section \<open>Finding.v1 and its citations (atlas_core/finding.py)\<close>

text \<open>
  A finding, what it cites, and the deterministic check of the citations against the run's
  own observations. A reader is what \<open>SourceReader.read\<close> returns now for an observation, or
  raises. \<open>PathRefused\<close> and the \<open>OSError\<close> family are caught by the checks; any other
  exception of a host's reader leaves them.
\<close>

datatype verdict = VVerified | VContradicted | VInsufficient

datatype verification_method = MNone | MDeterministic | MSemantic | MTestExecution

datatype evidence_status =
    UnknownSource | DigestMismatch | QuoteMismatch | StaleSource | UnsupportedSourceType
  | StPathRefused | ExcerptMismatch | QuoteOutsideExcerpt | Intact

fun status_value :: "evidence_status \<Rightarrow> string" where
  "status_value UnknownSource = ''unknown_source''"
| "status_value DigestMismatch = ''digest_mismatch''"
| "status_value QuoteMismatch = ''quote_mismatch''"
| "status_value StaleSource = ''stale_source''"
| "status_value UnsupportedSourceType = ''unsupported_source_type''"
| "status_value StPathRefused = ''path_refused''"
| "status_value ExcerptMismatch = ''excerpt_mismatch''"
| "status_value QuoteOutsideExcerpt = ''quote_outside_excerpt''"
| "status_value Intact = ''intact''"

definition severities :: "string list" where
  "severities = [''P0'', ''P1'', ''P2'', unknown]"

record evidence_ref =
  ref_source :: string
  ref_sha256 :: string
  ref_start :: int
  ref_end :: int
  quoted :: string

definition ref_ok :: "evidence_ref \<Rightarrow> bool" where
  "ref_ok r \<longleftrightarrow> sha256_shape (ref_sha256 r) \<and> 1 \<le> ref_start r \<and> ref_start r \<le> ref_end r
     \<and> quoted r \<noteq> []"

definition mk_ref :: "evidence_ref \<Rightarrow> evidence_ref result" where
  "mk_ref r = (if ref_ok r then Inr r else Inl ValueError)"

record finding =
  finding_id :: string
  claim :: string
  scope :: string
  severity :: string
  severity_rationale :: string
  evidence :: "evidence_ref list"
  verification_method :: verification_method
  verdict :: verdict
  declared_severity :: string
  limitations :: "string list"
  reproducible_command :: string

definition finding_ok :: "finding \<Rightarrow> bool" where
  "finding_ok f \<longleftrightarrow> \<not> blank (claim f) \<and> \<not> blank (scope f) \<and> severity f \<in> set severities
     \<and> \<not> blank (severity_rationale f) \<and> \<not> blank (reproducible_command f)"

definition mk_finding :: "finding \<Rightarrow> finding result" where
  "mk_finding f = (if finding_ok f then Inr f else Inl ValueError)"

definition derive_finding_id :: "(string \<Rightarrow> string) \<Rightarrow> string \<Rightarrow> string \<Rightarrow> string" where
  "derive_finding_id h c sc = take 16 (h (join NUL [c, sc]))"

definition create_finding ::
  "(string \<Rightarrow> string) \<Rightarrow> string \<Rightarrow> string \<Rightarrow> string \<Rightarrow> string \<Rightarrow> evidence_ref list \<Rightarrow> string list
     \<Rightarrow> string \<Rightarrow> finding result" where
  "create_finding h c sc sev why refs lims cmd = mk_finding
     \<lparr>finding_id = derive_finding_id h c sc, claim = c, scope = sc, severity = sev,
      severity_rationale = why, evidence = refs, verification_method = MNone,
      verdict = VInsufficient, declared_severity = sev, limitations = lims,
      reproducible_command = cmd\<rparr>"

subsection \<open>Readers\<close>

type_synonym reader = "observation \<Rightarrow> string result"

definition resolve_readers ::
  "host \<Rightarrow> string \<Rightarrow> (string \<times> reader) list \<Rightarrow> (string \<times> reader) list" where
  "resolve_readers h r extra = dict_set ''local_file'' (\<lambda>ob. read_within h r (path ob) None) extra"

definition is_os_error :: "exc \<Rightarrow> bool" where
  "is_os_error e \<longleftrightarrow> e = FileMissing \<or> e = OSError"

fun is_refusal :: "exc \<Rightarrow> bool" where
  "is_refusal (PathRefused _) = True"
| "is_refusal _ = False"

subsection \<open>Checking citations\<close>

definition lines_raw :: "string \<Rightarrow> int \<Rightarrow> int \<Rightarrow> string" where
  "lines_raw content a b = join [LF] (py_slice (splitlines content) (a - 1) b)"

definition obs_by_id :: "observation list \<Rightarrow> (string \<times> observation) list" where
  "obs_by_id obs = dict_of source_id (\<lambda>ob. ob) obs"

definition check_reference ::
  "(string \<Rightarrow> string) \<Rightarrow> evidence_ref \<Rightarrow> (string \<times> observation) list \<Rightarrow> (string \<times> reader) list
     \<Rightarrow> evidence_status result" where
  "check_reference f r by_id readers =
     (case map_of by_id (ref_source r) of
        None \<Rightarrow> Inr UnknownSource
      | Some ob \<Rightarrow>
     (case map_of readers (source_type ob) of
        None \<Rightarrow> Inr UnsupportedSourceType
      | Some rd \<Rightarrow>
        if ref_sha256 r \<noteq> content_sha256 ob then Inr DigestMismatch
        else if ref_start r < line_start ob \<or> line_end ob < ref_end r then Inr QuoteOutsideExcerpt
        else (case rd ob of
          Inl e \<Rightarrow> if is_refusal e then Inr StPathRefused
                   else if is_os_error e then Inr StaleSource else Inl e
        | Inr content \<Rightarrow>
            if f content \<noteq> content_sha256 ob then Inr StaleSource
            else if lines_raw content (line_start ob) (line_end ob) \<noteq> excerpt ob
              then Inr ExcerptMismatch
            else if lines_raw content (ref_start r) (ref_end r) \<noteq> quoted r then Inr QuoteMismatch
            else Inr Intact)))"

record evidence_check =
  ec_verdict :: verdict
  ec_reason :: string
  ec_statuses :: "(string \<times> evidence_status) list"

definition is_supported :: "evidence_check \<Rightarrow> bool" where
  "is_supported c \<longleftrightarrow> ec_verdict c = VVerified"

definition citations_are_sound :: "evidence_check \<Rightarrow> bool" where
  "citations_are_sound c \<longleftrightarrow> ec_statuses c \<noteq> [] \<and> list_all (\<lambda>(_, s). s = Intact) (ec_statuses c)"

definition check_finding ::
  "host \<Rightarrow> finding \<Rightarrow> observation list \<Rightarrow> string \<Rightarrow> (string \<times> reader) list \<Rightarrow> evidence_check result" where
  "check_finding h f obs r extra =
     (if evidence f = [] then
        Inr \<lparr>ec_verdict = VInsufficient,
             ec_reason = ''finding cites no evidence, so nothing supports it'', ec_statuses = []\<rparr>
      else
        bind_res (map_res (\<lambda>rf. bind_res (check_reference (sha h) rf (obs_by_id obs)
                    (resolve_readers h r extra)) (\<lambda>s. Inr (ref_source rf, s))) (evidence f))
        (\<lambda>statuses.
          (let broken = filter (\<lambda>(_, s). s \<noteq> Intact) statuses in
           if broken \<noteq> [] then
             Inr \<lparr>ec_verdict = VInsufficient,
                  ec_reason = ''citations are unusable: '' @
                    join ''; '' (map (\<lambda>(i, s). i @ '': '' @ status_value s) broken),
                  ec_statuses = statuses\<rparr>
           else
             Inr \<lparr>ec_verdict = VInsufficient,
                  ec_reason = ''citations are intact, but no semantic check has established that '' @
                    ''the source supports the claim'',
                  ec_statuses = statuses\<rparr>)))"

definition severity_after :: "verdict \<Rightarrow> finding \<Rightarrow> string" where
  "severity_after v f = (if v = VVerified then declared_severity f else unknown)"

definition add_note :: "string \<Rightarrow> string list \<Rightarrow> string list" where
  "add_note n ls = (if n \<in> set ls then ls else ls @ [n])"

text \<open>\<open>EvidenceCheck.apply_to\<close> builds a new finding, so its validation runs again.\<close>

definition apply_check :: "evidence_check \<Rightarrow> finding \<Rightarrow> finding result" where
  "apply_check c f = mk_finding
     (f\<lparr>severity := severity_after (ec_verdict c) f, verification_method := MDeterministic,
        verdict := ec_verdict c, limitations := add_note (ec_reason c) (limitations f)\<rparr>)"

section \<open>Lemmas\<close>

lemma map_of_obs_by_id:
  "distinct (map source_id obs) \<Longrightarrow> ob \<in> set obs \<Longrightarrow> map_of (obs_by_id obs) (source_id ob) = Some ob"
  unfolding obs_by_id_def by (rule dict_of_lookup)

lemma obs_by_id_Some: "map_of (obs_by_id obs) k = Some ob \<Longrightarrow> ob \<in> set obs \<and> source_id ob = k"
  unfolding obs_by_id_def by (auto dest: dict_of_lookup_Some)

lemma obs_by_id_None: "map_of (obs_by_id obs) k = None \<longleftrightarrow> k \<notin> source_id ` set obs"
  unfolding obs_by_id_def by (rule dict_of_lookup_None)

text \<open>A host's readers never replace the contained local reader.\<close>

lemma resolve_readers_local [simp]:
  "map_of (resolve_readers h r extra) ''local_file'' = Some (\<lambda>ob. read_within h r (path ob) None)"
  by (simp add: resolve_readers_def)

lemma check_reference_intact:
  "check_reference f rf by_id readers = Inr Intact \<longleftrightarrow>
     (\<exists>ob rd content. map_of by_id (ref_source rf) = Some ob
        \<and> map_of readers (source_type ob) = Some rd
        \<and> ref_sha256 rf = content_sha256 ob \<and> line_start ob \<le> ref_start rf
        \<and> ref_end rf \<le> line_end ob \<and> rd ob = Inr content \<and> f content = content_sha256 ob
        \<and> lines_raw content (line_start ob) (line_end ob) = excerpt ob
        \<and> lines_raw content (ref_start rf) (ref_end rf) = quoted rf)"
  by (auto simp: check_reference_def split: option.splits sum.splits if_splits)

lemma check_finding_verdict:
  "check_finding h f obs r extra = Inr c \<Longrightarrow> ec_verdict c = VInsufficient"
  by (auto simp: check_finding_def bind_res_Inr Let_def split: if_splits)

lemma check_finding_statuses:
  assumes "check_finding h f obs r extra = Inr c"
  shows "list_all2 (\<lambda>rf st. fst st = ref_source rf \<and>
      check_reference (sha h) rf (obs_by_id obs) (resolve_readers h r extra) = Inr (snd st))
    (evidence f) (ec_statuses c)"
proof (cases "evidence f = []")
  case True
  with assms show ?thesis by (auto simp: check_finding_def)
next
  case False
  with assms have "map_res (\<lambda>rf. bind_res (check_reference (sha h) rf (obs_by_id obs)
      (resolve_readers h r extra)) (\<lambda>s. Inr (ref_source rf, s))) (evidence f) = Inr (ec_statuses c)"
    by (auto simp: check_finding_def bind_res_Inr Let_def split: if_splits)
  from map_res_Inr [OF this] show ?thesis
    by (auto simp: bind_res_Inr elim!: list_all2_mono)
qed

lemma check_finding_sound:
  assumes "check_finding h f obs r extra = Inr c"
  shows "citations_are_sound c \<longleftrightarrow> evidence f \<noteq> [] \<and> (\<forall>rf \<in> set (evidence f).
    check_reference (sha h) rf (obs_by_id obs) (resolve_readers h r extra) = Inr Intact)"
  using check_finding_statuses [OF assms] unfolding citations_are_sound_def
proof (induction rule: list_all2_induct)
  case Nil
  then show ?case by simp
next
  case (Cons rf refs st sts)
  then show ?case by (cases refs; cases sts; cases st) auto
qed

text \<open>Lines of a window are lines of the excerpt that covers it.\<close>

lemma take_drop_window:
  "a \<le> a' \<Longrightarrow> b' \<le> b \<Longrightarrow> take (b' - a') (drop a' xs) =
     take (b' - a') (drop (a' - a) (take (b - a) (drop a xs)))"
  by (simp add: drop_take min_def)

section \<open>Properties\<close>

text \<open>The citation check alone never establishes nor refutes a claim: whatever the
  finding, the observations and the readers, its verdict is \<open>insufficient_evidence\<close>, the
  finding it is recorded on carries no severity but \<open>unknown\<close>, and the severity the
  producer declared stays beside it.\<close>

theorem check_finding_never_judges:
  assumes "check_finding h f obs r extra = Inr c" and "apply_check c f = Inr f'"
  shows "\<not> is_supported c \<and> verdict f' = VInsufficient \<and> severity f' = unknown
    \<and> declared_severity f' = declared_severity f \<and> claim f' = claim f \<and> evidence f' = evidence f"
  using assms check_finding_verdict [OF assms(1)]
  by (auto simp: apply_check_def mk_finding_def severity_after_def is_supported_def
      split: if_splits)

definition sample_ref :: evidence_ref where
  "sample_ref = \<lparr>ref_source = take 16 sample_digest, ref_sha256 = sample_digest, ref_start = 2,
     ref_end = 2, quoted = ''b''\<rparr>"

definition sample_finding :: finding where
  "sample_finding = \<lparr>finding_id = ''f'', claim = ''c'', scope = ''s'', severity = ''P1'',
     severity_rationale = ''why'', evidence = [sample_ref], verification_method = MNone,
     verdict = VInsufficient, declared_severity = ''P1'', limitations = [],
     reproducible_command = unknown\<rparr>"

lemma sample_reference_intact:
  "check_reference (sha sample_host) sample_ref (obs_by_id [sample_collected])
     (resolve_readers sample_host (root sample_snapshot) []) = Inr Intact"
  by (simp add: check_reference_def sample_ref_def obs_by_id_def dict_of_def sample_collected_def
      sample_observation_def resolve_readers_def sample_host_def lines_raw_def py_slice_def
      slice_index_def)

definition sample_check :: evidence_check where
  "sample_check = \<lparr>ec_verdict = VInsufficient,
     ec_reason = ''citations are intact, but no semantic check has established that '' @
                    ''the source supports the claim'',
     ec_statuses = [(take 16 sample_digest, Intact)]\<rparr>"

lemma sample_check_finding:
  "check_finding sample_host sample_finding [sample_collected] (root sample_snapshot) [] =
     Inr sample_check"
  using sample_reference_intact
  by (simp add: check_finding_def sample_finding_def sample_check_def)
     (simp add: sample_ref_def)

theorem check_finding_never_judges_witness:
  "severity (sample_finding\<lparr>severity := unknown, verification_method := MDeterministic,
     limitations := [ec_reason sample_check]\<rparr>) = unknown \<and> \<not> is_supported sample_check"
proof -
  have "apply_check sample_check sample_finding = Inr (sample_finding\<lparr>severity := unknown,
      verification_method := MDeterministic, limitations := [ec_reason sample_check]\<rparr>)"
    by (simp add: apply_check_def mk_finding_def finding_ok_def sample_finding_def sample_check_def
        severity_after_def add_note_def blank_def is_space_def severities_def unknown_def)
  from check_finding_never_judges [OF sample_check_finding this] show ?thesis by blast
qed

text \<open>C22. Citations are sound exactly when there is at least one and each of them names an
  observation of this run, with the digest the run recorded and lines inside the recorded
  window, and the source, read again now, has that digest, has the recorded excerpt at the
  recorded lines and has the quote at the quoted lines.\<close>

theorem citations_sound_iff:
  assumes "check_finding h f obs r extra = Inr c"
  shows "citations_are_sound c \<longleftrightarrow> evidence f \<noteq> [] \<and> (\<forall>rf \<in> set (evidence f).
    \<exists>ob rd content. map_of (obs_by_id obs) (ref_source rf) = Some ob
      \<and> map_of (resolve_readers h r extra) (source_type ob) = Some rd
      \<and> rd ob = Inr content \<and> sha h content = content_sha256 ob
      \<and> ref_sha256 rf = content_sha256 ob
      \<and> line_start ob \<le> ref_start rf \<and> ref_end rf \<le> line_end ob
      \<and> lines_raw content (line_start ob) (line_end ob) = excerpt ob
      \<and> lines_raw content (ref_start rf) (ref_end rf) = quoted rf)"
  unfolding check_finding_sound [OF assms] check_reference_intact by blast

theorem citations_sound_iff_witness: "citations_are_sound sample_check"
proof -
  have "\<forall>rf \<in> set (evidence sample_finding). check_reference (sha sample_host) rf
      (obs_by_id [sample_collected]) (resolve_readers sample_host (root sample_snapshot) []) = Inr Intact"
    using sample_reference_intact by (simp add: sample_finding_def)
  then show ?thesis
    unfolding citations_sound_iff [OF sample_check_finding] check_reference_intact
    by (auto simp: sample_finding_def)
qed

end
