(* ===== verification/Evidence_Base.thy ===== *)
theory Evidence_Base
  imports Findings
begin

section \<open>The verifiable sources of a run (atlas_core/evidence_base.py)\<close>

text \<open>
  One snapshot and the observations taken against it. The constructor refuses observations of
  another snapshot and a repeated source id; \<open>with_observations\<close> goes through it again.
\<close>

record evidence_base =
  base_snapshot :: snapshot
  base_observations :: "observation list"
  base_readers :: "(string \<times> reader) list"

definition base_ok :: "evidence_base \<Rightarrow> bool" where
  "base_ok b \<longleftrightarrow> (\<forall>ob \<in> set (base_observations b). snapshot_id ob = snap_id (base_snapshot b))
     \<and> distinct (map source_id (base_observations b))"

definition mk_base :: "evidence_base \<Rightarrow> evidence_base result" where
  "mk_base b = (if base_ok b then Inr b else Inl ValueError)"

definition base_root :: "evidence_base \<Rightarrow> string" where
  "base_root b = root (base_snapshot b)"

definition source_ids :: "evidence_base \<Rightarrow> string list" where
  "source_ids b = map source_id (base_observations b)"

definition paths :: "evidence_base \<Rightarrow> string list" where
  "paths b = map path (base_observations b)"

definition is_empty :: "evidence_base \<Rightarrow> bool" where
  "is_empty b \<longleftrightarrow> base_observations b = []"

definition can_reread :: "evidence_base \<Rightarrow> observation \<Rightarrow> bool" where
  "can_reread b ob \<longleftrightarrow> source_type ob = ''local_file'' \<or> source_type ob \<in> fst ` set (base_readers b)"

definition with_observations :: "evidence_base \<Rightarrow> observation list \<Rightarrow> evidence_base result" where
  "with_observations b obs = mk_base (b\<lparr>base_observations := obs\<rparr>)"

lemma mk_base_Inr [simp]: "mk_base b = Inr b' \<longleftrightarrow> base_ok b \<and> b' = b"
  by (auto simp: mk_base_def)

lemma can_reread_reader:
  "can_reread b ob \<longleftrightarrow> map_of (resolve_readers h (base_root b) (base_readers b)) (source_type ob) \<noteq> None"
  by (cases "source_type ob = ''local_file''")
     (simp_all add: can_reread_def resolve_readers_def map_of_eq_None_iff)

end
