(* ===== verification/Claim_Check.thy ===== *)
theory Claim_Check
  imports Evidence_Base
begin

section \<open>Deciding whether a source supports a claim (atlas_core/claim_check.py)\<close>

text \<open>
  Typed claims and free conditions, read from the producer's block, and their settlement
  against the lines the run observed. \<open>checked\<close> is the dictionary a verdict carries; a key
  that is absent is \<open>None\<close>. Paths of tokens are read as \<open>pathlib.Path\<close> reads them on POSIX.
\<close>

datatype claim_kind = CContains | CLacks | CTargetsDiffer
datatype condition_kind = KAbsent | KPresent

fun claim_kind_value :: "claim_kind \<Rightarrow> string" where
  "claim_kind_value CContains = ''source_contains_literal''"
| "claim_kind_value CLacks = ''source_lacks_literal''"
| "claim_kind_value CTargetsDiffer = ''command_targets_differ''"

fun condition_kind_value :: "condition_kind \<Rightarrow> string" where
  "condition_kind_value KAbsent = ''absent''"
| "condition_kind_value KPresent = ''present''"

definition claim_kind_of :: "string \<Rightarrow> claim_kind option" where
  "claim_kind_of s = find (\<lambda>k. claim_kind_value k = s) [CContains, CLacks, CTargetsDiffer]"

definition condition_kind_of :: "string \<Rightarrow> condition_kind option" where
  "condition_kind_of s = find (\<lambda>k. condition_kind_value k = s) [KAbsent, KPresent]"

datatype claim_result =
    CRVerified | CRContradicted | ConditionSupported | ConditionRefuted | NotDeclared
  | ClaimTextMismatch | UnsupportedKind | SourceNotCited | SourceUnavailable

fun result_value :: "claim_result \<Rightarrow> string" where
  "result_value CRVerified = ''verified''"
| "result_value CRContradicted = ''contradicted''"
| "result_value ConditionSupported = ''condition_supported''"
| "result_value ConditionRefuted = ''condition_refuted''"
| "result_value NotDeclared = ''not_declared''"
| "result_value ClaimTextMismatch = ''claim_text_mismatch''"
| "result_value UnsupportedKind = ''unsupported_kind''"
| "result_value SourceNotCited = ''source_not_cited''"
| "result_value SourceUnavailable = ''source_unavailable''"

definition decisive :: "claim_result list" where
  "decisive = [CRVerified, CRContradicted]"

subsection \<open>Typed claims\<close>

record typed_claim =
  tc_kind :: claim_kind
  tc_source :: string
  tc_text :: string
  tc_other :: "string option"
  tc_source_targets :: "string list"
  tc_other_targets :: "string list"

definition typed_ok :: "typed_claim \<Rightarrow> bool" where
  "typed_ok c \<longleftrightarrow> tc_text c \<noteq> [] \<and> tc_source c \<noteq> []
     \<and> (if tc_kind c = CTargetsDiffer
        then (\<exists>x \<in> set_option (tc_other c). x \<noteq> [] \<and> x \<noteq> tc_source c)
        else tc_other c = None \<and> tc_source_targets c = [] \<and> tc_other_targets c = [])"

definition mk_typed :: "typed_claim \<Rightarrow> typed_claim result" where
  "mk_typed c = (if typed_ok c then Inr c else Inl ValueError)"

text \<open>\<open>TypedClaim.render\<close>; the other path is \<open>None\<close> when the caller names none.\<close>

definition render :: "typed_claim \<Rightarrow> string \<Rightarrow> int \<Rightarrow> int \<Rightarrow> string option \<Rightarrow> string result" where
  "render c p a b other =
     (if tc_kind c = CTargetsDiffer then
        (case other of None \<Rightarrow> Inl ValueError
         | Some q \<Rightarrow> Inr (''command '' @ json_str (tc_text c) @ '' targets differ: '' @ p @ ''='' @
             json_str_list (tc_source_targets c) @ ''; '' @ q @ ''='' @
             json_str_list (tc_other_targets c)))
      else Inr (p @ '' lines '' @ str_int a @ ''-'' @ str_int b @ '' '' @
        (if tc_kind c = CContains then ''contain'' else ''do not contain'') @ '' '' @
        json_str (tc_text c)))"

definition typed_holds :: "typed_claim \<Rightarrow> string \<Rightarrow> bool result" where
  "typed_holds c observed = (case tc_kind c of
     CContains \<Rightarrow> Inr (contains observed (tc_text c))
   | CLacks \<Rightarrow> Inr (\<not> contains observed (tc_text c))
   | CTargetsDiffer \<Rightarrow> Inl ValueError)"

record claim_condition =
  cd_kind :: condition_kind
  cd_source :: string
  cd_text :: string

definition mk_condition :: "claim_condition \<Rightarrow> claim_condition result" where
  "mk_condition c = (if cd_text c \<noteq> [] \<and> cd_source c \<noteq> [] then Inr c else Inl ValueError)"

definition condition_holds :: "claim_condition \<Rightarrow> string \<Rightarrow> bool" where
  "condition_holds c observed =
     (if cd_kind c = KAbsent then \<not> contains observed (cd_text c) else contains observed (cd_text c))"

subsection \<open>Verdicts\<close>

record checked =
  ck_kind :: "string option"
  ck_source :: "string option"
  ck_text :: "string option"
  ck_path :: "string option"
  ck_lines :: "(int \<times> int) option"
  ck_in_full :: "bool option option"
  ck_total :: "int option option"
  ck_other_source :: "string option"
  ck_other_path :: "string option"
  ck_targets :: "(string list \<times> string list) option"
  ck_expected :: "string option"

definition no_checked :: checked where
  "no_checked = \<lparr>ck_kind = None, ck_source = None, ck_text = None, ck_path = None, ck_lines = None,
     ck_in_full = None, ck_total = None, ck_other_source = None, ck_other_path = None,
     ck_targets = None, ck_expected = None\<rparr>"

record claim_verdict =
  cv_result :: claim_result
  cv_reason :: string
  cv_checked :: "checked option"

definition is_decisive :: "claim_verdict \<Rightarrow> bool" where
  "is_decisive v \<longleftrightarrow> cv_result v \<in> set decisive"

definition plain :: "claim_result \<Rightarrow> string \<Rightarrow> claim_verdict" where
  "plain r why = \<lparr>cv_result = r, cv_reason = why, cv_checked = None\<rparr>"

subsection \<open>Reading a declaration\<close>

definition string_tuple :: "pyval \<Rightarrow> string list result" where
  "string_tuple v = (case v of
     PList xs \<Rightarrow> map_res (\<lambda>x. case x of PStr s \<Rightarrow> if s \<noteq> [] then Inr s else Inl ValueError
                                   | _ \<Rightarrow> Inl ValueError) xs
   | _ \<Rightarrow> Inl TypeError)"

definition build_typed_claim :: "pyval \<Rightarrow> typed_claim option result" where
  "build_typed_claim payload = (case payload of
     PNone \<Rightarrow> Inr None
   | PDict d \<Rightarrow>
      (case claim_kind_of (str_val (get_or d ''kind'' (PStr []))) of
         None \<Rightarrow> Inl ValueError
       | Some k \<Rightarrow>
          bind_res (get_key d ''source_id'') (\<lambda>sid. bind_res (get_key d ''text'') (\<lambda>txt.
          if k = CTargetsDiffer then
            bind_res (get_key d ''other_source_id'') (\<lambda>oid.
            bind_res (string_tuple (get_or d ''source_targets'' PNone)) (\<lambda>ts.
            bind_res (string_tuple (get_or d ''other_targets'' PNone)) (\<lambda>us.
            bind_res (mk_typed \<lparr>tc_kind = k, tc_source = str_val sid, tc_text = str_val txt,
              tc_other = Some (str_val oid), tc_source_targets = ts, tc_other_targets = us\<rparr>)
              (\<lambda>c. Inr (Some c)))))
          else
            bind_res (mk_typed \<lparr>tc_kind = k, tc_source = str_val sid, tc_text = str_val txt,
              tc_other = None, tc_source_targets = [], tc_other_targets = []\<rparr>)
              (\<lambda>c. Inr (Some c)))))
   | _ \<Rightarrow> Inl TypeError)"

definition build_condition :: "pyval \<Rightarrow> claim_condition option result" where
  "build_condition payload = (case payload of
     PNone \<Rightarrow> Inr None
   | PDict d \<Rightarrow>
      (case condition_kind_of (str_val (get_or d ''kind'' (PStr []))) of
         None \<Rightarrow> Inl ValueError
       | Some k \<Rightarrow>
          bind_res (get_key d ''source_id'') (\<lambda>sid. bind_res (get_key d ''text'') (\<lambda>txt.
          bind_res (mk_condition \<lparr>cd_kind = k, cd_source = str_val sid, cd_text = str_val txt\<rparr>)
            (\<lambda>c. Inr (Some c)))))
   | _ \<Rightarrow> Inl TypeError)"

subsection \<open>The lines the run recorded\<close>

type_synonym observed = "claim_verdict + observation \<times> string"

definition observed_text ::
  "host \<Rightarrow> finding \<Rightarrow> string \<Rightarrow> observation list \<Rightarrow> string \<Rightarrow> (string \<times> reader) list
     \<Rightarrow> observed result" where
  "observed_text h f sid obs r extra =
     (if sid \<notin> ref_source ` set (evidence f) then
        Inr (Inl (plain SourceNotCited (''the check is about '' @ sid @
          '', which this finding does not cite; '' @ ''a claim is settled against what it points at'')))
      else (case map_of (obs_by_id obs) sid of
        None \<Rightarrow> Inr (Inl (plain SourceUnavailable (sid @ '' was not read in this run'')))
      | Some ob \<Rightarrow>
      (case map_of (resolve_readers h r extra) (source_type ob) of
        None \<Rightarrow> Inr (Inl (plain UnsupportedKind (''this run has no reader for a '' @
          py_repr (source_type ob) @ '' source, so '' @ ''its current state cannot be established'')))
      | Some rd \<Rightarrow>
      (case rd ob of
        Inl e \<Rightarrow>
          if is_refusal e then Inr (Inl (plain SourceUnavailable
            (path ob @ '' resolves outside the snapshot root'')))
          else if is_os_error e then Inr (Inl (plain SourceUnavailable
            (path ob @ '' is no longer readable'')))
          else Inl e
      | Inr content \<Rightarrow>
          if sha h content \<noteq> content_sha256 ob then Inr (Inl (plain SourceUnavailable
            (path ob @ '' has changed since it was observed'')))
          else (let seen = lines_raw content (line_start ob) (line_end ob) in
            if seen \<noteq> excerpt ob then Inr (Inl (plain SourceUnavailable (path ob @
              '' no longer matches the excerpt the run recorded '' @ ''for those lines'')))
            else Inr (Inr (ob, seen)))))))"

subsection \<open>Command targets\<close>

function py_replace :: "string \<Rightarrow> string \<Rightarrow> string \<Rightarrow> string" where
  "py_replace [] old new = []"
| "py_replace (c # cs) old new =
     (if old \<noteq> [] \<and> starts_with (c # cs) old
      then new @ py_replace (drop (length old) (c # cs)) old new
      else c # py_replace cs old new)"
  by pat_completeness auto
termination
  by (relation "measure (\<lambda>(s, _, _). length s)") auto

definition path_name :: "string \<Rightarrow> string" where
  "path_name t = (case rev (filter (\<lambda>w. w \<noteq> [] \<and> w \<noteq> ''.'') (split_on (CHR ''/'') t)) of
     [] \<Rightarrow> [] | w # _ \<Rightarrow> w)"

definition quote_chars :: string where "quote_chars = [CHR 0x27, CHR 0x22]"

definition quote_names_command :: "string \<Rightarrow> string \<Rightarrow> bool" where
  "quote_names_command q cmd =
     list_ex (\<lambda>t. path_name (py_replace (lstrip_chars ''./'' (strip_chars quote_chars t)) ''$ROOT/'' []) = cmd)
       (split_ws q)"

definition command_targets :: "string \<Rightarrow> string \<Rightarrow> string list" where
  "command_targets q cmd =
     (let tokens = map (\<lambda>t. py_replace (strip_chars quote_chars t) ''$ROOT/'' []) (split_ws q);
          positions = filter (\<lambda>i. path_name (lstrip_chars ''./'' (tokens ! i)) = cmd) [0..<length tokens]
      in if positions = [] then []
         else map (\<lambda>t. rstrip_chars ''/'' (lstrip_chars ''./'' t))
           (filter (\<lambda>t. CHR ''/'' \<in> set t \<and> \<not> starts_with t ''-'')
             (drop (last positions + 1) tokens)))"

definition targets_from_cited_command :: "finding \<Rightarrow> string \<Rightarrow> string \<Rightarrow> string list option" where
  "targets_from_cited_command f sid cmd =
     (case filter (\<lambda>r. ref_source r = sid \<and> quote_names_command (quoted r) cmd) (evidence f) of
        [r] \<Rightarrow> Some (sorted_set (command_targets (quoted r) cmd)) | _ \<Rightarrow> None)"

subsection \<open>Settling a claim\<close>

definition mismatch_reason :: "string \<Rightarrow> string" where
  "mismatch_reason expected =
     ''the finding'' @ [CHR 0x27] @ ''s text is not what its typed claim says. Expected '' @
     ''exactly: '' @ py_repr expected"

definition check_targets_differ ::
  "host \<Rightarrow> finding \<Rightarrow> typed_claim \<Rightarrow> observation list \<Rightarrow> string \<Rightarrow> (string \<times> reader) list
     \<Rightarrow> claim_verdict result" where
  "check_targets_differ h f c obs r extra =
     (case tc_other c of
        None \<Rightarrow> Inr (plain UnsupportedKind ''command_targets_differ is missing the second source id'')
      | Some oid \<Rightarrow>
        bind_res (observed_text h f (tc_source c) obs r extra) (\<lambda>left. case left of
          Inl v \<Rightarrow> Inr v
        | Inr (lo, _) \<Rightarrow>
        bind_res (observed_text h f oid obs r extra) (\<lambda>right. case right of
          Inl v \<Rightarrow> Inr v
        | Inr (ro, _) \<Rightarrow>
        (case (targets_from_cited_command f (tc_source c) (tc_text c),
               targets_from_cited_command f oid (tc_text c)) of
          (Some lt, Some rt) \<Rightarrow>
            bind_res (render c (path lo) (line_start lo) (line_end lo) (Some (path ro))) (\<lambda>expected.
            let ck = no_checked\<lparr>ck_kind := Some (claim_kind_value (tc_kind c)),
                  ck_source := Some (tc_source c), ck_other_source := Some oid,
                  ck_text := Some (tc_text c), ck_path := Some (path lo),
                  ck_other_path := Some (path ro), ck_targets := Some (lt, rt)\<rparr> in
            if strip (claim f) \<noteq> expected then
              Inr \<lparr>cv_result = ClaimTextMismatch, cv_reason = mismatch_reason expected,
                   cv_checked = Some (ck\<lparr>ck_expected := Some expected\<rparr>)\<rparr>
            else (let al = sort lt; ar = sort rt in
              if al = sort (tc_source_targets c) \<and> ar = sort (tc_other_targets c) \<and> al \<noteq> ar then
                Inr \<lparr>cv_result = CRVerified,
                     cv_reason = expected @ '' '' @ em_dash @
                       '' both target sets were re-derived from the exact '' @ ''cited command lines'',
                     cv_checked = Some ck\<rparr>
              else
                Inr \<lparr>cv_result = CRContradicted,
                     cv_reason = ''the cited command lines refute the declared target drift: '' @
                       ''observed '' @ path lo @ ''='' @ repr_val (PList (map PStr al)) @ '' and '' @
                       path ro @ ''='' @ repr_val (PList (map PStr ar)),
                     cv_checked = Some ck\<rparr>))
        | _ \<Rightarrow> Inr (plain UnsupportedKind
            (''command_targets_differ requires exactly one cited command line '' @
             ''for '' @ py_repr (tc_text c) @ '' in each source''))))))"

definition absence_extent :: "observation \<Rightarrow> string" where
  "absence_extent ob =
     ''. Only lines '' @ str_int (line_start ob) @ ''-'' @ str_int (line_end ob) @
     (case total_lines ob of None \<Rightarrow> [] | Some n \<Rightarrow> '' of '' @ str_int n) @
     '' were read, so this establishes absence from what was '' @ ''searched and not from the source''"

definition check_typed_claim ::
  "host \<Rightarrow> finding \<Rightarrow> typed_claim option \<Rightarrow> observation list \<Rightarrow> string \<Rightarrow> (string \<times> reader) list
     \<Rightarrow> claim_verdict result" where
  "check_typed_claim h f c obs r extra = (case c of
     None \<Rightarrow> Inr (plain NotDeclared
       (''the finding states free text rather than a claim this checker can '' @
        ''settle, so its truth was not established''))
   | Some tc \<Rightarrow>
     if tc_kind tc = CTargetsDiffer then check_targets_differ h f tc obs r extra
     else bind_res (observed_text h f (tc_source tc) obs r extra) (\<lambda>res. case res of
       Inl v \<Rightarrow> Inr v
     | Inr (ob, seen) \<Rightarrow>
       bind_res (render tc (path ob) (line_start ob) (line_end ob) None) (\<lambda>expected.
       if strip (claim f) \<noteq> expected then
         Inr \<lparr>cv_result = ClaimTextMismatch, cv_reason = mismatch_reason expected,
              cv_checked = Some (no_checked\<lparr>ck_expected := Some expected\<rparr>)\<rparr>
       else
         (let ck = no_checked\<lparr>ck_kind := Some (claim_kind_value (tc_kind tc)),
                ck_source := Some (tc_source tc), ck_text := Some (tc_text tc),
                ck_path := Some (path ob), ck_lines := Some (line_start ob, line_end ob),
                ck_in_full := Some (read_in_full ob), ck_total := Some (total_lines ob)\<rparr> in
          bind_res (typed_holds tc seen) (\<lambda>holds.
          if holds then
            Inr \<lparr>cv_result = CRVerified,
                 cv_reason = expected @ '' '' @ em_dash @ '' settled against the lines this run recorded'' @
                   (if tc_kind tc = CLacks \<and> read_in_full ob \<noteq> Some True
                    then absence_extent ob else []),
                 cv_checked = Some ck\<rparr>
          else
            Inr \<lparr>cv_result = CRContradicted,
                 cv_reason = ''the source refutes the finding: '' @ expected @ '' is false'',
                 cv_checked = Some ck\<rparr>)))))"

definition check_condition ::
  "host \<Rightarrow> finding \<Rightarrow> claim_condition option \<Rightarrow> observation list \<Rightarrow> string \<Rightarrow> (string \<times> reader) list
     \<Rightarrow> claim_verdict result" where
  "check_condition h f c obs r extra = (case c of
     None \<Rightarrow> Inr (plain NotDeclared
       (''the finding states free text and declares no test of it, so nothing '' @
        ''about the claim was checked''))
   | Some cd \<Rightarrow>
     bind_res (observed_text h f (cd_source cd) obs r extra) (\<lambda>res. case res of
       Inl v \<Rightarrow> Inr v
     | Inr (ob, seen) \<Rightarrow>
       (let held = condition_holds cd seen in
        Inr \<lparr>cv_result = (if held then ConditionSupported else ConditionRefuted),
             cv_reason = ''the producer'' @ [CHR 0x27] @ ''s own test ('' @
               condition_kind_value (cd_kind cd) @ '': '' @ py_repr (cd_text cd) @ '' in '' @ path ob @
               '' lines '' @ str_int (line_start ob) @ ''-'' @ str_int (line_end ob) @ '') '' @
               (if held then ''held'' else ''failed'') @
               ''. Nothing checked that this test is a fair test of the finding'' @ [CHR 0x27] @
               ''s text, '' @ ''so it settles the test and not the claim'',
             cv_checked = Some (no_checked\<lparr>ck_kind := Some (condition_kind_value (cd_kind cd)),
               ck_source := Some (cd_source cd), ck_text := Some (cd_text cd),
               ck_path := Some (path ob), ck_lines := Some (line_start ob, line_end ob)\<rparr>)\<rparr>)))"

definition check_claim ::
  "host \<Rightarrow> finding \<Rightarrow> typed_claim option \<Rightarrow> claim_condition option \<Rightarrow> observation list \<Rightarrow> string
     \<Rightarrow> (string \<times> reader) list \<Rightarrow> claim_verdict result" where
  "check_claim h f typed cond obs r extra =
     (if typed \<noteq> None then check_typed_claim h f typed obs r extra
      else check_condition h f cond obs r extra)"

definition apply_verdict :: "finding \<Rightarrow> evidence_check \<Rightarrow> claim_verdict \<Rightarrow> finding result" where
  "apply_verdict f ec cv =
     (let decided = citations_are_sound ec \<and> is_decisive cv;
          v = (if decided then (if cv_result cv = CRVerified then VVerified else VContradicted)
               else VInsufficient);
          m = (if decided then MSemantic else MDeterministic)
      in mk_finding (f\<lparr>severity := severity_after v f, verification_method := m, verdict := v,
           limitations := add_note (cv_reason cv) (add_note (ec_reason ec) (limitations f))\<rparr>))"

section \<open>Lemmas\<close>

text \<open>What a decisive result rests on: the source is cited by the finding, was observed by
  the run, has a reader, and read again now still has the recorded digest and, at the recorded
  lines, the recorded excerpt.\<close>

definition established ::
  "host \<Rightarrow> finding \<Rightarrow> string \<Rightarrow> observation list \<Rightarrow> string \<Rightarrow> (string \<times> reader) list
     \<Rightarrow> observation \<Rightarrow> bool" where
  "established h f sid obs r extra ob \<longleftrightarrow> sid \<in> ref_source ` set (evidence f)
     \<and> map_of (obs_by_id obs) sid = Some ob
     \<and> (\<exists>rd content. map_of (resolve_readers h r extra) (source_type ob) = Some rd
          \<and> rd ob = Inr content \<and> sha h content = content_sha256 ob
          \<and> lines_raw content (line_start ob) (line_end ob) = excerpt ob)"

lemma observed_text_Inr:
  "observed_text h f sid obs r extra = Inr (Inr (ob, seen)) \<longleftrightarrow>
     established h f sid obs r extra ob \<and> seen = excerpt ob"
  by (auto simp: observed_text_def established_def Let_def split: option.splits sum.splits if_splits)

lemma observed_text_not_decisive:
  "observed_text h f sid obs r extra = Inr (Inl v) \<Longrightarrow>
     cv_result v \<noteq> CRVerified \<and> cv_result v \<noteq> CRContradicted"
  by (auto simp: observed_text_def plain_def Let_def split: option.splits sum.splits if_splits)

lemma observed_text_cases:
  assumes "observed_text h f sid obs r extra = Inr res"
  obtains v where "res = Inl v" "cv_result v \<noteq> CRVerified" "cv_result v \<noteq> CRContradicted"
    | ob where "res = Inr (ob, excerpt ob)" "established h f sid obs r extra ob"
proof (cases res)
  case (Inl v)
  with assms observed_text_not_decisive show ?thesis by (metis that(1))
next
  case (Inr p)
  with assms show ?thesis by (cases p) (auto simp: observed_text_Inr intro: that(2))
qed

lemma established_unique:
  "established h f sid obs r extra ob \<Longrightarrow> established h f sid obs r extra ob' \<Longrightarrow> ob' = ob"
  by (simp add: established_def)

lemma is_decisive_iff: "is_decisive v \<longleftrightarrow> cv_result v = CRVerified \<or> cv_result v = CRContradicted"
  by (auto simp: is_decisive_def decisive_def)

text \<open>The sentence a literal claim must be.\<close>

definition says :: "finding \<Rightarrow> typed_claim \<Rightarrow> observation \<Rightarrow> bool" where
  "says f tc ob \<longleftrightarrow>
     render tc (path ob) (line_start ob) (line_end ob) None = Inr (strip (claim f))"

lemma check_typed_claim_literal:
  assumes "check_typed_claim h f (Some tc) obs r extra = Inr v" and "tc_kind tc \<noteq> CTargetsDiffer"
  shows "cv_result v \<noteq> CRVerified \<and> cv_result v \<noteq> CRContradicted
      \<and> (\<forall>ob. established h f (tc_source tc) obs r extra ob \<longrightarrow> \<not> says f tc ob)
    \<or> (\<exists>ob. established h f (tc_source tc) obs r extra ob \<and> says f tc ob
        \<and> cv_result v = (if contains (excerpt ob) (tc_text tc) = (tc_kind tc = CContains)
            then CRVerified else CRContradicted))"
proof -
  from assms obtain res where res: "observed_text h f (tc_source tc) obs r extra = Inr res"
    by (auto simp: check_typed_claim_def bind_res_Inr)
  then show ?thesis
  proof (cases rule: observed_text_cases)
    case (1 w)
    have none: "\<not> established h f (tc_source tc) obs r extra ob" for ob
    proof
      assume "established h f (tc_source tc) obs r extra ob"
      then have "observed_text h f (tc_source tc) obs r extra = Inr (Inr (ob, excerpt ob))"
        by (simp add: observed_text_Inr)
      with res 1 show False by simp
    qed
    from assms res 1 have "v = w" by (auto simp: check_typed_claim_def)
    with 1 none show ?thesis by blast
  next
    case (2 ob)
    from assms(2) obtain k where k: "tc_kind tc = k" "k = CContains \<or> k = CLacks"
      by (cases "tc_kind tc") auto
    have uniq: "ob' = ob" if "established h f (tc_source tc) obs r extra ob'" for ob'
      using 2(2) that by (rule established_unique)
    show ?thesis
    proof (cases "says f tc ob")
      case True
      with assms res 2 k show ?thesis
        by (auto simp: check_typed_claim_def says_def typed_holds_def Let_def render_def
            intro!: disjI2 exI [of _ ob] split: if_splits)
    next
      case False
      with assms res 2 k have "cv_result v = ClaimTextMismatch"
        by (auto simp: check_typed_claim_def says_def typed_holds_def Let_def render_def
            split: if_splits)
      with False uniq show ?thesis by auto
    qed
  qed
qed

lemma check_condition_not_decisive:
  assumes "check_condition h f c obs r extra = Inr v"
  shows "\<not> is_decisive v"
proof (cases c)
  case None
  with assms show ?thesis by (auto simp: check_condition_def is_decisive_iff plain_def)
next
  case (Some cd)
  with assms obtain res where res: "observed_text h f (cd_source cd) obs r extra = Inr res"
    by (auto simp: check_condition_def bind_res_Inr)
  then show ?thesis
    by (cases rule: observed_text_cases)
       (use assms Some res in \<open>auto simp: check_condition_def is_decisive_iff Let_def split: if_splits\<close>)
qed

lemma apply_verdict_fields:
  assumes "apply_verdict f ec cv = Inr g"
  shows "verdict g = (if citations_are_sound ec \<and> is_decisive cv then
            (if cv_result cv = CRVerified then VVerified else VContradicted) else VInsufficient)"
    and "severity g = severity_after (verdict g) f"
    and "declared_severity g = declared_severity f" and "evidence g = evidence f"
    and "claim g = claim f" and "finding_id g = finding_id f"
  using assms by (auto simp: apply_verdict_def mk_finding_def Let_def split: if_splits)

section \<open>Properties\<close>

definition sample_typed :: typed_claim where
  "sample_typed = \<lparr>tc_kind = CContains, tc_source = take 16 sample_digest, tc_text = ''b'',
     tc_other = None, tc_source_targets = [], tc_other_targets = []\<rparr>"

definition sample_sentence :: string where
  "sample_sentence = ''docs/a.md lines 1-2 contain '' @ json_str ''b''"

definition sample_said :: finding where
  "sample_said = sample_finding\<lparr>claim := sample_sentence\<rparr>"

lemma sample_established:
  "established sample_host sample_said (take 16 sample_digest) [sample_collected]
     (root sample_snapshot) [] sample_collected"
  by (simp add: established_def sample_said_def sample_finding_def sample_ref_def obs_by_id_def
      dict_of_def sample_collected_def sample_observation_def resolve_readers_def sample_host_def
      lines_raw_def py_slice_def slice_index_def)

lemma sample_says: "says sample_said sample_typed sample_collected"
  by (simp add: says_def render_def sample_typed_def sample_said_def sample_sentence_def
      sample_finding_def sample_collected_def sample_observation_def)
     (code_simp)

text \<open>C20. A literal claim is verified exactly when the run established its source (the finding
  cites it, the run observed it, and read again now it has the recorded digest and excerpt),
  the finding's text is word for word the sentence the claim renders to, and the literal is in
  the excerpt just when the claim says it is; it is contradicted exactly when the first two
  hold and the third fails.\<close>

theorem literal_claim_settled:
  assumes "check_typed_claim h f (Some tc) obs r extra = Inr v" and "tc_kind tc \<noteq> CTargetsDiffer"
  shows "(cv_result v = CRVerified \<longleftrightarrow>
      (\<exists>ob. established h f (tc_source tc) obs r extra ob \<and> says f tc ob
        \<and> contains (excerpt ob) (tc_text tc) = (tc_kind tc = CContains)))
    \<and> (cv_result v = CRContradicted \<longleftrightarrow>
      (\<exists>ob. established h f (tc_source tc) obs r extra ob \<and> says f tc ob
        \<and> contains (excerpt ob) (tc_text tc) \<noteq> (tc_kind tc = CContains)))"
  using check_typed_claim_literal [OF assms]
proof
  assume none: "cv_result v \<noteq> CRVerified \<and> cv_result v \<noteq> CRContradicted
      \<and> (\<forall>ob. established h f (tc_source tc) obs r extra ob \<longrightarrow> \<not> says f tc ob)"
  then show ?thesis by blast
next
  assume "\<exists>ob. established h f (tc_source tc) obs r extra ob \<and> says f tc ob
        \<and> cv_result v = (if contains (excerpt ob) (tc_text tc) = (tc_kind tc = CContains)
            then CRVerified else CRContradicted)"
  then obtain ob where ob: "established h f (tc_source tc) obs r extra ob" "says f tc ob"
    and v: "cv_result v = (if contains (excerpt ob) (tc_text tc) = (tc_kind tc = CContains)
            then CRVerified else CRContradicted)" by blast
  have "ob' = ob" if "established h f (tc_source tc) obs r extra ob'" for ob'
    using ob(1) that by (rule established_unique)
  with ob have "(\<exists>ob. established h f (tc_source tc) obs r extra ob \<and> says f tc ob \<and> Q ob) \<longleftrightarrow> Q ob"
    for Q by blast
  then show ?thesis by (simp add: v)
qed

lemma sample_checks:
  "\<exists>v. check_typed_claim sample_host sample_said (Some sample_typed) [sample_collected]
     (root sample_snapshot) [] = Inr v"
proof -
  have "observed_text sample_host sample_said (tc_source sample_typed) [sample_collected]
      (root sample_snapshot) [] = Inr (Inr (sample_collected, excerpt sample_collected))"
    using sample_established by (simp add: observed_text_Inr sample_typed_def)
  then show ?thesis
    by (simp add: check_typed_claim_def sample_typed_def render_def typed_holds_def Let_def)
qed

theorem literal_claim_settled_witness:
  "\<exists>v. check_typed_claim sample_host sample_said (Some sample_typed) [sample_collected]
     (root sample_snapshot) [] = Inr v \<and> cv_result v = CRVerified"
proof -
  obtain v where v: "check_typed_claim sample_host sample_said (Some sample_typed)
      [sample_collected] (root sample_snapshot) [] = Inr v" using sample_checks by blast
  have "contains (excerpt sample_collected) (tc_text sample_typed) =
      (tc_kind sample_typed = CContains)" by code_simp
  moreover have "established sample_host sample_said (tc_source sample_typed) [sample_collected]
     (root sample_snapshot) [] sample_collected"
    using sample_established by (simp add: sample_typed_def)
  ultimately have "cv_result v = CRVerified"
    using literal_claim_settled [OF v] sample_says by (auto simp: sample_typed_def)
  with v show ?thesis by blast
qed

text \<open>What a decided drift claim rests on: both sources established, exactly one cited line
  naming the command in each, the finding's text the rendered sentence; \<open>b\<close> says whether the
  re-derived targets are the declared ones and differ.\<close>

definition drift_basis ::
  "host \<Rightarrow> finding \<Rightarrow> typed_claim \<Rightarrow> observation list \<Rightarrow> string \<Rightarrow> (string \<times> reader) list \<Rightarrow> bool
     \<Rightarrow> bool" where
  "drift_basis h f tc obs r extra b \<longleftrightarrow> (\<exists>oid lo ro lt rt. tc_other tc = Some oid
      \<and> established h f (tc_source tc) obs r extra lo \<and> established h f oid obs r extra ro
      \<and> targets_from_cited_command f (tc_source tc) (tc_text tc) = Some lt
      \<and> targets_from_cited_command f oid (tc_text tc) = Some rt
      \<and> render tc (path lo) (line_start lo) (line_end lo) (Some (path ro)) = Inr (strip (claim f))
      \<and> b = (sort lt = sort (tc_source_targets tc) \<and> sort rt = sort (tc_other_targets tc)
          \<and> sort lt \<noteq> sort rt))"

lemma check_targets_differ_verified:
  assumes "check_targets_differ h f tc obs r extra = Inr v"
  shows "(cv_result v = CRVerified \<longleftrightarrow> drift_basis h f tc obs r extra True)
    \<and> (cv_result v = CRContradicted \<longleftrightarrow> drift_basis h f tc obs r extra False)"
proof (cases "tc_other tc")
  case None
  with assms have "cv_result v = UnsupportedKind"
    by (simp add: check_targets_differ_def plain_def) (erule subst, simp)
  with None show ?thesis by (simp add: drift_basis_def)
next
  case (Some oid)
  with assms obtain a where a: "observed_text h f (tc_source tc) obs r extra = Inr a"
    by (auto simp: check_targets_differ_def bind_res_Inr)
  have no: "\<not> established h f sid obs r extra ob"
    if "observed_text h f sid obs r extra = Inr (Inl w)" for sid ob w
  proof
    assume "established h f sid obs r extra ob"
    then have "observed_text h f sid obs r extra = Inr (Inr (ob, excerpt ob))"
      by (simp add: observed_text_Inr)
    with that show False by simp
  qed
  from a show ?thesis
  proof (cases rule: observed_text_cases)
    case (1 w)
    with a no have "\<not> established h f (tc_source tc) obs r extra ob" for ob by blast
    moreover from 1 a Some assms have "v = w" by (simp add: check_targets_differ_def)
    ultimately show ?thesis using 1 by (simp add: drift_basis_def)
  next
    case (2 lo)
    with a Some assms obtain b where b: "observed_text h f oid obs r extra = Inr b"
      by (auto simp: check_targets_differ_def bind_res_Inr)
    from b show ?thesis
    proof (cases rule: observed_text_cases)
      case (1 w)
      with b no have "\<not> established h f oid obs r extra ob" for ob by blast
      moreover from 1 2 a b Some assms have "v = w" by (simp add: check_targets_differ_def)
      ultimately show ?thesis using 1 Some by (simp add: drift_basis_def)
    next
      case ro: (2 ro)
      have ul: "lo' = lo" if "established h f (tc_source tc) obs r extra lo'" for lo'
        using 2(2) that by (rule established_unique)
      have ur: "ro' = ro" if "established h f oid obs r extra ro'" for ro'
        using ro(2) that by (rule established_unique)
      show ?thesis
      proof (cases "targets_from_cited_command f (tc_source tc) (tc_text tc) = None \<or>
          targets_from_cited_command f oid (tc_text tc) = None")
        case True
        then have "cv_result v = UnsupportedKind"
          using assms a b 2(1) ro(1) Some
          by (auto simp: check_targets_differ_def plain_def split: option.splits)
        with True Some show ?thesis by (auto simp: drift_basis_def)
      next
        case False
        then obtain lt rt where t: "targets_from_cited_command f (tc_source tc) (tc_text tc) = Some lt"
          "targets_from_cited_command f oid (tc_text tc) = Some rt" by auto
        then obtain e where e:
          "render tc (path lo) (line_start lo) (line_end lo) (Some (path ro)) = Inr e"
          using assms a b 2(1) ro(1) Some by (auto simp: check_targets_differ_def bind_res_Inr)
        have basis: "drift_basis h f tc obs r extra b' \<longleftrightarrow> strip (claim f) = e \<and>
            b' = (sort lt = sort (tc_source_targets tc) \<and> sort rt = sort (tc_other_targets tc)
              \<and> sort lt \<noteq> sort rt)" for b'
        proof
          assume "drift_basis h f tc obs r extra b'"
          then obtain lo' ro' where est: "established h f (tc_source tc) obs r extra lo'"
            "established h f oid obs r extra ro'"
            and "render tc (path lo') (line_start lo') (line_end lo') (Some (path ro')) =
              Inr (strip (claim f))"
            and "b' = (sort lt = sort (tc_source_targets tc) \<and> sort rt = sort (tc_other_targets tc)
              \<and> sort lt \<noteq> sort rt)"
            by (auto simp: drift_basis_def Some t)
          with ul [OF est(1)] ur [OF est(2)] e show "strip (claim f) = e \<and>
            b' = (sort lt = sort (tc_source_targets tc) \<and> sort rt = sort (tc_other_targets tc)
              \<and> sort lt \<noteq> sort rt)" by simp
        next
          assume "strip (claim f) = e \<and> b' = (sort lt = sort (tc_source_targets tc) \<and>
            sort rt = sort (tc_other_targets tc) \<and> sort lt \<noteq> sort rt)"
          with 2(2) ro(2) Some t e show "drift_basis h f tc obs r extra b'"
            unfolding drift_basis_def by (intro exI conjI) simp_all
        qed
        show ?thesis
        proof (cases "strip (claim f) = e")
          case True
          then have "cv_result v = (if sort lt = sort (tc_source_targets tc) \<and>
              sort rt = sort (tc_other_targets tc) \<and> sort lt \<noteq> sort rt
              then CRVerified else CRContradicted)"
            using assms a b 2(1) ro(1) Some t e
            by (auto simp: check_targets_differ_def Let_def split: if_splits)
          with True show ?thesis unfolding basis by auto
        next
          case False
          then have "cv_result v = ClaimTextMismatch"
            using assms a b 2(1) ro(1) Some t e by (auto simp: check_targets_differ_def Let_def)
          with False show ?thesis unfolding basis by simp
        qed
      qed
    qed
  qed
qed


definition drift_host :: host where
  "drift_host = sample_host\<lparr>open_file :=
     (\<lambda>p. Inr (7, if ends_with p ''/a'' then ''ruff x/'' else ''ruff y/''))\<rparr>"

definition drift_left :: observation where
  "drift_left = sample_observation\<lparr>source_id := ''i1'', path := ''a'', excerpt := ''ruff x/''\<rparr>"

definition drift_right :: observation where
  "drift_right = sample_observation\<lparr>source_id := ''i2'', path := ''b'', excerpt := ''ruff y/''\<rparr>"

definition drift_claim :: typed_claim where
  "drift_claim = \<lparr>tc_kind = CTargetsDiffer, tc_source = ''i1'', tc_text = ''ruff'',
     tc_other = Some ''i2'', tc_source_targets = [''x''], tc_other_targets = [''y'']\<rparr>"

definition drift_finding :: finding where
  "drift_finding = sample_finding\<lparr>
     claim := ''command '' @ json_str ''ruff'' @ '' targets differ: a='' @ json_str_list [''x''] @
       ''; b='' @ json_str_list [''y''],
     evidence := [sample_ref\<lparr>ref_source := ''i1'', quoted := ''ruff x/''\<rparr>,
                  sample_ref\<lparr>ref_source := ''i2'', quoted := ''ruff y/''\<rparr>]\<rparr>"

lemma drift_established:
  "established drift_host drift_finding ''i1'' [drift_left, drift_right] r [] drift_left"
  "established drift_host drift_finding ''i2'' [drift_left, drift_right] r [] drift_right"
  by (simp_all add: established_def drift_finding_def sample_finding_def sample_ref_def
      obs_by_id_def dict_of_def drift_left_def drift_right_def sample_observation_def
      resolve_readers_def drift_host_def sample_host_def lines_raw_def py_slice_def
      slice_index_def splitlines_def is_linebreak_def ends_with_def)

lemma drift_targets:
  "targets_from_cited_command drift_finding ''i1'' ''ruff'' = Some [''x'']"
  "targets_from_cited_command drift_finding ''i2'' ''ruff'' = Some [''y'']"
  by code_simp+

lemma drift_sentence:
  "render drift_claim (path drift_left) (line_start drift_left) (line_end drift_left)
     (Some (path drift_right)) = Inr (strip (claim drift_finding))"
  by code_simp

lemma drift_checks:
  "\<exists>v. check_typed_claim drift_host drift_finding (Some drift_claim) [drift_left, drift_right]
     r [] = Inr v"
proof -
  have "observed_text drift_host drift_finding ''i1'' [drift_left, drift_right] r [] =
      Inr (Inr (drift_left, excerpt drift_left))"
    "observed_text drift_host drift_finding ''i2'' [drift_left, drift_right] r [] =
      Inr (Inr (drift_right, excerpt drift_right))"
    using drift_established by (simp_all add: observed_text_Inr)
  moreover have "tc_kind drift_claim = CTargetsDiffer" "tc_source drift_claim = ''i1''"
    "tc_text drift_claim = ''ruff''" "tc_other drift_claim = Some ''i2''"
    by (simp_all add: drift_claim_def)
  ultimately show ?thesis
    using drift_sentence
    by (simp add: check_typed_claim_def check_targets_differ_def drift_targets Let_def)
qed


text \<open>C19. Whatever a producer declared, a finding comes out of the three checks with a
  verdict other than \<open>insufficient_evidence\<close> only if it declared a typed claim, cites at least
  one source, every citation is intact when its source is read again, and the claim was
  settled; the verdict is then the claim's, and the declared severity stands only on
  \<open>verified\<close>. A condition alone decides nothing.\<close>

theorem verdict_needs_typed_claim:
  assumes "check_finding h f obs r extra = Inr ec"
    and "check_claim h f typed cond obs r extra = Inr cv"
    and "apply_verdict f ec cv = Inr g"
  shows "verdict g = VInsufficient \<and> severity g = unknown \<or>
    (typed \<noteq> None \<and> evidence f \<noteq> [] \<and> is_decisive cv
     \<and> (\<forall>rf \<in> set (evidence f). check_reference (sha h) rf (obs_by_id obs)
          (resolve_readers h r extra) = Inr Intact)
     \<and> verdict g = (if cv_result cv = CRVerified then VVerified else VContradicted)
     \<and> severity g = (if cv_result cv = CRVerified then declared_severity f else unknown))"
proof (cases "citations_are_sound ec \<and> is_decisive cv")
  case False
  with apply_verdict_fields [OF assms(3)] show ?thesis by (simp add: severity_after_def)
next
  case True
  then have "typed \<noteq> None"
    using assms(2) check_condition_not_decisive [of h f cond obs r extra cv]
    by (cases typed) (auto simp: check_claim_def)
  with True check_finding_sound [OF assms(1)] apply_verdict_fields [OF assms(3)]
  show ?thesis by (simp add: severity_after_def)
qed

lemma check_finding_cong: "evidence f = evidence g \<Longrightarrow> check_finding h f = check_finding h g"
  by (simp add: check_finding_def fun_eq_iff)

lemma sample_said_check: "check_finding sample_host sample_said [sample_collected]
    (root sample_snapshot) [] = Inr sample_check"
  using sample_check_finding check_finding_cong [of sample_said sample_finding sample_host]
  by (simp add: sample_said_def)

lemma apply_verdict_total:
  "finding_ok f \<Longrightarrow> declared_severity f \<in> set severities \<Longrightarrow> \<exists>g. apply_verdict f ec cv = Inr g"
  by (auto simp: apply_verdict_def mk_finding_def finding_ok_def severity_after_def Let_def
      severities_def)

lemma sample_said_ok: "finding_ok sample_said \<and> declared_severity sample_said \<in> set severities"
  by code_simp

theorem verdict_needs_typed_claim_witness:
  "\<exists>cv g. check_claim sample_host sample_said (Some sample_typed) None [sample_collected]
     (root sample_snapshot) [] = Inr cv \<and> apply_verdict sample_said sample_check cv = Inr g
   \<and> (severity g = unknown \<or>
      is_decisive cv \<and> severity g = (if cv_result cv = CRVerified then ''P1'' else unknown))"
proof -
  obtain cv where "check_typed_claim sample_host sample_said (Some sample_typed)
      [sample_collected] (root sample_snapshot) [] = Inr cv" using sample_checks by blast
  then have cv: "check_claim sample_host sample_said (Some sample_typed) None
      [sample_collected] (root sample_snapshot) [] = Inr cv" by (simp add: check_claim_def)
  obtain g where g: "apply_verdict sample_said sample_check cv = Inr g"
    using apply_verdict_total sample_said_ok by blast
  have "declared_severity sample_said = ''P1''"
    by (simp add: sample_said_def sample_finding_def)
  with verdict_needs_typed_claim [OF sample_said_check cv g]
  have "severity g = unknown \<or>
      is_decisive cv \<and> severity g = (if cv_result cv = CRVerified then ''P1'' else unknown)"
    by auto
  with cv g show ?thesis by blast
qed

end
