(* ===== verification/Evidence.thy ===== *)
theory Evidence
  imports Claim_Check
begin

section \<open>Reading findings out of an output (atlas_core/evidence.py)\<close>

text \<open>
  The sources a prose context names, the bullets under the findings headings, and the
  machine-readable block. \<open>loads\<close> is \<open>json.loads\<close> and \<open>f\<close> the SHA-256 of a text. A block that
  cannot be used carries the exception that made it so; an exception the reader does not
  catch leaves \<open>structured_findings\<close> as an error.
\<close>

definition findings_fence :: string where "findings_fence = ''atlas-findings''"
definition findings_fence_v2 :: string where "findings_fence_v2 = ''atlas-findings.v2''"
definition memory_prefix :: string where "memory_prefix = ''Durable memory''"

subsection \<open>Sources and bullets\<close>

definition looks_like_a_path :: "string \<Rightarrow> bool" where
  "looks_like_a_path c \<longleftrightarrow> c \<noteq> [] \<and> CHR '' '' \<notin> set c \<and> (CHR ''/'' \<in> set c \<or> CHR ''.'' \<in> set c)"

fun first_label :: "string list \<Rightarrow> string option" where
  "first_label [] = None"
| "first_label (l # ls) =
     (let t = strip l; c = strip (butlast t) in
      if ends_with t '':'' \<and> looks_like_a_path c then Some c else first_label ls)"

definition source_label :: "string \<Rightarrow> string option" where
  "source_label ob = first_label (splitlines ob)"

definition observed_sources :: "string list \<Rightarrow> string list" where
  "observed_sources obs = fold (\<lambda>ob acc.
     if starts_with ob memory_prefix then acc
     else (case source_label ob of None \<Rightarrow> acc
        | Some l \<Rightarrow> if l \<noteq> [] \<and> l \<notin> set acc then acc @ [l] else acc)) obs []"

fun bullets :: "string list \<Rightarrow> bool \<Rightarrow> string list \<Rightarrow> string list" where
  "bullets headings collecting [] = []"
| "bullets headings collecting (l # ls) =
     (let t = strip l in
      if starts_with t ''#'' then bullets headings (list_ex (starts_with t) headings) ls
      else if collecting \<and> starts_with t ''- '' then strip (drop 2 t) # bullets headings collecting ls
      else bullets headings collecting ls)"

definition findings_in :: "string \<Rightarrow> string list \<Rightarrow> string list" where
  "findings_in output headings = bullets headings False (splitlines output)"

definition cites_a_source :: "string \<Rightarrow> string list \<Rightarrow> bool" where
  "cites_a_source finding_text sources = list_ex (contains finding_text) sources"

subsection \<open>The block\<close>

text \<open>
  The pattern \<open>^```(atlas-findings|atlas-findings.v2)\s*\n(.*?)\n^```\<close> with DOTALL and
  MULTILINE: the first line start where it matches, the alternatives and the white space in
  backtracking order, and then the shortest body.
\<close>

definition ticks :: string where "ticks = replicate 3 (CHR 0x60)"

definition block_heads :: "string \<Rightarrow> nat \<Rightarrow> (string \<times> nat) list" where
  "block_heads s i = concat (map (\<lambda>fence. map (\<lambda>j. (fence, j))
     (ends (seqs [Lit ticks, Lit fence, at_least 0 is_space, Lit [LF]]) s i))
     [findings_fence, findings_fence_v2])"

definition closes_at :: "string \<Rightarrow> nat \<Rightarrow> bool" where
  "closes_at s e \<longleftrightarrow> starts_with (drop e s) (LF # ticks)"

definition block_at :: "string \<Rightarrow> nat \<Rightarrow> (string \<times> string) option" where
  "block_at s i =
     (if i = 0 \<or> s ! (i - 1) = LF then
        (case concat (map (\<lambda>(fence, j). map (\<lambda>e. (fence, j, e))
                (filter (closes_at s) [j..<length s])) (block_heads s i)) of
           [] \<Rightarrow> None
         | (fence, j, e) # _ \<Rightarrow> Some (fence, take (e - j) (drop j s)))
      else None)"

definition findings_block :: "string \<Rightarrow> (string \<times> string) option" where
  "findings_block s = (case filter (\<lambda>i. block_at s i \<noteq> None) [0..<length s] of
     [] \<Rightarrow> None | i # _ \<Rightarrow> block_at s i)"

record parsed_findings =
  entries :: "(finding \<times> typed_claim option \<times> claim_condition option) list"
  malformed :: "exc option"
  present :: bool

definition parsed_list :: "parsed_findings \<Rightarrow> finding list" where
  "parsed_list p = map fst (entries p)"

definition parsed_claims :: "parsed_findings \<Rightarrow> string list" where
  "parsed_claims p = map claim (parsed_list p)"

definition producer_keys :: "string list" where
  "producer_keys = [''claim'', ''scope'', ''severity'', ''severity_rationale'', ''evidence'',
     ''typed_claim'', ''claim_check'', ''limitations'', ''reproducible_command'']"

definition build_reference :: "pyval \<Rightarrow> evidence_ref result" where
  "build_reference v = (case v of
     PDict d \<Rightarrow>
       bind_res (get_key d ''source_id'') (\<lambda>sid. bind_res (get_key d ''content_sha256'') (\<lambda>dg.
       bind_res (get_key d ''line_start'') (\<lambda>a. bind_res (py_int a) (\<lambda>ls.
       bind_res (get_key d ''line_end'') (\<lambda>b. bind_res (py_int b) (\<lambda>le.
       bind_res (get_key d ''quoted'') (\<lambda>q.
       mk_ref \<lparr>ref_source = str_val sid, ref_sha256 = str_val dg, ref_start = ls, ref_end = le,
         quoted = str_val q\<rparr>)))))))
   | _ \<Rightarrow> Inl TypeError)"

text \<open>\<open>[str(x) for x in v or []]\<close>: a string is iterated by characters, an object by keys.\<close>

definition str_items :: "pyval \<Rightarrow> string list result" where
  "str_items v = (if \<not> truthy v then Inr [] else (case v of
     PList xs \<Rightarrow> Inr (map str_val xs)
   | PStr s \<Rightarrow> Inr (map (\<lambda>c. [c]) s)
   | PDict d \<Rightarrow> Inr (map fst d)
   | _ \<Rightarrow> Inl TypeError))"

definition build_finding :: "(string \<Rightarrow> string) \<Rightarrow> pyval \<Rightarrow> finding result" where
  "build_finding f v = (case v of
     PDict d \<Rightarrow>
       if \<not> set (map fst d) \<subseteq> set producer_keys then Inl ValueError
       else (case get_or d ''evidence'' PNone of
         PList refs \<Rightarrow>
           bind_res (get_key d ''claim'') (\<lambda>c. bind_res (get_key d ''scope'') (\<lambda>sc.
           bind_res (map_res build_reference refs) (\<lambda>rs.
           bind_res (str_items (get_or d ''limitations'' PNone)) (\<lambda>lims.
           create_finding f (str_val c) (str_val sc) (str_val (get_or d ''severity'' (PStr unknown)))
             (str_val (get_or d ''severity_rationale'' (PStr []))) rs lims
             (str_val (get_or d ''reproducible_command'' (PStr unknown)))))))
       | _ \<Rightarrow> Inl TypeError)
   | _ \<Rightarrow> Inl TypeError)"

definition build_typed :: "pyval \<Rightarrow> typed_claim option result" where
  "build_typed v = (case v of
     PDict d \<Rightarrow> bind_res (build_typed_claim (get_or d ''typed_claim'' PNone)) (\<lambda>t.
       if t \<noteq> None \<and> get_or d ''claim_check'' PNone \<noteq> PNone then Inl ValueError else Inr t)
   | _ \<Rightarrow> Inl TypeError)"

definition build_condition_of :: "pyval \<Rightarrow> claim_condition option result" where
  "build_condition_of v = (case v of
     PDict d \<Rightarrow> build_condition (get_or d ''claim_check'' PNone) | _ \<Rightarrow> Inl TypeError)"

definition build_entry ::
  "(string \<Rightarrow> string) \<Rightarrow> string \<Rightarrow> pyval
     \<Rightarrow> (finding \<times> typed_claim option \<times> claim_condition option) result" where
  "build_entry f fence v =
     bind_res (build_typed v) (\<lambda>t.
       if (\<exists>tc \<in> set_option t. tc_kind tc = CTargetsDiffer) \<and> fence \<noteq> findings_fence_v2
       then Inl ValueError
       else bind_res (build_finding f v) (\<lambda>fd. bind_res (build_condition_of v) (\<lambda>c. Inr (fd, t, c))))"

definition caught :: "exc \<Rightarrow> bool" where
  "caught e \<longleftrightarrow> e \<in> {TypeError, KeyError, ValueError}"

definition unusable :: "exc \<Rightarrow> parsed_findings" where
  "unusable e = \<lparr>entries = [], malformed = Some e, present = True\<rparr>"

definition structured_findings ::
  "(string \<Rightarrow> string) \<Rightarrow> (string \<Rightarrow> pyval result) \<Rightarrow> string \<Rightarrow> parsed_findings result" where
  "structured_findings f loads output = (case findings_block output of
     None \<Rightarrow> Inr \<lparr>entries = [], malformed = None, present = False\<rparr>
   | Some (fence, body) \<Rightarrow>
     (case loads body of
        Inl e \<Rightarrow> if e = JSONDecodeError then Inr (unusable e) else Inl e
      | Inr (PList items) \<Rightarrow>
          (case map_res (build_entry f fence) items of
             Inl e \<Rightarrow> if caught e then Inr (unusable e) else Inl e
           | Inr es \<Rightarrow> Inr \<lparr>entries = es, malformed = None, present = True\<rparr>)
      | Inr _ \<Rightarrow> Inr (unusable TypeError)))"

section \<open>Lemmas\<close>

lemma create_finding_fields:
  assumes "create_finding f c sc sev why refs lims cmd = Inr fd"
  shows "verdict fd = VInsufficient \<and> verification_method fd = MNone
    \<and> finding_id fd = derive_finding_id f (claim fd) (scope fd)
    \<and> declared_severity fd = severity fd \<and> evidence fd = refs \<and> finding_ok fd"
  using assms by (auto simp: create_finding_def mk_finding_def split: if_splits)

lemma build_reference_ok: "build_reference v = Inr r \<Longrightarrow> ref_ok r"
  by (auto simp: build_reference_def bind_res_Inr mk_ref_def split: pyval.splits if_splits)

lemma build_finding_fields:
  assumes "build_finding f v = Inr fd"
  shows "verdict fd = VInsufficient \<and> verification_method fd = MNone
    \<and> finding_id fd = derive_finding_id f (claim fd) (scope fd)
    \<and> declared_severity fd = severity fd \<and> list_all ref_ok (evidence fd) \<and> finding_ok fd"
proof -
  from assms obtain d refs rs c sc sev why lims cmd where
    "map_res build_reference refs = Inr rs"
    "create_finding f c sc sev why rs lims cmd = Inr fd"
    by (auto simp: build_finding_def bind_res_Inr split: pyval.splits if_splits)
  moreover from this(1) have "list_all ref_ok rs"
    by (auto simp: list_all_iff dest!: map_res_set build_reference_ok)
  ultimately show ?thesis using create_finding_fields by metis
qed

lemma build_entry_Inr:
  assumes "build_entry f fence v = Inr (fd, t, c)"
  shows "build_finding f v = Inr fd \<and> build_typed v = Inr t \<and> build_condition_of v = Inr c
    \<and> \<not> ((\<exists>tc. t = Some tc \<and> tc_kind tc = CTargetsDiffer) \<and> fence \<noteq> findings_fence_v2)"
  using assms by (auto simp: build_entry_def bind_res_Inr split: if_splits)

lemma typed_excludes_condition:
  assumes "build_typed v = Inr (Some t)" and "build_condition_of v = Inr c"
  shows "c = None"
  using assms by (auto simp: build_typed_def build_condition_of_def build_condition_def bind_res_Inr
      split: pyval.splits if_splits)

lemma structured_entries:
  assumes "structured_findings f loads output = Inr p" and "(fd, t, c) \<in> set (entries p)"
  obtains fence body v where "findings_block output = Some (fence, body)"
    "build_entry f fence v = Inr (fd, t, c)" "malformed p = None"
  using assms
  by (auto simp: structured_findings_def unusable_def
      split: option.splits sum.splits pyval.splits if_splits dest!: map_res_set)

section \<open>Properties\<close>

text \<open>A producer cannot declare its own success: every finding read from a block carries the
  verdict \<open>insufficient_evidence\<close> and no method, an id derived from its claim and scope and
  well-formed citations; it declares a typed claim or a condition but not both, and a
  command-target claim only in a block of the second version. A block with a fault yields no
  finding at all.\<close>

theorem read_findings_unjudged:
  assumes "structured_findings f loads output = Inr p" and "(fd, t, c) \<in> set (entries p)"
  shows "verdict fd = VInsufficient \<and> verification_method fd = MNone
    \<and> finding_id fd = derive_finding_id f (claim fd) (scope fd)
    \<and> list_all ref_ok (evidence fd) \<and> \<not> (t \<noteq> None \<and> c \<noteq> None) \<and> malformed p = None
    \<and> \<not> ((\<exists>tc. t = Some tc \<and> tc_kind tc = CTargetsDiffer)
        \<and> map_option fst (findings_block output) \<noteq> Some findings_fence_v2)"
proof -
  obtain fence body v where v: "findings_block output = Some (fence, body)"
    "build_entry f fence v = Inr (fd, t, c)" "malformed p = None"
    using structured_entries [OF assms] by blast
  note e = build_entry_Inr [OF v(2)]
  have "c = None" if "t = Some tc" for tc using typed_excludes_condition e that by blast
  with v e build_finding_fields [of f v fd] show ?thesis by (cases t) auto
qed

definition sample_block :: string where
  "sample_block = ticks @ findings_fence @ [LF] @ ''x'' @ [LF] @ ticks"

lemma sample_block_read: "findings_block sample_block = Some (findings_fence, ''x'')"
  by code_simp

definition sample_item :: "string \<Rightarrow> pyval \<Rightarrow> pyval" where
  "sample_item sev line = PDict [(''claim'', PStr ''c''), (''scope'', PStr ''s''),
     (''severity'', PStr sev), (''severity_rationale'', PStr ''w''),
     (''evidence'', PList [PDict [(''source_id'', PStr ''i''),
        (''content_sha256'', PStr sample_digest), (''line_start'', line),
        (''line_end'', PInt 1), (''quoted'', PStr ''q'')]])]"

definition sample_loads :: "pyval \<Rightarrow> string \<Rightarrow> pyval result" where
  "sample_loads v body = Inr (PList [v])"

lemma sample_item_read:
  "\<exists>fd. build_entry (\<lambda>_. sample_digest) findings_fence (sample_item ''P1'' (PInt 1)) = Inr (fd, None, None)"
  by (simp add: build_entry_def sample_item_def build_typed_def build_typed_claim_def get_or_def
      build_finding_def producer_keys_def get_key_def build_reference_def py_int_def mk_ref_def
      ref_ok_def str_items_def create_finding_def mk_finding_def finding_ok_def blank_def
      is_space_def severities_def unknown_def build_condition_of_def build_condition_def)

theorem read_findings_unjudged_witness:
  "\<exists>p fd. structured_findings (\<lambda>_. sample_digest) (sample_loads (sample_item ''P1'' (PInt 1)))
     sample_block = Inr p \<and> entries p = [(fd, None, None)] \<and> verdict fd = VInsufficient"
proof -
  obtain fd where e: "build_entry (\<lambda>_. sample_digest) findings_fence (sample_item ''P1'' (PInt 1)) =
      Inr (fd, None, None)" using sample_item_read by blast
  let ?p = "\<lparr>entries = [(fd, None, None)], malformed = None, present = True\<rparr>"
  have p: "structured_findings (\<lambda>_. sample_digest) (sample_loads (sample_item ''P1'' (PInt 1)))
      sample_block = Inr ?p"
    using e by (simp add: structured_findings_def sample_block_read sample_loads_def)
  have "verdict fd = VInsufficient" using read_findings_unjudged [OF p, of fd None None] by simp
  with p show ?thesis by (intro exI [of _ ?p] exI [of _ fd]) simp
qed

text \<open>A malformed block is not always reported: a citation whose line is an infinite number,
  which the JSON reader accepts, is an \<open>OverflowError\<close>, which the reader does not catch, so
  reading the block raises instead of marking it malformed.\<close>

theorem infinite_line_escapes:
  assumes "findings_block output = Some (findings_fence, body)"
    and "loads body = Inr (PList [sample_item sev (PFloat PosInf t)])"
  shows "structured_findings f loads output = Inl (Foreign ''OverflowError'' [])"
  using assms
  by (simp add: structured_findings_def build_entry_def sample_item_def build_typed_def
      build_typed_claim_def get_or_def build_finding_def producer_keys_def get_key_def
      build_reference_def py_int_def caught_def)

theorem infinite_line_escapes_witness:
  "structured_findings (\<lambda>_. sample_digest) (sample_loads (sample_item ''P1'' (PFloat PosInf ''inf'')))
     sample_block = Inl (Foreign ''OverflowError'' [])"
  by (rule infinite_line_escapes [OF sample_block_read]) (simp add: sample_loads_def)

end
