(* ===== verification/Routing.thy ===== *)
theory Routing
  imports Review_Plan
begin

section \<open>Write detection, routes and plans (safety.py, router.py, planner.py)\<close>

text \<open>
  Keyword tables and their scoring. A route's confidence is a real number; the source's
  decimal literals are taken exactly.
\<close>

definition write_keywords :: "string list" where
  "write_keywords = [''commit'', ''push'', ''merge'', ''delete'', ''remove file'', ''radera'',
     ''ta bort'', ''skapa issue'', ''create issue'', ''open pr'', [CHR 0xF6] @ ''ppna pr'',
     ''create pull request'', [CHR 0xE4] @ ''ndra fil'', ''edit file'', ''write file'',
     ''skriv till'', ''publicera'']"

definition requires_write_approval :: "string \<Rightarrow> bool" where
  "requires_write_approval task = (let t = lower task in list_ex (contains t) write_keywords)"

definition safety_notice :: "string \<Rightarrow> string option" where
  "safety_notice task = (if requires_write_approval task
     then Some (''Task verkar inneh'' @ [CHR 0xE5] @ ''lla en write-'' @ [CHR 0xE5] @
       ''tg'' @ [CHR 0xE4] @ ''rd. Atlas Core '' @ [CHR 0xE4] @ ''r read-only by default '' @
       ''och ska be om explicit godk'' @ [CHR 0xE4] @ ''nnande innan branch, commit, PR, issue eller fil'' @
       [CHR 0xE4] @ ''ndring.'')
     else None)"

subsection \<open>Routes\<close>

record route_spec =
  rt_keywords :: "string list"
  rt_steps :: "string list"
  rt_risk :: string

record route =
  rte_name :: string
  rte_confidence :: real
  rte_reason :: string
  rte_steps :: "string list"
  rte_risk :: string

definition review_verbs :: "string list" where
  "review_verbs = [''granska'', ''review'', ''revidera'', ''g'' @ [CHR 0xE5] @ '' igenom'',
     ''ga igenom'', ''audit'', ''kontrollera'', ''inspektera'', ''check'']"

definition routes :: "(string \<times> route_spec) list" where
  "routes = [
    (''repo_review'', \<lparr>rt_keywords = [''repo'', ''repository'', ''github'', ''kodbas'', ''granska repo'',
       (''f'' @ [CHR 0xF6] @ ''rb'' @ [CHR 0xE4] @ ''ttringar''), ''p0'', ''p1'', ''p2'',
       ''docs-gap''],
       rt_steps = [''observe_repo'', ''summarize'', ''find_gaps'', ''prioritize'',
       ''recommend_pr_slices''], rt_risk = ''medium''\<rparr>),
    (''architecture_decision'', \<lparr>rt_keywords = [''arkitektur'', (''m'' @ [CHR 0xE5] @ ''larkitektur''), ''zero trust'', ''hybrid'',
       ''plattform'', ''integration'', ''risk'', ''ai-assistent''],
       rt_steps = [''requirements'', ''high_level_design'', ''risk_review'', ''options_analysis'',
       ''recommendation''], rt_risk = ''high''\<rparr>),
    (''root_cause'', \<lparr>rt_keywords = [''grundorsak'', ''root cause'', (''varf'' @ [CHR 0xF6] @ ''r''), ''fastnar'',
       ''fel'', ''incident'', ''problem'', ([CHR 0xE5] @ ''terkommer'')],
       rt_steps = [''problem'', ''symptoms_vs_causes'', ''causal_chain'', ''root_cause'', ''actions''], rt_risk = ''medium''\<rparr>),
    (''decision_tradeoff'', \<lparr>rt_keywords = [(''j'' @ [CHR 0xE4] @ ''mf'' @ [CHR 0xF6] @ ''r''), ''beslut'', ''trade-off'',
       ''alternativ'', ''ska jag'', (''vilken v'' @ [CHR 0xE4] @ ''g''), ''rekommendera''],
       rt_steps = [''context'', ''options'', ''tradeoffs'', ''recommendation'', ''next_step''], rt_risk = ''medium''\<rparr>),
    (''learning'', \<lparr>rt_keywords = [(''f'' @ [CHR 0xF6] @ ''rklara''), (''l'' @ [CHR 0xE4] @ ''r mig''),
       (''som nyb'' @ [CHR 0xF6] @ ''rjare''), ''feynman'', ''vad betyder'', ''hur funkar''],
       rt_steps = [''simple_explanation'', ''common_confusion'', ''example'', ''understanding_check''], rt_risk = ''low''\<rparr>),
    (''prompt_improvement'', \<lparr>rt_keywords = [''prompt'', (''f'' @ [CHR 0xF6] @ ''rb'' @ [CHR 0xE4] @ ''ttra prompt''),
       ''router'', ''skill'', ''system prompt''],
       rt_steps = [''diagnose_prompt'', ''identify_failure_modes'', ''rewrite_structure'',
       ''test_cases''], rt_risk = ''low''\<rparr>),
    (''general'', \<lparr>rt_keywords = [],
       rt_steps = [''understand'', ''answer'', ''next_step''], rt_risk = ''low''\<rparr>)]"

definition route_score :: "string \<Rightarrow> route_spec \<Rightarrow> nat" where
  "route_score t spec = length (filter (contains t) (rt_keywords spec))"

text \<open>\<open>scores.sort(key=..., reverse=True)\<close> is stable, so its first element is the first route of
  the table with the highest score.\<close>

definition best_route :: "string \<Rightarrow> string \<times> nat" where
  "best_route t = (let scores = map (\<lambda>(n, spec). (n, route_score t spec)) routes
     in hd (sort_key (\<lambda>(n, s). - int s) scores))"

definition select_route :: "string \<Rightarrow> route" where
  "select_route task =
     (let t = lower task; (bn, bs) = best_route t; topic = detect_topic task;
          weak = (bs = 0 \<and> topic \<noteq> None \<and> list_ex (contains t) review_verbs);
          name = (if bs = 0 then (if weak then ''repo_review'' else ''general'') else bn);
          reason = (if weak then ''Inget nyckelord matchade n'' @ [CHR 0xE5] @
              ''gon route, men uppgiften ber om en granskning och avgr'' @ [CHR 0xE4] @
              ''nsar till '' @ [CHR 0xE4] @ ''mnet '' @ [CHR 0x27] @ tp_code (the topic) @
              [CHR 0x27, CHR ''.'']
            else ''Valde route '' @ [CHR 0x27] @ bn @ [CHR 0x27] @ '' baserat p'' @ [CHR 0xE5] @
              '' '' @ str_nat bs @ '' matchande signal(er).'');
          conf = (if weak then 1 / 2
            else if name \<noteq> ''general'' then min (95 / 100) (55 / 100 + real bs * (12 / 100))
            else 1 / 2);
          spec = the (map_of routes name)
      in \<lparr>rte_name = name, rte_confidence = conf, rte_reason = reason, rte_steps = rt_steps spec,
          rte_risk = rt_risk spec\<rparr>)"

definition list_routes :: "(string \<times> route_spec) list" where "list_routes = routes"

subsection \<open>Plans\<close>

definition reviewing_routes :: "string list" where "reviewing_routes = [''repo_review'']"

record unused_topic =
  ut_topic :: string
  ut_question :: string
  ut_reason :: string

record plan =
  pl_goal :: string
  pl_route :: string
  pl_steps :: "string list"
  pl_stop_conditions :: "string list"
  pl_validation_focus :: "string list"
  pl_review :: "review_plan option"
  pl_unused_topic :: "unused_topic option"

definition validation_focus_of :: "string \<Rightarrow> string list" where
  "validation_focus_of name = (case map_of
     [(''repo_review'', [''verified_sources'', ''p0_p1_p2'', ''small_pr_slices'', ''no_unverified_repo_claims'']),
      (''architecture_decision'', [''requirements_fit'', ''risk_coverage'', ''tradeoff_quality'', ''clear_recommendation'']),
      (''root_cause'', [''symptoms_vs_causes'', ''causal_chain'', ''actionability'', ''confidence'']),
      (''decision_tradeoff'', [''options_are_distinct'', ''tradeoffs_are_real'', ''recommendation_is_clear'']),
      (''learning'', [''simple_explanation'', ''no_jargon'', ''example'', ''understanding_check'']),
      (''prompt_improvement'', [''clear_router_logic'', ''failure_modes'', ''testability'', ''compactness'']),
      (''general'', [''answers_task'', ''clarity'', ''next_step''])] name of
     Some f \<Rightarrow> f | None \<Rightarrow> [''answers_task'', ''clarity''])"

definition build_plan :: "string \<Rightarrow> route \<Rightarrow> string option \<Rightarrow> plan result" where
  "build_plan task r sid =
     (let reviewing = rte_name r \<in> set reviewing_routes in
      bind_res (case sid of
          Some i \<Rightarrow> if reviewing \<and> i \<noteq> [] then bind_res (build_review_plan task i) (\<lambda>p. Inr (Some p))
                    else Inr None
        | None \<Rightarrow> Inr None)
      (\<lambda>review.
        Inr \<lparr>pl_goal = task, pl_route = rte_name r, pl_steps = rte_steps r,
          pl_stop_conditions = [''answer_is_actionable'', ''quality_score_above_threshold'',
            ''max_iterations_reached'', ''write_action_requires_user_approval''],
          pl_validation_focus = validation_focus_of (rte_name r),
          pl_review = review,
          pl_unused_topic = (if review \<noteq> None then None else (case detect_topic task of
              None \<Rightarrow> None
            | Some tp \<Rightarrow> Some \<lparr>ut_topic = tp_code tp, ut_question = tp_question tp,
                ut_reason = (if \<not> reviewing then ''route_has_no_review_contract''
                  else ''no_snapshot'')\<rparr>))\<rparr>))"

section \<open>Lemmas\<close>

lemma best_route_max:
  assumes "best_route t = (n, k)"
  shows "\<exists>spec. (n, spec) \<in> set routes \<and> k = route_score t spec
    \<and> (\<forall>(m, sp) \<in> set routes. route_score t sp \<le> k)"
proof -
  let ?scores = "map (\<lambda>(n, spec). (n, route_score t spec)) routes"
  let ?sorted = "sort_key (\<lambda>(n, s). - int s) ?scores"
  have ne: "?sorted \<noteq> []" using length_sort [of "\<lambda>(n, s). - int s" ?scores]
    by (auto simp: routes_def)
  have hd: "hd ?sorted = (n, k)" using assms by (simp add: best_route_def Let_def)
  then have "(n, k) \<in> set ?scores" using ne by (metis hd_in_set set_sort)
  moreover have "s \<le> k" if "(m, s) \<in> set ?scores" for m s
  proof -
    have "sorted (map (\<lambda>(n, s). - int s) ?sorted)" by simp
    moreover obtain xs where xs: "?sorted = (n, k) # xs" using ne hd by (cases ?sorted) auto
    moreover have "(m, s) \<in> set ?sorted" using that by simp
    ultimately have "(m, s) = (n, k) \<or> - int k \<le> - int s" by (auto simp: case_prod_beta)
    then show ?thesis by auto
  qed
  ultimately show ?thesis by fastforce
qed

lemma code_lower_char: "is_space (lower_char c) \<longleftrightarrow> is_space c"
proof -
  have *: "is_space c \<longleftrightarrow> code c \<in> {9, 10, 11, 12, 13, 28, 29, 30, 31, 32, 133, 160}" for c
    by (cases c) (auto simp: is_space_def code_def)
  show ?thesis
  proof (cases "65 \<le> code c \<and> code c \<le> 90 \<or> 192 \<le> code c \<and> code c \<le> 222 \<and> code c \<noteq> 215")
    case True
    then have "code (lower_char c) = code c + 32" by (auto simp: lower_char_def Let_def code_def)
    with True show ?thesis unfolding * by auto
  next
    case False
    then have "lower_char c = c" by (auto simp: lower_char_def Let_def)
    then show ?thesis by simp
  qed
qed

lemma blank_lower: "blank (lower s) \<longleftrightarrow> blank s"
  by (simp add: blank_def lower_def list_all_iff code_lower_char)

lemma blank_strip: "blank (strip s) \<longleftrightarrow> blank s"
proof -
  have "list_all is_space (dropWhile is_space t) \<longleftrightarrow> list_all is_space t" for t
    by (induction t) auto
  then show ?thesis by (simp add: blank_def strip_def lstrip_def rstrip_def)
qed

lemma blank_contains: "blank s \<Longrightarrow> contains s p \<Longrightarrow> blank p"
  by (auto simp: blank_def contains_iff)

lemma keywords_not_blank:
  "(n, spec) \<in> set routes \<Longrightarrow> k \<in> set (rt_keywords spec) \<Longrightarrow> \<not> blank k"
  unfolding routes_def by (auto simp: blank_def is_space_def)

lemma route_name_cases:
  "rte_name (select_route task) =
     (let (bn, bs) = best_route (lower task) in
      if bs = 0 then (if detect_topic task \<noteq> None \<and> list_ex (contains (lower task)) review_verbs
        then ''repo_review'' else ''general'') else bn)"
  by (auto simp: select_route_def Let_def split: prod.splits)

lemma routes_names:
  "(n, spec) \<in> set routes \<Longrightarrow> n \<in> {''repo_review'', ''architecture_decision'', ''root_cause'',
     ''decision_tradeoff'', ''learning'', ''prompt_improvement'', ''general''}"
  by (auto simp: routes_def)

lemma routes_distinct: "distinct (map fst routes)"
  by (simp add: routes_def)

lemma scored_task_not_blank:
  assumes "(n, spec) \<in> set routes" and "0 < route_score t spec"
  shows "\<not> blank t"
proof -
  from assms(2) obtain k where "k \<in> set (rt_keywords spec)" "contains t k"
    by (auto simp: route_score_def filter_empty_conv)
  with keywords_not_blank [OF assms(1)] show ?thesis using blank_contains by blast
qed

section \<open>Properties\<close>

text \<open>Routing follows the keywords: the selected route is a declared one, and when any route's
  keyword occurs in the task it is a route with the highest score; when none does it is
  \<open>repo_review\<close> if the task names a review topic and asks for a review, and \<open>general\<close> otherwise.\<close>

theorem select_route_best:
  "let t = lower task; name = rte_name (select_route task);
       best = Max ((\<lambda>(n, spec). route_score t spec) ` set routes) in
     name \<in> fst ` set routes
   \<and> (if best = 0
      then name = (if detect_topic task \<noteq> None \<and> list_ex (contains t) review_verbs
        then ''repo_review'' else ''general'')
      else map_option (route_score t) (map_of routes name) = Some best)"
proof -
  let ?t = "lower task"
  obtain bn bs where b: "best_route ?t = (bn, bs)" by fastforce
  obtain spec where spec: "(bn, spec) \<in> set routes" "bs = route_score ?t spec"
    "\<forall>(m, sp) \<in> set routes. route_score ?t sp \<le> bs"
    using best_route_max [OF b] by blast
  have max: "Max ((\<lambda>(n, spec). route_score ?t spec) ` set routes) = bs"
    by (rule Max_eqI) (use spec in force)+
  have look: "map_of routes bn = Some spec"
    using spec(1) routes_distinct by (simp add: map_of_eq_Some_iff)
  have gen: "''general'' \<in> fst ` set routes" "''repo_review'' \<in> fst ` set routes"
    by (simp_all add: routes_def)
  have name: "rte_name (select_route task) =
      (if bs = 0 then (if detect_topic task \<noteq> None \<and> list_ex (contains ?t) review_verbs
        then ''repo_review'' else ''general'') else bn)"
    by (simp add: route_name_cases b)
  have bn: "bn \<in> fst ` set routes" using spec(1) by force
  show ?thesis
    unfolding Let_def max name using look gen bn spec(2) by simp
qed

text \<open>Planning never fails on a routed task: whatever the task, a plan built for its own route
  and a snapshot whose id is not blank exists; it reviews exactly on the reviewing route, is
  bound to that snapshot, asks for at most six patterns, and otherwise names the topic it did
  not act on.\<close>

theorem routed_task_has_plan:
  assumes "\<not> blank sid"
  shows "\<exists>p. build_plan task (select_route task) (Some sid) = Inr p
    \<and> (pl_review p \<noteq> None \<longleftrightarrow> rte_name (select_route task) = ''repo_review'')
    \<and> (case pl_review p of
         None \<Rightarrow> map_option ut_topic (pl_unused_topic p) = map_option tp_code (detect_topic task)
       | Some rp \<Rightarrow> rp_snapshot rp = sid \<and> length (rp_patterns rp) \<le> 6 \<and> pl_unused_topic p = None)"
proof (cases "rte_name (select_route task) = ''repo_review''")
  case True
  obtain bn bs where b: "best_route (lower task) = (bn, bs)" by fastforce
  have "detect_topic task \<noteq> None \<or> \<not> blank (strip task)"
  proof (cases "bs = 0")
    case True
    with b \<open>rte_name (select_route task) = ''repo_review''\<close> show ?thesis
      by (simp add: route_name_cases split: if_splits)
  next
    case False
    with best_route_max [OF b] scored_task_not_blank have "\<not> blank (lower task)" by blast
    then show ?thesis by (simp add: blank_lower blank_strip)
  qed
  then obtain rp where rp: "build_review_plan task sid = Inr rp"
    using build_review_plan_Inr [OF assms] by blast
  then have "length (rp_patterns rp) \<le> 6" "rp_snapshot rp = sid"
    using build_review_plan_fields [OF rp] build_review_plan_ok [OF rp]
    by (auto simp: plan_ok_def max_patterns_def)
  moreover have "sid \<noteq> []" using assms by (auto simp: blank_def)
  ultimately show ?thesis
    using True rp by (simp add: build_plan_def reviewing_routes_def Let_def)
next
  case False
  then show ?thesis
    by (auto simp: build_plan_def reviewing_routes_def Let_def split: option.splits)
qed

theorem routed_task_has_plan_witness:
  "\<exists>p. build_plan ''granska repo'' (select_route ''granska repo'') (Some ''s0'') = Inr p"
proof -
  have "\<not> blank ''s0''" by (simp add: blank_def is_space_def)
  from routed_task_has_plan [OF this, of "''granska repo''"] show ?thesis by blast
qed

end
