(* ===== verification/Review_Producers.thy ===== *)
theory Review_Producers
  imports Review_Plan Evidence Redaction Routing Evidence_Base
begin

section \<open>The deterministic reviewers (atlas_core/review_producers.py)\<close>

text \<open>
  Four producers that read facts off the observed excerpts and state them as typed claims with
  their citations, and the rendering of their findings block. A regular expression of the code
  is an \<open>rx\<close> of \<open>Redaction\<close> or, where a group is read, the scan it stands for.
\<close>

definition quot :: char where "quot = CHR 0x22"
definition tick :: char where "tick = CHR 0x60"

definition test_command_markers :: "string list" where
  "test_command_markers = [''unittest'', ''pytest'']"
definition test_gate_path :: string where
  "test_gate_path = ''.github/workflows/test.yml''"
definition manual_run_path :: string where
  "manual_run_path = ''.github/workflows/run-atlas.yml''"
definition release_metadata_paths :: "string list" where
  "release_metadata_paths = [''VERSION'', ''pyproject.toml'', ''MANIFEST.json'']"
definition parity_gate_path :: string where "parity_gate_path = ''release-check.sh''"
definition parity_policy_path :: string where
  "parity_policy_path = ''scripts/check-gate-parity.py''"
definition setup_prefixes :: "string list" where
  "setup_prefixes = [''uv pip install'', ''uv sync'', ''uv build'', ''uv venv'', ''pip install'']"
definition wrappers :: "string list" where
  "wrappers = [''uv'', ''run'', ''bash'', ''sh'', ''python'', ''python3'', ''./'']"

subsection \<open>Matching\<close>

definition fullmatch :: "rx \<Rightarrow> string \<Rightarrow> bool" where
  "fullmatch r s \<longleftrightarrow> length s \<in> set (ends r s 0)"

definition matches :: "rx \<Rightarrow> string \<Rightarrow> bool" where "matches r s \<longleftrightarrow> ends r s 0 \<noteq> []"

definition spaces :: rx where "spaces = at_least 0 is_space"

definition semver :: rx where
  "semver = seqs [at_least 1 ch_digit, Lit ''.'', at_least 1 ch_digit, Lit ''.'', at_least 1 ch_digit,
     optional (Seq (Cls (\<lambda>c. c \<in> set ''-+'')) (at_least 1 (alnum_or ''.-'')))]"

definition comment :: rx where
  "comment = Seq spaces (optional (Seq (Lit ''#'') (at_least 0 (\<lambda>c. c \<noteq> LF))))"

definition quoted_by :: "char \<Rightarrow> rx" where
  "quoted_by q = seqs [Lit [q], at_least 0 (\<lambda>c. c \<noteq> q), Lit [q]]"

definition string_rx :: rx where "string_rx = Alt (quoted_by quot) (quoted_by (CHR 0x27))"

text \<open>\<open>_KEY\<close> at the start of a text: the name and what follows its closing quote.\<close>

definition key_at :: "string \<Rightarrow> (string \<times> string) option" where
  "key_at s = (case s of
     [] \<Rightarrow> None
   | q # t \<Rightarrow> (let name = takeWhile (\<lambda>c. c \<noteq> q \<and> c \<noteq> CHR 0x5C) t; rest = drop (length name) t in
       if q \<in> {quot, CHR 0x27} \<and> name \<noteq> [] \<and> starts_with rest [q] then Some (name, tl rest) else None))"

text \<open>The text after a colon that follows a key, white space skipped on both sides.\<close>

definition after_colon :: "string \<Rightarrow> string option" where
  "after_colon s = (case lstrip s of [] \<Rightarrow> None
     | c # t \<Rightarrow> if c = CHR '':'' then Some (lstrip t) else None)"

text \<open>\<open>^-?\s*word:\s*\<close> at the start of a line: what follows.\<close>

definition step_value :: "string \<Rightarrow> string \<Rightarrow> string option" where
  "step_value word s =
     (let t = lstrip (if starts_with s ''-'' then tl s else s) in
      if starts_with t (word @ '':'') then Some (lstrip (drop (length word + 1) t)) else None)"

definition run_value :: "string \<Rightarrow> string option" where
  "run_value s = (case step_value ''run'' s of None \<Rightarrow> None
     | Some v \<Rightarrow> if v = [] then None else Some (strip v))"

definition uses_value :: "string \<Rightarrow> string option" where
  "uses_value s = (case step_value ''uses'' s of None \<Rightarrow> None
     | Some v \<Rightarrow> (let w = takeWhile (\<lambda>c. \<not> is_space c) v in if w = [] then None else Some w))"

definition block_scalar_run :: rx where
  "block_scalar_run = seqs [optional (Lit ''-''), spaces, Lit ''run:'', spaces,
     Cls (\<lambda>c. c \<in> set ''|>''), at_least 0 (\<lambda>c. c \<in> set ''-+'' \<or> ch_digit c), comment]"

definition has_block_scalar_run :: "observation \<Rightarrow> bool" where
  "has_block_scalar_run ob = list_ex (\<lambda>raw. fullmatch block_scalar_run (strip raw))
     (splitlines (excerpt ob))"

subsection \<open>The parity policy\<close>

definition assigns :: "string \<Rightarrow> rx" where
  "assigns name = seqs [Lit name, spaces,
     optional (Seq (Lit '':'') (at_least 1 (\<lambda>c. c \<noteq> CHR ''=''))), spaces, Lit ''='']"

definition opens_block :: "string \<Rightarrow> rx" where
  "opens_block name = seqs [assigns name, spaces, Lit ''{'', comment]"

fun until_close :: "string list \<Rightarrow> string list option" where
  "until_close [] = None"
| "until_close (l # ls) = (if fullmatch (Seq (Lit ''}'') comment) l then Some []
     else map_option ((#) l) (until_close ls))"

definition policy_block :: "observation \<Rightarrow> string \<Rightarrow> string list option" where
  "policy_block ob name =
     (let ls = map strip (splitlines (excerpt ob)) in
      case filter (\<lambda>i. matches (assigns name) (ls ! i)) [0..<length ls] of
        [i] \<Rightarrow> if fullmatch (opens_block name) (ls ! i) then until_close (drop (i + 1) ls) else None
      | _ \<Rightarrow> None)"

definition ignorable :: "string \<Rightarrow> bool" where
  "ignorable s \<longleftrightarrow> s = [] \<or> starts_with s ''#''"

definition entry_end :: rx where "entry_end = seqs [spaces, optional (Lit '',''), comment]"

definition scope_entry :: "string \<Rightarrow> (string \<times> bool) option" where
  "scope_entry s = (case key_at s of None \<Rightarrow> None | Some (k, rest) \<Rightarrow>
     if \<not> ends_with k ''.yml'' then None
     else (case after_colon rest of None \<Rightarrow> None | Some v \<Rightarrow>
       if starts_with v ''True'' \<and> fullmatch entry_end (drop 4 v) then Some (k, True)
       else if starts_with v ''False'' \<and> fullmatch entry_end (drop 5 v) then Some (k, False)
       else None))"

fun scope_entries :: "string list \<Rightarrow> (string \<times> bool) list \<Rightarrow> (string \<times> bool) list option" where
  "scope_entries [] d = Some d"
| "scope_entries (l # ls) d = (if ignorable l then scope_entries ls d
     else (case scope_entry l of None \<Rightarrow> None | Some (k, v) \<Rightarrow> scope_entries ls (dict_set k v d)))"

definition workflow_scope :: "observation \<Rightarrow> (string \<times> bool) list option" where
  "workflow_scope ob = (case policy_block ob ''WORKFLOW_SCOPE'' of None \<Rightarrow> None
     | Some body \<Rightarrow> (case scope_entries body [] of None \<Rightarrow> None
         | Some d \<Rightarrow> if d = [] then None else Some d))"

definition exception_value :: rx where
  "exception_value = seqs [Alt string_rx (seqs [Lit ''('', spaces, string_rx, spaces,
     optional (Lit '',''), spaces, Lit '')'']), spaces, optional (Lit '',''), comment]"

fun exception_entries :: "string list \<Rightarrow> bool \<Rightarrow> string list \<Rightarrow> string list option" where
  "exception_entries [] in_value acc = (if in_value then None else Some acc)"
| "exception_entries (l # ls) in_value acc =
     (if ignorable l then exception_entries ls in_value acc
      else if in_value then
        (if fullmatch (Seq (Lit '')'') entry_end) l then exception_entries ls False acc
         else if fullmatch (Seq string_rx entry_end) l then exception_entries ls True acc else None)
      else (case key_at l of None \<Rightarrow> None | Some (k, rest) \<Rightarrow>
        (case after_colon rest of None \<Rightarrow> None | Some v \<Rightarrow>
          if fullmatch (Seq (Lit ''('') comment) v then exception_entries ls True (k # acc)
          else if fullmatch exception_value v then exception_entries ls False (k # acc) else None)))"

definition parity_exceptions :: "observation \<Rightarrow> string list option" where
  "parity_exceptions ob = (case policy_block ob ''EXCEPTIONS'' of None \<Rightarrow> None
     | Some body \<Rightarrow> map_option sorted_set (exception_entries body False []))"

subsection \<open>Commands\<close>

fun skip_wrappers :: "string list \<Rightarrow> string list option" where
  "skip_wrappers [] = Some []"
| "skip_wrappers (t # ts) =
     (if t = ''--extra'' then (case ts of [] \<Rightarrow> None | _ # us \<Rightarrow> skip_wrappers us)
      else if starts_with t ''-'' \<or> t \<in> set wrappers then skip_wrappers ts
      else Some (t # ts))"

definition check_key :: "string \<Rightarrow> string option" where
  "check_key command =
     (let c = py_replace (strip command) [quot] [] in
      if c = [] \<or> starts_with c ''#'' then None
      else if list_ex (starts_with c) setup_prefixes then None
      else (case skip_wrappers (split_ws c) of
          None \<Rightarrow> None
        | Some [] \<Rightarrow> None
        | Some (t # _) \<Rightarrow>
            (let n = path_name (py_replace (lstrip_chars ''./'' t) ''$ROOT/'' []) in
             if n = [] then None else Some n)))"

text \<open>\<open>s.split(maxsplit=1)[1]\<close>, \<open>None\<close> where the list has no second element.\<close>

definition second_part :: "string \<Rightarrow> string option" where
  "second_part s = (let t = lstrip s; rest = lstrip (dropWhile (\<lambda>c. \<not> is_space c) t)
     in if rest = [] then None else Some rest)"

text \<open>The command of one \<open>run_check\<close> line; \<open>None\<close> for a line the scan skips.\<close>

definition run_check_command :: "string \<Rightarrow> string option result" where
  "run_check_command raw =
     (let line = strip raw; rest = drop (length ''run_check '') line in
      if \<not> starts_with line ''run_check '' then Inr None
      else if starts_with rest [quot] then
        (let t = dropWhile (\<lambda>c. c \<noteq> quot) (tl rest) in
         if t = [] then Inr None else Inr (Some (tl t)))
      else if CHR '' '' \<in> set rest then
        (case second_part rest of None \<Rightarrow> Inl (Foreign ''IndexError'' []) | Some c \<Rightarrow> Inr (Some c))
      else Inr (Some []))"

definition unroot :: "string \<Rightarrow> string" where
  "unroot c = py_replace (py_replace c (quot # ''$ROOT'' @ [quot] @ ''/'') []) ''$ROOT/'' []"

fun gate_checks :: "string list \<Rightarrow> (string \<times> string) list \<Rightarrow> (string \<times> string) list result" where
  "gate_checks [] d = Inr d"
| "gate_checks (raw # ls) d = bind_res (run_check_command raw) (\<lambda>c. case c of
       None \<Rightarrow> gate_checks ls d
     | Some cmd \<Rightarrow> (case check_key (unroot cmd) of
           None \<Rightarrow> gate_checks ls d
         | Some k \<Rightarrow> gate_checks ls (dict_set k (strip cmd) d)))"

definition local_gate_checks :: "observation \<Rightarrow> (string \<times> string) list result" where
  "local_gate_checks ob = gate_checks (splitlines (excerpt ob)) []"

definition set_default :: "string \<Rightarrow> string \<Rightarrow> (string \<times> string) list \<Rightarrow> (string \<times> string) list" where
  "set_default k v d = (if k \<in> fst ` set d then d else d @ [(k, v)])"

definition workflow_line ::
  "(string \<times> string) list \<Rightarrow> string \<Rightarrow> (string \<times> string) list \<Rightarrow> (string \<times> string) list" where
  "workflow_line local raw found =
     (let s = strip raw in
      case uses_value s of
        Some u \<Rightarrow>
          if \<not> contains u ''checkout'' \<and> \<not> contains u ''setup-uv'' then
            set_default (last (split_on (CHR ''/'') (hd (split_on (CHR ''@'') u)))) u found
          else found
      | None \<Rightarrow> (case run_value s of
          None \<Rightarrow> found
        | Some c \<Rightarrow>
          if c \<in> {''|'', ''>''} then found
          else (case check_key c of
              None \<Rightarrow> found
            | Some k \<Rightarrow> if k = ''release-check.sh'' then fold (\<lambda>(a, b). set_default a b) local found
                else set_default k c found)))"

definition workflow_checks :: "observation \<Rightarrow> (string \<times> string) list \<Rightarrow> (string \<times> string) list" where
  "workflow_checks ob local = fold (workflow_line local) (splitlines (excerpt ob)) []"

definition targets :: "string \<Rightarrow> string \<Rightarrow> string list" where
  "targets command key =
     (let tokens = map (\<lambda>t. py_replace (py_replace t [quot] []) ''$ROOT/'' []) (split_ws command);
          at_key = dropWhile (\<lambda>t. path_name t \<noteq> key) tokens;
          rest = (if at_key = [] then tokens else tl at_key)
      in sorted_set (map (\<lambda>t. rstrip_chars ''/'' (lstrip_chars ''./'' t))
           (filter (\<lambda>t. CHR ''/'' \<in> set t \<and> \<not> starts_with t ''-'') rest)))"

definition numbered :: "observation \<Rightarrow> (int \<times> string) list" where
  "numbered ob = map (\<lambda>(i, l). (line_start ob + int i, l))
     (zip [0..<length (splitlines (excerpt ob))] (splitlines (excerpt ob)))"

definition the_only :: "'a list \<Rightarrow> 'a option" where
  "the_only xs = (case xs of [x] \<Rightarrow> Some x | _ \<Rightarrow> None)"

definition local_command_line :: "observation \<Rightarrow> string \<Rightarrow> (int \<times> string) option result" where
  "local_command_line ob key = bind_res
     (map_res (\<lambda>(n, raw). bind_res (run_check_command raw) (\<lambda>c.
        Inr (if c \<noteq> None \<and> check_key (unroot (the c)) = Some key then [(n, raw)] else []))) (numbered ob))
     (\<lambda>css. Inr (the_only (concat css)))"

definition workflow_command_line ::
  "(string \<times> observation) list \<Rightarrow> string \<Rightarrow> (observation \<times> int \<times> string) option" where
  "workflow_command_line in_scope key = the_only (concat (map (\<lambda>ob.
     List.map_filter (\<lambda>(n, raw). case run_value (strip raw) of
         None \<Rightarrow> None
       | Some c \<Rightarrow> if c \<notin> {''|'', ''>''} \<and> check_key c = Some key then Some (ob, n, raw) else None)
       (numbered ob)) (sort_key path (map snd in_scope))))"

subsection \<open>Findings\<close>

definition citation_json :: "observation \<Rightarrow> int \<Rightarrow> string \<Rightarrow> pyval" where
  "citation_json ob n quote = PDict [(''source_id'', PStr (source_id ob)),
     (''content_sha256'', PStr (content_sha256 ob)), (''line_start'', PInt n), (''line_end'', PInt n),
     (''quoted'', PStr quote)]"

definition contains_claim :: "observation \<Rightarrow> string \<Rightarrow> typed_claim" where
  "contains_claim ob text = \<lparr>tc_kind = CContains, tc_source = source_id ob, tc_text = text,
     tc_other = None, tc_source_targets = [], tc_other_targets = []\<rparr>"

definition contains_finding ::
  "observation \<Rightarrow> string \<Rightarrow> int \<Rightarrow> string \<Rightarrow> string \<Rightarrow> dict result" where
  "contains_finding ob text n quote limitation =
     bind_res (mk_typed (contains_claim ob text)) (\<lambda>t.
     bind_res (render t (path ob) (line_start ob) (line_end ob) None) (\<lambda>sentence. Inr
       [(''claim'', PStr sentence), (''scope'', PStr (path ob)), (''severity'', PStr unknown),
        (''severity_rationale'', PStr ''Deterministic repository fact; no defect severity is assigned.''),
        (''evidence'', PList [citation_json ob n quote]),
        (''typed_claim'', PDict [(''kind'', PStr (claim_kind_value (tc_kind t))),
          (''source_id'', PStr (tc_source t)), (''text'', PStr (tc_text t))]),
        (''limitations'', PList [PStr limitation]), (''reproducible_command'', PStr unknown)]))"

definition finding_for_marker :: "observation \<Rightarrow> string \<Rightarrow> string \<Rightarrow> dict option result" where
  "finding_for_marker ob marker limitation =
     (case find (\<lambda>(n, l). contains l marker) (numbered ob) of
        None \<Rightarrow> Inr None
      | Some (n, l) \<Rightarrow> bind_res (contains_finding ob marker n l limitation) (\<lambda>f. Inr (Some f)))"

definition target_drift_finding ::
  "observation \<Rightarrow> (string \<times> observation) list \<Rightarrow> string \<Rightarrow> string list \<Rightarrow> string list
     \<Rightarrow> dict option result" where
  "target_drift_finding gate in_scope key lt ct =
     bind_res (local_command_line gate key) (\<lambda>left.
     case (left, workflow_command_line in_scope key) of
       (Some (n1, lq), Some (ob, n2, cq)) \<Rightarrow>
         bind_res (mk_typed \<lparr>tc_kind = CTargetsDiffer, tc_source = source_id gate, tc_text = key,
             tc_other = Some (source_id ob), tc_source_targets = lt, tc_other_targets = ct\<rparr>) (\<lambda>t.
         bind_res (render t (path gate) (line_start gate) (line_end gate) (Some (path ob))) (\<lambda>sentence.
         Inr (Some
           [(''claim'', PStr sentence), (''scope'', PStr (path gate @ '' <-> '' @ path ob)),
            (''severity'', PStr unknown),
            (''severity_rationale'', PStr ''Deterministic gate-parity relation; no defect severity is assigned.''),
            (''evidence'', PList [citation_json gate n1 lq, citation_json ob n2 cq]),
            (''typed_claim'', PDict [(''kind'', PStr (claim_kind_value (tc_kind t))),
              (''source_id'', PStr (tc_source t)), (''other_source_id'', PStr (source_id ob)),
              (''text'', PStr (tc_text t)), (''source_targets'', PList (map PStr (tc_source_targets t))),
              (''other_targets'', PList (map PStr (tc_other_targets t)))]),
            (''limitations'', PList [PStr (''This establishes declared command-target drift between the two observed '' @
       ''command lines; it does not execute either command.'')]),
            (''reproducible_command'', PStr unknown)])))
     | _ \<Rightarrow> Inr None)"

subsection \<open>Rendering\<close>

text \<open>\<open>json.dumps(v, ensure_ascii=False, indent=2)\<close>, nested \<open>n\<close> columns deep.\<close>

definition margin :: "nat \<Rightarrow> string" where "margin n = LF # replicate n (CHR '' '')"

fun pretty :: "nat \<Rightarrow> pyval \<Rightarrow> string" where
  "pretty n (PList xs) = (if xs = [] then ''[]''
     else ''['' @ join '','' (map (\<lambda>x. margin (n + 2) @ pretty (n + 2) x) xs) @ margin n @ '']'')"
| "pretty n (PDict d) = (if d = [] then ''{}''
     else ''{'' @ join '','' (map (\<lambda>(k, v). margin (n + 2) @ json_str k @ '': '' @ pretty (n + 2) v) d)
       @ margin n @ ''}'')"
| "pretty n (PStr s) = json_str s"
| "pretty n (PInt i) = str_int i"
| "pretty n (PBool b) = (if b then ''true'' else ''false'')"
| "pretty n PNone = ''null''"
| "pretty n (PFloat f t) = t"

definition is_relation :: "dict \<Rightarrow> bool" where
  "is_relation f \<longleftrightarrow> (case get_or f ''typed_claim'' PNone of
     PDict t \<Rightarrow> get_or t ''kind'' PNone = PStr (claim_kind_value CTargetsDiffer) | _ \<Rightarrow> False)"

definition render_section :: "string \<Rightarrow> string \<Rightarrow> dict list \<Rightarrow> string" where
  "render_section heading conclusion fs =
     (let bullets = join [LF] (map (\<lambda>f. ''- '' @ str_val (get_or f ''claim'' PNone)) fs);
          fence = (if list_ex is_relation fs then findings_fence_v2 else findings_fence)
      in [LF] @ ''## '' @ heading @ [LF] @ conclusion @ [LF, LF] @ ''## Findings'' @ [LF] @ bullets
         @ [LF, LF] @ ticks @ fence @ [LF] @ pretty 0 (PList (map PDict fs)) @ [LF] @ ticks @ [LF])"

subsection \<open>Test commands\<close>

definition asks_test_command_parity :: "string \<Rightarrow> bool" where
  "asks_test_command_parity task = (let t = lower task in
     (contains t ''testkommando'' \<or> contains t ''test command'')
     \<and> (contains t ''samma'' \<or> contains t ''same''))"

definition step_command :: "string \<Rightarrow> string option" where
  "step_command l = (let s = strip l in
     if starts_with s ''- run:'' then Some (strip (drop 6 s))
     else if starts_with s ''run:'' then Some (strip (drop 4 s)) else None)"

definition single_test_command :: "observation \<Rightarrow> (string \<times> int \<times> string) option" where
  "single_test_command ob = the_only (List.map_filter (\<lambda>(n, l). case step_command l of
       None \<Rightarrow> None
     | Some c \<Rightarrow> if c \<noteq> [] \<and> list_ex (contains c) test_command_markers then Some (c, n, l) else None)
     (numbered ob))"

definition by_path :: "evidence_base \<Rightarrow> string \<Rightarrow> observation option" where
  "by_path b p = map_of (dict_of path (\<lambda>ob. ob) (base_observations b)) p"

definition whole :: "observation \<Rightarrow> bool" where "whole ob \<longleftrightarrow> read_in_full ob = Some True"

definition produce_ci_test_command_parity ::
  "string \<Rightarrow> review_plan \<Rightarrow> evidence_base \<Rightarrow> string result" where
  "produce_ci_test_command_parity task rp b =
     (if rp_topic rp \<noteq> ''ci'' \<or> \<not> asks_test_command_parity task then Inr []
      else (case (by_path b test_gate_path, by_path b manual_run_path) of
        (Some gate, Some manual) \<Rightarrow>
          if \<not> whole gate \<or> \<not> whole manual then Inr []
          else (case (single_test_command gate, single_test_command manual) of
            (Some (gt, gn, gq), Some (mt, mn, mq)) \<Rightarrow>
              bind_res (contains_finding gate gt gn gq (''This establishes the literal command in the ordinary test gate; it does '' @
       ''not establish surrounding runner/environment parity.'')) (\<lambda>f1.
              bind_res (contains_finding manual mt mn mq (''This establishes the literal command in the manual workflow; it does not '' @
       ''establish surrounding runner/environment parity.'')) (\<lambda>f2.
              Inr (render_section ''CI test-command parity''
                ((''De tv'' @ [CHR 0xE5] @ '' observerade workflow-filerna anv'' @ [CHR 0xE4] @
       ''nder '') @
                 (if gt = mt then ''samma'' else ''olika'') @ ('' normaliserade testkommandon. Ordinarie gate: '' @ [CHR 0x60])
                 @ gt @ ([CHR 0x60] @ ''. Manuell k'' @ [CHR 0xF6] @ ''rning: '' @ [CHR 0x60]) @ mt @ ([CHR 0x60] @ ''.'')) [f1, f2])))
          | _ \<Rightarrow> Inr [])
      | _ \<Rightarrow> Inr []))"

subsection \<open>Versions\<close>

definition asks_release_changelog_parity :: "string \<Rightarrow> bool" where
  "asks_release_changelog_parity task = (let t = lower task in contains t ''changelog''
     \<and> list_ex (contains t) [''match'', ''samma'', ''synk'', ''sync'', ([CHR 0xF6] @ ''verens''), ''agree''])"

definition asks_release_metadata_parity :: "string \<Rightarrow> bool" where
  "asks_release_metadata_parity task = (let t = lower task in
     list_ex (contains t) [''manifest.json'', ''pyproject.toml'', ''version metadata'', ''versionsmetadata'']
     \<and> list_ex (contains t) [''samma'', ''synk'', ''sync'', ([CHR 0xF6] @ ''verens''), ''agree'', ''match''])"

text \<open>A version with its line, the line's text and the literal that is claimed.\<close>

type_synonym version_fact = "string \<times> int \<times> string \<times> string"

definition version_file :: "observation \<Rightarrow> version_fact option" where
  "version_file ob = the_only (List.map_filter (\<lambda>(n, l). let v = strip l in
     if v \<noteq> [] \<and> fullmatch semver v then Some (v, n, l, v) else None) (numbered ob))"

definition last_quoted :: "string \<Rightarrow> string" where
  "last_quoted s = rev (takeWhile (\<lambda>c. c \<noteq> quot) (tl (rev s)))"

definition quoted_value :: "rx" where
  "quoted_value = seqs [Lit [quot], at_least 1 (\<lambda>c. c \<noteq> quot), Lit [quot]]"

fun pyproject_lines :: "string \<Rightarrow> (int \<times> string) list \<Rightarrow> version_fact list" where
  "pyproject_lines sec [] = []"
| "pyproject_lines sec ((n, l) # ls) = (let s = strip l in
     if starts_with s ''['' \<and> ends_with s '']'' then pyproject_lines s ls
     else if sec \<noteq> ''[project]'' then pyproject_lines sec ls
     else if fullmatch (seqs [Lit ''version'', spaces, Lit ''='', spaces, quoted_value]) s
         \<and> fullmatch semver (last_quoted s)
       then (last_quoted s, n, l, s) # pyproject_lines sec ls
     else pyproject_lines sec ls)"

definition pyproject_version :: "observation \<Rightarrow> version_fact option" where
  "pyproject_version ob = the_only (pyproject_lines [] (numbered ob))"

definition changelog_line :: "string \<Rightarrow> string option" where
  "changelog_line s = (let t = drop 2 s; u = lstrip t in
     if starts_with s ''##'' \<and> u \<noteq> t \<and> starts_with u ''v'' then
       (let v = takeWhile (\<lambda>c. \<not> is_space c) (tl u) in if fullmatch semver v then Some v else None)
     else None)"

definition changelog_version :: "observation \<Rightarrow> version_fact option" where
  "changelog_version ob = (case List.map_filter (\<lambda>(n, l). map_option (\<lambda>v. (v, n, l, ''## v'' @ v))
       (changelog_line (strip l))) (numbered ob) of [] \<Rightarrow> None | x # _ \<Rightarrow> Some x)"

definition manifest_rx :: rx where
  "manifest_rx = seqs [Lit (quot # ''version'' @ [quot]), spaces, Lit '':'', spaces, quoted_value]"

definition first_match :: "rx \<Rightarrow> string \<Rightarrow> string option" where
  "first_match r s = (case filter (\<lambda>i. ends r s i \<noteq> []) [0..<length s + 1] of
     [] \<Rightarrow> None | i # _ \<Rightarrow> Some (take (hd (ends r s i) - i) (drop i s)))"

definition manifest_version :: "observation \<Rightarrow> version_fact option" where
  "manifest_version ob = the_only (List.map_filter (\<lambda>(n, l). case first_match manifest_rx l of
       None \<Rightarrow> None
     | Some g \<Rightarrow> if fullmatch semver (last_quoted g) then Some (last_quoted g, n, l, g) else None)
     (numbered ob))"

definition produce_release_changelog_parity ::
  "string \<Rightarrow> review_plan \<Rightarrow> evidence_base \<Rightarrow> string result" where
  "produce_release_changelog_parity task rp b =
     (if rp_topic rp \<noteq> ''release_changelog'' \<or> \<not> asks_release_changelog_parity task then Inr []
      else (case (by_path b ''pyproject.toml'', by_path b ''CHANGELOG.md'') of
        (Some pyproject, Some changelog) \<Rightarrow>
          if \<not> whole pyproject then Inr []
          else (case (pyproject_version pyproject, changelog_version changelog) of
            (Some (pv, pn, pq, pl), Some (rv, rn, rq, rl)) \<Rightarrow>
              bind_res (contains_finding pyproject pl pn pq ''This establishes the package version declared in [project].'') (\<lambda>f1.
              bind_res (contains_finding changelog rl rn rq (''This establishes the first semver release heading visible in the bounded '' @
       ''CHANGELOG window selected by the loop.'')) (\<lambda>f2.
              Inr (render_section ''Changelog version parity''
                ((''CHANGELOG-versionen '' @ [CHR 0x60]) @ rv @ ([CHR 0x60] @ '' '') @
                 (if pv = rv then ''matchar'' else ''matchar inte'') @ ('' package-versionen '' @ [CHR 0x60]) @ pv @
                 ([CHR 0x60] @ '' i pyproject.toml.'')) [f1, f2])))
          | _ \<Rightarrow> Inr [])
      | _ \<Rightarrow> Inr []))"

definition version_of :: "string \<Rightarrow> observation \<Rightarrow> version_fact option" where
  "version_of p ob = (if p = ''VERSION'' then version_file ob
     else if p = ''pyproject.toml'' then pyproject_version ob else manifest_version ob)"

definition metadata_facts :: "evidence_base \<Rightarrow> (string \<times> observation \<times> version_fact) option list" where
  "metadata_facts b = map (\<lambda>p. Option.bind (by_path b p) (\<lambda>ob. if \<not> whole ob then None
     else map_option (\<lambda>v. (p, ob, v)) (version_of p ob))) release_metadata_paths"

definition produce_release_metadata_parity ::
  "string \<Rightarrow> review_plan \<Rightarrow> evidence_base \<Rightarrow> string result" where
  "produce_release_metadata_parity task rp b =
     (if rp_topic rp \<noteq> ''release_metadata'' \<or> \<not> asks_release_metadata_parity task then Inr []
      else if None \<in> set (metadata_facts b) then Inr []
      else (let facts = map the (metadata_facts b);
                versions = map (\<lambda>(p, ob, v, _). v) facts;
                unique = sorted_set versions in
        bind_res (map_res (\<lambda>(p, ob, v, n, q, l). contains_finding ob l n q (''This establishes only the version literal in this observed source; cross-source '' @
       ''agreement is computed deterministically.'')) facts)
          (\<lambda>fs. Inr (render_section ''Package version metadata parity''
            (if length unique = 1 then
               (''De tre observerade package-metadata-k'' @ [CHR 0xE4] @
       ''llorna anger samma version: '' @ [CHR 0x60]) @ hd unique @ ([CHR 0x60] @ ''.'')
             else ''De observerade package-versionerna skiljer sig: '' @
               join '', '' (map (\<lambda>(p, ob, v, _). p @ ''='' @ v) facts) @ ''.'') fs))))"

subsection \<open>Gate parity\<close>

text \<open>The enabled workflows with their observations; \<open>None\<close> when one is missing or partial.\<close>

definition scope_observations ::
  "evidence_base \<Rightarrow> (string \<times> bool) list \<Rightarrow> (string \<times> observation) list option" where
  "scope_observations b sc =
     (let obs = map (\<lambda>(n, _). (n, by_path b (''.github/workflows/'' @ n))) (filter snd sc) in
      if list_all (\<lambda>(_, o'). case o' of None \<Rightarrow> False | Some ob \<Rightarrow> whole ob) obs
      then Some (map (\<lambda>(n, o'). (n, the o')) obs) else None)"

definition ci_checks ::
  "(string \<times> observation) list \<Rightarrow> (string \<times> string) list \<Rightarrow> (string \<times> string) list" where
  "ci_checks in_scope local = fold (\<lambda>(_, ob). fold (\<lambda>(k, c). set_default k c) (workflow_checks ob local))
     in_scope []"

definition keys_of :: "(string \<times> 'v) list \<Rightarrow> string list" where
  "keys_of d = sorted_set (map fst d)"

definition target_drift_line :: "string \<Rightarrow> string list \<Rightarrow> string list \<Rightarrow> string" where
  "target_drift_line k lt ct = ''target drift for '' @ k @ '': local='' @ repr_val (PList (map PStr lt)) @
     '' ci='' @ repr_val (PList (map PStr ct))"

text \<open>The shared checks whose targets differ, each with its finding; \<open>None\<close> when one of them has
  no checkable relation.\<close>

fun target_drifts ::
  "observation \<Rightarrow> (string \<times> observation) list \<Rightarrow> (string \<times> string) list \<Rightarrow> (string \<times> string) list
     \<Rightarrow> string list \<Rightarrow> (dict \<times> string) list option result" where
  "target_drifts gate sc local ci [] = Inr (Some [])"
| "target_drifts gate sc local ci (k # ks) =
     (let lt = targets (the (map_of local k)) k; ct = targets (the (map_of ci k)) k in
      if lt = ct then target_drifts gate sc local ci ks
      else bind_res (target_drift_finding gate sc k lt ct) (\<lambda>f. case f of
          None \<Rightarrow> Inr None
        | Some rel \<Rightarrow> bind_res (target_drifts gate sc local ci ks) (\<lambda>more.
            Inr (map_option ((#) (rel, target_drift_line k lt ct)) more))))"

definition evidence_markers ::
  "observation \<Rightarrow> observation \<Rightarrow> (string \<times> observation) list \<Rightarrow> (observation \<times> string \<times> string) list" where
  "evidence_markers gate policy in_scope =
     [(gate, ''check-gate-parity.py'', ''This establishes that the local release gate invokes its parity check.''),
      (policy, ([CHR 0x22] @ ''tests.yml'' @ [CHR 0x22] @ '': True''), (''This establishes that tests.yml is declared in scope by the observed parity '' @
       ''policy.'')),
      (policy, ([CHR 0x22] @ ''markdownlint.yml'' @ [CHR 0x22] @ '': True''), (''This establishes that markdownlint.yml is declared in scope by the observed '' @
       ''parity policy.'')),
      (policy, ([CHR 0x22] @ ''mq-stack-gate.yml'' @ [CHR 0x22] @ '': False''), (''This establishes that the cross-repository stack gate is explicitly out '' @
       ''of scope for local parity.''))]
     @ (case map_of in_scope ''tests.yml'' of None \<Rightarrow> [] | Some ob \<Rightarrow>
       [(ob, ''scripts/check-gate-parity.py'', ''This establishes that CI invokes the parity checker directly.''),
        (ob, ''./release-check.sh'', (''This establishes that one observed CI job delegates to the local release '' @
       ''gate.''))])"

definition or_none :: "string \<Rightarrow> string" where "or_none s = (if s = [] then ''none'' else s)"

definition parity_conclusion ::
  "string list \<Rightarrow> (string \<times> bool) list \<Rightarrow> (string \<times> observation) list \<Rightarrow> string list \<Rightarrow> string" where
  "parity_conclusion drift ws in_scope exceptions =
     (let enabled = join '', '' (keys_of in_scope);
          disabled = or_none (join '', '' (keys_of (filter (\<lambda>(_, e). \<not> e) ws)));
          declared = or_none (join '', '' exceptions);
          note = (''Scope och undantag '' @ [CHR 0xE4] @
       ''r WORKFLOW_SCOPE och EXCEPTIONS som de st'' @ [CHR 0xE5] @
       ''r deklarerade i '') @
            parity_policy_path @ (''; senare '' @ [CHR 0xE4] @ ''ndringar av dem i filen '' @ [CHR 0xE4] @
       ''r inte kontrollerade.'')
      in if drift \<noteq> [] then
           (''Den deterministiska gate-j'' @ [CHR 0xE4] @ ''mf'' @ [CHR 0xF6] @
       ''relsen hittar odeklarerad drift: '') @ join ''; '' drift @
           ''. In-scope workflows: '' @ enabled @ ''. Out-of-scope: '' @ disabled @
           ''. Explicit exceptions: '' @ declared @ ''. '' @ note
         else
           (''Den deterministiska gate-j'' @ [CHR 0xE4] @ ''mf'' @ [CHR 0xF6] @
       ''relsen hittar ingen odeklarerad drift mellan '') @
           parity_gate_path @ '' och observerade in-scope workflows ('' @ enabled @
           ''). Out-of-scope: '' @ disabled @ ''. Explicit exceptions: '' @ declared @
           (''. Detta j'' @ [CHR 0xE4] @ ''mf'' @ [CHR 0xF6] @
       ''r deklarerade checks och targets; det s'' @ [CHR 0xE4] @
       ''ger inte att checks faktiskt passerar i CI. '')
           @ note)"

definition produce_ci_release_gate_parity ::
  "string \<Rightarrow> review_plan \<Rightarrow> evidence_base \<Rightarrow> string result" where
  "produce_ci_release_gate_parity task rp b =
     (if rp_topic rp \<noteq> ''ci_gate_parity'' then Inr []
      else (case (by_path b parity_gate_path, by_path b parity_policy_path) of
        (Some gate, Some policy) \<Rightarrow>
         if \<not> whole gate then Inr []
         else (case (workflow_scope policy, parity_exceptions policy) of
          (Some ws, Some exceptions) \<Rightarrow>
           (case scope_observations b ws of
             None \<Rightarrow> Inr []
           | Some in_scope \<Rightarrow>
             if list_ex (\<lambda>(_, ob). has_block_scalar_run ob) in_scope then Inr []
             else bind_res (local_gate_checks gate) (\<lambda>local.
               if local = [] then Inr []
               else (let ci = ci_checks in_scope local;
                   ci_only = filter (\<lambda>k. k \<notin> fst ` set local \<and> k \<notin> set exceptions) (keys_of ci);
                   local_only = filter (\<lambda>k. k \<notin> fst ` set ci \<and> k \<notin> set exceptions) (keys_of local);
                   shared = filter (\<lambda>k. k \<in> fst ` set ci) (keys_of local) in
                 bind_res (target_drifts gate in_scope local ci shared) (\<lambda>td. case td of
                   None \<Rightarrow> Inr []
                 | Some drifts \<Rightarrow>
                   bind_res (map_res (\<lambda>(ob, m, l). finding_for_marker ob m l)
                     (evidence_markers gate policy in_scope)) (\<lambda>marked.
                   (let fs = map fst drifts @ List.map_filter (\<lambda>x. x) marked;
                        drift = map ((@) ''CI-only check: '') ci_only @
                          map ((@) ''local-only check: '') local_only @ map snd drifts in
                    if length fs < 3 then Inr []
                    else Inr (render_section ''CI/release gate parity''
                      (parity_conclusion drift ws in_scope exceptions) fs)))))))
         | _ \<Rightarrow> Inr [])
      | _ \<Rightarrow> Inr []))"

subsection \<open>All producers\<close>

definition producers :: "(string \<Rightarrow> review_plan \<Rightarrow> evidence_base \<Rightarrow> string result) list" where
  "producers = [produce_ci_release_gate_parity, produce_ci_test_command_parity,
     produce_release_changelog_parity, produce_release_metadata_parity]"

fun first_output :: "string result list \<Rightarrow> string result" where
  "first_output [] = Inr []"
| "first_output (r # rs) = bind_res r (\<lambda>out. if out \<noteq> [] then Inr out else first_output rs)"

definition produce_repo_review :: "string \<Rightarrow> plan \<Rightarrow> evidence_base \<Rightarrow> string result" where
  "produce_repo_review task p b = (case pl_review p of
     None \<Rightarrow> Inr []
   | Some rp \<Rightarrow> if pl_route p \<noteq> ''repo_review'' then Inr []
       else first_output (map (\<lambda>f. f task rp b) producers))"

end
