(* ===== verification/Machine.thy ===== *)
theory Machine
  imports PyText
begin

section \<open>The run's state machine (atlas_core/machine.py)\<close>

text \<open>
  The statuses, the stop reasons with their class, terminal status and exit code, the
  transition table, and the table that names why a graded run ended. The literals of
  \<open>Status\<close>, \<open>StopReason\<close> and \<open>StopClass\<close> are datatypes; \<open>status_name\<close> and its
  relatives give the strings. \<open>check_transition\<close> is modelled on strings as well, because the
  source takes strings and treats an undeclared one differently on the two sides.
\<close>

datatype status =
    New | Observing | Routing | Planning | Executing | Evaluating | Replanning
  | NeedUserApproval | Done | Failed | Cancelled

datatype stop_reason =
    Passed | InsufficientEvidence | Blocked | ApprovalRequired | BudgetExhausted
  | MaxIterations | NoProgress | ToolError | StopCancelled

datatype stop_class = Evaluation | Runtime | Control

definition all_statuses :: "status list" where
  "all_statuses = [New, Observing, Routing, Planning, Executing, Evaluating, Replanning,
     NeedUserApproval, Done, Failed, Cancelled]"

definition all_reasons :: "stop_reason list" where
  "all_reasons = [Passed, InsufficientEvidence, Blocked, ApprovalRequired, BudgetExhausted,
     MaxIterations, NoProgress, ToolError, StopCancelled]"

fun status_name :: "status \<Rightarrow> string" where
  "status_name New = ''new''"
| "status_name Observing = ''observing''"
| "status_name Routing = ''routing''"
| "status_name Planning = ''planning''"
| "status_name Executing = ''executing''"
| "status_name Evaluating = ''evaluating''"
| "status_name Replanning = ''replanning''"
| "status_name NeedUserApproval = ''need_user_approval''"
| "status_name Done = ''done''"
| "status_name Failed = ''failed''"
| "status_name Cancelled = ''cancelled''"

fun reason_name :: "stop_reason \<Rightarrow> string" where
  "reason_name Passed = ''passed''"
| "reason_name InsufficientEvidence = ''insufficient_evidence''"
| "reason_name Blocked = ''blocked''"
| "reason_name ApprovalRequired = ''approval_required''"
| "reason_name BudgetExhausted = ''budget_exhausted''"
| "reason_name MaxIterations = ''max_iterations''"
| "reason_name NoProgress = ''no_progress''"
| "reason_name ToolError = ''tool_error''"
| "reason_name StopCancelled = ''cancelled''"

fun class_name :: "stop_class \<Rightarrow> string" where
  "class_name Evaluation = ''evaluation''"
| "class_name Runtime = ''runtime''"
| "class_name Control = ''control''"

definition terminal_statuses :: "status list" where
  "terminal_statuses = [NeedUserApproval, Done, Failed, Cancelled]"

definition terminal :: "status \<Rightarrow> bool" where
  "terminal s \<longleftrightarrow> s \<in> set terminal_statuses"

subsection \<open>Stop reasons\<close>

record stop_spec =
  spec_reason :: stop_reason
  spec_class :: stop_class
  spec_status :: status
  spec_exit :: int

definition mk_spec :: "stop_reason \<Rightarrow> stop_class \<Rightarrow> status \<Rightarrow> int \<Rightarrow> stop_reason \<times> stop_spec" where
  "mk_spec r c s e = (r, \<lparr>spec_reason = r, spec_class = c, spec_status = s, spec_exit = e\<rparr>)"

definition stop_reasons :: "(stop_reason \<times> stop_spec) list" where
  "stop_reasons =
    [mk_spec Passed Evaluation Done 0,
     mk_spec InsufficientEvidence Evaluation Done 2,
     mk_spec Blocked Control Done 2,
     mk_spec ApprovalRequired Control NeedUserApproval 3,
     mk_spec BudgetExhausted Control Done 2,
     mk_spec MaxIterations Control Done 2,
     mk_spec NoProgress Control Done 2,
     mk_spec ToolError Runtime Failed 1,
     mk_spec StopCancelled Control Cancelled 4]"

definition is_runtime :: "stop_spec \<Rightarrow> bool" where
  "is_runtime sp \<longleftrightarrow> spec_class sp = Runtime"

text \<open>\<open>spec_for\<close> on the string a caller passes: an undeclared reason is a \<open>ValueError\<close>.\<close>

definition spec_for :: "string \<Rightarrow> stop_spec result" where
  "spec_for r =
     (case find (\<lambda>(k, _). reason_name k = r) stop_reasons of
        None \<Rightarrow> Inl ValueError | Some (_, sp) \<Rightarrow> Inr sp)"

text \<open>The same lookup on a declared reason.\<close>

definition spec_of :: "stop_reason \<Rightarrow> stop_spec" where
  "spec_of r = the (map_of stop_reasons r)"

definition stop_class_of :: "string option \<Rightarrow> string option result" where
  "stop_class_of r = (case r of None \<Rightarrow> Inr None
     | Some r' \<Rightarrow> bind_res (spec_for r') (\<lambda>sp. Inr (Some (class_name (spec_class sp)))))"

definition exit_codes :: "(string \<times> int) list" where
  "exit_codes = map (\<lambda>(r, sp). (reason_name r, spec_exit sp)) stop_reasons"

definition legacy_stop_reasons :: "(string \<times> string) list" where
  "legacy_stop_reasons =
     [(''failed'', ''tool_error''), (''no_actionable_retry'', ''insufficient_evidence'')]"

subsection \<open>Transitions\<close>

definition interruptions :: "status list" where
  "interruptions = [Done, Failed, Cancelled]"

fun loop_targets :: "status \<Rightarrow> status list" where
  "loop_targets New = [Observing]"
| "loop_targets Observing = [Routing, Replanning]"
| "loop_targets Routing = [Planning]"
| "loop_targets Planning = [Executing]"
| "loop_targets Executing = [Evaluating]"
| "loop_targets Evaluating = [Replanning, Observing, Done, NeedUserApproval]"
| "loop_targets Replanning = [Routing, Done]"
| "loop_targets NeedUserApproval = []"
| "loop_targets Done = []"
| "loop_targets Failed = []"
| "loop_targets Cancelled = []"

definition transitions :: "status \<Rightarrow> status list" where
  "transitions s = (if terminal s then loop_targets s else loop_targets s @ interruptions)"

definition legal :: "status \<Rightarrow> status \<Rightarrow> bool" where
  "legal s t \<longleftrightarrow> t \<in> set (transitions s)"

definition parse_status :: "string \<Rightarrow> status option" where
  "parse_status s = find (\<lambda>st. status_name st = s) all_statuses"

definition is_legal :: "string \<Rightarrow> string \<Rightarrow> bool" where
  "is_legal s t = (case parse_status s of None \<Rightarrow> False
     | Some s' \<Rightarrow> t \<in> set (map status_name (transitions s')))"

text \<open>
  The order of the source: an undeclared target first; then an illegal move. The message of
  an illegal move looks the source up in the table, so an undeclared source is a
  \<open>KeyError\<close>, not an \<open>InvalidTransition\<close>.
\<close>

definition check_transition :: "string \<Rightarrow> string \<Rightarrow> unit result" where
  "check_transition s t =
     (if parse_status t = None then Inl InvalidTransition
      else if \<not> is_legal s t then
        (if parse_status s = None then Inl KeyError else Inl InvalidTransition)
      else Inr ())"

subsection \<open>Why a graded run ended\<close>

definition classify_stop ::
  "bool \<Rightarrow> bool \<Rightarrow> string list \<Rightarrow> string list \<Rightarrow> bool \<Rightarrow> bool \<Rightarrow> stop_reason" where
  "classify_stop passed requires_approval blocked_by evidence_gaps retry_is_possible iterations_left =
     (if requires_approval then ApprovalRequired
      else if passed then Passed
      else if blocked_by \<noteq> [] then Blocked
      else if retry_is_possible \<and> \<not> iterations_left then MaxIterations
      else if evidence_gaps \<noteq> [] then InsufficientEvidence
      else NoProgress)"

section \<open>Lemmas\<close>

lemma status_in_all [simp]: "s \<in> set all_statuses"
  by (cases s) (simp_all add: all_statuses_def)

lemma status_name_inj [simp]: "status_name s = status_name t \<longleftrightarrow> s = t"
  by (cases s; cases t) simp_all

lemma reason_name_inj [simp]: "reason_name s = reason_name t \<longleftrightarrow> s = t"
  by (cases s; cases t) simp_all

lemma parse_status_name [simp]: "parse_status (status_name s) = Some s"
  by (cases s) (simp_all add: parse_status_def all_statuses_def)

lemma parse_status_Some: "parse_status s = Some st \<Longrightarrow> s = status_name st"
  by (auto simp: parse_status_def dest: find_Some_iff [THEN iffD1])

lemma spec_for_name: "spec_for (reason_name r) = Inr (spec_of r)"
  by (cases r) (simp_all add: spec_for_def spec_of_def stop_reasons_def mk_spec_def)

lemma spec_of_simps [simp]:
  "spec_status (spec_of Passed) = Done"
  "spec_status (spec_of InsufficientEvidence) = Done"
  "spec_status (spec_of Blocked) = Done"
  "spec_status (spec_of ApprovalRequired) = NeedUserApproval"
  "spec_status (spec_of BudgetExhausted) = Done"
  "spec_status (spec_of MaxIterations) = Done"
  "spec_status (spec_of NoProgress) = Done"
  "spec_status (spec_of ToolError) = Failed"
  "spec_status (spec_of StopCancelled) = Cancelled"
  by (simp_all add: spec_of_def stop_reasons_def mk_spec_def)

lemma terminal_simps [simp]:
  "\<not> terminal New" "\<not> terminal Observing" "\<not> terminal Routing" "\<not> terminal Planning"
  "\<not> terminal Executing" "\<not> terminal Evaluating" "\<not> terminal Replanning"
  "terminal NeedUserApproval" "terminal Done" "terminal Failed" "terminal Cancelled"
  by (simp_all add: terminal_def terminal_statuses_def)

lemma is_legal_names [simp]: "is_legal (status_name s) (status_name t) = legal s t"
  by (auto simp: is_legal_def legal_def)

lemma check_transition_names [simp]:
  "check_transition (status_name s) (status_name t) =
     (if legal s t then Inr () else Inl InvalidTransition)"
  by (simp add: check_transition_def)

lemma interruption_legal:
  "\<not> terminal s \<Longrightarrow> t \<in> {Done, Failed, Cancelled} \<Longrightarrow> legal s t"
  by (auto simp: legal_def transitions_def interruptions_def)

lemma terminal_stuck: "terminal s \<Longrightarrow> \<not> legal s t"
  by (cases s) (simp_all add: legal_def transitions_def)

lemma legal_loop [simp]:
  "legal New Observing" "legal Observing Routing" "legal Observing Replanning"
  "legal Routing Planning" "legal Planning Executing" "legal Executing Evaluating"
  "legal Evaluating Replanning" "legal Evaluating Observing"
  "legal Evaluating NeedUserApproval" "legal Replanning Routing"
  by (simp_all add: legal_def transitions_def)

inductive moves :: "status \<Rightarrow> status \<Rightarrow> bool" where
  stay: "moves s s"
| step: "moves s t \<Longrightarrow> legal t u \<Longrightarrow> moves s u"

inductive_cases moves_cases: "moves s t"

lemma terminal_absorbing: "moves s t \<Longrightarrow> terminal s \<Longrightarrow> t = s"
  by (induction rule: moves.induct) (auto dest: terminal_stuck)

section \<open>Properties\<close>

text \<open>The transition check accepts exactly the declared moves: it succeeds just when both
  strings are declared statuses and the move is in the table, no accepted move leaves a
  terminal status, and every status that is not terminal may still be ended as done, failed
  or cancelled.\<close>

theorem check_transition_exact:
  "check_transition s t = Inr () \<longleftrightarrow>
     (\<exists>a b. s = status_name a \<and> t = status_name b \<and> legal a b \<and> \<not> terminal a
        \<and> check_transition s ''done'' = Inr () \<and> check_transition s ''failed'' = Inr ()
        \<and> check_transition s ''cancelled'' = Inr ())"
proof
  assume ok: "check_transition s t = Inr ()"
  then obtain b where b: "parse_status t = Some b"
    by (auto simp: check_transition_def split: if_splits)
  from ok have "is_legal s t" by (auto simp: check_transition_def split: if_splits)
  then obtain a where a: "parse_status s = Some a" by (auto simp: is_legal_def split: option.splits)
  from a b have st: "s = status_name a" "t = status_name b" by (auto dest: parse_status_Some)
  with ok have "legal a b" by (auto split: if_splits)
  moreover from this have "\<not> terminal a" using terminal_stuck by blast
  ultimately show "\<exists>a b. s = status_name a \<and> t = status_name b \<and> legal a b \<and> \<not> terminal a
        \<and> check_transition s ''done'' = Inr () \<and> check_transition s ''failed'' = Inr ()
        \<and> check_transition s ''cancelled'' = Inr ()"
    using st interruption_legal [of a] check_transition_names [of a Done]
      check_transition_names [of a Failed] check_transition_names [of a Cancelled] by auto
qed auto

text \<open>The stop table is coherent: every reason has a specification of its own, whose status
  is terminal; exit code 0 is exactly \<open>passed\<close>; exit code 1, the runtime class and a failed
  run are the same reasons; approval is the one reason that waits for a human, with exit code
  3, and cancellation the one with exit code 4.\<close>

theorem stop_table_coherent:
  "spec_for (reason_name r) = Inr (spec_of r) \<and> spec_reason (spec_of r) = r
   \<and> terminal (spec_status (spec_of r))
   \<and> (spec_exit (spec_of r) = 0 \<longleftrightarrow> r = Passed)
   \<and> (is_runtime (spec_of r) \<longleftrightarrow> spec_exit (spec_of r) = 1)
   \<and> (is_runtime (spec_of r) \<longleftrightarrow> spec_status (spec_of r) = Failed)
   \<and> (spec_status (spec_of r) = NeedUserApproval \<longleftrightarrow> spec_exit (spec_of r) = 3)
   \<and> (spec_status (spec_of r) = Cancelled \<longleftrightarrow> spec_exit (spec_of r) = 4)
   \<and> map_of exit_codes (reason_name r) = Some (spec_exit (spec_of r))"
  by (cases r)
     (simp_all add: spec_for_def spec_of_def stop_reasons_def mk_spec_def is_runtime_def
       exit_codes_def)

text \<open>Why a graded run ended is decided by precedence: approval first, then a pass, then a
  blocker, then running out of iterations while a retry was still possible, then missing
  evidence, then no progress. It is never a budget, a tool error or a cancellation, so a
  grade alone never reports one of those.\<close>

theorem classify_stop_precedence:
  "let r = classify_stop passed approval blocked gaps retry left in
     (r = ApprovalRequired \<longleftrightarrow> approval)
   \<and> (r = Passed \<longleftrightarrow> passed \<and> \<not> approval)
   \<and> (r = Blocked \<longleftrightarrow> blocked \<noteq> [] \<and> \<not> passed \<and> \<not> approval)
   \<and> (r = MaxIterations \<longleftrightarrow> retry \<and> \<not> left \<and> blocked = [] \<and> \<not> passed \<and> \<not> approval)
   \<and> (r = InsufficientEvidence \<longleftrightarrow>
        gaps \<noteq> [] \<and> \<not> (retry \<and> \<not> left) \<and> blocked = [] \<and> \<not> passed \<and> \<not> approval)
   \<and> r \<notin> {BudgetExhausted, ToolError, StopCancelled}"
  by (simp add: classify_stop_def Let_def)

text \<open>The architecture notes draw the retry as evaluating, replanning, executing. The table
  has no such move: a retry goes through routing and planning again, and executing follows
  planning only.\<close>

theorem no_retry_straight_to_executing:
  "\<not> legal Replanning Executing \<and> (\<forall>s. legal s Executing \<longleftrightarrow> s = Planning)"
proof -
  have "legal s Executing \<longleftrightarrow> s = Planning" for s
    by (cases s) (simp_all add: legal_def transitions_def interruptions_def)
  then show ?thesis by simp
qed

text \<open>From an undeclared status the check does not answer with its own exception: a move to
  a declared status fails with the lookup's \<open>KeyError\<close>.\<close>

theorem undeclared_source_is_key_error:
  "check_transition ''nowhere'' (status_name t) = Inl KeyError"
proof -
  have "parse_status ''nowhere'' = None" by (simp add: parse_status_def all_statuses_def)
  then show ?thesis by (simp add: check_transition_def is_legal_def)
qed

end
