(* ===== verification/Run_State.thy ===== *)
theory Run_State
  imports Machine Routing Claim_Check
begin

section \<open>What a run carries (atlas_core/state.py)\<close>

text \<open>
  The next action with its closed vocabulary, what a retry of it rests on, the evaluation of
  one pass, and the run with its two status-changing operations. Metadata and the details of
  an action are JSON objects.
\<close>

definition current_score_method :: string where
  "current_score_method = ''criteria_met_share''"

definition score_methods :: "string list" where
  "score_methods = [current_score_method, ''weighted_sections_and_length'']"

definition next_action_kinds :: "string list" where
  "next_action_kinds = [''observe_again'', ''repair_findings_block'', ''drop_refuted_claim'',
     ''restate_claim'', ''recite_from_source'', ''cite_sources'', ''answer_the_question'',
     ''add_sections'']"

definition retry_classes :: "(string \<times> string) list" where
  "retry_classes = [(''observe_again'', ''investigation''),
     (''answer_the_question'', ''restatement''), (''repair_findings_block'', ''restatement''),
     (''drop_refuted_claim'', ''restatement''), (''restate_claim'', ''restatement''),
     (''recite_from_source'', ''restatement''), (''cite_sources'', ''restatement''),
     (''add_sections'', ''restatement'')]"

definition retry_class_names :: "string list" where
  "retry_class_names = [''restatement'', ''investigation'']"

definition retry_class :: "string \<Rightarrow> string result" where
  "retry_class k = (case map_of retry_classes k of None \<Rightarrow> Inl KeyError | Some c \<Rightarrow> Inr c)"

definition next_action_actors :: "string list" where
  "next_action_actors = [''producer'', ''host'']"

record next_action =
  na_kind :: string
  na_gap_codes :: "string list"
  na_actor :: string
  na_details :: dict

definition action_ok :: "next_action \<Rightarrow> bool" where
  "action_ok a \<longleftrightarrow> na_kind a \<in> set next_action_kinds \<and> na_actor a \<in> set next_action_actors
     \<and> na_gap_codes a \<noteq> []"

definition mk_action :: "string \<Rightarrow> string list \<Rightarrow> string \<Rightarrow> dict \<Rightarrow> next_action result" where
  "mk_action k gaps actor details =
     (let a = \<lparr>na_kind = k, na_gap_codes = gaps, na_actor = actor, na_details = details\<rparr>
      in if action_ok a then Inr a else Inl ValueError)"

subsection \<open>Evaluations\<close>

text \<open>One finding's record. \<open>cr_statuses\<close> pairs each citation's status with its span.\<close>

record citation_record =
  cr_finding_id :: string
  cr_claim :: string
  cr_verdict :: verdict
  cr_method :: verification_method
  cr_severity :: string
  cr_declared :: string
  cr_rationale :: string
  cr_sound :: bool
  cr_statuses :: "(string \<times> evidence_status \<times> evidence_ref) list"
  cr_claim_check :: "claim_verdict option"

record evaluation =
  av_score :: real
  av_passed :: bool
  av_met :: "string list"
  av_unmet :: "string list"
  av_reasons :: "string list"
  av_missing :: "string list"
  av_missing_sections :: "string list"
  av_requires_approval :: bool
  av_should_retry :: bool
  av_retry_is_possible :: bool
  av_adjustment :: "string option"
  av_next_action :: "next_action option"
  av_evidence_gaps :: "string list"
  av_unverified :: "string list"
  av_coverage :: "real option"
  av_citation_checks :: "citation_record list"
  av_blocked_by :: "string list"

subsection \<open>Runs\<close>

record run_state =
  rs_task :: string
  rs_run_id :: string
  rs_status :: status
  rs_stop_reason :: "stop_reason option"
  rs_iteration :: int
  rs_max_iterations :: int
  rs_route :: "route option"
  rs_plan :: "plan option"
  rs_observations :: "string list"
  rs_evidence :: "evidence_base option"
  rs_outputs :: "string list"
  rs_evaluations :: "evaluation list"
  rs_memory_candidates :: "dict list"
  rs_metadata :: dict

definition new_run :: "string \<Rightarrow> string \<Rightarrow> int \<Rightarrow> run_state" where
  "new_run task run_id mx = \<lparr>rs_task = task, rs_run_id = run_id, rs_status = New,
     rs_stop_reason = None, rs_iteration = 0, rs_max_iterations = mx, rs_route = None,
     rs_plan = None, rs_observations = [], rs_evidence = None, rs_outputs = [],
     rs_evaluations = [], rs_memory_candidates = [], rs_metadata = []\<rparr>"

definition enter :: "status \<Rightarrow> run_state \<Rightarrow> run_state result" where
  "enter t s = bind_res (check_transition (status_name (rs_status s)) (status_name t))
     (\<lambda>_. Inr (s\<lparr>rs_status := t\<rparr>))"

definition stop_run :: "stop_reason \<Rightarrow> run_state \<Rightarrow> run_state result" where
  "stop_run r s = bind_res (spec_for (reason_name r)) (\<lambda>sp.
     if r = BudgetExhausted then
       (if terminal (rs_status s) then Inl InvalidTransition
        else Inr (s\<lparr>rs_status := spec_status sp, rs_stop_reason := Some r\<rparr>))
     else bind_res (enter (spec_status sp) s) (\<lambda>s'. Inr (s'\<lparr>rs_stop_reason := Some r\<rparr>)))"

section \<open>Lemmas\<close>

lemma enter_Inr: "enter t s = Inr s' \<longleftrightarrow> legal (rs_status s) t \<and> s' = s\<lparr>rs_status := t\<rparr>"
  by (auto simp: enter_def)

lemma stop_run_Inr:
  "stop_run r s = Inr s' \<longleftrightarrow> (r = BudgetExhausted \<and> \<not> terminal (rs_status s)
      \<or> r \<noteq> BudgetExhausted \<and> legal (rs_status s) (spec_status (spec_of r)))
     \<and> s' = s\<lparr>rs_status := spec_status (spec_of r), rs_stop_reason := Some r\<rparr>"
  by (auto simp: stop_run_def spec_for_name bind_res_Inr enter_Inr split: if_splits)

lemma retry_class_total: "k \<in> set next_action_kinds \<Longrightarrow>
    retry_class k = Inr (if k = ''observe_again'' then ''investigation'' else ''restatement'')"
  by (auto simp: next_action_kinds_def retry_class_def retry_classes_def)

lemma mk_action_Inr: "mk_action k gaps actor details = Inr a \<longleftrightarrow>
    a = \<lparr>na_kind = k, na_gap_codes = gaps, na_actor = actor, na_details = details\<rparr> \<and> action_ok a"
  by (auto simp: mk_action_def Let_def)

section \<open>Properties\<close>

text \<open>Stopping is atomic and final: a stop that succeeds sets the reason and the reason's own
  terminal status together and nothing else, it succeeds from every status that is not
  terminal for any reason but approval (which only a graded run may wait for), and once a run
  is terminal no operation moves it.\<close>

theorem stop_is_final:
  "(stop_run r s = Inr s' \<longleftrightarrow> \<not> terminal (rs_status s)
      \<and> \<not> (r = ApprovalRequired \<and> rs_status s \<noteq> Evaluating)
      \<and> s' = s\<lparr>rs_status := spec_status (spec_of r), rs_stop_reason := Some r\<rparr>)
   \<and> (terminal (rs_status s) \<longleftrightarrow>
        (\<forall>q t. stop_run q s = Inl InvalidTransition \<and> enter t s = Inl InvalidTransition))"
proof (rule conjI)
  have approval: "legal a NeedUserApproval \<longleftrightarrow> a = Evaluating" for a
    by (cases a) (simp_all add: legal_def transitions_def interruptions_def)
  have "legal (rs_status s) (spec_status (spec_of r)) \<longleftrightarrow> \<not> terminal (rs_status s)
      \<and> \<not> (r = ApprovalRequired \<and> rs_status s \<noteq> Evaluating)"
    using terminal_stuck [of "rs_status s"] interruption_legal [of "rs_status s"]
    by (cases r) (auto simp: approval)
  then show "stop_run r s = Inr s' \<longleftrightarrow> \<not> terminal (rs_status s)
      \<and> \<not> (r = ApprovalRequired \<and> rs_status s \<noteq> Evaluating)
      \<and> s' = s\<lparr>rs_status := spec_status (spec_of r), rs_stop_reason := Some r\<rparr>"
    unfolding stop_run_Inr by auto
next
  show "terminal (rs_status s) \<longleftrightarrow>
      (\<forall>q t. stop_run q s = Inl InvalidTransition \<and> enter t s = Inl InvalidTransition)"
  proof
    assume "terminal (rs_status s)"
    then show "\<forall>q t. stop_run q s = Inl InvalidTransition \<and> enter t s = Inl InvalidTransition"
      using terminal_stuck [of "rs_status s"]
      by (simp add: stop_run_def enter_def spec_for_name)
  next
    assume all: "\<forall>q t. stop_run q s = Inl InvalidTransition \<and> enter t s = Inl InvalidTransition"
    show "terminal (rs_status s)"
    proof (rule ccontr)
      assume "\<not> terminal (rs_status s)"
      then have "stop_run BudgetExhausted s \<noteq> Inl InvalidTransition"
        using spec_for_name [of BudgetExhausted] by (simp add: stop_run_def)
      with all show False by blast
    qed
  qed
qed

text \<open>Every action of the vocabulary, and no other, is classified, and only reading again is
  an investigation.\<close>

theorem retry_class_exact:
  "(\<exists>c. retry_class k = Inr c) = (k \<in> set next_action_kinds)
   \<and> (retry_class k = Inr ''investigation'' \<longleftrightarrow> k = ''observe_again'')
   \<and> set (map snd retry_classes) = set retry_class_names"
  by (auto simp: retry_class_def retry_classes_def next_action_kinds_def retry_class_names_def)

end
