(* ===== verification/Executor.thy ===== *)
theory Executor
  imports Review_Producers Run_State
begin

section \<open>The rule-based executor (atlas_core/executor.py)\<close>

text \<open>
  The body of each route, what a run without a model adapter produces, and the sections that a
  retry adds for the gaps the previous evaluation named. Code points above 255 of the bodies
  are kept at unused control positions, as the em dash is.
\<close>

definition max_sources :: nat where "max_sources = 8"

subsection \<open>Route bodies\<close>

definition repo_review_body :: "string \<Rightarrow> string" where
  "repo_review_body task = (''# Repo Review'' @ [LF, LF] @ ''## Goal'' @ [LF]) @
     task @
     ([LF, LF] @ ''## Review method'' @ [LF] @ ''- Repoet b'' @ [CHR 0xF6] @ ''r bed'' @
       [CHR 0xF6] @ ''mas utifr'' @ [CHR 0xE5] @
       ''n roll, boundaries, docs, tester, public-safe-regler och n'' @ [CHR 0xE4] @
       ''sta minsta PR-slice.'' @ [LF] @ ''- Live kodsanning ska inte gissas. Den m'' @
       [CHR 0xE5] @ ''ste verifieras i repo, CI eller relevanta verktyg.'' @ [LF] @
       ''- F'' @ [CHR 0xF6] @ ''rb'' @ [CHR 0xE4] @ ''ttringar b'' @ [CHR 0xF6] @
       ''r delas i P0/P1/P2 s'' @ [CHR 0xE5] @
       '' att arbetet inte blir en stor blandad PR.'' @ [LF, LF] @ ''## P0 '' @
       [CHR 0x97] @ '' fixa f'' @ [CHR 0xF6] @ ''rst'' @ [LF] @ ''- Bekr'' @ [CHR 0xE4] @
       ''fta repoets read-order och source-of-truth boundary.'' @ [LF] @
       ''- Identifiera stale docs eller instruktioner som kan f'' @ [CHR 0xE5] @
       '' agenten att l'' @ [CHR 0xE4] @ ''sa f'' @ [CHR 0xF6] @ ''r mycket.'' @ [LF] @
       ''- L'' @ [CHR 0xE4] @
       ''gg till eller uppdatera validation commands om de saknas.'' @ [LF, LF] @
       ''## P1 '' @ [CHR 0x97] @ '' fixa sedan'' @ [LF] @ ''- F'' @ [CHR 0xF6] @ ''rb'' @
       [CHR 0xE4] @ ''ttra exempel, screenshots eller demo-output d'' @ [CHR 0xE4] @
       ''r det hj'' @ [CHR 0xE4] @ ''lper repoets publika f'' @ [CHR 0xF6] @ ''rst'' @
       [CHR 0xE5] @ ''else.'' @ [LF] @ ''- L'' @ [CHR 0xE4] @
       ''gg till tydligare issue/PR-mallar om repoet saknar styrning.'' @ [LF] @
       ''- Dela '' @ [CHR 0xF6] @ ''vervuxna docs i sm'' @ [CHR 0xE5] @
       '' context surfaces.'' @ [LF, LF] @ ''## P2 '' @ [CHR 0x97] @ '' polish'' @ [LF] @
       ''- G'' @ [CHR 0xF6] @ ''r README kortare om den duplicerar djupare docs.'' @
       [LF] @ ''- L'' @ [CHR 0xE4] @ ''gg till mer kompakta testprompter f'' @
       [CHR 0xF6] @ ''r Codex/Claude/ChatGPT.'' @ [LF] @
       ''- Skapa en liten roadmap med n'' @ [CHR 0xE4] @ ''sta 3 PR-slices.'' @
       [LF, LF] @ ''## Suggested PR slices'' @ [LF] @
       ''1. docs: tighten read-order and truth-boundary section'' @ [LF] @
       ''2. tests: add/verify context budget and public-safe validation'' @ [LF] @
       ''3. examples: add one sanitized end-to-end context-pack example'' @ [LF, LF] @
       ''## Recommendation'' @ [LF] @ ''Ta P0-listan f'' @ [CHR 0xF6] @ ''rst och k'' @
       [CHR 0xF6] @
       ''r varje post som en egen PR-slice. Blanda inte in P1 eller P2 i samma diff.'' @
       [LF, LF] @ ''## Next step'' @ [LF] @
       ''Verifiera P0-listan mot repots faktiska inneh'' @ [CHR 0xE5] @ ''ll innan n'' @
       [CHR 0xE5] @ ''gon '' @ [CHR 0xE4] @ ''ndring g'' @ [CHR 0xF6] @ ''rs.'' @
       [LF, LF] @ ''## Confidence'' @ [LF] @
       ''Medium. This MVP did not perform a full live GitHub scan unless observations '' @
       ''were provided by an adapter.'' @ [LF])"

definition architecture_decision_body :: "string \<Rightarrow> string" where
  "architecture_decision_body task = (''# Architecture Decision'' @ [LF, LF] @ ''## Goal'' @ [LF]) @
     task @
     ([LF, LF] @ ''## Requirements'' @ [LF] @ ''- S'' @ [CHR 0xE4] @ ''ker styrning'' @
       [LF] @ ''- Tydliga trust boundaries'' @ [LF] @ ''- Stegvis inf'' @ [CHR 0xF6] @
       ''rande'' @ [LF] @ ''- M'' @ [CHR 0xE4] @ ''tbar kvalitet och kostnad'' @ [LF] @
       ''- M'' @ [CHR 0xF6] @ ''jlighet att byta komponenter senare'' @ [LF, LF] @
       ''## High-level design'' @ [LF] @
       ''Bygg runt ett kontrollplan: identitet, policy, gateway, observability och '' @
       ''tydlig datagr'' @ [CHR 0xE4] @ ''ns.'' @ [LF] @ ''L'' @ [CHR 0xE5] @
       ''t implementationer/modeller vara utbytbara bakom stabila kontrakt.'' @
       [LF, LF] @ ''## Risks'' @ [LF] @ ''- F'' @ [CHR 0xF6] @ ''r brett scope i f'' @
       [CHR 0xF6] @ ''rsta versionen'' @ [LF] @ ''- Oklara informationsklasser'' @ [LF] @
       ''- Leverant'' @ [CHR 0xF6] @ ''rsl'' @ [CHR 0xE5] @ ''sning'' @ [LF] @
       ''- Otillr'' @ [CHR 0xE4] @ ''cklig logging eller f'' @ [CHR 0xF6] @ ''r inneh'' @
       [CHR 0xE5] @ ''llsrik logging'' @ [LF] @ ''- Ingen exit-plan'' @ [LF, LF] @
       ''## Options'' @ [LF] @ ''1. K'' @ [CHR 0xF6] @ ''p f'' @ [CHR 0xE4] @
       ''rdig tj'' @ [CHR 0xE4] @ ''nst '' @ [CHR 0x97] @ '' snabbast, men mest l'' @
       [CHR 0xE5] @ ''sning.'' @ [LF] @ ''2. Bygg sj'' @ [CHR 0xE4] @ ''lv '' @
       [CHR 0x97] @ '' mest kontroll, men dyrast och l'' @ [CHR 0xE5] @ ''ngsammast.'' @
       [LF] @ ''3. Hybrid '' @ [CHR 0x97] @ '' b'' @ [CHR 0xE4] @ ''st balans n'' @
       [CHR 0xE4] @ ''r s'' @ [CHR 0xE4] @ ''kerhet och snabb nytta b'' @ [CHR 0xE5] @
       ''da spelar roll.'' @ [LF, LF] @ ''## Recommendation'' @ [LF] @ ''V'' @
       [CHR 0xE4] @ ''lj hybrid som default om kraven inneh'' @ [CHR 0xE5] @ ''ller b'' @
       [CHR 0xE5] @ ''de snabb inf'' @ [CHR 0xF6] @ ''ring och stark kontroll.'' @
       [LF, LF] @ ''## Next step'' @ [LF] @ ''Definiera en 6'' @ [CHR 0x96] @
       ''12 veckors pilot med tydliga go/no-go-kriterier.'' @ [LF, LF] @
       ''## Confidence'' @ [LF] @
       ''Medium. Faktiska krav, juridik och produktdetaljer m'' @ [CHR 0xE5] @
       ''ste verifieras.'' @ [LF])"

definition root_cause_body :: "string \<Rightarrow> string" where
  "root_cause_body task = (''# Root Cause Analysis'' @ [LF, LF] @ ''## Problem'' @ [LF]) @
     task @
     ([LF, LF] @ ''## Symptoms vs causes'' @ [LF] @
       ''- Symptom: det synliga problemet eller upprepade stoppet.'' @ [LF] @
       ''- Contributing factors: process, verktyg, otydligt '' @ [CHR 0xE4] @
       ''garskap eller sena kontroller.'' @ [LF] @
       ''- Possible root cause: systemet saknar tidig feedback, tydliga gates eller '' @
       ''ansvar.'' @ [LF, LF] @ ''## Causal chain'' @ [LF] @ ''Trigger'' @
       [LF, CHR 0x87, LF] @ ''Sen uppt'' @ [CHR 0xE4] @ ''ckt / otydlig signal'' @
       [LF, CHR 0x87, LF] @ ''Manuell tolkning eller brist p'' @ [CHR 0xE5] @
       '' ansvar'' @ [LF, CHR 0x87, LF] @ ''Fl'' @ [CHR 0xF6] @
       ''det fastnar i sista steget'' @ [LF, LF] @ ''## Likely root cause'' @ [LF] @
       ''Kontrollerna kommer f'' @ [CHR 0xF6] @ ''r sent eller '' @ [CHR 0xE4] @
       ''r f'' @ [CHR 0xF6] @ ''r otydliga f'' @ [CHR 0xF6] @
       ''r att teamet ska kunna agera tidigare.'' @ [LF, LF] @ ''## Leverage points'' @
       [LF] @ ''- Flytta kontroller tidigare.'' @ [LF] @ ''- G'' @ [CHR 0xF6] @
       ''r stoppsignaler maskinl'' @ [CHR 0xE4] @ ''sbara.'' @ [LF] @ ''- Definiera '' @
       [CHR 0xE4] @ ''gare f'' @ [CHR 0xF6] @ ''r varje gate.'' @ [LF] @ ''- M'' @
       [CHR 0xE4] @ ''t '' @ [CHR 0xE5] @ ''terkommande stopporsaker.'' @ [LF, LF] @
       ''## Recommended actions'' @ [LF] @ ''1. Logga de senaste 5 stopporsakerna.'' @
       [LF] @ ''2. Dela dem i policy, test, review, release eller '' @ [CHR 0xE4] @
       ''garskap.'' @ [LF] @ ''3. Flytta vanligaste stoppet till tidigare fas.'' @ [LF] @
       ''4. Skapa en enkel check innan sista steget.'' @ [LF, LF] @ ''## Next step'' @
       [LF] @ ''B'' @ [CHR 0xF6] @
       ''rja med punkt 1: logga de senaste 5 stopporsakerna innan n'' @ [CHR 0xE5] @
       ''gon process '' @ [CHR 0xE4] @ ''ndras.'' @ [LF, LF] @ ''## Confidence'' @ [LF] @
       ''Medium without concrete incident data.'' @ [LF])"

definition decision_tradeoff_body :: "string \<Rightarrow> string" where
  "decision_tradeoff_body task = (''# Decision & Trade-off'' @ [LF, LF] @ ''## Decision'' @ [LF]) @
     task @
     ([LF, LF] @ ''## Options'' @ [LF] @ ''1. Minimal path '' @ [CHR 0x97] @
       '' snabbt, l'' @ [CHR 0xE5] @ ''g risk, men begr'' @ [CHR 0xE4] @
       ''nsad effekt.'' @ [LF] @ ''2. Balanced path '' @ [CHR 0x97] @
       '' lagom scope, tydlig kvalitet, bra f'' @ [CHR 0xF6] @ ''r n'' @ [CHR 0xE4] @
       ''sta steg.'' @ [LF] @ ''3. Ambitious path '' @ [CHR 0x97] @ '' h'' @ [CHR 0xF6] @
       ''g effekt, men st'' @ [CHR 0xF6] @ ''rre komplexitet och risk.'' @ [LF, LF] @
       ''## Trade-offs'' @ [LF] @ ''- Speed vs control'' @ [LF] @
       ''- Simplicity vs flexibility'' @ [LF] @
       ''- Short-term delivery vs long-term maintainability'' @ [LF] @
       ''- Manual work vs automation'' @ [LF, LF] @ ''## Recommendation'' @ [LF] @
       ''V'' @ [CHR 0xE4] @ ''lj balanced path om beslutet p'' @ [CHR 0xE5] @
       ''verkar fler '' @ [CHR 0xE4] @ ''n ett arbetsfl'' @ [CHR 0xF6] @
       ''de eller repo.'' @ [LF, LF] @ ''## Next step'' @ [LF] @
       ''Skriv ned beslutets success criteria innan implementation.'' @ [LF, LF] @
       ''## Confidence'' @ [LF] @ ''Medium.'' @ [LF])"

definition learning_body :: "string \<Rightarrow> string" where
  "learning_body task = (''# Explanation'' @ [LF, LF] @ ''## Simple explanation'' @ [LF]) @
     task @
     ([LF, LF] @ ''T'' @ [CHR 0xE4] @ ''nk p'' @ [CHR 0xE5] @
       '' det som ett system d'' @ [CHR 0xE4] @ ''r du f'' @ [CHR 0xF6] @
       ''rst vill f'' @ [CHR 0xF6] @ ''rst'' @ [CHR 0xE5] @ '' vad saken g'' @
       [CHR 0xF6] @ ''r, sedan varf'' @ [CHR 0xF6] @
       ''r den finns, och till sist hur du kan anv'' @ [CHR 0xE4] @
       ''nda den utan att blanda ihop den med andra saker.'' @ [LF, LF] @
       ''## Common confusion'' @ [LF] @ ''M'' @ [CHR 0xE5] @
       ''nga blandar ihop verktyget, processen, minnet och resultatet. Separera dessa '' @
       ''s'' @ [CHR 0xE5] @ '' blir systemet l'' @ [CHR 0xE4] @ ''ttare att f'' @
       [CHR 0xF6] @ ''rst'' @ [CHR 0xE5] @ ''.'' @ [LF, LF] @ ''## Example'' @ [LF] @
       ''Om Atlas '' @ [CHR 0xE4] @ ''r en loop, '' @ [CHR 0xE4] @
       ''r prompten inte motorn. Prompten '' @ [CHR 0xE4] @
       ''r mer som instruktionen p'' @ [CHR 0xE5] @ '' instrumentpanelen.'' @ [LF, LF] @
       ''## Understanding check'' @ [LF] @
       ''Kan du beskriva skillnaden mellan en router och en executor i en mening?'' @
       [LF, LF] @ ''## Recommendation'' @ [LF] @ ''Bygg f'' @ [CHR 0xF6] @ ''rst'' @
       [CHR 0xE5] @ ''elsen i den ordningen: vad saken g'' @ [CHR 0xF6] @ ''r, varf'' @
       [CHR 0xF6] @ ''r den finns, hur den anv'' @ [CHR 0xE4] @
       ''nds. Hoppa inte till detaljerna f'' @ [CHR 0xF6] @ ''rst.'' @ [LF, LF] @
       ''## Next step'' @ [LF] @ ''Svara p'' @ [CHR 0xE5] @
       '' understanding check ovan med egna ord innan du g'' @ [CHR 0xE5] @
       ''r vidare.'' @ [LF, LF] @ ''## Confidence'' @ [LF] @ ''Medium.'' @ [LF])"

definition prompt_improvement_body :: "string \<Rightarrow> string" where
  "prompt_improvement_body task = (''# Prompt Improvement'' @ [LF, LF] @ ''## Goal'' @ [LF]) @
     task @
     ([LF, LF] @ ''## Diagnosis'' @ [LF] @ ''En stark prompt ska inte f'' @ [CHR 0xF6] @
       ''rs'' @ [CHR 0xF6] @ ''ka b'' @ [CHR 0xE4] @ ''ra hela systemet sj'' @
       [CHR 0xE4] @ ''lv. Den ska definiera roll, gr'' @ [CHR 0xE4] @
       ''nser, route-regler, output och quality gates.'' @ [LF, LF] @
       ''## Failure modes'' @ [LF] @ ''- F'' @ [CHR 0xF6] @ ''r l'' @ [CHR 0xE5] @
       ''ng prompt som blandar policy, minne och output.'' @ [LF] @ ''- Router som v'' @
       [CHR 0xE4] @ ''ljer prompt men inte k'' @ [CHR 0xF6] @ ''r svaret.'' @ [LF] @
       ''- Otydliga stop-regler.'' @ [LF] @ ''- Inga testfall.'' @ [LF, LF] @
       ''## Better structure'' @ [LF] @ ''1. Trigger'' @ [LF] @
       ''2. Task classification'' @ [LF] @ ''3. Route selection'' @ [LF] @
       ''4. Execution rule'' @ [LF] @ ''5. Evaluation rule'' @ [LF] @
       ''6. Output format'' @ [LF] @ ''7. Safety/write boundary'' @ [LF] @
       ''8. Test cases'' @ [LF, LF] @ ''## Recommendation'' @ [LF] @ ''G'' @ [CHR 0xF6] @
       ''r prompten till ett tunt gr'' @ [CHR 0xE4] @ ''nssnitt ovanp'' @ [CHR 0xE5] @
       '' en loop/state-machine.'' @ [LF, LF] @ ''## Next step'' @ [LF] @
       ''Skriv routes som data, inte som l'' @ [CHR 0xE5] @ ''nga promptstycken.'' @
       [LF, LF] @ ''## Confidence'' @ [LF] @ ''High.'' @ [LF])"

definition general_body :: "string \<Rightarrow> string" where
  "general_body task = (''# Answer'' @ [LF, LF] @ ''## Goal'' @ [LF]) @
     task @
     ([LF, LF] @ ''## Response'' @ [LF] @
       ''Atlas Core hanterar detta som en generell uppgift. F'' @ [CHR 0xF6] @
       ''r ett starkare svar, ge mer kontext eller v'' @ [CHR 0xE4] @
       ''lj en specifik route.'' @ [LF, LF] @ ''## Recommendation'' @ [LF] @ ''Anv'' @
       [CHR 0xE4] @ ''nd en specifik route om uppgiften '' @ [CHR 0xE4] @ ''r st'' @
       [CHR 0xF6] @ ''rre '' @ [CHR 0xE4] @ ''n en enkel fr'' @ [CHR 0xE5] @ ''ga.'' @
       [LF, LF] @ ''## Next step'' @ [LF] @ ''K'' @ [CHR 0xF6] @
       ''r igen med mer konkret m'' @ [CHR 0xE5] @ ''l, constraints och '' @ [CHR 0xF6] @
       ''nskat format.'' @ [LF, LF] @ ''## Confidence'' @ [LF] @ ''Low-to-medium.'' @
       [LF])"

definition route_bodies :: "(string \<times> (string \<Rightarrow> string)) list" where
  "route_bodies = [(''repo_review'', repo_review_body), (''architecture_decision'', architecture_decision_body), (''root_cause'', root_cause_body), (''decision_tradeoff'', decision_tradeoff_body), (''learning'', learning_body), (''prompt_improvement'', prompt_improvement_body), (''general'', general_body)]"

definition route_body :: "string \<Rightarrow> string \<Rightarrow> string" where
  "route_body name = (case map_of route_bodies name of None \<Rightarrow> general_body | Some f \<Rightarrow> f)"

subsection \<open>Sections\<close>

definition bullets_of :: "string list \<Rightarrow> string" where
  "bullets_of xs = join [LF] (map ((@) ''- '') xs)"

definition sources_section :: "string list \<Rightarrow> string" where
  "sources_section obs = [LF] @ ''## Sources inspected'' @ [LF] @ bullets_of (take max_sources obs) @ [LF]"

definition evidence_gap_codes :: "string list" where
  "evidence_gap_codes = [''sources_not_documented'', ''uncited_findings'']"

definition gap_recommendation :: "plan \<Rightarrow> string" where
  "gap_recommendation p = ([LF] @ ''## Recommendation'' @ [LF] @ ''F'' @ [CHR 0xF6] @ ''lj route '' @
       [CHR 0x27]) @ pl_route p @ ([CHR 0x27] @ '' steg f'' @ [CHR 0xF6] @ ''r steg: '') @
     (if pl_steps p \<noteq> [] then join '', '' (pl_steps p) else ''route-stegen'') @
     (''. Stanna n'' @ [CHR 0xE4] @ ''r n'' @ [CHR 0xE5] @ ''got av stop conditions '' @
       [CHR 0xE4] @ ''r uppfyllt: '') @ join '', '' (pl_stop_conditions p) @ (''.'' @ [LF])"

definition gap_next_step :: "plan \<Rightarrow> string" where
  "gap_next_step p = ([LF] @ ''## Next step'' @ [LF] @ ''B'' @ [CHR 0xF6] @ ''rja med steget '' @
       [CHR 0x27]) @
     (if pl_steps p \<noteq> [] then hd (pl_steps p) else ''understand'') @ ([CHR 0x27] @ ''.'' @ [LF])"

definition gap_confidence :: "plan \<Rightarrow> string" where
  "gap_confidence p = ([LF] @ ''## Confidence'' @ [LF] @ ''Low. Inneh'' @ [CHR 0xE5] @
       ''llet i detta varv '' @ [CHR 0xE4] @ ''r h'' @ [CHR 0xE4] @ ''rlett fr'' @
       [CHR 0xE5] @ ''n route-planen, inte fr'' @ [CHR 0xE5] @
       ''n nya observationer eller verifierade k'' @ [CHR 0xE4] @ ''llor.'' @ [LF])"

definition gap_builders :: "(string \<times> (plan \<Rightarrow> string)) list" where
  "gap_builders = [(''recommendation'', gap_recommendation), (''next_step'', gap_next_step),
     (''confidence'', gap_confidence)]"

definition evidence_section :: "evaluation \<Rightarrow> string list \<Rightarrow> string" where
  "evidence_section fb obs =
     (let sources = observed_sources obs in
      if \<not> list_ex (\<lambda>c. c \<in> set evidence_gap_codes) (av_evidence_gaps fb) \<or> sources = [] then []
      else ([LF] @ ''## Observed sources'' @ [LF] @ ''Filerna nedan l'' @ [CHR 0xE4] @
       ''stes denna k'' @ [CHR 0xF6] @ ''rning; inneh'' @ [CHR 0xE5] @ ''llet '' @
       [CHR 0xE5] @ ''terges under '' @ [CHR 0x27] @ ''Sources inspected'' @ [CHR 0x27] @
       ''. Detta intygar att de observerades '' @ [CHR 0x97] @ '' inte att n'' @
       [CHR 0xE5] @ ''gon brist eller f'' @ [CHR 0xF6] @ ''rb'' @ [CHR 0xE4] @
       ''ttring i repot '' @ [CHR 0xE4] @ ''r sakligt verifierad.'' @ [LF])
        @ bullets_of (map (\<lambda>s. [tick] @ s @ [tick]) (take max_sources sources)) @ [LF] @
        (if av_unverified fb = [] then [] else
         ([LF] @ ''## Unverified claims'' @ [LF] @ ''F'' @ [CHR 0xF6] @ ''ljande p'' @
       [CHR 0xE5] @ ''st'' @ [CHR 0xE5] @ ''enden kunde inte knytas till n'' @
       [CHR 0xE5] @ ''gon observerad k'' @ [CHR 0xE4] @ ''lla och st'' @ [CHR 0xE5] @
       ''r kvar som hypoteser:'' @ [LF])
         @ bullets_of (av_unverified fb) @ [LF]))"

definition refinement_section :: "plan \<Rightarrow> evaluation \<Rightarrow> string list \<Rightarrow> string" where
  "refinement_section p fb obs =
     (let gaps = filter (\<lambda>c. c \<in> fst ` set gap_builders) (av_missing_sections fb);
          ev = evidence_section fb obs in
      if gaps = [] then ev
      else ev @ ([LF] @ ''## Loop improvement'' @ [LF] @
       ''Nytt varv efter evaluation. Evalueringen saknade: '') @
        join '', '' gaps @ (''. Sektionerna nedan lades till i detta varv och '' @ [CHR 0xE4] @ ''r h'' @
       [CHR 0xE4] @ ''rledda fr'' @ [CHR 0xE5] @ ''n route-planen, inte fr'' @
       [CHR 0xE5] @ ''n nya observationer.'' @ [LF])
        @ concat (map (\<lambda>c. the (map_of gap_builders c) p) gaps))"

text \<open>The output, and the part of it a producer wrote.\<close>

definition execute_plan_parts ::
  "string \<Rightarrow> plan \<Rightarrow> string list \<Rightarrow> evaluation option \<Rightarrow> evidence_base option \<Rightarrow> (string \<times> string) result" where
  "execute_plan_parts task p obs fb base =
     bind_res (case base of None \<Rightarrow> Inr [] | Some b \<Rightarrow> produce_repo_review task p b) (\<lambda>produced.
       Inr (route_body (pl_route p) task @ produced @
         (if obs \<noteq> [] then sources_section obs else []) @
         (case fb of None \<Rightarrow> [] | Some ev \<Rightarrow> refinement_section p ev obs), produced))"

definition execute_plan ::
  "string \<Rightarrow> plan \<Rightarrow> string list \<Rightarrow> evaluation option \<Rightarrow> evidence_base option \<Rightarrow> string result" where
  "execute_plan task p obs fb base =
     bind_res (execute_plan_parts task p obs fb base) (\<lambda>(out, _). Inr out)"

end
