(* ===== verification/Evaluator.thy ===== *)
theory Evaluator
  imports Evidence Run_State
begin

section \<open>Grading one output (atlas_core/evaluator.py)\<close>

text \<open>
  The exit criteria of a route and of a question, the two grading paths of the evidence, and
  the evaluation with its next action. \<open>h\<close> is the host whose files a re-read sees and \<open>loads\<close>
  is \<open>json.loads\<close>. A share is the quotient of two counts as a double has it (53 significant bits,
  half to even), rounded half to even at two decimals; the decimal is kept exact.
\<close>

definition rhe :: "real \<Rightarrow> int" where
  "rhe x = (let f = \<lfloor>x\<rfloor>; d = x - real_of_int f in
     if d < 1 / 2 then f else if 1 / 2 < d then f + 1 else if even f then f else f + 1)"

definition round2 :: "real \<Rightarrow> real" where
  "round2 x = real_of_int (rhe (x * 100)) / 100"

text \<open>\<open>scale n a b\<close> is the exponent \<open>e\<close> with \<open>b \<le> 2^e a < 2 b\<close>, for \<open>0 < a \<le> b \<le> n\<close>.\<close>

fun scale :: "nat \<Rightarrow> nat \<Rightarrow> nat \<Rightarrow> nat" where
  "scale 0 a b = 0"
| "scale (Suc n) a b = (if b \<le> a then 0 else Suc (scale n (2 * a) b))"

definition float_ratio :: "int \<Rightarrow> nat \<Rightarrow> real" where
  "float_ratio a b = (if a = 0 then 0 else
     (let e = 52 + scale b (nat \<bar>a\<bar>) b in
      real_of_int (rhe (real_of_int a * 2 ^ e / real b)) / 2 ^ e))"

subsection \<open>Tables\<close>

definition repo_review_criteria :: "(string \<times> string) list" where
  "repo_review_criteria = [
    (''plan_targets_read'',
      ''Every source the review plan asked for has been read, so the question '' @
       ''was looked into rather than answered from what happened to be at hand.''),
    (''sources_documented'',
      ''The output records which sources it read, so a reader can tell what '' @
       ''the review rests on.''),
    (''findings_are_checkable'',
      ''Every finding carries a machine-readable citation naming a source '' @
       ''this run read.''),
    (''citations_hold'',
      ''Every citation still points at the lines it claims, in a source that '' @
       ''has not moved.''),
    (''claims_are_settled'',
      ''Every finding is stated so it can be decided, and was decided in its '' @
       ''favour against observed lines.''),
    (''recommendation'',
      ''The output states a recommendation.''),
    (''next_step'',
      ''The output states a next step.''),
    (''confidence'',
      ''The output states how confident it is.'')]"

definition generic_criteria :: "(string \<times> string) list" where
  "generic_criteria = [
    (''substance'',
      ''The output is long enough to be an answer rather than a stub.''),
    (''recommendation'',
      ''The output states a recommendation.''),
    (''next_step'',
      ''The output states a next step.''),
    (''confidence'',
      ''The output states how confident it is.'')]"

definition criterion_for_gap :: "(string \<times> string list) list" where
  "criterion_for_gap = [
    (''no_sources_observed'', [''sources_documented'']),
    (''sources_not_documented'', [''sources_documented'']),
    (''uncited_findings'', [''findings_are_checkable'']),
    (''uncheckable_findings'', [''findings_are_checkable'']),
    (''malformed_findings'', [''findings_are_checkable'', ''citations_hold'', ''claims_are_settled'']),
    (''unsound_citations'', [''citations_hold'']),
    (''contradicted_findings'', [''claims_are_settled'']),
    (''unverified_findings'', [''claims_are_settled'']),
    (''claim_text_mismatch'', [''claims_are_settled'']),
    (''plan_targets_unread'', [''plan_targets_read'']),
    (''no_on_topic_finding'', [''findings_are_on_topic'', ''findings_answer_the_question'']),
    (''no_answering_finding'', [''findings_answer_the_question'']),
    (''claims_not_checked'', [''claims_are_settled'', ''citations_hold'', ''findings_are_checkable''])]"

definition evidence_prose :: "(string \<times> string) list" where
  "evidence_prose = [
    (''no_sources_observed'',
      ''No verifiable source was observed, so no finding about the repository '' @
       ''can be supported.''),
    (''sources_not_documented'',
      ''Sources were read but the output does not record which ones.''),
    (''uncited_findings'',
      ''Some findings cite no observed source.''),
    (''malformed_findings'',
      ''The machine-readable findings block is missing, or present and '' @
       ''unreadable, so no citation in it could be checked.''),
    (''uncheckable_findings'',
      ''Some findings carry no machine-readable citation, so nothing about '' @
       ''them could be checked against what was read.''),
    (''no_on_topic_finding'',
      ''Nothing this run settled is about a source the question named. The '' @
       ''answer may be well formed, cited and true, and be about something '' @
       ''else entirely. The converse does not follow: a settled claim about '' @
       ''the right source is not by itself an answer to the question.''),
    (''no_answering_finding'',
      ''Something was settled about the right source, and none of it names '' @
       ''anything this topic declared would bear on its question. A true '' @
       ''statement about a file is not an answer to a question about that file.''),
    (''plan_targets_unread'',
      ''The review plan named sources its question needs and nothing read '' @
       ''them this run, so the answer rests on whatever happened to be at hand '' @
       ''rather than on what was asked about.''),
    (''claims_not_checked'',
      ''Findings name a source that was read, and nothing compared them '' @
       ''against it. Naming a file is not evidence about what the file says, '' @
       (''so no claim here is established '' @ [CHR 0x97] @ '' whether or not it happens to be '') @
       ''true. Collect observations and run with an evidence base.''),
    (''unsound_citations'',
      ''Some findings cite a source that does not hold up: unknown id, a '' @
       ''digest or quote that does not match, or a source that has moved.''),
    (''contradicted_findings'',
      ''Some findings are refuted by the source they cite: they named a '' @
       ''condition that would make them false, and it is false.''),
    (''unverified_findings'',
      ''Some findings are stated as free text, so their truth was not '' @
       ''established. A settled condition beside a free-text claim says the '' @
       (''producer'' @ [CHR 0x27] @ ''s own test passed, not that the claim holds.'')),
    (''claim_text_mismatch'',
      ''Some findings say something other than what their typed claim says, '' @
       ''so the sentence a reader sees is not the sentence that was settled.'')]"

definition required_sections :: "(string \<times> string list) list" where
  "required_sections = [
    (''recommendation'', [''## Recommendation'', ''## Recommended'', ''## Rekommendation'']),
    (''next_step'', [''## Next step'', ''## Recommended next step'', (''## N'' @ [CHR 0xE4] @ ''sta steg'')]),
    (''confidence'', [''## Confidence'', ''## Konfidens''])]"

definition section_prose :: "(string \<times> string) list" where
  "section_prose = [
    (''recommendation'', ''No clear recommendation section.''),
    (''next_step'', ''No clear next step.''),
    (''confidence'', ''Confidence is missing.'')]"

definition section_present :: "(string \<times> string) list" where
  "section_present = [
    (''recommendation'', ''Contains recommendation.''),
    (''next_step'', ''Contains next step.''),
    (''confidence'', ''Contains confidence.'')]"

definition min_substance :: nat where "min_substance = 300"

text \<open>A code the table lacks fails \<open>claims_are_settled\<close>.\<close>

definition criteria_of_gap :: "string \<Rightarrow> string list" where
  "criteria_of_gap g =
     (case map_of criterion_for_gap g of None \<Rightarrow> [''claims_are_settled''] | Some c \<Rightarrow> c)"

definition exit_criteria :: "(string \<times> (string \<times> string) list) list" where
  "exit_criteria = [(''repo_review'', repo_review_criteria), (''__generic__'', generic_criteria)]"

definition route_criteria :: "string \<Rightarrow> (string \<times> string) list" where
  "route_criteria name = (case map_of exit_criteria name of None \<Rightarrow> generic_criteria | Some c \<Rightarrow> c)"

definition on_topic_requirement :: "string \<Rightarrow> string" where
  "on_topic_requirement q = ''At least one finding is settled in its favour against a source '' @
     ''the plan named '' @ em_dash @ '' the source its claim was checked on, not one it '' @
     ''merely cites. A relevance gate; it does not establish that this '' @
     ''was answered: '' @ q"

definition criteria_for :: "string \<Rightarrow> review_plan option \<Rightarrow> (string \<times> string) list" where
  "criteria_for name review = (case review of
     None \<Rightarrow> route_criteria name
   | Some rp \<Rightarrow>
       if \<not> narrowed rp then route_criteria name
       else route_criteria name @
         [(''findings_are_on_topic'', on_topic_requirement (rp_question rp))] @
         (if rp_answering rp = [] then []
          else [(''findings_answer_the_question'',
            ''At least one settled finding names something this topic '' @
            ''declared in advance as bearing on its question '' @ em_dash @ '' one of '' @
            join '', '' (map py_repr (rp_answering rp)) @ ''. Asked: '' @ rp_question rp)]))"

record route_evaluator =
  re_evidence_heading :: string
  re_finding_headings :: "string list"
  re_requires_sources :: bool
  re_min_coverage :: real
  re_requires_claim_check :: bool

definition route_evaluators :: "(string \<times> route_evaluator) list" where
  "route_evaluators = [(''repo_review'', \<lparr>re_evidence_heading = ''## Observed sources'',
     re_finding_headings = [''## Findings'', ''## Verified findings''],
     re_requires_sources = True, re_min_coverage = 1, re_requires_claim_check = True\<rparr>)]"

definition requotable :: "evidence_status list" where
  "requotable = [UnknownSource, DigestMismatch, QuoteMismatch, QuoteOutsideExcerpt]"

definition missing_sections :: "string \<Rightarrow> string list" where
  "missing_sections output =
     map fst (filter (\<lambda>(c, ms). \<not> list_ex (contains output) ms) required_sections)"

subsection \<open>Grading the evidence\<close>

record grade =
  gr_gaps :: "string list"
  gr_unverified :: "string list"
  gr_coverage :: "real option"
  gr_reasons :: "string list"
  gr_actionable :: bool
  gr_checks :: "citation_record list"
  gr_note :: "string option"
  gr_blocked :: "string list"

definition simple_grade :: "string list \<Rightarrow> bool \<Rightarrow> grade" where
  "simple_grade gaps actionable = \<lparr>gr_gaps = gaps, gr_unverified = [], gr_coverage = None,
     gr_reasons = [], gr_actionable = actionable, gr_checks = [], gr_note = None, gr_blocked = []\<rparr>"

definition missing_block :: grade where
  "missing_block = simple_grade [''malformed_findings''] True"

definition blocking_statuses :: "evidence_check list \<Rightarrow> evidence_status list" where
  "blocking_statuses unsound = filter (\<lambda>s. s \<noteq> Intact \<and> s \<notin> set requotable)
     (map snd (concat (map ec_statuses unsound)))"

definition is_requotable ::
  "string list \<Rightarrow> evidence_check list \<Rightarrow> finding list \<Rightarrow> finding list \<Rightarrow> bool" where
  "is_requotable uncheckable unsound refuted unchecked =
     (if blocking_statuses unsound \<noteq> [] then False
      else uncheckable \<noteq> [] \<or> unsound \<noteq> [] \<or> refuted \<noteq> [] \<or> unchecked \<noteq> [])"

definition citation_record_of ::
  "finding \<Rightarrow> evidence_check \<Rightarrow> claim_verdict option \<Rightarrow> citation_record result" where
  "citation_record_of f c v =
     bind_res (case v of Some cv \<Rightarrow> apply_verdict f c cv | None \<Rightarrow> apply_check c f) (\<lambda>decided.
       if length (ec_statuses c) \<noteq> length (evidence f) then Inl ValueError
       else Inr \<lparr>cr_finding_id = finding_id f, cr_claim = claim f, cr_verdict = verdict decided,
         cr_method = verification_method decided, cr_severity = severity decided,
         cr_declared = declared_severity decided, cr_rationale = severity_rationale decided,
         cr_sound = citations_are_sound c,
         cr_statuses = map (\<lambda>((i, s), r). (i, s, r)) (zip (ec_statuses c) (evidence f)),
         cr_claim_check = v\<rparr>)"

text \<open>The steps of the deterministic path: each finding's citations, the claims of those whose
  citations hold (a dictionary by finding id), and one record per finding.\<close>

type_synonym entry = "finding \<times> typed_claim option \<times> claim_condition option"

definition check_entries ::
  "host \<Rightarrow> evidence_base \<Rightarrow> entry list \<Rightarrow> (entry \<times> evidence_check) list result" where
  "check_entries h b es = map_res (\<lambda>e. bind_res (check_finding h (fst e) (base_observations b)
     (base_root b) (base_readers b)) (\<lambda>c. Inr (e, c))) es"

fun settle_entries ::
  "host \<Rightarrow> evidence_base \<Rightarrow> (entry \<times> evidence_check) list \<Rightarrow> (string \<times> claim_verdict) list
     \<Rightarrow> (string \<times> claim_verdict) list result" where
  "settle_entries h b [] d = Inr d"
| "settle_entries h b ((e, c) # rest) d =
     (if citations_are_sound c then
        bind_res (check_claim h (fst e) (fst (snd e)) (snd (snd e)) (base_observations b)
            (base_root b) (base_readers b))
          (\<lambda>v. settle_entries h b rest (dict_set (finding_id (fst e)) v d))
      else settle_entries h b rest d)"

definition has_result :: "(string \<times> claim_verdict) list \<Rightarrow> claim_result \<Rightarrow> finding \<Rightarrow> bool" where
  "has_result d r f \<longleftrightarrow>
     (case map_of d (finding_id f) of None \<Rightarrow> False | Some v \<Rightarrow> cv_result v = r)"

definition unsettled :: "(string \<times> claim_verdict) list \<Rightarrow> finding \<times> evidence_check \<Rightarrow> bool" where
  "unsettled d p \<longleftrightarrow> citations_are_sound (snd p) \<and> (case map_of d (finding_id (fst p)) of
     None \<Rightarrow> False | Some v \<Rightarrow> \<not> is_decisive v \<and> cv_result v \<noteq> ClaimTextMismatch)"

definition all_cite :: "bool \<Rightarrow> nat \<Rightarrow> string" where
  "all_cite settled n = ''All '' @ str_nat n @
     (if settled then '' finding(s) cite a source that still holds and are '' @
        ''stated as typed claims, each settled against the lines the run recorded. '' @
        ''The claim is the predicate, so there is no gap between what was asserted '' @
        ''and what was tested.''
      else '' finding(s) cite a source that was read this run, '' @
        ''with a digest, excerpt and line range that still hold. Citation '' @
        ''integrity only: each claim is eligible for semantic verification, '' @
        ''which this route does not require.'')"

definition blocking_note :: "string list \<Rightarrow> string option" where
  "blocking_note codes = (if codes = [] then None else Some (''No retry: '' @ join '', '' codes @
     '' cannot be repaired by re-citing; the sources must be observed again.''))"

definition part :: "string \<Rightarrow> 'a list \<Rightarrow> string list" where
  "part gap xs = (if xs = [] then [] else [gap])"

definition grade_checked ::
  "route_evaluator \<Rightarrow> string list \<Rightarrow> (finding \<times> evidence_check) list
     \<Rightarrow> (string \<times> claim_verdict) list \<Rightarrow> citation_record list \<Rightarrow> grade" where
  "grade_checked contract uncheckable checks verdicts records =
     (let unsound = filter (\<lambda>p. \<not> citations_are_sound (snd p)) checks;
          refuted = filter (has_result verdicts CRContradicted) (map fst checks);
          mismatched = filter (has_result verdicts ClaimTextMismatch) (map fst checks);
          unchecked = map fst (filter (unsettled verdicts) checks);
          considered = length checks + length uncheckable;
          supported = int considered - int (length unsound) - int (length uncheckable)
            - int (length refuted) - int (length mismatched) - int (length unchecked);
          coverage = round2 (float_ratio supported considered);
          gaps = part ''uncheckable_findings'' uncheckable @ part ''unsound_citations'' unsound @
            part ''contradicted_findings'' refuted @ part ''claim_text_mismatch'' mismatched @
            part ''unverified_findings'' unchecked;
          unverified = uncheckable @ map claim (map fst unsound) @ map claim refuted @
            map claim mismatched @ map claim unchecked;
          blocking = sorted_set (map status_value (blocking_statuses (map snd unsound)))
      in if gaps \<noteq> [] then
           \<lparr>gr_gaps = gaps, gr_unverified = unverified, gr_coverage = Some coverage, gr_reasons = [],
            gr_actionable = is_requotable uncheckable (map snd unsound) refuted (unchecked @ mismatched),
            gr_checks = records, gr_note = blocking_note blocking, gr_blocked = blocking\<rparr>
         else
           \<lparr>gr_gaps = [], gr_unverified = [], gr_coverage = Some coverage,
            gr_reasons = [all_cite (re_requires_claim_check contract) (length checks)],
            gr_actionable = False, gr_checks = records, gr_note = None, gr_blocked = []\<rparr>)"

definition grade_against_evidence ::
  "host \<Rightarrow> (string \<Rightarrow> pyval result) \<Rightarrow> route_evaluator \<Rightarrow> string \<Rightarrow> evidence_base \<Rightarrow> bool \<Rightarrow> string
     \<Rightarrow> grade result" where
  "grade_against_evidence h loads contract output b required findings_source =
     (if is_empty b then Inr (simple_grade [''no_sources_observed''] False)
      else bind_res (structured_findings (sha h) loads findings_source) (\<lambda>parsed.
        if malformed parsed \<noteq> None \<or> required \<and> \<not> present parsed then Inr missing_block
        else
          (let prose = findings_in output (re_finding_headings contract);
               uncheckable = filter (\<lambda>x. x \<notin> set (parsed_claims parsed)) prose in
           bind_res (check_entries h b (entries parsed)) (\<lambda>checked.
           bind_res (if re_requires_claim_check contract then settle_entries h b checked [] else Inr [])
           (\<lambda>verdicts.
             if checked = [] \<and> uncheckable = [] then
               (if \<not> contains output (re_evidence_heading contract)
                then Inr (simple_grade [''sources_not_documented''] True)
                else Inr ((simple_grade [] False)\<lparr>gr_reasons :=
                  [str_nat (length (base_observations b)) @
                   '' verifiable source(s) were held and the '' @
                   ''output asserts no finding of its own.'']\<rparr>))
             else
               bind_res (map_res (\<lambda>(e, c). citation_record_of (fst e) c
                   (map_of verdicts (finding_id (fst e)))) checked) (\<lambda>records.
                 Inr (grade_checked contract uncheckable (map (\<lambda>(e, c). (fst e, c)) checked)
                   verdicts records)))))))"

definition grade_evidence ::
  "host \<Rightarrow> (string \<Rightarrow> pyval result) \<Rightarrow> route_evaluator option \<Rightarrow> string \<Rightarrow> string list
     \<Rightarrow> evidence_base option \<Rightarrow> bool \<Rightarrow> string \<Rightarrow> grade result" where
  "grade_evidence h loads contract output sources b required findings_source = (case contract of
     None \<Rightarrow> Inr (simple_grade [] False)
   | Some ct \<Rightarrow>
     (case b of
        Some base \<Rightarrow> grade_against_evidence h loads ct output base required findings_source
      | None \<Rightarrow>
        if re_requires_sources ct \<and> sources = [] then Inr (simple_grade [''no_sources_observed''] False)
        else bind_res (if required then bind_res (structured_findings (sha h) loads findings_source)
              (\<lambda>p. Inr (\<not> present p)) else Inr False) (\<lambda>owes.
          if owes then Inr missing_block
          else
            (let fs = findings_in output (re_finding_headings ct) in
             if fs \<noteq> [] then
               (let unv = filter (\<lambda>x. \<not> cites_a_source x sources) fs;
                    coverage = round2 (float_ratio (int (length fs - length unv)) (length fs)) in
                if coverage < re_min_coverage ct then
                  Inr ((simple_grade [''uncited_findings''] True)
                    \<lparr>gr_unverified := unv, gr_coverage := Some coverage\<rparr>)
                else
                  Inr ((simple_grade [''claims_not_checked''] False)
                    \<lparr>gr_unverified := fs, gr_coverage := Some coverage\<rparr>))
             else if \<not> contains output (re_evidence_heading ct) then
               Inr (simple_grade [''sources_not_documented''] True)
             else Inr ((simple_grade [] False)\<lparr>gr_reasons :=
               [''Output records the sources it read and asserts no finding of its own.'']\<rparr>)))))"


subsection \<open>Relevance\<close>

definition record_path :: "evidence_base \<Rightarrow> citation_record \<Rightarrow> string option" where
  "record_path b r = map_of (dict_of source_id path (base_observations b))
     (case Option.bind (cr_claim_check r) cv_checked of
        None \<Rightarrow> ''None''
      | Some ck \<Rightarrow> (case ck_source ck of None \<Rightarrow> ''None'' | Some i \<Rightarrow> i))"

definition record_text :: "citation_record \<Rightarrow> string" where
  "record_text r = (case Option.bind (cr_claim_check r) cv_checked of
     None \<Rightarrow> [] | Some ck \<Rightarrow> (case ck_text ck of None \<Rightarrow> [] | Some t \<Rightarrow> t))"

definition record_on_topic :: "review_plan \<Rightarrow> evidence_base \<Rightarrow> citation_record \<Rightarrow> bool" where
  "record_on_topic rp b r \<longleftrightarrow> cr_verdict r = VVerified \<and> (case record_path b r of
     None \<Rightarrow> False | Some p \<Rightarrow> p \<noteq> [] \<and> list_ex (fnmatch p) (rp_patterns rp))"

definition on_topic_finding ::
  "review_plan option \<Rightarrow> grade \<Rightarrow> evidence_base option \<Rightarrow> bool" where
  "on_topic_finding review g base = (case (review, base) of
     (Some rp, Some b) \<Rightarrow> if \<not> narrowed rp then True else list_ex (record_on_topic rp b) (gr_checks g)
   | _ \<Rightarrow> True)"

definition answering_finding ::
  "review_plan option \<Rightarrow> grade \<Rightarrow> evidence_base option \<Rightarrow> bool" where
  "answering_finding review g base = (case (review, base) of
     (Some rp, Some b) \<Rightarrow> if \<not> narrowed rp then True
       else if rp_answering rp = [] then True
       else list_ex (\<lambda>r. record_on_topic rp b r \<and> answers_question rp (record_text r)) (gr_checks g)
   | _ \<Rightarrow> True)"

definition partial_window :: "review_plan \<Rightarrow> observation \<Rightarrow> pyval option" where
  "partial_window rp ob =
     (if source_type ob \<noteq> ''local_file'' then None
      else (case total_lines ob of None \<Rightarrow> None | Some n \<Rightarrow>
        if n = 0 \<or> n \<le> line_end ob \<or> \<not> list_ex (fnmatch (path ob)) (rp_patterns rp) then None
        else if rp_topic rp = ''release_changelog'' \<and> path ob = ''CHANGELOG.md'' then
          Some (PDict [(''path'', PStr (path ob)), (''line_start'', PInt 1),
            (''max_lines'', PInt default_max_lines), (''anchor_prefix'', PStr ''## v'')])
        else
          Some (PDict [(''path'', PStr (path ob)), (''line_start'', PInt (line_end ob + 1)),
            (''max_lines'', PInt (min default_max_lines (n - line_end ob)))])))"

definition next_partial_windows ::
  "evidence_base option \<Rightarrow> review_plan option \<Rightarrow> pyval list" where
  "next_partial_windows base review = (case (base, review) of
     (Some b, Some rp) \<Rightarrow> List.map_filter (partial_window rp) (base_observations b)
   | _ \<Rightarrow> [])"

subsection \<open>The next action\<close>

definition pstrs :: "string list \<Rightarrow> pyval" where "pstrs xs = PList (map PStr xs)"

definition result_is :: "claim_result \<Rightarrow> citation_record \<Rightarrow> bool" where
  "result_is r x \<longleftrightarrow> (case cr_claim_check x of None \<Rightarrow> False | Some v \<Rightarrow> cv_result v = r)"

definition check_reason :: "citation_record \<Rightarrow> string" where
  "check_reason x = (case cr_claim_check x of None \<Rightarrow> [] | Some v \<Rightarrow> cv_reason v)"

definition expected_text :: "citation_record \<Rightarrow> string" where
  "expected_text x = (case Option.bind (Option.bind (cr_claim_check x) cv_checked) ck_expected of
     None \<Rightarrow> ''None'' | Some t \<Rightarrow> t)"

definition broken_statuses :: "citation_record \<Rightarrow> string list" where
  "broken_statuses x = map status_value (filter (\<lambda>s. s \<noteq> Intact) (map (fst \<circ> snd) (cr_statuses x)))"

definition outstanding_codes :: "string list \<Rightarrow> grade \<Rightarrow> string list \<Rightarrow> bool \<Rightarrow> string list" where
  "outstanding_codes gaps g waiting off_topic =
     (if waiting \<noteq> [] then [''plan_targets_unread''] else []) @ gr_gaps g @ gaps @
     (if off_topic then [''no_on_topic_finding''] else [])"

definition question_of :: "review_plan option \<Rightarrow> string" where
  "question_of review = (case review of None \<Rightarrow> [] | Some rp \<Rightarrow> rp_question rp)"

definition next_action_of ::
  "string list \<Rightarrow> grade \<Rightarrow> string list \<Rightarrow> evidence_base option \<Rightarrow> review_plan option \<Rightarrow> string list
     \<Rightarrow> bool \<Rightarrow> next_action option result" where
  "next_action_of gaps g sources base review waiting off_topic =
     (let codes = outstanding_codes gaps g waiting off_topic;
          act = (\<lambda>k actor d. bind_res (mk_action k codes actor d) (\<lambda>a. Inr (Some a)));
          refuted = filter (result_is CRContradicted) (gr_checks g);
          mismatched = filter (result_is ClaimTextMismatch) (gr_checks g);
          broken = filter (\<lambda>x. \<not> cr_sound x) (gr_checks g);
          windows = next_partial_windows base review
      in if codes = [] then Inr None
         else if waiting \<noteq> [] then
           act ''observe_again'' ''host'' [(''reason'', PStr ''plan_targets_unread''),
             (''patterns'', pstrs waiting), (''question'', PStr (question_of review))]
         else if ''claims_not_checked'' \<in> set (gr_gaps g) then
           act ''observe_again'' ''host'' [(''reason'', PStr ''no_evidence_base''),
             (''sources_named'', pstrs sources),
             (''requirement'', PStr (''Collect Observation.v1 values and pass them as `evidence` '' @
               ''so the claims can be checked against what was read.''))]
         else if gr_blocked g \<noteq> [] then
           act ''observe_again'' ''host'' [(''blocked_by'', pstrs (gr_blocked g)),
             (''claims'', pstrs (map cr_claim broken))]
         else if ''malformed_findings'' \<in> set (gr_gaps g) then
           act ''repair_findings_block'' ''producer'' [(''fence'', PStr findings_fence)]
         else if refuted \<noteq> [] then
           act ''drop_refuted_claim'' ''producer'' [(''claims'', PList (map (\<lambda>x.
             PDict [(''claim'', PStr (cr_claim x)), (''reason'', PStr (check_reason x))]) refuted))]
         else if mismatched \<noteq> [] then
           act ''restate_claim'' ''producer'' [(''expected_claims'', pstrs (map expected_text mismatched))]
         else if broken \<noteq> [] then
           act ''recite_from_source'' ''producer'' [(''citations'', PList (map (\<lambda>x.
             PDict [(''claim'', PStr (cr_claim x)), (''statuses'', pstrs (broken_statuses x))]) broken))]
         else if off_topic \<and> review \<noteq> None \<and> windows \<noteq> []
             \<and> list_all (\<lambda>x. x = ''sources_not_documented'') (gr_gaps g) then
           act ''observe_again'' ''host'' [(''reason'', PStr ''partial_source_window''),
             (''line_windows'', PList windows), (''question'', PStr (question_of review))]
         else if gr_gaps g \<noteq> [] then
           act ''cite_sources'' ''producer'' [(''fence'', PStr findings_fence),
             (''available_source_ids'', pstrs (case base of None \<Rightarrow> [] | Some b \<Rightarrow> source_ids b)),
             (''available_sources'', pstrs (case base of None \<Rightarrow> sources | Some b \<Rightarrow> paths b))]
         else if off_topic \<and> review \<noteq> None then
           act ''answer_the_question'' ''producer'' [(''question'', PStr (question_of review)),
             (''patterns'', pstrs (case review of None \<Rightarrow> [] | Some rp \<Rightarrow> rp_patterns rp)),
             (''available_source_ids'', pstrs (case base of None \<Rightarrow> [] | Some b \<Rightarrow> source_ids b))]
         else act ''add_sections'' ''producer'' [(''sections'', pstrs gaps)])"

subsection \<open>The adjustment for people\<close>

definition adjustment :: "string list \<Rightarrow> grade \<Rightarrow> string list \<Rightarrow> evidence_base option \<Rightarrow> string" where
  "adjustment gaps g sources base =
     (let refuted = filter (result_is CRContradicted) (gr_checks g);
          mismatched = filter (result_is ClaimTextMismatch) (gr_checks g);
          broken = filter (\<lambda>x. \<not> cr_sound x) (gr_checks g);
          available = (case base of None \<Rightarrow> [] | Some b \<Rightarrow> join '', '' (source_ids b))
      in join '' '' (
        (if gaps \<noteq> [] then [''Add the missing sections: '' @ join '', '' gaps @ ''.''] else []) @
        (if ''uncheckable_findings'' \<in> set (gr_gaps g) then
           [''Give every finding an `'' @ findings_fence @ ''` block with a citation naming '' @
            ''a source_id read this run'' @
            (if available \<noteq> [] then ''; available: '' @ available @ ''.'' else ''.'')] else []) @
        (if ''malformed_findings'' \<in> set (gr_gaps g) then
           [''Write an `'' @ findings_fence @ ''` block that parses as a list of findings, '' @
            ''or repair the one that is there.''] else []) @
        (if refuted \<noteq> [] then
           [''Drop or correct what the source refutes '' @ em_dash @ '' '' @
            join ''; '' (map (\<lambda>x. take 60 (cr_claim x) @ '': '' @ check_reason x) refuted) @ ''.'']
         else []) @
        (if mismatched \<noteq> [] then
           [''State each typed claim exactly as it reads: '' @
            join ''; '' (map (py_repr \<circ> expected_text) mismatched) @ ''.''] else []) @
        (if ''unverified_findings'' \<in> set (gr_gaps g) then
           [''A free-text finding cannot be established. State it as a typed claim '' @ em_dash @
            '' {'' @ json_str ''kind'' @ '': '' @ json_str ''source_contains_literal'' @ ''|'' @
            json_str ''source_lacks_literal'' @ '', '' @ json_str ''source_id'' @ '': ..., '' @
            json_str ''text'' @ '': ...} '' @ em_dash @ '' and write its derived sentence as '' @
            ''the claim, or drop it.''] else []) @
        (if broken \<noteq> [] then
           [''Re-cite from what was actually read '' @ em_dash @ '' '' @
            join ''; '' (map (\<lambda>x. take 60 (cr_claim x) @ '': '' @ join '', '' (broken_statuses x)) broken) @
            ''.''] else []) @
        (if gr_gaps g \<noteq> [] \<and> sources \<noteq> [] \<and> gr_checks g = [] then
           [''Ground each finding in an observed source; available: '' @ join '', '' sources @ ''.'']
         else [])))"

subsection \<open>Evaluating\<close>

record eval_input =
  ei_task :: string
  ei_output :: string
  ei_focus :: "string list"
  ei_iteration :: int
  ei_max_iterations :: int
  ei_route :: string
  ei_observations :: "string list"
  ei_base :: "evidence_base option"
  ei_review :: "review_plan option"
  ei_resolved :: "string list"
  ei_block_required :: bool
  ei_findings_source :: string

definition waiting_on :: "eval_input \<Rightarrow> string list" where
  "waiting_on i = (case ei_review i of None \<Rightarrow> []
     | Some rp \<Rightarrow> unread_patterns rp (case ei_base i of None \<Rightarrow> [] | Some b \<Rightarrow> paths b) (ei_resolved i))"

definition declared_codes :: "eval_input \<Rightarrow> string list" where
  "declared_codes i = map fst (criteria_for (ei_route i) (ei_review i))"

definition too_short :: "eval_input \<Rightarrow> bool" where
  "too_short i \<longleftrightarrow> ''substance'' \<in> set (declared_codes i) \<and> length (strip (ei_output i)) \<le> min_substance"

text \<open>The gap codes of one evaluation, in the order the code assembles them.\<close>

definition gap_codes_of :: "eval_input \<Rightarrow> grade \<Rightarrow> string list" where
  "gap_codes_of i g =
     (let waiting = waiting_on i; declared = set (declared_codes i) in
      (if waiting \<noteq> [] then [''plan_targets_unread''] else []) @ gr_gaps g @
      (if ''findings_are_on_topic'' \<in> declared \<and> waiting = []
          \<and> \<not> on_topic_finding (ei_review i) g (ei_base i) then [''no_on_topic_finding'']
       else if ''findings_answer_the_question'' \<in> declared \<and> waiting = []
          \<and> \<not> answering_finding (ei_review i) g (ei_base i) then [''no_answering_finding'']
       else []))"

definition unmet_codes :: "eval_input \<Rightarrow> grade \<Rightarrow> string list" where
  "unmet_codes i g = sorted_set (filter (\<lambda>c. c \<in> set (declared_codes i))
     ((if too_short i then [''substance''] else []) @
      filter (\<lambda>c. c \<in> set (missing_sections (ei_output i))) (map fst required_sections) @
      concat (map criteria_of_gap (gap_codes_of i g))))"

definition section_lines :: "eval_input \<Rightarrow> bool \<Rightarrow> string list" where
  "section_lines i absent =
     map (\<lambda>c. the (map_of (if absent then section_prose else section_present) c))
       (filter (\<lambda>c. c \<in> set (declared_codes i) \<and> (c \<in> set (missing_sections (ei_output i))) = absent)
         (map fst required_sections))"

definition graded :: "host \<Rightarrow> (string \<Rightarrow> pyval result) \<Rightarrow> eval_input \<Rightarrow> grade result" where
  "graded h loads i = grade_evidence h loads (map_of route_evaluators (ei_route i)) (ei_output i)
     (observed_sources (ei_observations i)) (ei_base i) (ei_block_required i) (ei_findings_source i)"

definition off_topic :: "eval_input \<Rightarrow> grade \<Rightarrow> bool" where
  "off_topic i g \<longleftrightarrow> ''no_on_topic_finding'' \<in> set (gap_codes_of i g)
     \<or> ''no_answering_finding'' \<in> set (gap_codes_of i g)"

definition passes :: "eval_input \<Rightarrow> grade \<Rightarrow> bool" where
  "passes i g \<longleftrightarrow> unmet_codes i g = [] \<and> \<not> requires_write_approval (ei_task i)"

definition retry_possible :: "eval_input \<Rightarrow> grade \<Rightarrow> bool" where
  "retry_possible i g \<longleftrightarrow> \<not> passes i g \<and> \<not> requires_write_approval (ei_task i)
     \<and> (off_topic i g \<or> (if gr_gaps g \<noteq> [] then gr_actionable g
          else missing_sections (ei_output i) \<noteq> []))"

definition score_of :: "eval_input \<Rightarrow> grade \<Rightarrow> real" where
  "score_of i g = (if declared_codes i = [] then 1 else round2 (float_ratio
     (int (length (sorted_set (filter (\<lambda>c. c \<notin> set (unmet_codes i g)) (declared_codes i)))))
     (card (set (declared_codes i)))))"

definition reasons_of :: "eval_input \<Rightarrow> grade \<Rightarrow> string list" where
  "reasons_of i g =
     (if ''substance'' \<in> set (declared_codes i) \<and> \<not> too_short i
      then [''Output has enough substance.''] else []) @ section_lines i False @
     (if ''no_unverified_repo_claims'' \<in> set (ei_focus i)
        \<and> contains (ei_output i) ''MVP did not perform a full live GitHub scan''
      then [''Avoids pretending full verification.''] else []) @
     (if requires_write_approval (ei_task i)
      then [''Write-like task detected; approval required before mutation.''] else []) @ gr_reasons g"

definition missing_of :: "eval_input \<Rightarrow> grade \<Rightarrow> string list" where
  "missing_of i g = (if too_short i then [''Output may be too short.''] else []) @
     section_lines i True @ map (\<lambda>c. the (map_of evidence_prose c)) (gr_gaps g) @
     (case gr_note g of None \<Rightarrow> [] | Some n \<Rightarrow> [n])"

definition action_for :: "eval_input \<Rightarrow> grade \<Rightarrow> next_action option result" where
  "action_for i g = (if passes i g then Inr None
     else next_action_of (missing_sections (ei_output i)) g (observed_sources (ei_observations i))
       (ei_base i) (ei_review i) (waiting_on i) (off_topic i g))"

definition evaluation_of :: "eval_input \<Rightarrow> grade \<Rightarrow> next_action option \<Rightarrow> evaluation" where
  "evaluation_of i g action =
     (let retry = retry_possible i g \<and> ei_iteration i < ei_max_iterations i in
      \<lparr>av_score = score_of i g, av_passed = passes i g,
       av_met = sorted_set (filter (\<lambda>c. c \<notin> set (unmet_codes i g)) (declared_codes i)),
       av_unmet = unmet_codes i g, av_reasons = reasons_of i g, av_missing = missing_of i g,
       av_missing_sections = missing_sections (ei_output i),
       av_requires_approval = requires_write_approval (ei_task i), av_should_retry = retry,
       av_retry_is_possible = retry_possible i g,
       av_adjustment = (if retry then Some (adjustment (missing_sections (ei_output i)) g
           (observed_sources (ei_observations i)) (ei_base i)) else None),
       av_next_action = action, av_evidence_gaps = gap_codes_of i g,
       av_unverified = gr_unverified g, av_coverage = gr_coverage g,
       av_citation_checks = gr_checks g, av_blocked_by = gr_blocked g\<rparr>)"

definition evaluate :: "host \<Rightarrow> (string \<Rightarrow> pyval result) \<Rightarrow> eval_input \<Rightarrow> evaluation result" where
  "evaluate h loads i = bind_res (graded h loads i) (\<lambda>g.
     bind_res (action_for i g) (\<lambda>action. Inr (evaluation_of i g action)))"

end
