(* ===== verification/Producing.thy ===== *)
theory Producing
  imports Executor Evaluator
begin

section \<open>What the rule-based path promises\<close>

text \<open>
  Facts about the producers and the executor: the findings a producer writes are true of the
  lines it read, every built-in answer has the sections the evaluator asks for, and the inputs
  on which a producer breaks its own contract.
\<close>

lemma contains_within: "contains s n \<Longrightarrow> contains (a @ s @ b) n"
proof -
  assume "contains s n"
  then obtain c d where "s = c @ n @ d" by (auto simp: contains_iff)
  then have "a @ s @ b = (a @ c) @ n @ (d @ b)" by simp
  then show ?thesis unfolding contains_iff by blast
qed

lemma contains_line:
  assumes "l \<in> set (splitlines s)" and "contains l n" shows "contains s n"
proof -
  from assms(1) obtain t where "(l, t) \<in> set (split_terms [] s)"
    by (auto simp: splitlines_def)
  then obtain xs ys where "split_terms [] s = xs @ (l, t) # ys" by (auto dest: split_list)
  with concat_split_terms [of "[]" s]
  have "s = concat (map (\<lambda>(l, t). l @ t) xs) @ l @ (t @ concat (map (\<lambda>(l, t). l @ t) ys))" by simp
  with contains_within [OF assms(2)] show ?thesis by metis
qed

lemma numbered_mem:
  "(n, l) \<in> set (numbered ob) \<Longrightarrow> l \<in> set (splitlines (excerpt ob)) \<and> line_start ob \<le> n
     \<and> n < line_start ob + int (length (splitlines (excerpt ob)))"
  by (auto simp: numbered_def set_zip)

subsection \<open>Sections\<close>

lemma contains_left: "contains a n \<Longrightarrow> contains (a @ b) n"
  using contains_within [of a n "[]" b] by simp

lemma contains_right: "contains b n \<Longrightarrow> contains (a @ b) n"
  using contains_within [of b n a "[]"] by simp

text \<open>The three headings of a complete answer.\<close>

definition complete :: "string \<Rightarrow> bool" where
  "complete s \<longleftrightarrow> (contains s ''## Recommendation'' \<or> contains s ''## Recommended'')
     \<and> contains s ''## Next step'' \<and> contains s ''## Confidence''"

lemma complete_sections: "complete s \<Longrightarrow> missing_sections (s @ rest) = []"
  using contains_left [of s _ rest] by (auto simp: complete_def missing_sections_def required_sections_def)

lemma complete_repo_review: "complete (repo_review_body task)"
  unfolding complete_def repo_review_body_def
  apply (intro conjI, rule disjI1)
  apply ((rule contains_left, (code_simp; fail)) | rule contains_right)+
  done

lemma complete_architecture_decision: "complete (architecture_decision_body task)"
  unfolding complete_def architecture_decision_body_def
  apply (intro conjI, rule disjI1)
  apply ((rule contains_left, (code_simp; fail)) | rule contains_right)+
  done

lemma complete_root_cause: "complete (root_cause_body task)"
  unfolding complete_def root_cause_body_def
  apply (intro conjI, rule disjI2)
  apply ((rule contains_left, (code_simp; fail)) | rule contains_right)+
  done

lemma complete_decision_tradeoff: "complete (decision_tradeoff_body task)"
  unfolding complete_def decision_tradeoff_body_def
  apply (intro conjI, rule disjI1)
  apply ((rule contains_left, (code_simp; fail)) | rule contains_right)+
  done

lemma complete_learning: "complete (learning_body task)"
  unfolding complete_def learning_body_def
  apply (intro conjI, rule disjI1)
  apply ((rule contains_left, (code_simp; fail)) | rule contains_right)+
  done

lemma complete_prompt_improvement: "complete (prompt_improvement_body task)"
  unfolding complete_def prompt_improvement_body_def
  apply (intro conjI, rule disjI1)
  apply ((rule contains_left, (code_simp; fail)) | rule contains_right)+
  done

lemma complete_general: "complete (general_body task)"
  unfolding complete_def general_body_def
  apply (intro conjI, rule disjI1)
  apply ((rule contains_left, (code_simp; fail)) | rule contains_right)+
  done

lemma body_sections: "missing_sections (route_body name task @ rest) = []"
proof -
  have "complete (f task)" if "(n, f) \<in> set route_bodies" for n f
    using that
    by (auto simp: route_bodies_def complete_repo_review complete_architecture_decision complete_root_cause complete_decision_tradeoff complete_learning complete_prompt_improvement complete_general)
  then have "complete (route_body name task)"
    by (auto simp: route_body_def complete_general split: option.splits dest: map_of_SomeD)
  then show ?thesis by (rule complete_sections)
qed

subsection \<open>Producers\<close>

lemma find_mem: "find P xs = Some x \<Longrightarrow> x \<in> set xs \<and> P x"
  by (auto simp: find_Some_iff)

lemma contains_finding_fields:
  assumes "contains_finding ob tx n q note_text = Inr f"
  shows "build_typed (PDict f) = Inr (Some (contains_claim ob tx))"
    and "map_of f ''evidence'' = Some (PList [citation_json ob n q])"
    and "\<exists>sentence. map_of f ''claim'' = Some (PStr sentence)
      \<and> render (contains_claim ob tx) (path ob) (line_start ob) (line_end ob) None = Inr sentence"
  using assms
  by (auto simp: contains_finding_def contains_claim_def mk_typed_def typed_ok_def bind_res_Inr
      build_typed_def build_typed_claim_def get_or_def get_key_def claim_kind_of_def split: if_splits)

lemma gate_raises:
  "raw \<in> set ls \<Longrightarrow> run_check_command raw = Inl (Foreign ''IndexError'' []) \<Longrightarrow>
     gate_checks ls d = Inl (Foreign ''IndexError'' [])"
proof (induction ls arbitrary: d)
  case (Cons l ls)
  have only: "run_check_command l = Inl e \<Longrightarrow> e = Foreign ''IndexError'' []" for e
    by (auto simp: run_check_command_def Let_def split: if_splits option.splits)
  show ?case
    using Cons only by (cases "run_check_command l") (auto split: option.splits)
qed simp

section \<open>Properties\<close>

text \<open>An answer of the rule-based path always has the sections the evaluator asks for, whatever
  the task, the observations, the evidence and the feedback: a run without a model adapter is
  never sent back for a missing section.\<close>

theorem rule_based_answer_complete:
  assumes "execute_plan task p obs fb base = Inr out"
  shows "missing_sections out = []"
proof -
  from assms obtain rest where "out = route_body (pl_route p) task @ rest"
    by (auto simp: execute_plan_def execute_plan_parts_def bind_res_Inr)
  then show ?thesis by (simp add: body_sections)
qed

definition sample_plan :: plan where
  "sample_plan = \<lparr>pl_goal = ''look'', pl_route = ''general'', pl_steps = [], pl_stop_conditions = [],
     pl_validation_focus = [], pl_review = None, pl_unused_topic = None\<rparr>"

theorem rule_based_answer_complete_witness:
  "missing_sections (the (case execute_plan ''look'' sample_plan [] None None of Inr x \<Rightarrow> Some x | _ \<Rightarrow> None)) = []"
proof -
  have "execute_plan ''look'' sample_plan [] None None = Inr (general_body ''look'')"
    by (simp add: execute_plan_def execute_plan_parts_def sample_plan_def route_body_def route_bodies_def)
  from rule_based_answer_complete [OF this] this show ?thesis by simp
qed

text \<open>A finding a producer writes for a marker is one the claim checker settles in its favour:
  read back, it declares the literal claim on the source it was read from, that claim holds in
  the lines the run recorded, its sentence is the one the claim renders to, and its citation is
  a line of the source that carries the marker.\<close>

theorem marker_finding_settles:
  assumes "finding_for_marker ob marker note_text = Inr (Some f)"
  shows "build_typed (PDict f) = Inr (Some (contains_claim ob marker))
    \<and> typed_holds (contains_claim ob marker) (excerpt ob) = Inr True
    \<and> (\<exists>sentence. map_of f ''claim'' = Some (PStr sentence)
        \<and> render (contains_claim ob marker) (path ob) (line_start ob) (line_end ob) None = Inr sentence)
    \<and> (\<exists>n line. map_of f ''evidence'' = Some (PList [citation_json ob n line]) \<and> contains line marker
        \<and> line \<in> set (splitlines (excerpt ob)) \<and> line_start ob \<le> n
        \<and> n < line_start ob + int (length (splitlines (excerpt ob))))"
proof -
  from assms obtain n line where found: "find (\<lambda>(n, l). contains l marker) (numbered ob) = Some (n, line)"
    and f: "contains_finding ob marker n line note_text = Inr f"
    by (auto simp: finding_for_marker_def bind_res_Inr split: option.splits)
  from find_mem [OF found] have mem: "(n, line) \<in> set (numbered ob)" "contains line marker" by auto
  have "contains (excerpt ob) marker"
    using contains_line numbered_mem [OF mem(1)] mem(2) by blast
  then have "typed_holds (contains_claim ob marker) (excerpt ob) = Inr True"
    by (simp add: typed_holds_def contains_claim_def)
  with contains_finding_fields [OF f] numbered_mem [OF mem(1)] mem(2) show ?thesis by blast
qed

theorem marker_finding_settles_witness:
  "\<exists>f. build_typed (PDict f) = Inr (Some (contains_claim sample_collected ''b''))
     \<and> typed_holds (contains_claim sample_collected ''b'') (excerpt sample_collected) = Inr True"
proof -
  obtain f where "finding_for_marker sample_collected ''b'' ''x'' = Inr (Some f)"
    by (auto simp: finding_for_marker_def numbered_def sample_collected_def sample_observation_def
        contains_finding_def mk_typed_def typed_ok_def contains_claim_def render_def upt_rec sample_digest_def)
  from marker_finding_settles [OF this] show ?thesis by blast
qed

text \<open>The changelog producer writes a claim its own checker refutes: the heading is matched
  with any number of blanks after the hashes, and the literal that is claimed has exactly one.
  For a heading with two or more the literal is in no line the run recorded.\<close>

theorem changelog_claim_refuted:
  "changelog_version (ob\<lparr>excerpt := ''##  v1.0.0''\<rparr>)
     = Some (''1.0.0'', line_start ob, ''##  v1.0.0'', ''## v1.0.0'')
   \<and> typed_holds (contains_claim ob ''## v1.0.0'') ''##  v1.0.0'' = Inr False"
proof -
  have "splitlines ''##  v1.0.0'' = [''##  v1.0.0'']" by code_simp
  moreover have "changelog_line (strip ''##  v1.0.0'') = Some ''1.0.0''" by code_simp
  moreover have "\<not> contains ''##  v1.0.0'' ''## v1.0.0''" by code_simp
  ultimately show ?thesis
    by (simp add: changelog_version_def numbered_def typed_holds_def contains_claim_def upt_rec map_filter_def)
qed

text \<open>A gate line with two blanks after \<open>run_check\<close> and one word ends the run with an error:
  the producer splits the rest at a blank that is only leading, takes the second part, and the
  \<open>IndexError\<close> is handled nowhere on the way out of the executor.\<close>

theorem gate_line_crashes:
  assumes "pl_route p = ''repo_review''" and "pl_review p = Some rp" and "rp_topic rp = ''ci_gate_parity''"
    and "by_path b parity_gate_path = Some gate" and "whole gate"
    and "by_path b parity_policy_path = Some policy"
    and "workflow_scope policy = Some ws" and "parity_exceptions policy = Some ex"
    and "scope_observations b ws = Some sc" and "\<not> list_ex (\<lambda>(_, ob). has_block_scalar_run ob) sc"
    and "raw \<in> set (splitlines (excerpt gate))" and "strip raw = ''run_check  '' @ word"
    and "word \<noteq> []" and "list_all (\<lambda>c. \<not> is_space c) word"
  shows "execute_plan_parts task p obs fb (Some b) = Inl (Foreign ''IndexError'' [])"
proof -
  have words: "dropWhile is_space word = word" "dropWhile (\<lambda>c. \<not> is_space c) word = []"
    using assms(13,14) by (cases word, auto simp: list_all_iff)+
  have "second_part (CHR '' '' # word) = None"
    by (simp add: second_part_def Let_def lstrip_def words is_space_def [of "CHR '' ''"])
  then have "run_check_command raw = Inl (Foreign ''IndexError'' [])"
    by (simp add: run_check_command_def Let_def assms(12) quot_def)
  from gate_raises [OF assms(11) this]
  have "local_gate_checks gate = Inl (Foreign ''IndexError'' [])" by (simp add: local_gate_checks_def)
  with assms(1-10) have "produce_repo_review task p b = Inl (Foreign ''IndexError'' [])"
    by (simp add: produce_repo_review_def producers_def produce_ci_release_gate_parity_def)
  then show ?thesis by (simp add: execute_plan_parts_def)
qed

definition sample_gate :: observation where
  "sample_gate = sample_observation\<lparr>path := parity_gate_path, source_id := ''g'', line_start := 1, line_end := 1,
     total_lines := Some 1, excerpt := ''run_check  lint''\<rparr>"

definition sample_policy :: observation where
  "sample_policy = sample_observation\<lparr>path := parity_policy_path, source_id := ''p'', line_start := 1, line_end := 5,
     total_lines := Some 5, excerpt := ''WORKFLOW_SCOPE = {'' @ [LF, quot] @ ''a.yml'' @ [quot] @ '': False,'' @ [LF] @
       ''}'' @ [LF] @ ''EXCEPTIONS = {'' @ [LF] @ ''}''\<rparr>"

definition sample_parity_base :: evidence_base where
  "sample_parity_base = \<lparr>base_snapshot = sample_snapshot, base_observations = [sample_gate, sample_policy],
     base_readers = []\<rparr>"

definition sample_parity_plan :: review_plan where
  "sample_parity_plan = \<lparr>rp_snapshot = ''s0'', rp_topic = ''ci_gate_parity'', rp_question = ''q'', rp_patterns = [],
     rp_rationale = ''r'', rp_answering = []\<rparr>"

theorem gate_line_crashes_witness:
  "execute_plan_parts ''t'' (sample_plan\<lparr>pl_route := ''repo_review'', pl_review := Some sample_parity_plan\<rparr>) [] None
     (Some sample_parity_base) = Inl (Foreign ''IndexError'' [])"
proof (rule gate_line_crashes)
  show "by_path sample_parity_base parity_gate_path = Some sample_gate"
    and "by_path sample_parity_base parity_policy_path = Some sample_policy"
    by (simp_all add: by_path_def sample_parity_base_def sample_gate_def sample_policy_def parity_gate_path_def
        parity_policy_path_def dict_of_def)
  show "workflow_scope sample_policy = Some [(''a.yml'', False)]" by code_simp
  show "parity_exceptions sample_policy = Some []" by code_simp
  show "scope_observations sample_parity_base [(''a.yml'', False)] = Some []"
    by (simp add: scope_observations_def)
  show "whole sample_gate" by (simp add: whole_def read_in_full_def sample_gate_def)
  show "''run_check  lint'' \<in> set (splitlines (excerpt sample_gate))" by code_simp
  show "strip ''run_check  lint'' = ''run_check  '' @ ''lint''" by code_simp
  show "list_all (\<lambda>c. \<not> is_space c) ''lint''" by code_simp
  show "rp_topic sample_parity_plan = ''ci_gate_parity''" by (simp add: sample_parity_plan_def)
qed simp_all

end
