(* ===== verification/EventLog.thy ===== *)
theory EventLog
  imports Redaction Containment
begin

section \<open>The append-only event log (atlas_core/eventlog.py)\<close>

text \<open>
  An event, the log that numbers events and hands them to a sink, what the log attests about
  each call, and the JSON-lines file: its torn tail, its writer and its reader. The sink is a
  state \<open>'s\<close> with a write function that may fail; the clock reading is an argument. A payload
  is a JSON object in insertion order. \<open>dumps\<close> is \<open>json.dumps(..., ensure_ascii=False,
  sort_keys=True)\<close>; \<open>loads\<close> of the reader is a parameter.
\<close>

definition event_schema :: string where "event_schema = ''atlas-event.v1''"

definition event_kinds :: "string list" where
  "event_kinds = [''run_started'', ''interrupted'', ''resumed'', ''plan_selected'', ''call_started'',
     ''call_finished'', ''observation_recorded'', ''decision_recorded'', ''approval_recorded'',
     ''write_verified'', ''run_stopped'']"

definition approval_decisions :: "string list" where
  "approval_decisions = [''requested'', ''granted'', ''refused'', ''consumed'', ''rejected'']"

definition call_kinds :: "string list" where
  "call_kinds = [''observe'', ''model_call'', ''tool_call'', ''memory_read'', ''memory_write'']"

definition call_outcomes :: "string list" where
  "call_outcomes = [''ok'', ''denied'', ''failed'']"

definition call_state_names :: "string list" where
  "call_state_names = ''unknown'' # call_outcomes"

subsection \<open>Digests\<close>

fun dumps :: "pyval \<Rightarrow> string" where
  "dumps PNone = ''null''"
| "dumps (PBool b) = (if b then ''true'' else ''false'')"
| "dumps (PInt i) = str_int i"
| "dumps (PFloat f t) = (case f of Fin _ \<Rightarrow> t | PosInf \<Rightarrow> ''Infinity'' | NegInf \<Rightarrow> ''-Infinity''
     | NaN \<Rightarrow> ''NaN'')"
| "dumps (PStr s) = json_str s"
| "dumps (PList xs) = ''['' @ join '', '' (map dumps xs) @ '']''"
| "dumps (PDict d) = ''{'' @ join '', '' (map (\<lambda>(k, t). json_str k @ '': '' @ t)
     (sort_key fst (map (\<lambda>(k, v). (k, dumps v)) d))) @ ''}''"

definition digest :: "(string \<Rightarrow> string) \<Rightarrow> pyval \<Rightarrow> string" where
  "digest f v = (case v of PStr s \<Rightarrow> f s | _ \<Rightarrow> f (dumps v))"

subsection \<open>Events\<close>

record event =
  ev_run :: string
  ev_seq :: int
  ev_kind :: string
  ev_at :: string
  ev_iteration :: int
  ev_call :: pyval
  ev_payload :: dict

definition names_one_of :: "dict \<Rightarrow> string \<Rightarrow> string list \<Rightarrow> bool" where
  "names_one_of d k names \<longleftrightarrow> get_or d k PNone \<in> set (map PStr names)"

definition needs_call :: "string \<Rightarrow> bool" where
  "needs_call k \<longleftrightarrow> k \<in> set [''call_started'', ''call_finished'']"

definition event_ok :: "event \<Rightarrow> bool" where
  "event_ok e \<longleftrightarrow> ev_kind e \<in> set event_kinds \<and> ev_run e \<noteq> [] \<and> 0 \<le> ev_seq e \<and> 0 \<le> ev_iteration e
     \<and> (if needs_call (ev_kind e) then truthy (ev_call e) else ev_call e = PNone)
     \<and> (ev_kind e = ''call_started'' \<longrightarrow> names_one_of (ev_payload e) ''call_kind'' call_kinds)
     \<and> (ev_kind e = ''approval_recorded'' \<longrightarrow>
          names_one_of (ev_payload e) ''decision'' approval_decisions)
     \<and> (ev_kind e = ''call_finished'' \<longrightarrow> names_one_of (ev_payload e) ''outcome'' call_outcomes)"

definition mk_event :: "event \<Rightarrow> event result" where
  "mk_event e = (if event_ok e then Inr e else Inl ValueError)"

definition event_dict :: "event \<Rightarrow> dict" where
  "event_dict e =
    [(''schema'', PStr event_schema), (''event_id'', PStr (ev_run e @ '':'' @ str_int (ev_seq e))),
     (''run_id'', PStr (ev_run e)), (''sequence'', PInt (ev_seq e)),
     (''iteration'', PInt (ev_iteration e)), (''kind'', PStr (ev_kind e)),
     (''recorded_at'', PStr (ev_at e)), (''call_id'', ev_call e),
     (''payload'', PDict (ev_payload e))]"

subsection \<open>Reading records back\<close>

text \<open>\<open>dict(v)\<close>: of an object, or of a sequence of pairs. Pairs with a key that is not a
  string have no counterpart in \<open>dict\<close> and are a \<open>TypeError\<close> here.\<close>

definition pair_of :: "pyval \<Rightarrow> (string \<times> pyval) result" where
  "pair_of v = (case v of
     PList [PStr k, x] \<Rightarrow> Inr (k, x)
   | PStr [a, b] \<Rightarrow> Inr ([a], PStr [b])
   | PList xs \<Rightarrow> Inl (if length xs = 2 then TypeError else ValueError)
   | PStr _ \<Rightarrow> Inl ValueError
   | _ \<Rightarrow> Inl TypeError)"

definition as_dict :: "pyval \<Rightarrow> dict result" where
  "as_dict v = (case v of
     PDict d \<Rightarrow> Inr d
   | PList xs \<Rightarrow> bind_res (map_res pair_of xs) (\<lambda>ps. Inr (dict_of fst snd ps))
   | PStr s \<Rightarrow> if s = [] then Inr [] else Inl ValueError
   | _ \<Rightarrow> Inl TypeError)"

definition event_from_record :: "dict \<Rightarrow> event result" where
  "event_from_record r =
     (if get_or r ''schema'' PNone \<noteq> PStr event_schema then Inl ResumeRefused
      else bind_res (py_int (get_or r ''sequence'' (PInt (- 1)))) (\<lambda>sq.
        bind_res (py_int (get_or r ''iteration'' (PInt 0))) (\<lambda>it.
        bind_res (as_dict (get_or r ''payload'' (PDict []))) (\<lambda>pl.
        mk_event \<lparr>ev_run = str_val (get_or r ''run_id'' (PStr [])), ev_seq = sq,
          ev_kind = str_val (get_or r ''kind'' (PStr [])),
          ev_at = str_val (get_or r ''recorded_at'' (PStr [])), ev_iteration = it,
          ev_call = get_or r ''call_id'' PNone, ev_payload = pl\<rparr>))))"

subsection \<open>The log\<close>

record 's event_log =
  log_run :: string
  log_sink :: "'s option"
  log_events :: "event list"

definition mk_log :: "string \<Rightarrow> 's option \<Rightarrow> dict list \<Rightarrow> 's event_log result" where
  "mk_log run sink previous =
     (if run = [] then Inl ValueError
      else bind_res (map_res event_from_record previous) (\<lambda>evs.
        if list_ex (\<lambda>e. ev_run e \<noteq> run) evs then Inl ResumeRefused
        else if map ev_seq evs \<noteq> map int [0..<length evs] then Inl ResumeRefused
        else Inr \<lparr>log_run = run, log_sink = sink, log_events = evs\<rparr>))"

text \<open>
  \<open>append\<close> adds the event in memory before it writes it, so the log it returns holds the
  event also when the sink fails. \<open>w\<close> is the sink's write.
\<close>

definition redact_payload :: "dict \<Rightarrow> dict" where
  "redact_payload d =
     map (\<lambda>(k, v). (k, if k \<in> set verbatim_keys then v else redact_document v)) d"

definition log_append ::
  "('s \<Rightarrow> dict \<Rightarrow> 's result) \<Rightarrow> string \<Rightarrow> string \<Rightarrow> int \<Rightarrow> pyval \<Rightarrow> dict \<Rightarrow> 's event_log
     \<Rightarrow> 's event_log \<times> event result" where
  "log_append w now kind it call payload l =
     (case mk_event \<lparr>ev_run = log_run l, ev_seq = int (length (log_events l)), ev_kind = kind,
             ev_at = now, ev_iteration = it, ev_call = call, ev_payload = redact_payload payload\<rparr> of
        Inl e \<Rightarrow> (l, Inl e)
      | Inr ev \<Rightarrow>
         (let l' = l\<lparr>log_events := log_events l @ [ev]\<rparr> in
          case log_sink l of
            None \<Rightarrow> (l', Inr ev)
          | Some s \<Rightarrow> (case w s (event_dict ev) of
                Inl e \<Rightarrow> (l', Inl e)
              | Inr s' \<Rightarrow> (l'\<lparr>log_sink := Some s'\<rparr>, Inr ev))))"

definition call_name :: "'s event_log \<Rightarrow> string" where
  "call_name l = log_run l @ '':'' @ str_nat (length (log_events l))"

definition start_call ::
  "('s \<Rightarrow> dict \<Rightarrow> 's result) \<Rightarrow> (string \<Rightarrow> string) \<Rightarrow> string \<Rightarrow> string \<Rightarrow> int \<Rightarrow> pyval \<Rightarrow> pyval \<Rightarrow> dict
     \<Rightarrow> 's event_log \<Rightarrow> 's event_log \<times> string result" where
  "start_call w f now call_kind it target inp payload l =
     (let c = call_name l;
          (l', r) = log_append w now ''call_started'' it (PStr c)
            ([(''call_kind'', PStr call_kind), (''target'', target),
              (''input_sha256'', if inp = PNone then PNone else PStr (digest f inp))] @ payload) l
      in (l', bind_res r (\<lambda>_. Inr c)))"

definition call_event :: "string \<Rightarrow> string \<Rightarrow> event \<Rightarrow> bool" where
  "call_event k c e \<longleftrightarrow> ev_kind e = k \<and> ev_call e = PStr c"

definition finish_call ::
  "('s \<Rightarrow> dict \<Rightarrow> 's result) \<Rightarrow> string \<Rightarrow> string \<Rightarrow> string \<Rightarrow> int \<Rightarrow> pyval \<Rightarrow> dict
     \<Rightarrow> 's event_log \<Rightarrow> 's event_log \<times> event result" where
  "finish_call w now c outcome it err payload l =
     (if \<not> list_ex (call_event ''call_started'' c) (log_events l) then (l, Inl AppendOnlyViolation)
      else if list_ex (call_event ''call_finished'' c) (log_events l) then (l, Inl AppendOnlyViolation)
      else log_append w now ''call_finished'' it (PStr c)
        ([(''outcome'', PStr outcome), (''error'', err)] @ payload) l)"

subsection \<open>What the log attests about its calls\<close>

definition call_step :: "dict \<Rightarrow> (string \<times> string) list \<Rightarrow> (string \<times> string) list result" where
  "call_step r started = (case get_or r ''call_id'' PNone of
     PStr c \<Rightarrow>
       if get_or r ''kind'' PNone = PStr ''call_started'' then
         Inr (if c \<in> fst ` set started then started else dict_set c ''unknown'' started)
       else if get_or r ''kind'' PNone = PStr ''call_finished'' \<and> c \<in> fst ` set started then
         (case get_or r ''payload'' (PDict []) of
            PDict p \<Rightarrow> (case get_or p ''outcome'' PNone of
                PStr out \<Rightarrow> Inr (if out \<in> set call_outcomes then dict_set c out started else started)
              | _ \<Rightarrow> Inr started)
          | _ \<Rightarrow> Inl (Foreign ''AttributeError'' []))
       else Inr started
   | _ \<Rightarrow> Inr started)"

fun call_fold :: "dict list \<Rightarrow> (string \<times> string) list \<Rightarrow> (string \<times> string) list result" where
  "call_fold [] started = Inr started"
| "call_fold (r # rs) started = bind_res (call_step r started) (call_fold rs)"

definition call_states :: "dict list \<Rightarrow> (string \<times> string) list result" where
  "call_states rs = call_fold rs []"

definition unfinished_calls :: "dict list \<Rightarrow> string list result" where
  "unfinished_calls rs = bind_res (call_states rs) (\<lambda>d.
     Inr (map fst (filter (\<lambda>(c, s). s = ''unknown'') d)))"

subsection \<open>The JSON-lines file\<close>

definition last_line_start :: "string \<Rightarrow> string" where
  "last_line_start raw = rev (dropWhile (\<lambda>c. c \<noteq> LF) (rev raw))"

text \<open>\<open>JsonlSink(path, truncate_torn_tail)\<close> on the file's text, \<open>None\<close> for a file that does not
  exist; the result is the text the sink appends to.\<close>

definition open_sink :: "bool \<Rightarrow> string option \<Rightarrow> string result" where
  "open_sink drop_tail file = (case file of
     None \<Rightarrow> Inr []
   | Some raw \<Rightarrow>
       if raw = [] \<or> last raw = LF then Inr raw
       else if \<not> drop_tail then Inl TornLogTail
       else Inr (if LF \<in> set raw then last_line_start raw else []))"

definition sink_write :: "string \<Rightarrow> dict \<Rightarrow> string result" where
  "sink_write file r = Inr (file @ dumps (PDict r) @ [LF])"

fun read_lines :: "(string \<Rightarrow> pyval result) \<Rightarrow> string list \<Rightarrow> pyval list result" where
  "read_lines loads [] = Inr []"
| "read_lines loads (l # ls) =
     (if \<not> ends_with l [LF] \<and> ls = [] then Inr []
      else if blank l then read_lines loads ls
      else bind_res (loads l) (\<lambda>v. bind_res (read_lines loads ls) (\<lambda>vs. Inr (v # vs))))"

definition read_jsonl :: "(string \<Rightarrow> pyval result) \<Rightarrow> string \<Rightarrow> pyval list result" where
  "read_jsonl loads raw = read_lines loads (splitlines_keep (universal_newlines raw))"

subsection \<open>The run lock\<close>

text \<open>\<open>held\<close> are the lock files some process holds; \<open>flock\<close> says the platform has it.\<close>

definition lock_acquire :: "bool \<Rightarrow> string set \<Rightarrow> string \<Rightarrow> string set result" where
  "lock_acquire flock held p =
     (if \<not> flock then Inl LockUnavailable
      else if p \<in> held then Inl ResumeRefused else Inr (insert p held))"

definition lock_release :: "string option \<Rightarrow> string set \<Rightarrow> string set" where
  "lock_release handle held = (case handle of None \<Rightarrow> held | Some p \<Rightarrow> held - {p})"

section \<open>The sink as an interface\<close>

text \<open>
  What the log relies on: a write to a whole destination leaves a whole destination whose
  lines are the old ones and the encoded record, for records the destination can hold.
\<close>

locale event_sink =
  fixes wr :: "'s \<Rightarrow> dict \<Rightarrow> 's result"
    and view :: "'s \<Rightarrow> string list"
    and enc :: "dict \<Rightarrow> string"
    and good :: "dict \<Rightarrow> bool"
    and whole :: "'s \<Rightarrow> bool"
  assumes wr_view: "whole s \<Longrightarrow> good r \<Longrightarrow> wr s r = Inr s' \<Longrightarrow> view s' = view s @ [enc r]"
    and wr_whole: "whole s \<Longrightarrow> good r \<Longrightarrow> wr s r = Inr s' \<Longrightarrow> whole s'"
begin

definition synced :: "'s event_log \<Rightarrow> bool" where
  "synced l \<longleftrightarrow> (\<forall>s. log_sink l = Some s \<longrightarrow>
     whole s \<and> view s = map (\<lambda>e. enc (event_dict e)) (log_events l))"

lemma append_synced:
  assumes "synced l" and "log_append wr now kind it call payload l = (l', Inr ev)"
    and "good (event_dict ev)"
  shows "synced l'"
  using assms wr_view wr_whole
  by (auto simp: synced_def log_append_def mk_event_def Let_def
      split: sum.splits option.splits if_splits)

lemma write_all:
  "whole s \<Longrightarrow> \<forall>r \<in> set rs. good r \<Longrightarrow> fold (\<lambda>r m. bind_res m (\<lambda>s. wr s r)) rs (Inr s) = Inr s' \<Longrightarrow>
     whole s' \<and> view s' = view s @ map enc rs"
proof (induction rs arbitrary: s)
  case Nil
  then show ?case by simp
next
  case (Cons r rs)
  have err: "fold (\<lambda>r m. bind_res m (\<lambda>s. wr s r)) rs (Inl e) = Inl e" for e rs
    by (induction rs) auto
  from Cons.prems err obtain t where t: "wr s r = Inr t" by (cases "wr s r") auto
  with Cons.prems Cons.IH [of t] wr_view wr_whole show ?case by auto
qed

end

section \<open>Lemmas\<close>

lemma is_linebreak_LF [simp]: "is_linebreak LF"
  by (simp add: is_linebreak_def)

lemma split_terms_append_LF:
  "split_terms acc (s @ LF # t) = split_terms acc (s @ [LF]) @ split_terms [] t"
proof (induction acc s rule: split_terms.induct)
  case (1 acc)
  then show ?case by (simp add: split_terms_LF)
next
  case (2 acc c)
  then show ?case
    by (cases "c = CR") (auto simp: split_terms_LF is_linebreak_def)
next
  case (3 acc c d ds)
  then show ?case by auto
qed

lemma splitlines_keep_append:
  assumes "s = [] \<or> last s = LF"
  shows "splitlines_keep (s @ t) = splitlines_keep s @ splitlines_keep t"
proof (cases "s = []")
  case False
  with assms have "s = butlast s @ [LF]" by (metis append_butlast_last_id)
  then have "splitlines_keep (s @ t) = splitlines_keep (butlast s @ LF # t)"
    by (metis append.assoc append_Cons append_Nil)
  also have "\<dots> = splitlines_keep (butlast s @ [LF]) @ splitlines_keep t"
    unfolding splitlines_keep_def by (subst split_terms_append_LF) simp
  finally show ?thesis using \<open>s = butlast s @ [LF]\<close> by simp
qed simp

definition plain_record :: "dict \<Rightarrow> bool" where
  "plain_record r \<longleftrightarrow> list_all (\<lambda>c. \<not> is_linebreak c) (dumps (PDict r))"

definition line_of :: "dict \<Rightarrow> string" where
  "line_of r = dumps (PDict r) @ [LF]"

definition whole_lines :: "string \<Rightarrow> bool" where
  "whole_lines s \<longleftrightarrow> s = [] \<or> last s = LF"

lemma splitlines_keep_line_of:
  "plain_record r \<Longrightarrow> splitlines_keep (line_of r) = [line_of r]"
  using splitlines_keep_line [of "dumps (PDict r)" "[]"]
  by (simp add: plain_record_def line_of_def list_all_iff)

lemma sink_write_line: "sink_write s r = Inr (s @ line_of r)"
  by (simp add: sink_write_def line_of_def)

lemma last_line_of [simp]: "line_of r \<noteq> []" "last (line_of r) = LF"
  by (simp_all add: line_of_def)

interpretation jsonl: event_sink sink_write splitlines_keep line_of plain_record whole_lines
  by unfold_locales
     (auto simp: sink_write_line whole_lines_def splitlines_keep_append splitlines_keep_line_of)

subsection \<open>Well-formed logs\<close>

definition log_ok :: "'s event_log \<Rightarrow> bool" where
  "log_ok l \<longleftrightarrow> log_run l \<noteq> [] \<and> list_all (\<lambda>e. event_ok e \<and> ev_run e = log_run l) (log_events l)
     \<and> map ev_seq (log_events l) = map int [0..<length (log_events l)]"

lemma log_append_events:
  "log_append w now kind it call payload l = (l', r) \<Longrightarrow>
     (l' = l \<and> (\<exists>e. r = Inl e)) \<or>
     (\<exists>ev. log_events l' = log_events l @ [ev] \<and> log_run l' = log_run l \<and> event_ok ev
        \<and> ev = \<lparr>ev_run = log_run l, ev_seq = int (length (log_events l)), ev_kind = kind,
             ev_at = now, ev_iteration = it, ev_call = call, ev_payload = redact_payload payload\<rparr>
        \<and> (\<forall>x. r = Inr x \<longrightarrow> x = ev))"
  by (auto simp: log_append_def mk_event_def Let_def split: sum.splits option.splits if_splits)

lemma log_append_ok:
  assumes "log_ok l" and "log_append w now kind it call payload l = (l', r)"
  shows "log_ok l'"
  using log_append_events [OF assms(2)] assms(1) by (auto simp: log_ok_def)

lemma event_from_record_ok: "event_from_record r = Inr e \<Longrightarrow> event_ok e"
  by (auto simp: event_from_record_def bind_res_Inr mk_event_def split: if_splits)

lemma mk_log_ok: "mk_log run sink previous = Inr l \<Longrightarrow> log_ok l \<and> log_run l = run"
  by (auto simp: mk_log_def log_ok_def bind_res_Inr list_all_iff list_ex_iff
      split: if_splits dest: map_res_set event_from_record_ok)

lemma event_record_roundtrip: "event_ok e \<Longrightarrow> event_from_record (event_dict e) = Inr e"
  by (cases e)
     (simp add: event_from_record_def event_dict_def get_or_def py_int_def as_dict_def mk_event_def)

lemma map_res_roundtrip: "\<forall>x \<in> set xs. g (h x) = Inr x \<Longrightarrow> map_res g (map h xs) = Inr xs"
  by (induction xs) auto

lemma redact_payload_document: "redact_document (PDict d) = PDict (redact_payload d)"
  by (simp add: redact_payload_def)

lemma code_digit: "n < 10 \<Longrightarrow> code (digit n) = 48 + n"
  by (simp add: code_def)

lemma str_nat_snoc: "10 \<le> n \<Longrightarrow> str_nat n = str_nat (n div 10) @ [digit (n mod 10)]"
  by (subst str_nat.simps) simp

lemma str_nat_small: "n < 10 \<Longrightarrow> str_nat n = [digit n]"
  by (subst str_nat.simps) simp

lemma str_nat_nonempty [simp]: "str_nat n \<noteq> []"
  by (cases "n < 10") (simp_all add: str_nat_small str_nat_snoc)

lemma str_nat_one: "length (str_nat n) = 1 \<longleftrightarrow> n < 10"
  by (cases "n < 10") (simp_all add: str_nat_small str_nat_snoc del: digit.simps)

lemma digit_inj: "m < 10 \<Longrightarrow> n < 10 \<Longrightarrow> digit m = digit n \<Longrightarrow> m = n"
  using code_digit [of m] code_digit [of n] by simp

lemma str_nat_inj: "str_nat m = str_nat n \<Longrightarrow> m = n"
proof (induction m arbitrary: n rule: less_induct)
  case (less m)
  show ?case
  proof (cases "m < 10 \<or> n < 10")
    case True
    then have "m < 10 \<and> n < 10"
      using arg_cong [OF less.prems, of length] str_nat_one [of m] str_nat_one [of n] by simp
    with less.prems show ?thesis by (simp add: str_nat_small digit_inj del: digit.simps)
  next
    case False
    with less.prems have "str_nat (m div 10) = str_nat (n div 10)" "digit (m mod 10) = digit (n mod 10)"
      by (simp_all add: str_nat_snoc not_less del: digit.simps)
    with less.IH [of "m div 10" "n div 10"] False have "m div 10 = n div 10" "m mod 10 = n mod 10"
      by (auto dest: digit_inj [rotated 2] simp del: digit.simps)
    then show ?thesis by (metis div_mult_mod_eq)
  qed
qed

subsection \<open>Sequences of operations\<close>

text \<open>What a run does to its log: facts that name no call, and calls begun and finished. The
  arguments are those of the operations.\<close>

datatype log_op =
    OFact string string int dict
  | OStart string string int pyval pyval dict
  | OFinish string string string int pyval dict

fun log_apply ::
  "('s \<Rightarrow> dict \<Rightarrow> 's result) \<Rightarrow> (string \<Rightarrow> string) \<Rightarrow> log_op \<Rightarrow> 's event_log \<Rightarrow> 's event_log" where
  "log_apply w f (OFact now kind it payload) l = fst (log_append w now kind it PNone payload l)"
| "log_apply w f (OStart now k it target inp payload) l =
     fst (start_call w f now k it target inp payload l)"
| "log_apply w f (OFinish now c outcome it err payload) l =
     fst (finish_call w now c outcome it err payload l)"

definition adds :: "'s event_log \<Rightarrow> 's event_log \<Rightarrow> event \<Rightarrow> bool" where
  "adds l l' ev \<longleftrightarrow> log_events l' = log_events l @ [ev] \<and> log_run l' = log_run l
     \<and> event_ok ev \<and> ev_run ev = log_run l \<and> ev_seq ev = int (length (log_events l))
     \<and> (ev_kind ev = ''call_started'' \<longrightarrow> ev_call ev = PStr (call_name l))
     \<and> (ev_kind ev = ''call_finished'' \<longrightarrow> (\<exists>c. ev_call ev = PStr c
          \<and> list_ex (call_event ''call_started'' c) (log_events l)
          \<and> \<not> list_ex (call_event ''call_finished'' c) (log_events l)))"

lemma event_ok_call: "event_ok e \<Longrightarrow> ev_call e = PNone \<Longrightarrow> \<not> needs_call (ev_kind e)"
  by (cases "needs_call (ev_kind e)") (simp_all add: event_ok_def)

lemma append_adds:
  assumes "log_append w now kind it call payload l = (l', r)"
    and "needs_call kind \<Longrightarrow> call \<noteq> PNone \<Longrightarrow> kind = ''call_started'' \<Longrightarrow> call = PStr (call_name l)"
    and "needs_call kind \<Longrightarrow> call \<noteq> PNone \<Longrightarrow> kind = ''call_finished'' \<Longrightarrow> \<exists>c. call = PStr c
          \<and> list_ex (call_event ''call_started'' c) (log_events l)
          \<and> \<not> list_ex (call_event ''call_finished'' c) (log_events l)"
  shows "l' = l \<or> (\<exists>ev. adds l l' ev)"
  using log_append_events [OF assms(1)]
proof
  assume "\<exists>ev. log_events l' = log_events l @ [ev] \<and> log_run l' = log_run l \<and> event_ok ev
        \<and> ev = \<lparr>ev_run = log_run l, ev_seq = int (length (log_events l)), ev_kind = kind,
             ev_at = now, ev_iteration = it, ev_call = call, ev_payload = redact_payload payload\<rparr>
        \<and> (\<forall>x. r = Inr x \<longrightarrow> x = ev)"
  then obtain ev where ev: "log_events l' = log_events l @ [ev]" "log_run l' = log_run l"
    "event_ok ev" "ev_run ev = log_run l" "ev_seq ev = int (length (log_events l))"
    "ev_kind ev = kind" "ev_call ev = call" by auto
  have need: "needs_call kind \<and> call \<noteq> PNone" if "kind = ''call_started'' \<or> kind = ''call_finished''"
    using that event_ok_call [OF ev(3)] ev(6,7) by (auto simp: needs_call_def)
  have "adds l l' ev"
    unfolding adds_def ev using ev(3) need assms(2,3) by blast
  then show ?thesis by blast
qed simp

lemma log_apply_cases: "log_apply w f p l = l \<or> (\<exists>ev. adds l (log_apply w f p l) ev)"
proof (cases p)
  case (OFact now kind it payload)
  obtain l' r where lr: "log_append w now kind it PNone payload l = (l', r)"
    by (cases "log_append w now kind it PNone payload l") auto
  from append_adds [OF lr] OFact lr show ?thesis by simp
next
  case (OStart now k it target inp payload)
  let ?pl = "[(''call_kind'', PStr k), (''target'', target),
     (''input_sha256'', if inp = PNone then PNone else PStr (digest f inp))] @ payload"
  obtain l' r where lr: "log_append w now ''call_started'' it (PStr (call_name l)) ?pl l = (l', r)"
    by (cases "log_append w now ''call_started'' it (PStr (call_name l)) ?pl l") auto
  with OStart have p: "log_apply w f p l = l'" by (simp add: start_call_def Let_def)
  show ?thesis unfolding p by (rule append_adds [OF lr]) simp_all
next
  case (OFinish now c outcome it err payload)
  show ?thesis
  proof (cases "list_ex (call_event ''call_started'' c) (log_events l) \<and>
      \<not> list_ex (call_event ''call_finished'' c) (log_events l)")
    case False
    with OFinish show ?thesis by (auto simp: finish_call_def)
  next
    case True
    let ?pl = "[(''outcome'', PStr outcome), (''error'', err)] @ payload"
    obtain l' r where lr: "log_append w now ''call_finished'' it (PStr c) ?pl l = (l', r)"
      by (cases "log_append w now ''call_finished'' it (PStr c) ?pl l") auto
    with OFinish True have p: "log_apply w f p l = l'" by (simp add: finish_call_def)
    show ?thesis unfolding p by (rule append_adds [OF lr]) (use True in simp_all)
  qed
qed

subsection \<open>Calls\<close>

definition started_in :: "string \<Rightarrow> event list \<Rightarrow> bool" where
  "started_in c evs \<longleftrightarrow> list_ex (call_event ''call_started'' c) evs"

definition outcome_of :: "event \<Rightarrow> string" where
  "outcome_of e = (case get_or (ev_payload e) ''outcome'' PNone of PStr s \<Rightarrow> s | _ \<Rightarrow> [])"

text \<open>What the log should say of a call: nothing when it never began, \<open>unknown\<close> when no
  outcome was recorded, and otherwise the recorded outcome.\<close>

definition call_spec :: "event list \<Rightarrow> string \<Rightarrow> string option" where
  "call_spec evs c =
     (if \<not> started_in c evs then None
      else (case find (call_event ''call_finished'' c) evs of
          None \<Rightarrow> Some ''unknown'' | Some e \<Rightarrow> Some (outcome_of e)))"

definition count_calls :: "string \<Rightarrow> string \<Rightarrow> event list \<Rightarrow> nat" where
  "count_calls k c evs = length (filter (call_event k c) evs)"

definition attests :: "event list \<Rightarrow> (string \<times> string) list \<Rightarrow> bool" where
  "attests evs d \<longleftrightarrow> call_states (map event_dict evs) = Inr d \<and> (\<forall>c. map_of d c = call_spec evs c)"

definition calls_ok :: "'s event_log \<Rightarrow> bool" where
  "calls_ok l \<longleftrightarrow> log_ok l
     \<and> (\<forall>c. started_in c (log_events l) \<longrightarrow>
          (\<exists>i < length (log_events l). c = log_run l @ '':'' @ str_nat i))
     \<and> (\<forall>c. count_calls ''call_started'' c (log_events l) \<le> 1
          \<and> count_calls ''call_finished'' c (log_events l) \<le> 1
          \<and> (0 < count_calls ''call_finished'' c (log_events l) \<longrightarrow> started_in c (log_events l)))
     \<and> (\<exists>d. attests (log_events l) d)"

lemma call_fold_snoc: "call_fold (rs @ [r]) d = bind_res (call_fold rs d) (call_step r)"
  by (induction rs arbitrary: d) (auto simp: bind_res_def split: sum.splits)

lemma count_zero: "count_calls k c evs = 0 \<longleftrightarrow> \<not> list_ex (call_event k c) evs"
  by (auto simp: count_calls_def filter_empty_conv list_ex_iff)

lemma find_none: "find P xs = None \<longleftrightarrow> \<not> list_ex P xs"
  by (auto simp: find_None_iff list_ex_iff)

lemma find_snoc: "find P (xs @ [x]) = (case find P xs of None \<Rightarrow> if P x then Some x else None | r \<Rightarrow> r)"
  by (induction xs) auto

lemma event_dict_get [simp]:
  "get_or (event_dict e) ''call_id'' v = ev_call e"
  "get_or (event_dict e) ''kind'' v = PStr (ev_kind e)"
  "get_or (event_dict e) ''payload'' v = PDict (ev_payload e)"
  by (simp_all add: get_or_def event_dict_def)

lemma attests_keys: "attests evs d \<Longrightarrow> c \<in> fst ` set d \<longleftrightarrow> started_in c evs"
  using map_of_eq_None_iff [of d c]
  by (auto simp: attests_def call_spec_def split: option.splits if_splits)

lemma attests_step:
  assumes "attests evs d" and "call_step (event_dict ev) d = Inr d'"
    and "\<forall>c. map_of d' c = call_spec (evs @ [ev]) c"
  shows "attests (evs @ [ev]) d'"
  using assms by (simp add: attests_def call_states_def call_fold_snoc)

lemma call_name_fresh:
  assumes "calls_ok l" shows "\<not> started_in (call_name l) (log_events l)"
  using assms by (auto simp: calls_ok_def call_name_def dest!: str_nat_inj)

lemma adds_started:
  assumes ok: "calls_ok l" and ad: "adds l l' ev" and k: "ev_kind ev = ''call_started''"
    and d: "attests (log_events l) d"
  shows "attests (log_events l') (dict_set (call_name l) ''unknown'' d)"
proof -
  let ?c = "call_name l"
  have c: "ev_call ev = PStr ?c" using ad k by (simp add: adds_def)
  have fresh: "\<not> started_in ?c (log_events l)" by (rule call_name_fresh [OF ok])
  then have nf: "find (call_event ''call_finished'' ?c) (log_events l) = None"
    using ok by (auto simp: calls_ok_def find_none count_zero [symmetric])
  have "attests (log_events l @ [ev]) (dict_set ?c ''unknown'' d)"
  proof (rule attests_step [OF d])
    show "call_step (event_dict ev) d = Inr (dict_set ?c ''unknown'' d)"
      using attests_keys [OF d, of ?c] fresh by (simp add: call_step_def c k)
    show "\<forall>c. map_of (dict_set ?c ''unknown'' d) c = call_spec (log_events l @ [ev]) c"
      using d nf k c
      by (auto simp: attests_def call_spec_def started_in_def find_snoc call_event_def
          split: option.splits)
  qed
  then show ?thesis using ad by (simp add: adds_def)
qed

lemma adds_finished:
  assumes ad: "adds l l' ev" and k: "ev_kind ev = ''call_finished''"
    and d: "attests (log_events l) d"
  shows "\<exists>c. ev_call ev = PStr c \<and> attests (log_events l') (dict_set c (outcome_of ev) d)"
proof -
  from ad k obtain c where c: "ev_call ev = PStr c" "started_in c (log_events l)"
    "\<not> list_ex (call_event ''call_finished'' c) (log_events l)"
    by (auto simp: adds_def started_in_def)
  have "event_ok ev" using ad by (simp add: adds_def)
  with k obtain out where out: "get_or (ev_payload ev) ''outcome'' PNone = PStr out"
    "out \<in> set call_outcomes" by (auto simp: event_ok_def names_one_of_def)
  have "attests (log_events l @ [ev]) (dict_set c (outcome_of ev) d)"
  proof (rule attests_step [OF d])
    show "call_step (event_dict ev) d = Inr (dict_set c (outcome_of ev) d)"
      using attests_keys [OF d, of c] c(2) out by (simp add: call_step_def c k outcome_of_def)
    have "find (call_event ''call_finished'' c) (log_events l) = None"
      using c(3) by (simp add: find_none)
    then show "\<forall>x. map_of (dict_set c (outcome_of ev) d) x = call_spec (log_events l @ [ev]) x"
      using d c k
      by (auto simp: attests_def call_spec_def started_in_def find_snoc call_event_def
          split: option.splits)
  qed
  with c ad show ?thesis by (auto simp: adds_def)
qed

lemma adds_other:
  assumes ad: "adds l l' ev" and k: "\<not> needs_call (ev_kind ev)" and d: "attests (log_events l) d"
  shows "attests (log_events l') d"
proof -
  have n: "ev_call ev = PNone" using ad k by (simp add: adds_def event_ok_def)
  have "attests (log_events l @ [ev]) d"
    by (rule attests_step [OF d])
       (use d k n in \<open>auto simp: call_step_def attests_def call_spec_def started_in_def find_snoc
          call_event_def split: option.splits\<close>)
  then show ?thesis using ad by (simp add: adds_def)
qed

lemma adds_log_ok: "log_ok l \<Longrightarrow> adds l l' ev \<Longrightarrow> log_ok l'"
  by (auto simp: log_ok_def adds_def)

lemma count_snoc: "count_calls k c (evs @ [ev]) = count_calls k c evs + (if call_event k c ev then 1 else 0)"
  by (simp add: count_calls_def)

lemma adds_calls_ok:
  assumes ok: "calls_ok l" and ad: "adds l l' ev"
  shows "calls_ok l'"
proof -
  let ?es = "log_events l"
  have es: "log_events l' = ?es @ [ev]" "log_run l' = log_run l" using ad by (auto simp: adds_def)
  obtain d where d: "attests ?es d" using ok by (auto simp: calls_ok_def)
  have at: "\<exists>d. attests (log_events l') d"
  proof (cases "needs_call (ev_kind ev)")
    case False
    with adds_other [OF ad _ d] show ?thesis by blast
  next
    case True
    then have "ev_kind ev = ''call_started'' \<or> ev_kind ev = ''call_finished''"
      by (simp add: needs_call_def)
    with adds_started [OF ok ad _ d] adds_finished [OF ad _ d] show ?thesis by blast
  qed
  have st: "started_in c (log_events l') \<longleftrightarrow>
      started_in c ?es \<or> ev_kind ev = ''call_started'' \<and> c = call_name l" for c
    using ad by (auto simp: es started_in_def call_event_def adds_def)
  have names: "\<exists>i < length (log_events l'). c = log_run l' @ '':'' @ str_nat i"
    if "started_in c (log_events l')" for c
  proof -
    from that consider "started_in c ?es" | "c = log_run l @ '':'' @ str_nat (length ?es)"
      by (auto simp: st call_name_def)
    then show ?thesis
    proof cases
      case 1
      then obtain i where "i < length ?es" "c = log_run l @ '':'' @ str_nat i"
        using ok by (auto simp: calls_ok_def)
      then show ?thesis unfolding es by (intro exI [of _ i]) simp
    next
      case 2
      then show ?thesis unfolding es by (intro exI [of _ "length ?es"]) simp
    qed
  qed
  have one: "count_calls ''call_started'' c (log_events l') \<le> 1" for c
  proof (cases "call_event ''call_started'' c ev")
    case True
    then have "c = call_name l" using ad by (auto simp: call_event_def adds_def)
    then have "count_calls ''call_started'' c ?es = 0"
      using call_name_fresh [OF ok] by (simp add: count_zero started_in_def)
    then show ?thesis by (simp add: es count_snoc)
  next
    case False
    then show ?thesis using ok by (simp add: es count_snoc calls_ok_def)
  qed
  have two: "count_calls ''call_finished'' c (log_events l') \<le> 1
      \<and> (0 < count_calls ''call_finished'' c (log_events l') \<longrightarrow> started_in c (log_events l'))" for c
  proof (cases "call_event ''call_finished'' c ev")
    case True
    then have "\<not> list_ex (call_event ''call_finished'' c) ?es" "started_in c ?es"
      using ad by (auto simp: call_event_def adds_def started_in_def)
    then show ?thesis by (simp add: es(1) count_snoc st) (simp add: count_zero [symmetric] es(1) started_in_def)
  next
    case False
    then show ?thesis using ok st [of c] by (simp add: es count_snoc calls_ok_def)
  qed
  show ?thesis
    unfolding calls_ok_def using adds_log_ok [OF _ ad] ok names one two at by (auto simp: calls_ok_def)
qed

lemma log_fold_calls_ok: "calls_ok l \<Longrightarrow> calls_ok (fold (log_apply w f) ops l)"
proof (induction ops arbitrary: l)
  case (Cons p ops)
  then have "calls_ok (log_apply w f p l)"
    using log_apply_cases [of w f p l] adds_calls_ok by metis
  with Cons show ?case by simp
qed simp

lemma new_log_calls_ok: "mk_log run sink [] = Inr l \<Longrightarrow> calls_ok l"
  by (auto simp: mk_log_def calls_ok_def log_ok_def started_in_def count_calls_def attests_def
      call_states_def call_spec_def split: if_splits)

lemma log_fold_extends:
  "log_ok l \<Longrightarrow> log_ok (fold (log_apply w f) ops l)
     \<and> log_run (fold (log_apply w f) ops l) = log_run l
     \<and> (\<exists>evs. log_events (fold (log_apply w f) ops l) = log_events l @ evs \<and> length evs \<le> length ops)"
proof (induction ops arbitrary: l)
  case (Cons p ops)
  let ?l = "log_apply w f p l"
  have "log_ok ?l \<and> log_run ?l = log_run l \<and>
      (\<exists>evs. log_events ?l = log_events l @ evs \<and> length evs \<le> 1)"
  proof -
    have "?l = l \<or> log_ok ?l \<and> log_run ?l = log_run l \<and> (\<exists>ev. log_events ?l = log_events l @ [ev])"
      using log_apply_cases [of w f p l] adds_log_ok [OF Cons.prems] by (auto simp: adds_def)
    then show ?thesis using Cons.prems by auto
  qed
  with Cons.IH [of ?l] show ?case by fastforce
qed simp

section \<open>Properties\<close>

text \<open>The log only grows: after any sequence of recorded facts, started calls and finished
  calls, whatever the sink does, the earlier events stand unchanged at the front, at most one
  event per operation was added, every event is valid and carries the log's run, and the
  sequence numbers are the positions.\<close>

theorem log_append_only:
  assumes "log_ok l"
  shows "let l' = fold (log_apply w f) ops l in
    take (length (log_events l)) (log_events l') = log_events l
    \<and> length (log_events l') \<le> length (log_events l) + length ops
    \<and> list_all (\<lambda>e. event_ok e \<and> ev_run e = log_run l) (log_events l')
    \<and> map ev_seq (log_events l') = map int [0..<length (log_events l')]"
  using log_fold_extends [OF assms, of w f ops]
  by (auto simp: Let_def log_ok_def)

definition memory_write :: "dict list \<Rightarrow> dict \<Rightarrow> dict list result" where
  "memory_write s r = Inr (s @ [r])"

definition empty_log :: "dict list event_log" where
  "empty_log = \<lparr>log_run = ''r'', log_sink = None, log_events = []\<rparr>"

lemma empty_log_ok: "log_ok empty_log"
  by (simp add: empty_log_def log_ok_def)

theorem log_append_only_witness:
  "let l' = fold (log_apply memory_write (\<lambda>s. s)) [OFact ''t'' ''resumed'' 0 []] empty_log in
     map ev_seq (log_events l') = map int [0..<length (log_events l')]"
  using log_append_only [OF empty_log_ok, of memory_write "\<lambda>s. s" "[OFact ''t'' ''resumed'' 0 []]"]
  by (simp add: Let_def)

text \<open>What the log attests about calls is exact: in a log built by its operations every call
  began at most once and has at most one outcome, never without having begun, and
  \<open>call_states\<close> answers nothing for a call that never began, \<open>unknown\<close> for one with no recorded
  outcome, and otherwise that outcome; \<open>unfinished_calls\<close> is the second kind.\<close>

theorem call_states_exact:
  assumes "mk_log run sink [] = Inr l"
  shows "let evs = log_events (fold (log_apply w f) ops l) in
    count_calls ''call_started'' c evs \<le> 1 \<and> count_calls ''call_finished'' c evs \<le> 1
    \<and> \<not> (0 < count_calls ''call_finished'' c evs \<and> \<not> started_in c evs)
    \<and> (\<exists>d. call_states (map event_dict evs) = Inr d \<and> map_of d c = call_spec evs c)"
proof -
  have "calls_ok (fold (log_apply w f) ops l)"
    using new_log_calls_ok [OF assms] by (rule log_fold_calls_ok)
  then show ?thesis unfolding calls_ok_def attests_def Let_def by blast
qed

theorem call_states_exact_witness:
  "let evs = log_events (fold (log_apply memory_write (\<lambda>s. s))
      [OStart ''t'' ''model_call'' 0 PNone PNone []] empty_log) in
     \<exists>d. call_states (map event_dict evs) = Inr d \<and> map_of d ''r:0'' = call_spec evs ''r:0''"
proof -
  have "mk_log ''r'' None [] = Inr empty_log" by (simp add: mk_log_def empty_log_def)
  from call_states_exact [OF this, of memory_write "\<lambda>s. s"
      "[OStart ''t'' ''model_call'' 0 PNone PNone []]" "''r:0''"]
  show ?thesis by (simp add: Let_def)
qed

lemma mk_log_records:
  assumes "log_ok l"
  shows "mk_log (log_run l) sink (map event_dict (log_events l)) =
    Inr \<lparr>log_run = log_run l, log_sink = sink, log_events = log_events l\<rparr>"
proof -
  have "map_res event_from_record (map event_dict (log_events l)) = Inr (log_events l)"
    using assms by (intro map_res_roundtrip) (auto simp: log_ok_def list_all_iff event_record_roundtrip)
  then show ?thesis using assms by (auto simp: mk_log_def log_ok_def list_ex_iff list_all_iff)
qed

text \<open>Resuming loses nothing: a log built from the records of a valid log, in the form they
  are written, has the same run and the same events.\<close>

theorem resume_roundtrip:
  assumes "log_ok l"
  shows "mk_log (log_run l) sink (map event_dict (log_events l)) =
    Inr \<lparr>log_run = log_run l, log_sink = sink, log_events = log_events l\<rparr>"
  using assms by (rule mk_log_records)

theorem resume_roundtrip_witness:
  "mk_log ''r'' (None :: dict list option) [] = Inr empty_log"
  using resume_roundtrip [OF empty_log_ok, of "None :: dict list option"]
  by (simp add: empty_log_def)

subsection \<open>Writing and reading the file\<close>

lemma universal_newlines_append_LF:
  "universal_newlines (s @ LF # t) = universal_newlines (s @ [LF]) @ universal_newlines t"
proof (induction s rule: universal_newlines.induct)
  case (2 c cs)
  show ?case
  proof (cases cs)
    case (Cons a list)
    with 2 show ?thesis by (cases "a = LF") auto
  qed (use 2 in auto)
qed simp

lemma universal_newlines_last:
  "universal_newlines (s @ [LF]) \<noteq> [] \<and> last (universal_newlines (s @ [LF])) = LF"
proof (induction s rule: universal_newlines.induct)
  case (2 c cs)
  show ?case
  proof (cases cs)
    case (Cons a list)
    with 2 show ?thesis by (cases "a = LF") auto
  qed (use 2 in auto)
qed simp

lemma read_lines_tail:
  "ls = [] \<or> ends_with (last ls) [LF] \<Longrightarrow> \<not> ends_with frag [LF] \<Longrightarrow>
     read_lines loads (ls @ [frag]) = read_lines loads ls"
  by (induction ls) (auto simp: bind_res_def split: sum.splits if_splits)

lemma ends_with_LF: "ends_with s [LF] \<longleftrightarrow> s \<noteq> [] \<and> last s = LF"
  by (cases s rule: rev_cases) (auto simp: ends_with_def)

lemma split_terms_last:
  "s \<noteq> [] \<Longrightarrow> last s = LF \<Longrightarrow> split_terms acc s \<noteq> [] \<and> snd (last (split_terms acc s)) \<in> {[LF], [CR, LF]}"
  by (induction acc s rule: split_terms.induct) (auto split: if_splits)

lemma splitlines_keep_last:
  "s \<noteq> [] \<Longrightarrow> last s = LF \<Longrightarrow> splitlines_keep s \<noteq> [] \<and> ends_with (last (splitlines_keep s)) [LF]"
  using split_terms_last [of s "[]"]
  by (auto simp: splitlines_keep_def last_map ends_with_LF case_prod_beta)

lemma read_jsonl_tail:
  assumes "whole_lines raw" and "\<forall>c \<in> set frag. \<not> is_linebreak c"
  shows "read_jsonl loads (raw @ frag) = read_jsonl loads raw"
proof -
  have cr: "CR \<notin> set frag" using assms(2) by (auto simp: is_linebreak_def)
  define u where "u = universal_newlines raw"
  have u: "universal_newlines (raw @ frag) = u @ frag \<and> (u = [] \<or> last u = LF)"
  proof (cases "raw = []")
    case True
    then show ?thesis using cr by (simp add: u_def universal_newlines_id)
  next
    case False
    then have r: "raw = butlast raw @ [LF]"
      using assms(1) by (metis append_butlast_last_id whole_lines_def)
    have "universal_newlines (raw @ frag) = universal_newlines (butlast raw @ LF # frag)"
      by (metis append.assoc append_Cons append_Nil r)
    also have "\<dots> = u @ frag"
      unfolding u_def
      by (subst universal_newlines_append_LF) (simp add: r [symmetric] universal_newlines_id [OF cr])
    finally have "universal_newlines (raw @ frag) = u @ frag" .
    moreover have "last u = LF"
      using universal_newlines_last [of "butlast raw"] by (simp add: u_def r [symmetric])
    ultimately show ?thesis by simp
  qed
  then have split: "splitlines_keep (u @ frag) = splitlines_keep u @ splitlines_keep frag"
    by (intro splitlines_keep_append) simp
  show ?thesis
  proof (cases "frag = []")
    case False
    then have "splitlines_keep frag = [frag]" using splitlines_keep_tail [OF assms(2)] by simp
    moreover have "\<not> ends_with frag [LF]"
      using assms(2) False by (auto simp: ends_with_LF is_linebreak_def dest: last_in_set)
    moreover have "splitlines_keep u = [] \<or> ends_with (last (splitlines_keep u)) [LF]"
      using u splitlines_keep_last [of u] by (cases "u = []") auto
    ultimately show ?thesis
      using u by (simp add: read_jsonl_def u_def [symmetric] split read_lines_tail)
  qed simp
qed

lemma read_lines_records:
  "\<forall>r \<in> set rs. loads (line_of r) = Inr (PDict r) \<Longrightarrow>
     read_lines loads (map line_of rs) = Inr (map PDict rs)"
proof (induction rs)
  case (Cons r rs)
  have "ends_with (line_of r) [LF]" by (simp add: ends_with_LF)
  moreover have "\<not> blank (line_of r)" by (simp add: line_of_def blank_def is_space_def)
  ultimately show ?case using Cons by simp
qed simp

definition write_records :: "dict list \<Rightarrow> string \<Rightarrow> string result" where
  "write_records rs file = fold (\<lambda>r m. bind_res m (\<lambda>s. sink_write s r)) rs (Inr file)"

lemma write_records_file: "write_records rs s = Inr (s @ concat (map line_of rs))"
  unfolding write_records_def
  by (induction rs arbitrary: s) (simp_all add: sink_write_line)

lemma plain_no_CR: "plain_record r \<Longrightarrow> CR \<notin> set (line_of r)"
  by (auto simp: plain_record_def line_of_def list_all_iff is_linebreak_def)

lemma read_whole_records:
  assumes "\<forall>x \<in> set xs. plain_record x \<and> loads (line_of x) = Inr (PDict x)"
  shows "read_jsonl loads (concat (map line_of xs)) = Inr (map PDict xs)"
proof -
  have "fold (\<lambda>r m. bind_res m (\<lambda>s. sink_write s r)) xs (Inr []) = Inr (concat (map line_of xs))"
    using write_records_file [of xs "[]"] by (simp add: write_records_def)
  then have "splitlines_keep (concat (map line_of xs)) = map line_of xs"
    using jsonl.write_all [of "[]" xs "concat (map line_of xs)"] assms
    by (simp add: whole_lines_def)
  moreover have "CR \<notin> set (concat (map line_of xs))" using assms plain_no_CR by auto
  ultimately show ?thesis
    using assms by (simp add: read_jsonl_def universal_newlines_id read_lines_records)
qed


definition tiny_loads :: "string \<Rightarrow> pyval result" where
  "tiny_loads l = (if l = line_of [] then Inr (PDict []) else Inl JSONDecodeError)"


text \<open>Dropping a torn tail agrees with reading it: when the bytes after the last line feed
  hold no other line separator, opening the sink with truncation leaves a whole file that
  reads exactly as the torn file does, and opening it without truncation is refused.\<close>

theorem torn_tail_truncation:
  assumes "whole_lines lines" and "frag \<noteq> []" and "\<forall>c \<in> set frag. \<not> is_linebreak c"
  shows "open_sink True (Some (lines @ frag)) = Inr lines
    \<and> read_jsonl loads lines = read_jsonl loads (lines @ frag)
    \<and> open_sink False (Some (lines @ frag)) = Inl TornLogTail"
proof -
  have nolf: "LF \<notin> set frag" using assms(3) by auto
  then have last: "last (lines @ frag) \<noteq> LF" using assms(2) last_in_set by fastforce
  have "dropWhile (\<lambda>c. c \<noteq> LF) (rev (lines @ frag)) = rev lines"
  proof -
    have "dropWhile (\<lambda>c. c \<noteq> LF) (rev frag @ rev lines) = dropWhile (\<lambda>c. c \<noteq> LF) (rev lines)"
      using nolf by (intro dropWhile_append2) auto
    also have "\<dots> = rev lines"
      using assms(1) by (cases lines rule: rev_cases) (auto simp: whole_lines_def)
    finally show ?thesis by simp
  qed
  then have "last_line_start (lines @ frag) = lines" by (simp add: last_line_start_def)
  moreover have "LF \<notin> set lines \<Longrightarrow> lines = []"
    using assms(1) last_in_set by (fastforce simp: whole_lines_def)
  ultimately show ?thesis
    using last assms(2) nolf read_jsonl_tail [OF assms(1,3)]
    by (auto simp: open_sink_def)
qed

theorem torn_tail_truncation_witness:
  "open_sink True (Some ([CHR ''a'', LF] @ ''b'')) = Inr [CHR ''a'', LF]"
  using torn_tail_truncation [of "[CHR ''a'', LF]" "''b''"]
  by (simp add: whole_lines_def is_linebreak_def)

definition nel_record :: dict where "nel_record = [(''q'', PStr [NEL])]"

text \<open>A record with U+0085 in a string makes a log unreadable: the writer leaves the character
  as it is, the reader ends a line there, and the first half is not JSON, so the reader
  raises on a file that was written whole.\<close>

theorem nel_record_unreadable:
  assumes "loads (CHR ''{'' # json_str ''q'' @ '': '' @ [CHR 0x22, NEL]) = Inl JSONDecodeError"
  shows "sink_write [] nel_record = Inr (line_of nel_record)
    \<and> open_sink False (Some (line_of nel_record)) = Inr (line_of nel_record)
    \<and> read_jsonl loads (line_of nel_record) = Inl JSONDecodeError"
proof -
  let ?head = "CHR ''{'' # json_str ''q'' @ '': '' @ [CHR 0x22, NEL]"
  have line: "line_of nel_record = ?head @ [CHR 0x22, CHR ''}'', LF]" by code_simp
  have cr: "CR \<notin> set (line_of nel_record)" by code_simp
  have split: "splitlines_keep (line_of nel_record) = [?head, [CHR 0x22, CHR ''}'', LF]]"
    by code_simp
  have "\<not> blank ?head" by (simp add: blank_def is_space_def)
  with assms have "read_jsonl loads (line_of nel_record) = Inl JSONDecodeError"
    by (simp add: read_jsonl_def universal_newlines_id [OF cr] split)
  then show ?thesis by (simp add: sink_write_line open_sink_def)
qed

theorem nel_record_unreadable_witness:
  "read_jsonl tiny_loads (line_of nel_record) = Inl JSONDecodeError"
proof -
  have "tiny_loads (CHR ''{'' # json_str ''q'' @ '': '' @ [CHR 0x22, NEL]) = Inl JSONDecodeError"
    by code_simp
  from nel_record_unreadable [of tiny_loads, OF this] show ?thesis by blast
qed

end
