(* ===== verification/Observer.thy ===== *)
theory Observer
  imports Evidence_Base
begin

section \<open>Reading again during a run (atlas_core/observer.py)\<close>

text \<open>
  The request a run makes of its host and the merge of the host's answer into what the run
  holds. An element of an answer is an observation or something else (\<open>None\<close>), because the
  code tests the type of what the host returned.
\<close>

record line_window =
  w_path :: string
  w_start :: int
  w_max :: int
  w_anchor :: "string option"

definition window_ok :: "line_window \<Rightarrow> bool" where
  "window_ok w \<longleftrightarrow> \<not> blank (w_path w) \<and> 1 \<le> w_start w
     \<and> 1 \<le> w_max w \<and> w_max w \<le> default_max_lines
     \<and> (case w_anchor w of None \<Rightarrow> True
        | Some a \<Rightarrow> w_start w = 1 \<and> a \<noteq> [] \<and> LF \<notin> set a \<and> CR \<notin> set a \<and> length a \<le> 128)"

definition mk_window :: "line_window \<Rightarrow> line_window result" where
  "mk_window w = (if window_ok w then Inr w else Inl ValueError)"

record obs_request =
  rq_snapshot :: snapshot
  rq_source_ids :: "string list"
  rq_paths :: "string list"
  rq_blocked_by :: "string list"
  rq_claims :: "string list"
  rq_patterns :: "string list"
  rq_windows :: "line_window list"
  rq_question :: string
  rq_iteration :: int

definition mk_request :: "obs_request \<Rightarrow> obs_request result" where
  "mk_request r = (if distinct (map w_path (rq_windows r)) then Inr r else Inl ValueError)"

definition request_from ::
  "snapshot \<Rightarrow> observation list \<Rightarrow> string list \<Rightarrow> string list \<Rightarrow> int \<Rightarrow> string list
     \<Rightarrow> line_window list \<Rightarrow> bool \<Rightarrow> string \<Rightarrow> obs_request result" where
  "request_from s obs blocked claims it pats wins include_paths q =
     (let selected = (if include_paths then obs else []) in mk_request
       \<lparr>rq_snapshot = s, rq_source_ids = map source_id selected, rq_paths = map path selected,
        rq_blocked_by = blocked, rq_claims = claims, rq_patterns = pats, rq_windows = wins,
        rq_question = q, rq_iteration = it\<rparr>)"

record supersession =
  su_source :: string
  su_path :: string
  su_previous :: string
  su_new :: string

record reframing =
  rf_source :: string
  rf_path :: string
  rf_sha256 :: string
  rf_previous_start :: int
  rf_previous_end :: int
  rf_new_start :: int
  rf_new_end :: int

record obs_round =
  added :: "observation list"
  superseded :: "supersession list"
  reframed :: "reframing list"
  unchanged :: "string list"
  requested :: nat

definition has_new_material :: "obs_round \<Rightarrow> bool" where
  "has_new_material r \<longleftrightarrow> added r \<noteq> [] \<or> superseded r \<noteq> [] \<or> reframed r \<noteq> []"

definition mk_reframing :: "observation \<Rightarrow> observation \<Rightarrow> reframing" where
  "mk_reframing previous item =
     \<lparr>rf_source = source_id item, rf_path = path item, rf_sha256 = content_sha256 item,
      rf_previous_start = line_start previous, rf_previous_end = line_end previous,
      rf_new_start = line_start item, rf_new_end = line_end item\<rparr>"

definition mk_supersession :: "observation \<Rightarrow> observation \<Rightarrow> supersession" where
  "mk_supersession previous item =
     \<lparr>su_source = source_id item, su_path = path item,
      su_previous = content_sha256 previous, su_new = content_sha256 item\<rparr>"

definition same_window :: "observation \<Rightarrow> observation \<Rightarrow> bool" where
  "same_window previous item \<longleftrightarrow> line_start previous = line_start item
     \<and> line_end previous = line_end item \<and> excerpt previous = excerpt item"

text \<open>One turn of the loop over the host's answer; \<open>seen\<close> are the ids of this answer.\<close>

record merge_state =
  m_merged :: "observation list"
  m_round :: obs_round
  m_seen :: "string list"

definition merge_item ::
  "snapshot \<Rightarrow> (string \<times> observation) list \<Rightarrow> observation option \<Rightarrow> merge_state \<Rightarrow> merge_state result" where
  "merge_item s by_id x st = (case x of None \<Rightarrow> Inl ObservationRefused | Some item \<Rightarrow>
     if snapshot_id item \<noteq> snap_id s then Inl ObservationRefused
     else if source_id item \<in> set (m_seen st) then Inl ObservationRefused
     else (let st = st\<lparr>m_seen := source_id item # m_seen st\<rparr>; r = m_round st in
       (case map_of by_id (source_id item) of
          None \<Rightarrow> Inr (st\<lparr>m_merged := m_merged st @ [item], m_round := r\<lparr>added := added r @ [item]\<rparr>\<rparr>)
        | Some previous \<Rightarrow>
          if content_sha256 previous = content_sha256 item then
            (if same_window previous item then
               Inr (st\<lparr>m_round := r\<lparr>unchanged := unchanged r @ [source_id item]\<rparr>\<rparr>)
             else Inr (st\<lparr>m_round := r\<lparr>reframed := reframed r @ [mk_reframing previous item]\<rparr>,
                          m_merged := replace_first previous item (m_merged st)\<rparr>))
          else Inr (st\<lparr>m_round := r\<lparr>superseded := superseded r @ [mk_supersession previous item]\<rparr>,
                       m_merged := replace_first previous item (m_merged st)\<rparr>))))"

fun merge_loop ::
  "snapshot \<Rightarrow> (string \<times> observation) list \<Rightarrow> observation option list \<Rightarrow> merge_state
     \<Rightarrow> merge_state result" where
  "merge_loop s by_id [] st = Inr st"
| "merge_loop s by_id (x # xs) st = bind_res (merge_item s by_id x st) (merge_loop s by_id xs)"

definition merge_observations ::
  "snapshot \<Rightarrow> observation list \<Rightarrow> observation option list \<Rightarrow> (observation list \<times> obs_round) result" where
  "merge_observations s existing incoming =
     bind_res (merge_loop s (obs_by_id existing) incoming
        \<lparr>m_merged = existing,
         m_round = \<lparr>added = [], superseded = [], reframed = [], unchanged = [],
                    requested = length incoming\<rparr>,
         m_seen = []\<rparr>)
       (\<lambda>st. Inr (m_merged st, m_round st))"

section \<open>The merge invariant\<close>

text \<open>What the sources of the merged list are, at each turn: those of the old list, with the
  reading of this answer where the answer has one.\<close>

definition current :: "observation list \<Rightarrow> observation list \<Rightarrow> string \<Rightarrow> observation option" where
  "current existing items = (map_of (obs_by_id existing)) ++ (map_of (obs_by_id items))"

definition touched :: "obs_round \<Rightarrow> string list" where
  "touched r = map source_id (added r) @ map su_source (superseded r) @ map rf_source (reframed r)
     @ unchanged r"

definition same_reading :: "observation \<Rightarrow> observation \<Rightarrow> bool" where
  "same_reading a b \<longleftrightarrow> source_id a = source_id b \<and> content_sha256 a = content_sha256 b
     \<and> same_window a b"

definition merge_inv ::
  "snapshot \<Rightarrow> observation list \<Rightarrow> observation list \<Rightarrow> merge_state \<Rightarrow> bool" where
  "merge_inv s existing items st \<longleftrightarrow>
     distinct (map source_id (m_merged st))
     \<and> (\<forall>ob \<in> set (m_merged st). snapshot_id ob = snap_id s)
     \<and> set (m_seen st) = source_id ` set items
     \<and> distinct (map source_id items)
     \<and> set (touched (m_round st)) = source_id ` set items
     \<and> length (touched (m_round st)) = length items
     \<and> (\<forall>ob \<in> set existing. source_id ob \<notin> source_id ` set items \<longrightarrow> ob \<in> set (m_merged st))
     \<and> source_id ` set (m_merged st) = source_id ` set existing \<union> source_id ` set items
     \<and> (\<forall>ob \<in> set items. \<exists>ob' \<in> set (m_merged st). same_reading ob' ob)
     \<and> (\<forall>u \<in> set (superseded (m_round st)). su_previous u \<noteq> su_new u)
     \<and> (\<not> has_new_material (m_round st) \<longrightarrow> m_merged st = existing)"

lemma merge_inv_extend:
  assumes "merge_inv s existing items st" and "source_id item \<notin> source_id ` set items"
    and "set (m_seen st') = insert (source_id item) (set (m_seen st))"
    and "set (touched (m_round st')) = insert (source_id item) (set (touched (m_round st)))"
    and "length (touched (m_round st')) = Suc (length (touched (m_round st)))"
    and "distinct (map source_id (m_merged st'))"
    and "\<forall>ob \<in> set (m_merged st'). snapshot_id ob = snap_id s"
    and "\<forall>ob \<in> set existing. source_id ob \<notin> source_id ` set (items @ [item]) \<longrightarrow> ob \<in> set (m_merged st')"
    and "source_id ` set (m_merged st') = source_id ` set existing \<union> source_id ` set (items @ [item])"
    and "\<forall>ob \<in> set (items @ [item]). \<exists>ob' \<in> set (m_merged st'). same_reading ob' ob"
    and "\<forall>u \<in> set (superseded (m_round st')). su_previous u \<noteq> su_new u"
    and "\<not> has_new_material (m_round st') \<Longrightarrow> m_merged st' = existing"
  shows "merge_inv s existing (items @ [item]) st'"
  using assms unfolding merge_inv_def by simp

lemma merge_item_inv:
  assumes inv: "merge_inv s existing items st"
    and ex: "distinct (map source_id existing)" "\<forall>ob \<in> set existing. snapshot_id ob = snap_id s"
    and step: "merge_item s (obs_by_id existing) x st = Inr st'"
  shows "\<exists>item. x = Some item \<and> merge_inv s existing (items @ [item]) st'"
proof -
  obtain item where x: "x = Some item" "snapshot_id item = snap_id s"
    "source_id item \<notin> set (m_seen st)"
    using step by (auto simp: merge_item_def split: option.splits if_splits)
  have fresh: "source_id item \<notin> source_id ` set items"
    using x(3) inv by (simp add: merge_inv_def)
  show ?thesis
  proof (cases "map_of (obs_by_id existing) (source_id item)")
    case None
    then have new: "source_id item \<notin> source_id ` set existing" by (simp add: obs_by_id_None)
    have st': "st' = st\<lparr>m_seen := source_id item # m_seen st, m_merged := m_merged st @ [item],
        m_round := (m_round st)\<lparr>added := added (m_round st) @ [item]\<rparr>\<rparr>"
      using step x None by (simp add: merge_item_def Let_def)
    have nm: "source_id item \<notin> source_id ` set (m_merged st)"
      using inv new fresh unfolding merge_inv_def by blast
    have cov: "source_id ` set (m_merged st) = source_id ` set existing \<union> source_id ` set items"
      using inv unfolding merge_inv_def by blast
    have rd: "\<forall>ob \<in> set (items @ [item]). \<exists>ob' \<in> set (m_merged st @ [item]). same_reading ob' ob"
      using inv by (auto simp: merge_inv_def same_reading_def same_window_def)
    have "merge_inv s existing (items @ [item]) st'"
      by (rule merge_inv_extend [OF inv fresh])
         (use inv x nm cov rd in \<open>auto simp: st' merge_inv_def touched_def has_new_material_def\<close>)
    with x show ?thesis by blast
  next
    case (Some previous)
    then have prev: "previous \<in> set existing" "source_id previous = source_id item"
      by (auto dest: obs_by_id_Some)
    have pm: "previous \<in> set (m_merged st)"
      using inv prev fresh by (auto simp: merge_inv_def)
    have dm: "distinct (m_merged st)" "distinct (map source_id (m_merged st))"
      using inv by (auto simp: merge_inv_def distinct_map)
    let ?rep = "replace_first previous item (m_merged st)"
    have rs: "set ?rep = insert item (set (m_merged st) - {previous})"
      using dm(1) pm by (rule replace_first_set)
    have rm: "map source_id ?rep = map source_id (m_merged st)"
      using prev(2) by (intro map_replace_first) simp
    have keep: "\<And>ob. ob \<in> set (m_merged st) \<Longrightarrow> source_id ob \<noteq> source_id item \<Longrightarrow> ob \<in> set ?rep"
      using rs prev(2) by auto
    have ids: "source_id ` set ?rep = source_id ` set (m_merged st)"
      using rm by (metis list.set_map)
    have reading: "\<forall>ob \<in> set (items @ [item]). \<exists>ob' \<in> set ?rep. same_reading ob' ob"
    proof
      fix ob assume "ob \<in> set (items @ [item])"
      then consider "ob \<in> set items" | "ob = item" by auto
      then show "\<exists>ob' \<in> set ?rep. same_reading ob' ob"
      proof cases
        case 1
        then obtain ob' where o: "ob' \<in> set (m_merged st)" "same_reading ob' ob"
          using inv unfolding merge_inv_def by blast
        have "source_id ob' \<noteq> source_id item"
          using o(2) 1 fresh by (metis same_reading_def imageI)
        with o keep show ?thesis by blast
      next
        case 2
        then show ?thesis using rs by (auto simp: same_reading_def same_window_def)
      qed
    qed
    have sn: "\<forall>ob \<in> set ?rep. snapshot_id ob = snap_id s"
      using inv x(2) rs by (auto simp: merge_inv_def)
    have rest: "\<forall>ob \<in> set existing. source_id ob \<notin> source_id ` set (items @ [item]) \<longrightarrow> ob \<in> set ?rep"
      using inv keep by (auto simp: merge_inv_def)
    have "source_id item \<in> source_id ` set existing"
      using prev by (metis imageI)
    then have cover: "source_id ` set ?rep = source_id ` set existing \<union> source_id ` set (items @ [item])"
      using inv ids by (simp add: merge_inv_def insert_absorb)
    show ?thesis
    proof (cases "content_sha256 previous = content_sha256 item")
      case same: True
      show ?thesis
      proof (cases "same_window previous item")
        case True
        then have st': "st' = st\<lparr>m_seen := source_id item # m_seen st,
            m_round := (m_round st)\<lparr>unchanged := unchanged (m_round st) @ [source_id item]\<rparr>\<rparr>"
          using step x Some same by (simp add: merge_item_def Let_def)
        have "same_reading previous item"
          using True same prev by (simp add: same_reading_def)
        then have rd: "\<forall>ob \<in> set (items @ [item]). \<exists>ob' \<in> set (m_merged st). same_reading ob' ob"
          using inv pm unfolding merge_inv_def by auto
        have cov: "source_id ` set (m_merged st) = source_id ` set existing \<union> source_id ` set (items @ [item])"
          using cover ids by simp
        have "merge_inv s existing (items @ [item]) st'"
          by (rule merge_inv_extend [OF inv fresh])
             (use inv rd cov in \<open>simp_all add: st' merge_inv_def touched_def has_new_material_def\<close>)
        with x show ?thesis by blast
      next
        case False
        then have st': "st' = st\<lparr>m_seen := source_id item # m_seen st,
            m_round := (m_round st)\<lparr>reframed := reframed (m_round st) @ [mk_reframing previous item]\<rparr>,
            m_merged := ?rep\<rparr>"
          using step x Some same by (simp add: merge_item_def Let_def)
        have "merge_inv s existing (items @ [item]) st'"
          by (rule merge_inv_extend [OF inv fresh])
             (use inv reading sn rest cover rm dm in
               \<open>simp_all add: st' merge_inv_def touched_def has_new_material_def mk_reframing_def\<close>)
        with x show ?thesis by blast
      qed
    next
      case False
      then have st': "st' = st\<lparr>m_seen := source_id item # m_seen st,
          m_round := (m_round st)\<lparr>superseded := superseded (m_round st) @ [mk_supersession previous item]\<rparr>,
          m_merged := ?rep\<rparr>"
        using step x Some by (simp add: merge_item_def Let_def)
      have "merge_inv s existing (items @ [item]) st'"
        by (rule merge_inv_extend [OF inv fresh])
           (use inv reading sn rest cover rm dm False in
             \<open>simp_all add: st' merge_inv_def touched_def has_new_material_def mk_supersession_def\<close>)
      with x show ?thesis by blast
    qed
  qed
qed

lemma merge_loop_inv:
  assumes "merge_inv s existing items st"
    and "distinct (map source_id existing)" "\<forall>ob \<in> set existing. snapshot_id ob = snap_id s"
    and "merge_loop s (obs_by_id existing) xs st = Inr st'"
  shows "\<exists>new. xs = map Some new \<and> merge_inv s existing (items @ new) st'"
  using assms(1,4)
proof (induction xs arbitrary: items st)
  case Nil
  then show ?case by simp
next
  case (Cons x xs)
  obtain st1 where s1: "merge_item s (obs_by_id existing) x st = Inr st1"
    "merge_loop s (obs_by_id existing) xs st1 = Inr st'"
    using Cons.prems(2) by (auto simp: bind_res_Inr)
  obtain item where i: "x = Some item" "merge_inv s existing (items @ [item]) st1"
    using merge_item_inv [OF Cons.prems(1) assms(2,3) s1(1)] by blast
  obtain new where "xs = map Some new" "merge_inv s existing ((items @ [item]) @ new) st'"
    using Cons.IH [OF i(2) s1(2)] by blast
  with i(1) show ?case by (intro exI [of _ "item # new"]) simp
qed

lemma merge_observations_inv:
  assumes "merge_observations s existing incoming = Inr (merged, rnd)"
    and "distinct (map source_id existing)" "\<forall>ob \<in> set existing. snapshot_id ob = snap_id s"
  shows "\<exists>items st. incoming = map Some items \<and> merge_inv s existing items st
    \<and> m_merged st = merged \<and> m_round st = rnd"
proof -
  let ?st = "\<lparr>m_merged = existing, m_round = \<lparr>added = [], superseded = [], reframed = [],
      unchanged = [], requested = length incoming\<rparr>, m_seen = []\<rparr>"
  obtain st where st: "merge_loop s (obs_by_id existing) incoming ?st = Inr st"
    "m_merged st = merged" "m_round st = rnd"
    using assms(1) by (auto simp: merge_observations_def bind_res_Inr)
  have "merge_inv s existing [] ?st"
    using assms(2,3) by (simp add: merge_inv_def touched_def)
  from merge_loop_inv [OF this assms(2,3) st(1)] st(2,3) show ?thesis by auto
qed

lemma touched_distinct:
  "distinct (map source_id items) \<Longrightarrow> set ts = source_id ` set items \<Longrightarrow> length ts = length items
     \<Longrightarrow> distinct ts"
  by (metis card_distinct distinct_card length_map list.set_map)

section \<open>Properties\<close>

text \<open>C32. Merging a host's answer into the evidence of a run loses nothing and invents
  nothing. When it does not refuse, the result is again a well-formed evidence base of the
  same snapshot; every answered source is reported in exactly one way (added, superseded,
  reframed or unchanged) and the base then holds the answered reading of it; every source
  the host did not answer keeps the very observation it had; a supersession always shows two
  different digests; and a round that reports no new material left the base as it was.\<close>

theorem merge_preserves_evidence:
  assumes "base_ok b"
    and "merge_observations (base_snapshot b) (base_observations b) incoming = Inr (merged, rnd)"
  shows "\<exists>items. incoming = map Some items
    \<and> with_observations b merged = Inr (b\<lparr>base_observations := merged\<rparr>)
    \<and> distinct (touched rnd) \<and> set (touched rnd) = source_id ` set items
    \<and> (\<forall>ob \<in> set items. \<exists>ob' \<in> set merged. same_reading ob' ob)
    \<and> (\<forall>ob \<in> set (base_observations b). source_id ob \<notin> set (touched rnd) \<longrightarrow> ob \<in> set merged)
    \<and> (\<forall>u \<in> set (superseded rnd). su_previous u \<noteq> su_new u)
    \<and> (\<not> has_new_material rnd \<longrightarrow> merged = base_observations b)"
proof -
  have b: "distinct (map source_id (base_observations b))"
    "\<forall>ob \<in> set (base_observations b). snapshot_id ob = snap_id (base_snapshot b)"
    using assms(1) by (auto simp: base_ok_def)
  obtain items st where i: "incoming = map Some items"
    "merge_inv (base_snapshot b) (base_observations b) items st" "m_merged st = merged"
    "m_round st = rnd"
    using merge_observations_inv [OF assms(2) b] by blast
  note inv = i(2) [unfolded merge_inv_def i(3,4)]
  have d: "distinct (touched rnd)"
    using inv touched_distinct [of items "touched rnd"] by simp
  have ok: "with_observations b merged = Inr (b\<lparr>base_observations := merged\<rparr>)"
    using i(2,3) by (auto simp: with_observations_def mk_base_def base_ok_def merge_inv_def)
  show ?thesis
    by (intro exI [of _ items] conjI) (use i(1) d ok inv in simp_all)
qed

definition sample_base :: evidence_base where
  "sample_base = \<lparr>base_snapshot = sample_snapshot, base_observations = [sample_collected],
     base_readers = []\<rparr>"

lemma sample_base_ok: "base_ok sample_base"
  by (simp add: base_ok_def sample_base_def sample_snapshot_def sample_collected_def
      sample_observation_def)

theorem merge_preserves_evidence_witness:
  "\<exists>merged rnd. merge_observations sample_snapshot [sample_collected]
       [Some (sample_collected\<lparr>excerpt := ''b'', line_start := 2\<rparr>)] = Inr (merged, rnd)
     \<and> distinct (touched rnd)
     \<and> (\<exists>ob' \<in> set merged. same_reading ob' (sample_collected\<lparr>excerpt := ''b'', line_start := 2\<rparr>))"
proof -
  let ?new = "sample_collected\<lparr>excerpt := ''b'', line_start := 2\<rparr>"
  obtain merged rnd where m: "merge_observations (base_snapshot sample_base)
      (base_observations sample_base) [Some ?new] = Inr (merged, rnd)"
    by (simp add: merge_observations_def merge_item_def obs_by_id_def dict_of_def sample_base_def
        sample_snapshot_def sample_collected_def sample_observation_def same_window_def Let_def)
  obtain items where "[Some ?new] = map Some items" "distinct (touched rnd)"
    "\<forall>ob \<in> set items. \<exists>ob' \<in> set merged. same_reading ob' ob"
    using merge_preserves_evidence [OF sample_base_ok m] by (elim exE conjE) (rule that)
  moreover from this(1) have "items = [?new]" by (cases items) auto
  ultimately show ?thesis using m by (auto simp: sample_base_def)
qed

text \<open>Observations of another state never enter a run: an answer with one that is bound
  to a different snapshot, with one that is not an observation, or with one source twice is
  refused as a whole, and the run's evidence is what it was.\<close>

theorem merge_refuses_foreign:
  assumes "None \<in> set incoming \<or> (\<exists>ob. Some ob \<in> set incoming \<and> snapshot_id ob \<noteq> snap_id s)
    \<or> \<not> distinct (map source_id (map the incoming))"
  shows "merge_observations s existing incoming = Inl ObservationRefused"
proof -
  have err: "merge_item s by_id x st = Inl e \<Longrightarrow> e = ObservationRefused" for by_id x st e
    by (auto simp: merge_item_def Let_def split: option.splits if_splits)
  have loop_err: "merge_loop s by_id xs st = Inl e \<Longrightarrow> e = ObservationRefused" for by_id xs st e
    by (induction xs arbitrary: st) (auto simp: bind_res_Inl dest: err)
  have seen: "merge_item s by_id x st = Inr st' \<Longrightarrow> \<exists>ob. x = Some ob \<and> snapshot_id ob = snap_id s
      \<and> source_id ob \<notin> set (m_seen st) \<and> m_seen st' = source_id ob # m_seen st" for by_id x st st'
    by (auto simp: merge_item_def Let_def split: option.splits if_splits)
  have ok: "merge_loop s by_id xs st = Inr st' \<Longrightarrow> None \<notin> set xs
      \<and> (\<forall>ob. Some ob \<in> set xs \<longrightarrow> snapshot_id ob = snap_id s)
      \<and> distinct (map source_id (map the xs))
      \<and> set (map source_id (map the xs)) \<inter> set (m_seen st) = {}" for by_id xs st st'
  proof (induction xs arbitrary: st)
    case Nil
    then show ?case by simp
  next
    case (Cons x xs)
    obtain st1 where s1: "merge_item s by_id x st = Inr st1" "merge_loop s by_id xs st1 = Inr st'"
      using Cons.prems by (auto simp: bind_res_Inr)
    from seen [OF s1(1)] Cons.IH [OF s1(2)] show ?case by auto
  qed
  show ?thesis
  proof (cases "merge_observations s existing incoming")
    case (Inl e)
    then show ?thesis by (auto simp: merge_observations_def bind_res_Inl dest: loop_err)
  next
    case (Inr res)
    then obtain st st' where "merge_loop s (obs_by_id existing) incoming st = Inr st'"
      by (auto simp: merge_observations_def bind_res_Inr)
    from ok [OF this] assms show ?thesis by blast
  qed
qed

theorem merge_refuses_foreign_witness:
  "merge_observations sample_snapshot [sample_collected]
     [Some (sample_collected\<lparr>snapshot_id := ''s1''\<rparr>)] = Inl ObservationRefused"
  using merge_refuses_foreign [of "[Some (sample_collected\<lparr>snapshot_id := ''s1''\<rparr>)]" sample_snapshot]
  by (auto simp: sample_snapshot_def)

end
