(* ===== verification/Budget.thy ===== *)
theory Budget
  imports PyValue
begin

section \<open>Per-run resource accounting (atlas_core/budget.py)\<close>

text \<open>
  \<open>RunLimits\<close> with its validation and \<open>RunBudget\<close> with its operations. A clock reading
  and the answer of the cancellation callback are arguments of each operation: the host
  supplies them, and they may differ at every call. Each method of the class runs under one
  reentrant lock, so a concurrent use is some order of whole operations (\<open>budget_run\<close>).
  An operation returns the new budget beside its result, because \<open>charge_tokens\<close> and
  \<open>charge_output\<close> keep what they added when they raise.
\<close>

record run_limits =
  wall_seconds :: real
  max_model_calls :: int
  max_tool_calls :: int
  max_tokens :: int
  max_output_bytes :: int

text \<open>\<open>isfinite\<close> of an integer converts it to a float, which overflows from here on.\<close>

definition float_overflow :: int where
  "float_overflow = 2 ^ 1024 - 2 ^ 970"

definition wall_value :: "pyval \<Rightarrow> real result" where
  "wall_value v =
     (case v of
        PInt i \<Rightarrow> (if float_overflow \<le> \<bar>i\<bar> then Inl (Foreign ''OverflowError'' [])
                    else if i \<le> 0 then Inl ValueError else Inr (real_of_int i))
      | PFloat (Fin x) _ \<Rightarrow> (if x \<le> 0 then Inl ValueError else Inr x)
      | _ \<Rightarrow> Inl ValueError)"

definition count_value :: "pyval \<Rightarrow> int result" where
  "count_value v = (case v of PInt i \<Rightarrow> if i < 0 then Inl ValueError else Inr i
     | _ \<Rightarrow> Inl ValueError)"

definition mk_limits :: "pyval \<Rightarrow> pyval \<Rightarrow> pyval \<Rightarrow> pyval \<Rightarrow> pyval \<Rightarrow> run_limits result" where
  "mk_limits w m t k ob =
     bind_res (wall_value w) (\<lambda>w'. bind_res (count_value m) (\<lambda>m'.
     bind_res (count_value t) (\<lambda>t'. bind_res (count_value k) (\<lambda>k'.
     bind_res (count_value ob) (\<lambda>o'. Inr
       \<lparr>wall_seconds = w', max_model_calls = m', max_tool_calls = t', max_tokens = k',
        max_output_bytes = o'\<rparr>)))))"

definition limits_ok :: "run_limits \<Rightarrow> bool" where
  "limits_ok l \<longleftrightarrow> 0 < wall_seconds l \<and> 0 \<le> max_model_calls l \<and> 0 \<le> max_tool_calls l
     \<and> 0 \<le> max_tokens l \<and> 0 \<le> max_output_bytes l"

record budget =
  limits :: run_limits
  deadline :: real
  model_calls :: int
  tool_calls :: int
  tokens :: int
  output_bytes :: int

definition mk_budget :: "run_limits \<Rightarrow> real \<Rightarrow> budget" where
  "mk_budget l now = \<lparr>limits = l, deadline = now + wall_seconds l, model_calls = 0,
     tool_calls = 0, tokens = 0, output_bytes = 0\<rparr>"

record reading =
  cancelled :: bool
  now :: real

definition check :: "reading \<Rightarrow> budget \<Rightarrow> unit result" where
  "check r b = (if cancelled r then Inl RunCancelled
     else if deadline b \<le> now r then Inl (BudgetExceeded ''wall_seconds'') else Inr ())"

definition remaining_seconds :: "reading \<Rightarrow> real \<Rightarrow> budget \<Rightarrow> real result" where
  "remaining_seconds r later b =
     bind_res (check r b) (\<lambda>_. Inr (max 0 (deadline b - later)))"

definition reserve_model :: "reading \<Rightarrow> budget \<Rightarrow> budget \<times> unit result" where
  "reserve_model r b = (case check r b of Inl e \<Rightarrow> (b, Inl e) | Inr _ \<Rightarrow>
     if max_model_calls (limits b) \<le> model_calls b
     then (b, Inl (BudgetExceeded ''model_calls''))
     else (b\<lparr>model_calls := model_calls b + 1\<rparr>, Inr ()))"

definition reserve_tool :: "reading \<Rightarrow> budget \<Rightarrow> budget \<times> unit result" where
  "reserve_tool r b = (case check r b of Inl e \<Rightarrow> (b, Inl e) | Inr _ \<Rightarrow>
     if max_tool_calls (limits b) \<le> tool_calls b
     then (b, Inl (BudgetExceeded ''tool_calls''))
     else (b\<lparr>tool_calls := tool_calls b + 1\<rparr>, Inr ()))"

definition charge_tokens :: "reading \<Rightarrow> pyval \<Rightarrow> budget \<Rightarrow> budget \<times> unit result" where
  "charge_tokens r u b = (case check r b of Inl e \<Rightarrow> (b, Inl e) | Inr _ \<Rightarrow>
     (case u of
        PInt n \<Rightarrow>
          if n < 0 then (b, Inl (UnmeteredUsage))
          else (let b' = b\<lparr>tokens := tokens b + n\<rparr> in
            if max_tokens (limits b') < tokens b' then (b', Inl (BudgetExceeded ''tokens''))
            else (b', Inr ()))
      | _ \<Rightarrow> (b, Inl UnmeteredUsage)))"

definition charge_output :: "reading \<Rightarrow> string \<Rightarrow> budget \<Rightarrow> budget \<times> unit result" where
  "charge_output r s b = (case check r b of Inl e \<Rightarrow> (b, Inl e) | Inr _ \<Rightarrow>
     (let b' = b\<lparr>output_bytes := output_bytes b + int (utf8_len s)\<rparr> in
      if max_output_bytes (limits b') < output_bytes b'
      then (b', Inl (BudgetExceeded ''output_bytes'')) else (b', Inr ())))"

record usage =
  u_model_calls :: int
  u_tool_calls :: int
  u_tokens :: int
  u_output_bytes :: int
  u_deadline :: real

definition usage :: "budget \<Rightarrow> usage" where
  "usage b = \<lparr>u_model_calls = model_calls b, u_tool_calls = tool_calls b, u_tokens = tokens b,
     u_output_bytes = output_bytes b, u_deadline = deadline b\<rparr>"

subsection \<open>Operations in any order\<close>

datatype budget_op =
    OpCheck | OpModel | OpTool | OpTokens pyval | OpOutput string

fun budget_step :: "reading \<times> budget_op \<Rightarrow> budget \<Rightarrow> budget \<times> unit result" where
  "budget_step (r, OpCheck) b = (b, check r b)"
| "budget_step (r, OpModel) b = reserve_model r b"
| "budget_step (r, OpTool) b = reserve_tool r b"
| "budget_step (r, OpTokens u) b = charge_tokens r u b"
| "budget_step (r, OpOutput s) b = charge_output r s b"

text \<open>A history: every caller's operations in the order the lock admitted them, whether
  they raised or not. The results are kept beside the operations.\<close>

fun budget_run ::
  "(reading \<times> budget_op) list \<Rightarrow> budget \<Rightarrow> budget \<times> (budget_op \<times> unit result) list" where
  "budget_run [] b = (b, [])"
| "budget_run (x # xs) b =
     (let (b1, res) = budget_step x b; (b2, rs) = budget_run xs b1 in (b2, (snd x, res) # rs))"

section \<open>Invariants\<close>

lemmas budget_ops [ops] =
  check_def reserve_model_def reserve_tool_def charge_tokens_def charge_output_def Let_def

definition calls_within :: "budget \<Rightarrow> bool" where
  "calls_within b \<longleftrightarrow> 0 \<le> model_calls b \<and> model_calls b \<le> max_model_calls (limits b)
     \<and> 0 \<le> tool_calls b \<and> tool_calls b \<le> max_tool_calls (limits b)"

definition volume_within :: "budget \<Rightarrow> bool" where
  "volume_within b \<longleftrightarrow> tokens b \<le> max_tokens (limits b)
     \<and> output_bytes b \<le> max_output_bytes (limits b)"

lemma budget_step_frame:
  "budget_step x b = (b', res) \<Longrightarrow> limits b' = limits b \<and> deadline b' = deadline b"
  by (cases x; cases "snd x") (auto simp: ops split: sum.splits if_splits pyval.splits)

lemma budget_step_calls: "budget_step x b = (b', res) \<Longrightarrow> calls_within b \<Longrightarrow> calls_within b'"
  by (cases x; cases "snd x")
     (auto simp: ops calls_within_def split: sum.splits if_splits pyval.splits)

lemma budget_step_volume:
  "budget_step x b = (b', Inr u) \<Longrightarrow> volume_within b \<Longrightarrow> volume_within b'"
  by (cases x; cases "snd x")
     (auto simp: ops volume_within_def split: sum.splits if_splits pyval.splits)

lemma budget_step_mono:
  "budget_step x b = (b', res) \<Longrightarrow> model_calls b \<le> model_calls b' \<and> tool_calls b \<le> tool_calls b'
     \<and> tokens b \<le> tokens b' \<and> output_bytes b \<le> output_bytes b'"
  by (cases x; cases "snd x") (auto simp: ops split: sum.splits if_splits pyval.splits)

lemma budget_run_frame:
  "budget_run xs b = (b', rs) \<Longrightarrow> limits b' = limits b \<and> deadline b' = deadline b"
  by (induction xs arbitrary: b rs)
     (auto simp: Let_def split: prod.splits dest!: budget_step_frame)

lemma budget_run_calls: "budget_run xs b = (b', rs) \<Longrightarrow> calls_within b \<Longrightarrow> calls_within b'"
  by (induction xs arbitrary: b rs)
     (auto simp: Let_def split: prod.splits dest: budget_step_calls)

lemma budget_run_volume:
  "budget_run xs b = (b', rs) \<Longrightarrow> \<forall>x \<in> set rs. snd x = Inr () \<Longrightarrow> volume_within b
     \<Longrightarrow> volume_within b'"
proof (induction xs arbitrary: b rs)
  case Nil
  then show ?case by simp
next
  case (Cons x xs)
  obtain b1 res rs1 where s: "budget_step x b = (b1, res)" "budget_run xs b1 = (b', rs1)"
    "rs = (snd x, res) # rs1"
    using Cons.prems(1) by (auto simp: Let_def split: prod.splits)
  then have "volume_within b1"
    using Cons.prems(2,3) budget_step_volume [of x b b1 "()"] by simp
  with s Cons.IH Cons.prems(2) show ?case by simp
qed

lemma mk_budget_within: "limits_ok l \<Longrightarrow> calls_within (mk_budget l t) \<and> volume_within (mk_budget l t)"
  by (simp add: mk_budget_def calls_within_def volume_within_def limits_ok_def)

lemma mk_limits_ok: "mk_limits w m t k ob = Inr l \<Longrightarrow> limits_ok l"
  by (auto simp: mk_limits_def bind_res_Inr wall_value_def count_value_def limits_ok_def
      split: pyval.splits pyfloat.splits if_splits)

text \<open>How many calls were admitted is what the counter says.\<close>

definition admitted :: "budget_op \<Rightarrow> (budget_op \<times> unit result) list \<Rightarrow> nat" where
  "admitted k rs = length (filter (\<lambda>(x, res). x = k \<and> res = Inr ()) rs)"

lemma admitted_simps [simp]:
  "admitted k [] = 0"
  "admitted k ((x, res) # rs) = (if x = k \<and> res = Inr () then 1 else 0) + admitted k rs"
  by (simp_all add: admitted_def)

lemma budget_step_model:
  "budget_step (r, y) b = (b', res) \<Longrightarrow>
     model_calls b' = model_calls b + (if y = OpModel \<and> res = Inr () then 1 else 0)
     \<and> tool_calls b' = tool_calls b + (if y = OpTool \<and> res = Inr () then 1 else 0)"
  by (cases y) (auto simp: ops split: sum.splits if_splits pyval.splits)

lemma budget_run_counts:
  "budget_run xs b = (b', rs) \<Longrightarrow> model_calls b' = model_calls b + int (admitted OpModel rs)
     \<and> tool_calls b' = tool_calls b + int (admitted OpTool rs)"
proof (induction xs arbitrary: b rs)
  case Nil
  then show ?case by simp
next
  case (Cons x xs)
  obtain b1 res rs1 where s: "budget_step x b = (b1, res)" "budget_run xs b1 = (b', rs1)"
    "rs = (snd x, res) # rs1"
    using Cons.prems by (auto simp: Let_def split: prod.splits)
  then show ?case
    using Cons.IH [OF s(2)] budget_step_model [of "fst x" "snd x" b b1 res] by auto
qed

section \<open>Properties\<close>

text \<open>C33. However many callers share one budget, in whatever order the lock admits their
  operations and whichever of them raise, no more model or tool calls are admitted than the
  validated limits declare; and while nothing has raised, the charged tokens and output
  bytes stay within their limits too.\<close>

theorem budget_never_overspent:
  assumes "mk_limits w m t k ob = Inr l" and "budget_run xs (mk_budget l t0) = (b, rs)"
  shows "int (admitted OpModel rs) \<le> max_model_calls l \<and> int (admitted OpTool rs) \<le> max_tool_calls l
    \<and> ((\<forall>x \<in> set rs. snd x = Inr ()) \<longrightarrow> tokens b \<le> max_tokens l
        \<and> output_bytes b \<le> max_output_bytes l)"
proof -
  have w: "calls_within (mk_budget l t0)" "volume_within (mk_budget l t0)"
    using mk_budget_within [OF mk_limits_ok [OF assms(1)]] by auto
  have l: "limits b = l"
    using budget_run_frame [OF assms(2)] by (simp add: mk_budget_def)
  show ?thesis
    using budget_run_calls [OF assms(2) w(1)] budget_run_counts [OF assms(2)]
      budget_run_volume [OF assms(2) _ w(2)] l
    by (auto simp: calls_within_def volume_within_def mk_budget_def)
qed

theorem budget_never_overspent_witness:
  "int (admitted OpModel [(OpModel, Inr ()), (OpModel, Inl (BudgetExceeded ''model_calls''))]) \<le> 1"
proof -
  let ?l = "\<lparr>wall_seconds = 5, max_model_calls = 1, max_tool_calls = 0, max_tokens = 9,
    max_output_bytes = 9\<rparr>"
  let ?r = "\<lparr>cancelled = False, now = 1\<rparr>"
  have a: "mk_limits (PFloat (Fin 5) ''5.0'') (PInt 1) (PInt 0) (PInt 9) (PInt 9) = Inr ?l"
    by (simp add: mk_limits_def wall_value_def count_value_def)
  have b: "budget_run [(?r, OpModel), (?r, OpModel)] (mk_budget ?l 0) =
     ((mk_budget ?l 0)\<lparr>model_calls := 1\<rparr>,
      [(OpModel, Inr ()), (OpModel, Inl (BudgetExceeded ''model_calls''))])"
    by (simp add: ops mk_budget_def)
  show ?thesis using budget_never_overspent [OF a b] by simp
qed

text \<open>From the moment a run is cancelled or its deadline has passed, no operation of
  the budget succeeds and none changes it: every guarded call of the run fails closed.\<close>

theorem budget_closed_after_end:
  assumes "cancelled r \<or> deadline b \<le> now r"
  shows "\<exists>e. budget_step (r, y) b = (b, Inl e) \<and> (e = RunCancelled \<or> e = BudgetExceeded ''wall_seconds'')
    \<and> (\<exists>e'. remaining_seconds r later b = Inl e')"
  using assms by (cases y) (auto simp: ops remaining_seconds_def)

theorem budget_closed_after_end_witness:
  "\<exists>e. budget_step (\<lparr>cancelled = False, now = 9\<rparr>, OpTool)
      (mk_budget \<lparr>wall_seconds = 5, max_model_calls = 1, max_tool_calls = 3, max_tokens = 9,
         max_output_bytes = 9\<rparr> 0) =
      (mk_budget \<lparr>wall_seconds = 5, max_model_calls = 1, max_tool_calls = 3, max_tokens = 9,
         max_output_bytes = 9\<rparr> 0, Inl e)"
  using budget_closed_after_end [of "\<lparr>cancelled = False, now = 9\<rparr>"
      "mk_budget \<lparr>wall_seconds = 5, max_model_calls = 1, max_tool_calls = 3, max_tokens = 9,
         max_output_bytes = 9\<rparr> 0" OpTool 0]
  by (auto simp: mk_budget_def)

text \<open>An overrun is recorded and sticky: once the token total has passed its limit
  (the charge that passed it raised and kept the tokens), every later token charge of the
  run raises, whatever happened in between.\<close>

theorem token_overrun_sticky:
  assumes "budget_run xs b = (b', rs)" and "max_tokens (limits b) < tokens b"
  shows "\<exists>e. snd (charge_tokens r u b') = Inl e"
proof -
  have mono: "tokens b \<le> tokens b' \<and> limits b' = limits b"
    using assms(1)
  proof (induction xs arbitrary: b rs)
    case Nil
    then show ?case by simp
  next
    case (Cons x xs)
    then obtain b1 res rs1 where s: "budget_step x b = (b1, res)" "budget_run xs b1 = (b', rs1)"
      by (auto simp: Let_def split: prod.splits)
    have "tokens b \<le> tokens b1 \<and> limits b1 = limits b"
      using budget_step_mono [OF s(1)] budget_step_frame [OF s(1)] by simp
    with Cons.IH [OF s(2)] show ?case by simp
  qed
  then show ?thesis
    using assms(2) by (auto simp: ops split: pyval.splits sum.splits)
qed

theorem token_overrun_sticky_witness:
  "\<exists>b e. budget_step (\<lparr>cancelled = False, now = 1\<rparr>, OpTokens (PInt 7))
        (mk_budget \<lparr>wall_seconds = 5, max_model_calls = 1, max_tool_calls = 3, max_tokens = 6,
           max_output_bytes = 9\<rparr> 0) = (b, Inl (BudgetExceeded ''tokens''))
     \<and> snd (charge_tokens \<lparr>cancelled = False, now = 2\<rparr> (PInt 0) b) = Inl e"
proof -
  let ?start = "mk_budget \<lparr>wall_seconds = 5, max_model_calls = 1, max_tool_calls = 3, max_tokens = 6,
    max_output_bytes = 9\<rparr> 0"
  let ?b = "?start\<lparr>tokens := 7\<rparr>"
  have s: "budget_step (\<lparr>cancelled = False, now = 1\<rparr>, OpTokens (PInt 7)) ?start =
      (?b, Inl (BudgetExceeded ''tokens''))"
    by (simp add: budget_ops mk_budget_def)
  have "budget_run [] ?b = (?b, [])" and "max_tokens (limits ?b) < tokens ?b"
    by (simp_all add: mk_budget_def)
  from token_overrun_sticky [OF this] obtain e where
    "snd (charge_tokens \<lparr>cancelled = False, now = 2\<rparr> (PInt 0) ?b) = Inl e" by blast
  with s show ?thesis by blast
qed

end
