(* ===== verification/Controller.thy ===== *)
theory Controller
  imports EventLog Observer Budget Executor Evaluator
begin

section \<open>The loop (atlas_core/controller.py)\<close>

text \<open>
  One run as a computation over the state the controller holds: the run record, the budget, the
  log, the rounds of reading and the material of each graded pass. Every outside fact is a
  field of the environment, indexed by a counter that advances at each use: the clock and the
  cancellation hook, the files, the time stamps, the sink, the model adapter, the observer, the
  readers and the memory. An exception that the code does not catch ends the computation and
  keeps the state. The message text of a recorded failure and the handles that a retry passes
  to the adapter beside its input are not modelled.
\<close>

subsection \<open>Computations\<close>

record round_record =
  rr_round :: obs_round
  rr_iteration :: int
  rr_patterns :: "string list"
  rr_windows :: "line_window list"

type_synonym material =
  "(string \<times> string \<times> int \<times> int) list \<times> (string \<times> string \<times> string list) option"

record 's ctl =
  c_run :: run_state
  c_budget :: "budget option"
  c_log :: "'s event_log option"
  c_tick :: nat
  c_rounds :: "round_record list"
  c_materials :: "material list"

type_synonym ('s, 'a) op = "'s ctl \<Rightarrow> 'a result \<times> 's ctl"

definition ret :: "'a \<Rightarrow> ('s, 'a) op" where "ret a s = (Inr a, s)"
definition fail :: "exc \<Rightarrow> ('s, 'a) op" where "fail e s = (Inl e, s)"

definition bind_op :: "('s, 'a) op \<Rightarrow> ('a \<Rightarrow> ('s, 'b) op) \<Rightarrow> ('s, 'b) op" where
  "bind_op m f s = (case m s of (Inl e, s') \<Rightarrow> (Inl e, s') | (Inr a, s') \<Rightarrow> f a s')"

definition then_op :: "('s, 'a) op \<Rightarrow> ('s, 'b) op \<Rightarrow> ('s, 'b) op" where
  "then_op m n = bind_op m (\<lambda>_. n)"

text \<open>\<open>attempt m\<close> hands an exception on as a value: the \<open>try\<close> of the code.\<close>

definition attempt :: "('s, 'a) op \<Rightarrow> ('s, 'a result) op" where
  "attempt m s = (case m s of (r, s') \<Rightarrow> (Inr r, s'))"

definition lift_res :: "'a result \<Rightarrow> ('s, 'a) op" where "lift_res r s = (r, s)"
definition get_ctl :: "('s, 's ctl) op" where "get_ctl s = (Inr s, s)"
definition upd_ctl :: "('s ctl \<Rightarrow> 's ctl) \<Rightarrow> ('s, unit) op" where "upd_ctl f s = (Inr (), f s)"

definition upd_run :: "(run_state \<Rightarrow> run_state) \<Rightarrow> ('s, unit) op" where
  "upd_run f = upd_ctl (\<lambda>s. s\<lparr>c_run := f (c_run s)\<rparr>)"

definition move :: "(run_state \<Rightarrow> run_state result) \<Rightarrow> ('s, unit) op" where
  "move f s = (case f (c_run s) of Inl e \<Rightarrow> (Inl e, s) | Inr r \<Rightarrow> (Inr (), s\<lparr>c_run := r\<rparr>))"

definition when_op :: "bool \<Rightarrow> ('s, unit) op \<Rightarrow> ('s, unit) op" where
  "when_op b m = (if b then m else ret ())"

definition tick_op :: "('s, nat) op" where
  "tick_op s = (Inr (c_tick s), s\<lparr>c_tick := Suc (c_tick s)\<rparr>)"

fun each_op :: "('a \<Rightarrow> ('s, unit) op) \<Rightarrow> 'a list \<Rightarrow> ('s, unit) op" where
  "each_op f [] = ret ()"
| "each_op f (x # xs) = then_op (f x) (each_op f xs)"

definition note_meta :: "string \<Rightarrow> pyval \<Rightarrow> ('s, unit) op" where
  "note_meta k v = upd_run (\<lambda>r. r\<lparr>rs_metadata := dict_set k v (rs_metadata r)\<rparr>)"

subsection \<open>The environment\<close>

text \<open>What a model adapter returns: \<open>mr_output\<close> is \<open>None\<close> for an output that is not a string, and
  a value that is not a \<open>ModelResult\<close> is \<open>NotAResult\<close>.\<close>

record model_result =
  mr_output :: "string option"
  mr_model :: "string option"
  mr_provider :: "string option"
  mr_metadata :: "(string \<times> string) list"
  mr_block :: "string option"

datatype reply = NotAResult | Reply model_result

record model_input =
  mi_task :: string
  mi_route :: route
  mi_plan :: plan
  mi_observations :: "string list"
  mi_feedback :: "evaluation option"

record 's env =
  host_at :: "nat \<Rightarrow> host"
  reading_at :: "nat \<Rightarrow> reading"
  stamp_at :: "nat \<Rightarrow> string"
  sink_wr :: "'s \<Rightarrow> dict \<Rightarrow> 's result"
  json_loads :: "string \<Rightarrow> pyval result"
  hash :: "string \<Rightarrow> string"
  input_json :: "model_input \<Rightarrow> pyval"
  request_json :: "obs_request \<Rightarrow> pyval"
  adapter :: "(nat \<Rightarrow> model_input \<Rightarrow> budget option \<Rightarrow> 's event_log option
    \<Rightarrow> reply result \<times> budget option \<times> 's event_log option) option"
  adapter_name :: string
  adapter_idempotent :: bool
  observer :: "(nat \<Rightarrow> obs_request \<Rightarrow> budget \<Rightarrow> observation option list result \<times> budget) option"
  readers :: "(nat \<Rightarrow> string \<Rightarrow> budget \<Rightarrow> pyval result \<times> budget) list"
  memory_reader :: "(string \<Rightarrow> string list result) option"
  memory_writer :: "dict \<Rightarrow> string option result"
  float_text :: "real \<Rightarrow> string"
  tools :: bool

record 's run_args =
  ra_task :: string
  ra_observations :: "string list"
  ra_evidence :: "evidence_base option"
  ra_limits :: "run_limits option"
  ra_read_first :: bool
  ra_run_id :: string
  ra_max :: int
  ra_previous :: "dict list option"
  ra_sink :: "'s option"

subsection \<open>Steps every stage uses\<close>

definition budget_op :: "'s env \<Rightarrow> (reading \<Rightarrow> budget \<Rightarrow> budget \<times> unit result) \<Rightarrow> ('s, unit) op" where
  "budget_op env f s = (case c_budget s of
     None \<Rightarrow> (Inr (), s)
   | Some b \<Rightarrow> (case f (reading_at env (c_tick s)) b of
        (b', r) \<Rightarrow> (r, s\<lparr>c_budget := Some b', c_tick := Suc (c_tick s)\<rparr>)))"

definition check_budget :: "'s env \<Rightarrow> ('s, unit) op" where
  "check_budget env = budget_op env (\<lambda>r b. (b, check r b))"

definition log_op ::
  "'s env \<Rightarrow> (string \<Rightarrow> 's event_log \<Rightarrow> 's event_log \<times> 'a result) \<Rightarrow> ('s, 'a option) op" where
  "log_op env f s = (case c_log s of
     None \<Rightarrow> (Inr None, s)
   | Some l \<Rightarrow> (case f (stamp_at env (c_tick s)) l of
        (l', r) \<Rightarrow> (bind_res r (\<lambda>x. Inr (Some x)), s\<lparr>c_log := Some l', c_tick := Suc (c_tick s)\<rparr>)))"

definition log_fact :: "'s env \<Rightarrow> string \<Rightarrow> int \<Rightarrow> dict \<Rightarrow> ('s, unit) op" where
  "log_fact env kind it payload = then_op
     (log_op env (\<lambda>t. log_append (sink_wr env) t kind it PNone payload)) (ret ())"

definition begin_call ::
  "'s env \<Rightarrow> string \<Rightarrow> int \<Rightarrow> pyval \<Rightarrow> pyval \<Rightarrow> bool \<Rightarrow> ('s, string option) op" where
  "begin_call env k it target inp idempotent = log_op env (\<lambda>t. start_call (sink_wr env) (hash env) t
     k it target inp [(''idempotent'', PBool idempotent)])"

definition end_call :: "'s env \<Rightarrow> string option \<Rightarrow> string \<Rightarrow> int \<Rightarrow> pyval \<Rightarrow> ('s, unit) op" where
  "end_call env call outcome it err = (case call of
     None \<Rightarrow> ret ()
   | Some c \<Rightarrow> then_op (log_op env (\<lambda>t. finish_call (sink_wr env) t c outcome it err [])) (ret ()))"

definition stop_op :: "stop_reason \<Rightarrow> ('s, unit) op" where "stop_op r = move (stop_run r)"

fun exc_name :: "exc \<Rightarrow> string" where
  "exc_name ValueError = ''ValueError''"
| "exc_name TypeError = ''TypeError''"
| "exc_name KeyError = ''KeyError''"
| "exc_name RuntimeError = ''RuntimeError''"
| "exc_name InvalidTransition = ''InvalidTransition''"
| "exc_name (BudgetExceeded m) = ''BudgetExceeded''"
| "exc_name RunCancelled = ''RunCancelled''"
| "exc_name UnmeteredUsage = ''UnmeteredUsage''"
| "exc_name AppendOnlyViolation = ''AppendOnlyViolation''"
| "exc_name ResumeRefused = ''ResumeRefused''"
| "exc_name LockUnavailable = ''LockUnavailable''"
| "exc_name TornLogTail = ''TornLogTail''"
| "exc_name JSONDecodeError = ''JSONDecodeError''"
| "exc_name ObservationRefused = ''ObservationRefused''"
| "exc_name (PathRefused p) = ''PathRefused''"
| "exc_name SourceTooLarge = ''SourceTooLarge''"
| "exc_name FileMissing = ''FileNotFoundError''"
| "exc_name OSError = ''OSError''"
| "exc_name (ApprovalRejected c) = ''ApprovalRejected''"
| "exc_name (ToolDenied c) = ''ToolDenied''"
| "exc_name ToolSchemaError = ''ToolSchemaError''"
| "exc_name ToolTimeout = ''ToolTimeout''"
| "exc_name InspectError = ''InspectError''"
| "exc_name (Foreign n t) = n"

text \<open>The two control stops of every \<open>try\<close>, and the runtime failure of the others.\<close>

definition is_control :: "exc \<Rightarrow> bool" where
  "is_control e \<longleftrightarrow> (case e of RunCancelled \<Rightarrow> True | BudgetExceeded m \<Rightarrow> True | _ \<Rightarrow> False)"

definition control_stop :: "exc \<Rightarrow> ('s, unit) op" where
  "control_stop e = (case e of
     RunCancelled \<Rightarrow> stop_op StopCancelled
   | BudgetExceeded m \<Rightarrow> then_op (note_meta ''budget_exhausted'' (PStr m)) (stop_op BudgetExhausted)
   | _ \<Rightarrow> fail e)"

definition failure_stop :: "string \<Rightarrow> exc \<Rightarrow> ('s, unit) op" where
  "failure_stop stage e = then_op (stop_op ToolError) (note_meta ''failure''
     (PDict [(''stage'', PStr stage), (''error'', PStr (exc_name e))]))"

definition expired :: "'s env \<Rightarrow> ('s, bool) op" where
  "expired env = bind_op get_ctl (\<lambda>s. bind_op (attempt
     (if c_budget s = None then bind_op tick_op (\<lambda>t.
         if cancelled (reading_at env t) then fail RunCancelled else ret ())
      else check_budget env)) (\<lambda>r. case r of
        Inr _ \<Rightarrow> ret False
      | Inl e \<Rightarrow> then_op (control_stop e) (ret True)))"

subsection \<open>Rounds of reading\<close>

datatype round_outcome = RStopped | RNothing | RNew

definition at_span :: "reframing \<Rightarrow> string" where
  "at_span r = rf_sha256 r @ ''@'' @ str_int (rf_new_start r) @ '':'' @ str_int (rf_new_end r)"

definition round_material :: "obs_round \<Rightarrow> (string \<times> string) list" where
  "round_material r = map (\<lambda>o'. (source_id o', content_sha256 o')) (added r) @
     map (\<lambda>u. (su_source u, su_new u)) (superseded r) @ map (\<lambda>u. (rf_source u, at_span u)) (reframed r)"

definition entries_of :: "dict \<Rightarrow> string \<Rightarrow> dict list" where
  "entries_of d k = (case get_or d k (PList []) of
     PList xs \<Rightarrow> List.map_filter (\<lambda>x. case x of PDict e \<Rightarrow> Some e | _ \<Rightarrow> None) xs | _ \<Rightarrow> [])"

definition sv :: "dict \<Rightarrow> string \<Rightarrow> string" where "sv d k = str_val (get_or d k PNone)"

definition logged_round_material :: "dict \<Rightarrow> (string \<times> string) list" where
  "logged_round_material p =
     map (\<lambda>e. (sv e ''source_id'', sv e ''sha256'')) (entries_of p ''added'') @
     map (\<lambda>e. (sv e ''source_id'', sv e ''new_sha256'')) (entries_of p ''superseded'') @
     map (\<lambda>e. (sv e ''source_id'', sv e ''sha256'' @ ''@'' @ sv e ''new_line_start'' @ '':'' @
       sv e ''new_line_end'')) (entries_of p ''reframed'')"

definition window_json :: "line_window \<Rightarrow> pyval" where
  "window_json w = PDict ([(''path'', PStr (w_path w)), (''line_start'', PInt (w_start w)),
     (''max_lines'', PInt (w_max w))] @
     (case w_anchor w of None \<Rightarrow> [] | Some a \<Rightarrow> [(''anchor_prefix'', PStr a)]))"

definition round_payload :: "obs_request \<Rightarrow> string list \<Rightarrow> obs_round \<Rightarrow> dict" where
  "round_payload q patterns r =
     [(''patterns'', pstrs patterns), (''requested'', PInt (int (requested r))),
      (''added'', PList (map (\<lambda>o'. PDict [(''source_id'', PStr (source_id o')), (''path'', PStr (path o')),
         (''sha256'', PStr (content_sha256 o'))]) (added r))),
      (''superseded'', PList (map (\<lambda>u. PDict [(''source_id'', PStr (su_source u)),
         (''path'', PStr (su_path u)), (''previous_sha256'', PStr (su_previous u)),
         (''new_sha256'', PStr (su_new u))]) (superseded r))),
      (''reframed'', PList (map (\<lambda>u. PDict [(''source_id'', PStr (rf_source u)), (''path'', PStr (rf_path u)),
         (''sha256'', PStr (rf_sha256 u)), (''previous_line_start'', PInt (rf_previous_start u)),
         (''previous_line_end'', PInt (rf_previous_end u)), (''new_line_start'', PInt (rf_new_start u)),
         (''new_line_end'', PInt (rf_new_end u))]) (reframed r))),
      (''line_windows'', PList (map window_json (rq_windows q))), (''unchanged'', pstrs (unchanged r)),
      (''has_new_material'', PBool (has_new_material r))]"

text \<open>Asking the host and merging what it returned: the first \<open>try\<close> of a round.\<close>

definition ask_host ::
  "'s env \<Rightarrow> obs_request \<Rightarrow> ('s, observation list \<times> obs_round) op" where
  "ask_host env q = then_op (check_budget env) (bind_op tick_op (\<lambda>t. bind_op get_ctl (\<lambda>s.
     case (observer env, c_budget s, rs_evidence (c_run s)) of
       (Some ob, Some b, Some base) \<Rightarrow> (case ob t q b of (incoming, b') \<Rightarrow>
          then_op (upd_ctl (\<lambda>s. s\<lparr>c_budget := Some b'\<rparr>)) (lift_res (bind_res incoming
            (merge_observations (base_snapshot base) (base_observations base)))))
     | _ \<Rightarrow> fail (Foreign ''AttributeError'' []))))"

definition refused_read :: "'s env \<Rightarrow> string option \<Rightarrow> int \<Rightarrow> exc \<Rightarrow> ('s, unit) op" where
  "refused_read env read it e =
     then_op (end_call env read (case e of BudgetExceeded m \<Rightarrow> ''denied'' | _ \<Rightarrow> ''failed'') it
       (PStr (exc_name e)))
     (if is_control e then control_stop e else failure_stop ''observer'' e)"

definition resolved_patterns :: "'s ctl \<Rightarrow> string list" where
  "resolved_patterns s = concat (map rr_patterns (c_rounds s))"

definition fresh_observations :: "observation list \<Rightarrow> obs_round \<Rightarrow> observation list" where
  "fresh_observations merged r = added r @ filter (\<lambda>o'. source_id o' \<in>
     set (map su_source (superseded r) @ map rf_source (reframed r))) merged"

definition context_of :: "observation \<Rightarrow> string" where
  "context_of o' = path o' @ '':'' @ LF # excerpt o'"

definition adopt_round ::
  "'s env \<Rightarrow> evidence_base \<Rightarrow> obs_request \<Rightarrow> string list \<Rightarrow> observation list \<Rightarrow> obs_round \<Rightarrow> string list
     \<Rightarrow> ('s, round_outcome) op" where
  "adopt_round env base q patterns merged r contexts = bind_op get_ctl (\<lambda>s.
     let it = rs_iteration (c_run s);
         newly = filter (\<lambda>p. p \<notin> set (resolved_patterns s)) patterns in
     then_op (upd_ctl (\<lambda>s. s\<lparr>c_rounds := c_rounds s @ [\<lparr>rr_round = r, rr_iteration = it,
       rr_patterns = patterns, rr_windows = rq_windows q\<rparr>]\<rparr>))
     (then_op (log_fact env ''observation_recorded'' it (round_payload q patterns r))
     (if \<not> has_new_material r \<and> newly = [] then ret RNothing
      else bind_op (lift_res (with_observations base merged)) (\<lambda>base'.
        then_op (upd_run (\<lambda>x. x\<lparr>rs_evidence := Some base',
          rs_observations := rs_observations x @ contexts\<rparr>)) (ret RNew)))))"

definition symmetric_ids :: "(string \<times> string) list \<Rightarrow> (string \<times> string) list \<Rightarrow> string list" where
  "symmetric_ids xs ys = sorted_set (map fst (filter (\<lambda>x. x \<notin> set ys) xs @ filter (\<lambda>y. y \<notin> set xs) ys))"

definition observe_round ::
  "'s env \<Rightarrow> (string \<times> string) list list \<Rightarrow> obs_request \<Rightarrow> string list \<Rightarrow> ('s, round_outcome) op" where
  "observe_round env recorded q patterns = bind_op get_ctl (\<lambda>s0.
     let it = rs_iteration (c_run s0);
         asked = (if rq_paths q \<noteq> [] then rq_paths q else map w_path (rq_windows q));
         target = join '','' asked in
     case rs_evidence (c_run s0) of None \<Rightarrow> fail (Foreign ''AssertionError'' []) | Some base \<Rightarrow>
     if c_budget s0 = None then fail (Foreign ''AssertionError'' []) else
     bind_op (begin_call env ''observe'' it (if target = [] then PNone else PStr target)
       (request_json env q) True) (\<lambda>read.
     bind_op (attempt (ask_host env q)) (\<lambda>got. case got of
       Inl e \<Rightarrow> then_op (refused_read env read it e) (ret RStopped)
     | Inr (merged, r) \<Rightarrow> bind_op get_ctl (\<lambda>s.
        let committed = length (c_rounds s);
            contexts = map context_of (fresh_observations merged r) in
        if committed < length recorded \<and> set (recorded ! committed) \<noteq> set (round_material r) then
          then_op (end_call env read ''ok'' it PNone)
          (then_op (note_meta ''resume_evidence_changed'' (PDict [(''round'', PInt (int committed)),
             (''source_ids'', pstrs (symmetric_ids (recorded ! committed) (round_material r)))]))
          (then_op (stop_op Blocked) (ret RStopped)))
        else bind_op (attempt (each_op (\<lambda>c. budget_op env (\<lambda>rd. charge_output rd c)) contexts)) (\<lambda>paid.
          case paid of
            Inl e \<Rightarrow> if is_control e then then_op (refused_read env read it e) (ret RStopped) else fail e
          | Inr _ \<Rightarrow> then_op (end_call env read ''ok'' it PNone)
              (adopt_round env base q patterns merged r contexts))))))"

subsection \<open>Drift and reading again\<close>

fun vresult_name :: "vresult \<Rightarrow> string" where
  "vresult_name Fresh = ''fresh''"
| "vresult_name Stale = ''stale''"
| "vresult_name Missing = ''missing''"
| "vresult_name Refused = ''refused''"
| "vresult_name Unverifiable = ''unverifiable''"

definition find_drift :: "'s env \<Rightarrow> ('s, drift_report option) op" where
  "find_drift env = bind_op get_ctl (\<lambda>s. case rs_evidence (c_run s) of
     None \<Rightarrow> ret None
   | Some b \<Rightarrow> if is_empty b then ret None
     else bind_op tick_op (\<lambda>t. bind_op (lift_res (detect_drift (host_at env t) (base_snapshot b)
         (base_observations b))) (\<lambda>r. ret (if is_consistent r then None else Some r))))"

definition stop_for_drift :: "drift_report \<Rightarrow> ('s, unit) op" where
  "stop_for_drift r = bind_op get_ctl (\<lambda>s. case rs_evidence (c_run s) of
     None \<Rightarrow> fail (Foreign ''AssertionError'' [])
   | Some b \<Rightarrow>
      then_op (note_meta ''drift'' (PDict [(''head_moved'', PBool (head_moved r)),
        (''not_evidence'', PDict (map (\<lambda>(i, v). (i, PDict [(''result'', PStr (vresult_name (v_result v))),
          (''reason'', PStr (v_reason v))])) (not_evidence r))),
        (''paths'', pstrs (sort (List.map_filter (\<lambda>(i, v). map_of (dict_of source_id path
          (base_observations b)) i) (not_evidence r))))]))
      (stop_op Blocked))"

definition listed :: "dict \<Rightarrow> string \<Rightarrow> pyval list" where
  "listed d k = (case get_or d k (PList []) of PList xs \<Rightarrow> xs | _ \<Rightarrow> [])"

definition window_of :: "pyval \<Rightarrow> line_window result" where
  "window_of v = (case v of
     PDict d \<Rightarrow> (case (get_or d ''path'' PNone, get_or d ''line_start'' PNone,
         get_or d ''max_lines'' PNone, get_or d ''anchor_prefix'' PNone) of
       (PStr p, PInt a, PInt m, PNone) \<Rightarrow>
         mk_window \<lparr>w_path = p, w_start = a, w_max = m, w_anchor = None\<rparr>
     | (PStr p, PInt a, PInt m, PStr x) \<Rightarrow>
         mk_window \<lparr>w_path = p, w_start = a, w_max = m, w_anchor = Some x\<rparr>
     | _ \<Rightarrow> Inl ValueError)
   | _ \<Rightarrow> Inl ValueError)"

definition read_again ::
  "'s env \<Rightarrow> (string \<times> string) list list \<Rightarrow> evaluation \<Rightarrow> drift_report option \<Rightarrow> review_plan option
     \<Rightarrow> ('s, round_outcome) op" where
  "read_again env recorded ev report review = bind_op get_ctl (\<lambda>s.
     let details = (case av_next_action ev of None \<Rightarrow> [] | Some a \<Rightarrow> na_details a);
         by_finding = (case av_next_action ev of None \<Rightarrow> False | Some a \<Rightarrow> na_kind a = ''observe_again'');
         blocked = (if by_finding then map str_val (listed details ''blocked_by'')
           else sorted_set (case report of None \<Rightarrow> [] | Some r \<Rightarrow>
             map (vresult_name \<circ> v_result \<circ> snd) (not_evidence r)));
         claims = (if by_finding then map str_val (listed details ''claims'') else []);
         patterns = map str_val (listed details ''patterns'') in
     case rs_evidence (c_run s) of None \<Rightarrow> fail (Foreign ''AssertionError'' []) | Some base \<Rightarrow>
     bind_op (lift_res (map_res window_of (listed details ''line_windows''))) (\<lambda>windows.
     bind_op (lift_res (request_from (base_snapshot base) (base_observations base) blocked claims
       (rs_iteration (c_run s)) patterns windows (windows = []) (question_of review))) (\<lambda>q.
     then_op (move (enter Observing)) (observe_round env recorded q patterns))))"

subsection \<open>Repeated failures\<close>

definition failure_signature ::
  "evaluation \<Rightarrow> string option \<times> string list \<times> string list \<times> string list \<times> string list" where
  "failure_signature ev = (map_option na_kind (av_next_action ev),
     (case av_next_action ev of None \<Rightarrow> [] | Some a \<Rightarrow> sort (na_gap_codes a)),
     sort (av_missing_sections ev), sort (av_evidence_gaps ev), sort (av_unverified ev))"

definition same_failure :: "evaluation \<Rightarrow> evaluation \<Rightarrow> bool" where
  "same_failure ev prev \<longleftrightarrow>
     failure_signature ev = failure_signature prev \<and> av_next_action ev \<noteq> None"

definition material_key :: "observation \<Rightarrow> string \<times> string \<times> int \<times> int" where
  "material_key o' = (source_id o', content_sha256 o', line_start o', line_end o')"

definition key_le :: "string \<times> string \<times> int \<times> int \<Rightarrow> string \<times> string \<times> int \<times> int \<Rightarrow> bool" where
  "key_le x y \<longleftrightarrow> (case (x, y) of ((a, b, c, d), (a', b', c', d')) \<Rightarrow>
     a < a' \<or> a = a' \<and> (b < b' \<or> b = b' \<and> (c < c' \<or> c = c' \<and> d \<le> d')))"

fun insert_key :: "string \<times> string \<times> int \<times> int \<Rightarrow> (string \<times> string \<times> int \<times> int) list
    \<Rightarrow> (string \<times> string \<times> int \<times> int) list" where
  "insert_key x [] = [x]"
| "insert_key x (y # ys) = (if key_le x y then x # y # ys else y # insert_key x ys)"

definition material_signature :: "run_state \<Rightarrow> material" where
  "material_signature r =
     (case rs_evidence r of None \<Rightarrow> []
        | Some b \<Rightarrow> foldr insert_key (map material_key (base_observations b)) [],
      case rs_plan r of None \<Rightarrow> None
        | Some p \<Rightarrow> map_option (\<lambda>rp. (rp_snapshot rp, rp_topic rp, rp_patterns rp)) (pl_review p))"

subsection \<open>One pass\<close>

datatype flow = Again | Halt

text \<open>A stage either hands a value on or has stopped the run.\<close>

definition go :: "('s, bool) op \<Rightarrow> ('s, flow) op \<Rightarrow> ('s, flow) op" where
  "go m n = bind_op m (\<lambda>stopped. if stopped then ret Halt else n)"

definition check_model_result :: "(string \<Rightarrow> pyval result) \<Rightarrow> reply \<Rightarrow> (model_result \<times> string) result" where
  "check_model_result loads r = (case r of
     NotAResult \<Rightarrow> Inl TypeError
   | Reply m \<Rightarrow> (case mr_output m of
       None \<Rightarrow> Inl ValueError
     | Some out \<Rightarrow>
         if blank out then Inl ValueError
         else if map_of (mr_metadata m) ''format'' = Some ''json'' then
           (case loads out of Inl JSONDecodeError \<Rightarrow> Inl ValueError | Inl e \<Rightarrow> Inl e
            | Inr _ \<Rightarrow> Inr (m, out))
         else Inr (m, out)))"

text \<open>\<open>int(raw) if raw.isdecimal() else None\<close>: the usage the adapter reported.\<close>

definition usage_of :: "model_result \<Rightarrow> pyval" where
  "usage_of m = (case map_of (mr_metadata m) ''usage_tokens'' of
     None \<Rightarrow> PNone
   | Some t \<Rightarrow> if t \<noteq> [] \<and> list_all ch_digit t then
       (case int_of_text t of None \<Rightarrow> PNone | Some n \<Rightarrow> PInt n) else PNone)"

text \<open>The call: started in the log, made, checked and finished there. The adapter acts on the
  budget and the log it is given; a failure of the call leaves its name for the handler.\<close>

definition make_call :: "'s env \<Rightarrow> model_input \<Rightarrow> ('s, (model_result \<times> string) result \<times> string option) op" where
  "make_call env inp = bind_op get_ctl (\<lambda>s0. let it = rs_iteration (c_run s0) in
     bind_op (attempt (budget_op env reserve_model)) (\<lambda>res. case res of
       Inl e \<Rightarrow> ret (Inl e, None)
     | Inr _ \<Rightarrow> bind_op (attempt (begin_call env ''model_call'' it (PStr (adapter_name env))
           (input_json env inp) (adapter_idempotent env))) (\<lambda>started. case started of
         Inl e \<Rightarrow> ret (Inl e, None)
       | Inr call \<Rightarrow> bind_op tick_op (\<lambda>t. bind_op get_ctl (\<lambda>s.
           case adapter env of None \<Rightarrow> fail (Foreign ''AttributeError'' []) | Some ad \<Rightarrow>
           (case ad t inp (c_budget s) (c_log s) of (r, b', l') \<Rightarrow>
             then_op (upd_ctl (\<lambda>s. s\<lparr>c_budget := b', c_log := l'\<rparr>))
             (case bind_res r (check_model_result (json_loads env)) of
               Inl e \<Rightarrow> ret (Inl e, call)
             | Inr out \<Rightarrow> bind_op (attempt (end_call env call ''ok'' it PNone)) (\<lambda>ended. case ended of
                 Inl e \<Rightarrow> ret (Inl e, call)
               | Inr _ \<Rightarrow> ret (Inr out, None)))))))))"

definition charge_call :: "'s env \<Rightarrow> model_result \<times> string \<Rightarrow> ('s, unit) op" where
  "charge_call env mo = then_op (budget_op env (\<lambda>r. charge_tokens r (usage_of (fst mo))))
     (budget_op env (\<lambda>r. charge_output r (snd mo)))"

definition opt_str :: "string option \<Rightarrow> pyval" where
  "opt_str v = (case v of None \<Rightarrow> PNone | Some t \<Rightarrow> PStr t)"

definition note_result :: "model_result \<Rightarrow> ('s, unit) op" where
  "note_result m = then_op (note_meta ''model_result'' (PDict [(''provider'', opt_str (mr_provider m)),
       (''model'', opt_str (mr_model m)),
       (''metadata'', PDict (map (\<lambda>(k, v). (k, PStr v)) (mr_metadata m)))]))
     (when_op (map_of (mr_metadata m) ''determinism'' = Some ''non_deterministic'')
       (note_meta ''non_deterministic'' (PDict [(''reason'', PStr ''live_model_provider'')])))"

text \<open>What one production gives: the output, the text findings are read from, and its origin.
  \<open>None\<close> when the run was stopped.\<close>

type_synonym produced = "string \<times> string \<times> string"

definition model_failed :: "'s env \<Rightarrow> string option \<Rightarrow> exc \<Rightarrow> ('s, produced option) op" where
  "model_failed env call e = bind_op get_ctl (\<lambda>s. then_op
     (if is_control e then control_stop e
      else then_op (end_call env call ''failed'' (rs_iteration (c_run s)) (PStr (exc_name e)))
        (failure_stop ''model_adapter'' e)) (ret None))"

definition produce_model :: "'s env \<Rightarrow> model_input \<Rightarrow> ('s, produced option) op" where
  "produce_model env inp = bind_op (make_call env inp) (\<lambda>(got, call). case got of
     Inl e \<Rightarrow> model_failed env call e
   | Inr mo \<Rightarrow> bind_op (attempt (charge_call env mo)) (\<lambda>paid. case paid of
       Inl e \<Rightarrow> model_failed env call e
     | Inr _ \<Rightarrow> then_op (note_result (fst mo)) (ret (Some (case mr_block (fst mo) of
         Some block \<Rightarrow> (snd mo, block, ''findings_block'')
       | None \<Rightarrow> (snd mo, snd mo, ''adapter_output''))))))"

definition produce_rules :: "'s env \<Rightarrow> model_input \<Rightarrow> ('s, produced option) op" where
  "produce_rules env inp = bind_op get_ctl (\<lambda>s.
     bind_op (lift_res (execute_plan_parts (mi_task inp) (mi_plan inp) (mi_observations inp)
       (mi_feedback inp) (rs_evidence (c_run s)))) (\<lambda>(out, src).
     bind_op (attempt (budget_op env (\<lambda>r. charge_output r out))) (\<lambda>paid. case paid of
       Inl e \<Rightarrow> then_op (control_stop e) (ret None)
     | Inr _ \<Rightarrow> ret (Some (out, src, ''producer_section'')))))"

definition last_of :: "'a list \<Rightarrow> 'a option" where
  "last_of xs = (if xs = [] then None else Some (last xs))"

text \<open>What follows a pass that was graded.\<close>

definition iterations_json :: "run_state \<Rightarrow> pyval" where
  "iterations_json r = PList [PInt (rs_iteration r - 1), PInt (rs_iteration r)]"

definition end_pass :: "stop_reason \<Rightarrow> ('s, flow) op" where
  "end_pass r = then_op (stop_op r) (ret Halt)"

definition identical_output :: "'s env \<Rightarrow> 's ctl \<Rightarrow> bool" where
  "identical_output env s \<longleftrightarrow> (let outs = rs_outputs (c_run s) in
     c_budget s \<noteq> None \<and> adapter env \<noteq> None \<and> 2 \<le> length outs
     \<and> last outs = last (butlast outs))"

definition repeated_failure :: "'s ctl \<Rightarrow> bool" where
  "repeated_failure s \<longleftrightarrow> (let evs = rs_evaluations (c_run s) in
     2 \<le> length evs \<and> same_failure (last evs) (last (butlast evs)))"

definition same_material :: "'s ctl \<Rightarrow> bool" where
  "same_material s \<longleftrightarrow> 2 \<le> length (c_materials s)
     \<and> last (c_materials s) = last (butlast (c_materials s))"

definition action_kind :: "evaluation \<Rightarrow> pyval" where
  "action_kind ev = opt_str (map_option na_kind (av_next_action ev))"

definition decide :: "'s env \<Rightarrow> evaluation \<Rightarrow> ('s, flow) op" where
  "decide env ev = bind_op get_ctl (\<lambda>s. let r = c_run s in
     if identical_output env s \<and> av_retry_is_possible ev \<and> av_blocked_by ev = [] then
       then_op (note_meta ''no_progress'' (PDict [(''reason'', PStr ''identical_model_output''),
         (''iterations'', iterations_json r)])) (end_pass NoProgress)
     else if repeated_failure s \<and> av_retry_is_possible ev \<and> av_blocked_by ev = [] then
       then_op (note_meta ''no_progress'' (PDict [(''reason'', PStr ''unchanged_feedback''),
         (''iterations'', iterations_json r), (''action'', action_kind ev),
         (''material'', PStr (if same_material s then ''unchanged'' else ''changed''))]))
       (end_pass NoProgress)
     else if av_requires_approval ev \<or> av_passed ev \<or> \<not> av_should_retry ev then
       end_pass (classify_stop (av_passed ev) (av_requires_approval ev) (av_blocked_by ev)
         (av_evidence_gaps ev) (av_retry_is_possible ev) (rs_iteration r < rs_max_iterations r))
     else then_op (move (enter Replanning)) (ret Again))"

text \<open>The action asks for material that nothing brought.\<close>

definition no_new_material :: "evaluation \<Rightarrow> ('s, next_action option) op" where
  "no_new_material ev = (case av_next_action ev of
     None \<Rightarrow> ret None
   | Some a \<Rightarrow> bind_op (lift_res (retry_class (na_kind a))) (\<lambda>k.
       ret (if k = ''investigation'' \<and> \<not> av_passed ev \<and> \<not> av_requires_approval ev
         then Some a else None)))"

definition settle :: "'s env \<Rightarrow> evaluation \<Rightarrow> drift_report option \<Rightarrow> ('s, flow) op" where
  "settle env ev report = (case report of
     Some r \<Rightarrow> then_op (stop_for_drift r) (ret Halt)
   | None \<Rightarrow> bind_op (no_new_material ev) (\<lambda>a. case a of
       Some act \<Rightarrow> bind_op get_ctl (\<lambda>s. then_op (note_meta ''blocked'' (PDict
           [(''reason'', PStr ''no_new_material''), (''action'', PStr (na_kind act)),
            (''gap_codes'', pstrs (na_gap_codes act)), (''actor'', PStr (na_actor act)),
            (''iteration'', PInt (rs_iteration (c_run s))),
            (''observer_attached'', PBool (observer env \<noteq> None))])) (end_pass Blocked))
     | None \<Rightarrow> decide env ev))"

definition wants_reading :: "'s env \<Rightarrow> evaluation \<Rightarrow> drift_report option \<Rightarrow> 's ctl \<Rightarrow> bool" where
  "wants_reading env ev report s \<longleftrightarrow> observer env \<noteq> None \<and> rs_evidence (c_run s) \<noteq> None
     \<and> \<not> av_passed ev \<and> \<not> av_requires_approval ev
     \<and> rs_iteration (c_run s) < rs_max_iterations (c_run s)
     \<and> (report \<noteq> None \<or> map_option na_kind (av_next_action ev) = Some ''observe_again'')"

definition after_grading ::
  "'s env \<Rightarrow> (string \<times> string) list list \<Rightarrow> review_plan option \<Rightarrow> evaluation \<Rightarrow> drift_report option
     \<Rightarrow> ('s, flow) op" where
  "after_grading env recorded review ev report = bind_op get_ctl (\<lambda>s.
     if wants_reading env ev report s then
       bind_op (read_again env recorded ev report review) (\<lambda>o'. case o' of
         RStopped \<Rightarrow> ret Halt
       | RNew \<Rightarrow> then_op (move (enter Replanning)) (ret Again)
       | RNothing \<Rightarrow> settle env ev report)
     else settle env ev report)"

fun verdict_name :: "verdict \<Rightarrow> string" where
  "verdict_name VVerified = ''verified''"
| "verdict_name VContradicted = ''contradicted''"
| "verdict_name VInsufficient = ''insufficient_evidence''"

definition verdict_counts :: "evaluation \<Rightarrow> dict" where
  "verdict_counts ev = (let vs = map (verdict_name \<circ> cr_verdict) (av_citation_checks ev) in
     map (\<lambda>v. (v, PInt (int (count_list vs v)))) (sorted_set vs))"

definition decision_payload :: "evaluation \<Rightarrow> dict" where
  "decision_payload ev = [(''passed'', PBool (av_passed ev)), (''unmet_criteria'', pstrs (av_unmet ev)),
     (''evidence_gaps'', pstrs (av_evidence_gaps ev)), (''next_action'', action_kind ev),
     (''requires_user_approval'', PBool (av_requires_approval ev)),
     (''citation_verdicts'', PDict (verdict_counts ev))]"

definition schema_sent :: "dict \<Rightarrow> bool" where
  "schema_sent md = (case get_or md ''model_result'' (PDict []) of
     PDict m \<Rightarrow> (case get_or m ''metadata'' (PDict []) of
         PDict d \<Rightarrow> get_or d ''output_schema_sent'' PNone = PStr ''true'' | _ \<Rightarrow> False)
   | _ \<Rightarrow> False)"

definition grading_input :: "'s ctl \<Rightarrow> string \<Rightarrow> route \<Rightarrow> plan \<Rightarrow> string \<Rightarrow> string \<Rightarrow> eval_input" where
  "grading_input s task route plan out src = \<lparr>ei_task = task, ei_output = out,
     ei_focus = pl_validation_focus plan, ei_iteration = rs_iteration (c_run s),
     ei_max_iterations = rs_max_iterations (c_run s), ei_route = rte_name route,
     ei_observations = rs_observations (c_run s), ei_base = rs_evidence (c_run s),
     ei_review = pl_review plan, ei_resolved = resolved_patterns s,
     ei_block_required = schema_sent (rs_metadata (c_run s)), ei_findings_source = src\<rparr>"

definition grade_pass ::
  "'s env \<Rightarrow> (string \<times> string) list list \<Rightarrow> string \<Rightarrow> route \<Rightarrow> plan \<Rightarrow> string \<Rightarrow> string \<Rightarrow> ('s, flow) op" where
  "grade_pass env recorded task route plan out src = bind_op tick_op (\<lambda>t. bind_op get_ctl (\<lambda>s.
     bind_op (lift_res (evaluate (host_at env t) (json_loads env)
       (grading_input s task route plan out src))) (\<lambda>ev.
     then_op (upd_run (\<lambda>r. r\<lparr>rs_evaluations := rs_evaluations r @ [ev]\<rparr>))
     (then_op (log_fact env ''decision_recorded'' (rs_iteration (c_run s)) (decision_payload ev))
     (then_op (upd_ctl (\<lambda>s. s\<lparr>c_materials := c_materials s @ [material_signature (c_run s)]\<rparr>))
     (go (expired env) (bind_op (find_drift env) (after_grading env recorded (pl_review plan) ev))))))))"

definition record_output :: "string \<Rightarrow> string \<Rightarrow> ('s, unit) op" where
  "record_output out origin = upd_run (\<lambda>r. r\<lparr>rs_outputs := rs_outputs r @ [out],
     rs_metadata := dict_set ''findings_sources'' (PList (listed (rs_metadata r) ''findings_sources'' @
       [PDict [(''iteration'', PInt (rs_iteration r)), (''source'', PStr origin)]])) (rs_metadata r)\<rparr>)"

definition execute_pass ::
  "'s env \<Rightarrow> (string \<times> string) list list \<Rightarrow> string \<Rightarrow> route \<Rightarrow> plan \<Rightarrow> ('s, flow) op" where
  "execute_pass env recorded task route plan = go (expired env) (bind_op get_ctl (\<lambda>s.
     let inp = \<lparr>mi_task = task, mi_route = route, mi_plan = plan,
           mi_observations = rs_observations (c_run s),
           mi_feedback = last_of (rs_evaluations (c_run s))\<rparr> in
     bind_op (if adapter env \<noteq> None then produce_model env inp else produce_rules env inp) (\<lambda>p. case p of
       None \<Rightarrow> ret Halt
     | Some (out, src, origin) \<Rightarrow> then_op (record_output out origin)
         (then_op (move (enter Evaluating))
         (go (expired env) (grade_pass env recorded task route plan out src))))))"

definition plan_payload :: "route \<Rightarrow> plan \<Rightarrow> dict" where
  "plan_payload route plan = [(''route'', PStr (rte_name route)), (''steps'', pstrs (pl_steps plan)),
     (''question'', opt_str (map_option rp_question (pl_review plan)))]"

definition one_pass :: "'s env \<Rightarrow> (string \<times> string) list list \<Rightarrow> string \<Rightarrow> ('s, flow) op" where
  "one_pass env recorded task = go (expired env)
     (then_op (upd_run (\<lambda>r. r\<lparr>rs_iteration := rs_iteration r + 1\<rparr>))
     (then_op (move (enter Routing))
     (then_op (upd_run (\<lambda>r. r\<lparr>rs_route := Some (select_route task)\<rparr>))
     (then_op (move (enter Planning)) (bind_op get_ctl (\<lambda>s.
     bind_op (lift_res (build_plan task (select_route task)
       (map_option (snap_id \<circ> base_snapshot) (rs_evidence (c_run s))))) (\<lambda>plan.
     then_op (upd_run (\<lambda>r. r\<lparr>rs_plan := Some plan\<rparr>))
     (then_op (log_fact env ''plan_selected'' (rs_iteration (c_run s))
       (plan_payload (select_route task) plan))
     (then_op (move (enter Executing))
       (execute_pass env recorded task (select_route task) plan))))))))))"

subsection \<open>The run\<close>

text \<open>The loop with a bound on its passes; \<open>nat max_iterations\<close> is enough.\<close>

fun run_loop :: "nat \<Rightarrow> 's env \<Rightarrow> (string \<times> string) list list \<Rightarrow> string \<Rightarrow> ('s, unit) op" where
  "run_loop 0 env recorded task = ret ()"
| "run_loop (Suc n) env recorded task = bind_op get_ctl (\<lambda>s.
     if rs_iteration (c_run s) < rs_max_iterations (c_run s) then
       bind_op (one_pass env recorded task) (\<lambda>f. case f of
         Halt \<Rightarrow> ret () | Again \<Rightarrow> run_loop n env recorded task)
     else ret ())"

definition usage_json :: "budget \<Rightarrow> pyval" where
  "usage_json b = PDict [(''model_calls'', PInt (model_calls b)), (''tool_calls'', PInt (tool_calls b)),
     (''tokens'', PInt (tokens b)), (''output_bytes'', PInt (output_bytes b))]"

definition note_usage :: "('s, unit) op" where
  "note_usage = bind_op get_ctl (\<lambda>s. case c_budget s of None \<Rightarrow> ret ()
     | Some b \<Rightarrow> note_meta ''budget_usage'' (usage_json b))"

definition stopped :: "'s env \<Rightarrow> ('s, unit) op" where
  "stopped env = bind_op get_ctl (\<lambda>s. let r = c_run s in
     log_fact env ''run_stopped'' (rs_iteration r)
       [(''stop_reason'', opt_str (map_option reason_name (rs_stop_reason r))),
        (''stop_class'', opt_str (map_option (class_name \<circ> spec_class \<circ> spec_of) (rs_stop_reason r))),
        (''status'', PStr (status_name (rs_status r))),
        (''usage'', case c_budget s of None \<Rightarrow> PNone | Some b \<Rightarrow> usage_json b)])"

definition read_one :: "'s env \<Rightarrow> string \<Rightarrow> (nat \<Rightarrow> string \<Rightarrow> budget \<Rightarrow> pyval result \<times> budget) \<Rightarrow> ('s, unit) op" where
  "read_one env task rd = then_op (check_budget env) (bind_op tick_op (\<lambda>t. bind_op get_ctl (\<lambda>s.
     case c_budget s of None \<Rightarrow> fail (Foreign ''AssertionError'' []) | Some b \<Rightarrow>
     (case rd t task b of (v, b') \<Rightarrow> then_op (upd_ctl (\<lambda>s. s\<lparr>c_budget := Some b'\<rparr>))
       (bind_op (lift_res v) (\<lambda>v. case v of
          PList xs \<Rightarrow> if list_all is_str xs then
              then_op (budget_op env (\<lambda>r. charge_output r (join [LF] (map str_val xs))))
                (upd_run (\<lambda>r. r\<lparr>rs_observations := rs_observations r @ map str_val xs\<rparr>))
            else fail TypeError
        | _ \<Rightarrow> fail TypeError))))))"

text \<open>Whether the readers ended the run.\<close>

definition read_sources :: "'s env \<Rightarrow> string \<Rightarrow> ('s, bool) op" where
  "read_sources env task = bind_op (attempt (each_op (read_one env task) (readers env))) (\<lambda>r. case r of
     Inr _ \<Rightarrow> ret False
   | Inl e \<Rightarrow> then_op (if is_control e then control_stop e else failure_stop ''observer'' e) (ret True))"

definition read_memory :: "'s env \<Rightarrow> string \<Rightarrow> ('s, unit) op" where
  "read_memory env task = bind_op get_ctl (\<lambda>s. case memory_reader env of
     None \<Rightarrow> ret ()
   | Some rd \<Rightarrow> if c_budget s = None then bind_op (lift_res (rd task)) (\<lambda>xs.
         upd_run (\<lambda>r. r\<lparr>rs_observations := rs_observations r @ xs\<rparr>))
       else note_meta ''memory_read_skipped'' (PStr ''budgeted_run_has_no_metered_memory_reader''))"

definition first_read :: "'s env \<Rightarrow> (string \<times> string) list list \<Rightarrow> string \<Rightarrow> bool \<Rightarrow> ('s, bool) op" where
  "first_read env recorded task wanted = bind_op get_ctl (\<lambda>s. case rs_evidence (c_run s) of
     None \<Rightarrow> ret False
   | Some b \<Rightarrow>
     if \<not> wanted \<or> observer env = None \<or> \<not> is_empty b then ret False
     else bind_op (lift_res (build_plan task (select_route task) (Some (snap_id (base_snapshot b)))))
       (\<lambda>plan. let patterns = (case pl_review plan of None \<Rightarrow> [] | Some rp \<Rightarrow> rp_patterns rp) in
        bind_op (lift_res (request_from (base_snapshot b) [] [] [] 0 patterns [] True
          (question_of (pl_review plan)))) (\<lambda>q.
        bind_op (observe_round env recorded q patterns) (\<lambda>o'. ret (o' = RStopped)))))"

definition memory_candidate :: "(real \<Rightarrow> string) \<Rightarrow> string \<Rightarrow> string \<Rightarrow> string \<Rightarrow> string \<Rightarrow> real \<Rightarrow> dict" where
  "memory_candidate ft at' task route out score =
     [(''schema'', PStr ''atlas-memory-candidate.v1''), (''created_at'', PStr at'), (''task'', PStr task),
      (''route'', PStr route), (''quality_score'', PFloat (Fin score) (ft score)),
      (''summary'', PStr (take 800 (strip out))), (''verified'', PBool (78 / 100 \<le> score)),
      (''public_safe'', PBool True)]"

definition remember :: "'s env \<Rightarrow> ('s, unit) op" where
  "remember env = bind_op tick_op (\<lambda>t. bind_op get_ctl (\<lambda>s. let r = c_run s in
     if c_budget s \<noteq> None \<or> rs_evaluations r = [] \<or> rs_stop_reason r \<noteq> Some Passed then ret ()
     else (let cand = memory_candidate (float_text env) (stamp_at env t) (rs_task r)
             (case rs_route r of None \<Rightarrow> unknown | Some x \<Rightarrow> rte_name x)
             (case rs_outputs r of [] \<Rightarrow> [] | _ \<Rightarrow> last (rs_outputs r)) (av_score (last (rs_evaluations r)))
       in bind_op (lift_res (memory_writer env cand)) (\<lambda>saved.
          let cand' = (case saved of None \<Rightarrow> cand
            | Some p \<Rightarrow> if p = [] then cand else dict_set ''saved_path'' (PStr p) cand) in
          upd_run (\<lambda>r. r\<lparr>rs_memory_candidates := rs_memory_candidates r @ [cand']\<rparr>)))))"

definition finish_run :: "'s env \<Rightarrow> ('s, unit) op" where
  "finish_run env = bind_op get_ctl (\<lambda>s.
     then_op (when_op (rs_stop_reason (c_run s) = None) (stop_op MaxIterations))
     (then_op note_usage
     (then_op (when_op (c_budget s \<noteq> None)
        (note_meta ''memory_skipped'' (PStr ''budgeted_run_has_no_metered_memory_writer'')))
     (then_op (remember env) (stopped env)))))"

definition run_body :: "'s env \<Rightarrow> (string \<times> string) list list \<Rightarrow> 's run_args \<Rightarrow> ('s, unit) op" where
  "run_body env recorded a = (let task = ra_task a; leave = then_op note_usage (stopped env) in
     then_op (move (enter Observing))
     (then_op (upd_run (\<lambda>r. r\<lparr>rs_observations := rs_observations r @ ra_observations a,
         rs_evidence := ra_evidence a\<rparr>))
     (bind_op (read_sources env task) (\<lambda>x. if x then leave else
     then_op (read_memory env task)
     (then_op (case safety_notice task of None \<Rightarrow> ret ()
        | Some n \<Rightarrow> if n = [] then ret () else note_meta ''safety_notice'' (PStr n))
     (bind_op (expired env) (\<lambda>x. if x then leave else
      bind_op (first_read env recorded task (ra_read_first a)) (\<lambda>x. if x then leave else
      then_op (run_loop (nat (ra_max a)) env recorded task) (finish_run env)))))))))"

subsection \<open>Opening a run\<close>

definition evidence_identity :: "(string \<Rightarrow> string) \<Rightarrow> evidence_base option \<Rightarrow> pyval \<times> pyval" where
  "evidence_identity f e = (case e of
     None \<Rightarrow> (PNone, PNone)
   | Some b \<Rightarrow> (PStr (snap_id (base_snapshot b)), PStr (digest f (PDict
       [(''snapshot_id'', PStr (snap_id (base_snapshot b))),
        (''observations'', PList (map (\<lambda>(i, h, _). PList [PStr i, PStr h])
          (foldr insert_key (map (\<lambda>o'. (source_id o', content_sha256 o', 0, 0)) (base_observations b)) [])))]))))"

definition started_payload :: "'s env \<Rightarrow> 's run_args \<Rightarrow> dict" where
  "started_payload env a = [(''task_sha256'', PStr (digest (hash env) (PStr (ra_task a)))),
     (''max_iterations'', PInt (ra_max a)),
     (''observations_sha256'', PStr (digest (hash env) (pstrs (ra_observations a)))),
     (''snapshot_id'', fst (evidence_identity (hash env) (ra_evidence a))),
     (''evidence_sha256'', snd (evidence_identity (hash env) (ra_evidence a)))]"

definition open_log :: "'s env \<Rightarrow> 's run_args \<Rightarrow> ('s, unit) op" where
  "open_log env a = (case ra_sink a of
     None \<Rightarrow> ret ()
   | Some sink \<Rightarrow> bind_op (lift_res (mk_log (ra_run_id a) (Some sink)
         (case ra_previous a of None \<Rightarrow> [] | Some rs \<Rightarrow> rs))) (\<lambda>l.
       then_op (upd_ctl (\<lambda>s. s\<lparr>c_log := Some l\<rparr>))
       (case ra_previous a of
          None \<Rightarrow> log_fact env ''run_started'' 0 (started_payload env a)
        | Some rs \<Rightarrow> bind_op (lift_res (unfinished_calls rs)) (\<lambda>un.
            then_op (log_fact env ''interrupted'' 0 [(''unfinished_calls'', pstrs un),
              (''detected_after_sequence'', PInt (int (length rs) - 1))])
            (log_fact env ''resumed'' 0 [(''replay'', PStr ''read_only_from_start''),
              (''snapshot_id'', fst (evidence_identity (hash env) (ra_evidence a)))])))))"

definition recorded_rounds :: "dict list option \<Rightarrow> (string \<times> string) list list" where
  "recorded_rounds prev = (case prev of None \<Rightarrow> [] | Some rs \<Rightarrow> List.map_filter (\<lambda>r.
     if get_or r ''kind'' PNone = PStr ''observation_recorded'' then
       (case get_or r ''payload'' PNone of PDict p \<Rightarrow> Some (logged_round_material p) | _ \<Rightarrow> None)
     else None) rs)"

definition fresh_ctl :: "'s run_args \<Rightarrow> 's ctl" where
  "fresh_ctl a = \<lparr>c_run = new_run (ra_task a) (ra_run_id a) (ra_max a), c_budget = None, c_log = None,
     c_tick = 0, c_rounds = [], c_materials = []\<rparr>"

definition unmetered :: "'s env \<Rightarrow> 's run_args \<Rightarrow> bool" where
  "unmetered env a \<longleftrightarrow> ra_limits a = None \<and> (tools env \<or> readers env \<noteq> [] \<or> observer env \<noteq> None)"

definition run_all :: "'s env \<Rightarrow> 's run_args \<Rightarrow> unit result \<times> 's ctl" where
  "run_all env a =
     (if ra_max a < 1 then (Inl ValueError, fresh_ctl a)
      else if unmetered env a then (Inl ValueError, fresh_ctl a)
      else then_op (open_log env a)
        (then_op (case ra_limits a of None \<Rightarrow> ret ()
           | Some l \<Rightarrow> bind_op tick_op (\<lambda>t. upd_ctl (\<lambda>s. s\<lparr>c_budget := Some (mk_budget l (now (reading_at env t)))\<rparr>)))
        (run_body env (recorded_rounds (ra_previous a)) a)) (fresh_ctl a))"

end
