(* ===== verification/Grading.thy ===== *)
theory Grading
  imports Evaluator
begin

section \<open>What an evaluation guarantees\<close>

text \<open>
  Lemmas on the grading of \<open>Evaluator\<close>, in the order of the code (citations, claims, records,
  gaps, criteria), and the properties of \<open>evaluate\<close>: what a pass rests on, what a run that
  did not pass is told, and which retries are offered.
\<close>

subsection \<open>The deterministic path\<close>

lemma check_entries_fst:
  "check_entries h b es = Inr cs \<Longrightarrow> map fst cs = es"
  by (induction es arbitrary: cs) (auto simp: check_entries_def bind_res_Inr)

lemma settle_entries_keeps:
  "settle_entries h b es d = Inr d' \<Longrightarrow> map_of d k \<noteq> None \<Longrightarrow> map_of d' k \<noteq> None"
proof (induction h b es d rule: settle_entries.induct)
  case (2 h b e c rest d)
  then show ?case by (auto simp: bind_res_Inr split: if_splits)
qed simp

lemma settle_entries_sound:
  "settle_entries h b es d = Inr d' \<Longrightarrow> (e, c) \<in> set es \<Longrightarrow> citations_are_sound c
     \<Longrightarrow> map_of d' (finding_id (fst e)) \<noteq> None"
proof (induction h b es d rule: settle_entries.induct)
  case (2 h b e' c' rest d)
  then show ?case
    by (auto simp: bind_res_Inr split: if_splits dest: settle_entries_keeps
        [where k = "finding_id (fst e')"])
qed simp

lemma part_Nil [simp]: "part g xs = [] \<longleftrightarrow> xs = []"
  by (simp add: part_def)

lemma set_part [simp]: "set (part g xs) = (if xs = [] then {} else {g})"
  by (simp add: part_def)

text \<open>A grade without gaps leaves no finding uncited, unsound, refuted or open.\<close>

lemma grade_checked_clean:
  assumes "gr_gaps (grade_checked ct unc checks d recs) = []"
  shows "unc = []"
    and "(f, c) \<in> set checks \<Longrightarrow> citations_are_sound c"
    and "(f, c) \<in> set checks \<Longrightarrow> map_of d (finding_id f) = Some v \<Longrightarrow> cv_result v = CRVerified"
    and "gr_checks (grade_checked ct unc checks d recs) = recs"
    and "gr_unverified (grade_checked ct unc checks d recs) = []"
proof -
  from assms have clean: "unc = [] \<and> filter (\<lambda>p. \<not> citations_are_sound (snd p)) checks = []
      \<and> filter (has_result d CRContradicted) (map fst checks) = []
      \<and> filter (has_result d ClaimTextMismatch) (map fst checks) = []
      \<and> filter (unsettled d) checks = []"
    by (auto simp: grade_checked_def Let_def split: if_splits)
  then show "unc = []" by blast
  show snd: "citations_are_sound c" if "(f, c) \<in> set checks"
    using clean that by (auto simp: filter_empty_conv)
  show "cv_result v = CRVerified" if "(f, c) \<in> set checks" "map_of d (finding_id f) = Some v"
  proof -
    from clean that(1) have "\<not> has_result d CRContradicted f" "\<not> unsettled d (f, c)"
        "\<not> has_result d ClaimTextMismatch f"
      by (auto simp: filter_empty_conv)
    with that snd [OF that(1)] show ?thesis
      by (auto simp: has_result_def unsettled_def is_decisive_iff)
  qed
  show "gr_checks (grade_checked ct unc checks d recs) = recs"
    by (simp add: grade_checked_def Let_def)
  show "gr_unverified (grade_checked ct unc checks d recs) = []"
    using clean by (simp add: grade_checked_def Let_def)
qed

lemma citation_record_Inr:
  assumes "citation_record_of f c v = Inr r"
  shows "cr_claim r = claim f \<and> cr_sound r = citations_are_sound c \<and> cr_claim_check r = v
    \<and> cr_finding_id r = finding_id f
    \<and> (\<exists>g. (case v of Some cv \<Rightarrow> apply_verdict f c cv | None \<Rightarrow> apply_check c f) = Inr g
         \<and> cr_verdict r = verdict g)"
  using assms by (auto simp: citation_record_of_def bind_res_Inr split: if_splits)

lemma record_verified:
  assumes "citation_record_of f c (Some v) = Inr r" and "citations_are_sound c"
    and "cv_result v = CRVerified"
  shows "cr_verdict r = VVerified"
  using citation_record_Inr [OF assms(1)] apply_verdict_fields(1) assms(2,3)
  by (auto simp: is_decisive_iff)

subsection \<open>Shares\<close>

lemma rhe_int [simp]: "rhe (real_of_int k) = k"
  by (simp add: rhe_def)

lemma rhe_power [simp]: "rhe (2 ^ n) = 2 ^ n"
  using rhe_int [of "2 ^ n"] by simp

lemma round2_one [simp]: "round2 1 = 1"
  using rhe_int [of 100] by (simp add: round2_def)

lemma float_ratio_self:
  assumes "0 < n" shows "float_ratio (int n) n = 1"
proof -
  from assms obtain m where "n = Suc m" by (cases n) auto
  then have "scale n (nat \<bar>int n\<bar>) n = 0" by simp
  with assms show ?thesis by (simp add: float_ratio_def Let_def)
qed

lemma grade_checked_coverage:
  assumes "gr_gaps (grade_checked ct unc checks d recs) = []" and "checks \<noteq> [] \<or> unc \<noteq> []"
  shows "gr_coverage (grade_checked ct unc checks d recs) = Some 1"
proof -
  from assms(1) have "unc = [] \<and> filter (\<lambda>p. \<not> citations_are_sound (snd p)) checks = []
      \<and> filter (has_result d CRContradicted) (map fst checks) = []
      \<and> filter (has_result d ClaimTextMismatch) (map fst checks) = []
      \<and> filter (unsettled d) checks = []"
    by (auto simp: grade_checked_def Let_def split: if_splits)
  moreover from this assms(2) have "0 < length checks" by auto
  ultimately show ?thesis by (simp add: grade_checked_def Let_def float_ratio_self)
qed

subsection \<open>Both paths\<close>

lemma against_evidence_settled:
  assumes grade: "grade_against_evidence h loads ct output b required src = Inr g"
    and clean: "gr_gaps g = []" and contract: "re_requires_claim_check ct"
  shows "\<forall>r \<in> set (gr_checks g). cr_verdict r = VVerified \<and> cr_sound r"
    and "\<forall>x \<in> set (findings_in output (re_finding_headings ct)). \<exists>r \<in> set (gr_checks g). cr_claim r = x"
    and "gr_unverified g = []" and "gr_checks g \<noteq> [] \<Longrightarrow> gr_coverage g = Some 1"
proof -
  let ?prose = "findings_in output (re_finding_headings ct)"
  from grade clean obtain parsed checked verdicts where
    parsed: "structured_findings (sha h) loads src = Inr parsed"
    and checked: "check_entries h b (entries parsed) = Inr checked"
    and verdicts: "settle_entries h b checked [] = Inr verdicts"
    by (auto simp: grade_against_evidence_def simple_grade_def missing_block_def bind_res_Inr
        contract Let_def split: if_splits)
  define unc where "unc = filter (\<lambda>x. x \<notin> set (parsed_claims parsed)) ?prose"
  define pairs where "pairs = map (\<lambda>(e, c). (fst e, c)) checked"
  have claims: "set (parsed_claims parsed) = (\<lambda>(e, c). claim (fst e)) ` set checked"
    by (force simp: parsed_claims_def parsed_list_def simp flip: check_entries_fst [OF checked])
  have "(\<forall>r \<in> set (gr_checks g). cr_verdict r = VVerified \<and> cr_sound r)
    \<and> (\<forall>x \<in> set ?prose. \<exists>r \<in> set (gr_checks g). cr_claim r = x)
    \<and> gr_unverified g = [] \<and> (gr_checks g \<noteq> [] \<longrightarrow> gr_coverage g = Some 1)"
  proof (cases "checked = [] \<and> unc = []")
    case True
    with grade clean parsed checked verdicts contract have
      "gr_checks g = []" "gr_unverified g = []"
      by (auto simp: grade_against_evidence_def simple_grade_def missing_block_def unc_def Let_def
          split: if_splits)
    moreover from True claims have "?prose = []"
      by (auto simp: unc_def filter_empty_conv)
    ultimately show ?thesis by simp
  next
    case False
    with grade clean parsed checked verdicts contract obtain records where
      records: "map_res (\<lambda>(e, c). citation_record_of (fst e) c
          (map_of verdicts (finding_id (fst e)))) checked = Inr records"
      and g: "g = grade_checked ct unc pairs verdicts records"
      by (auto simp: grade_against_evidence_def simple_grade_def missing_block_def unc_def
          pairs_def bind_res_Inr Let_def split: if_splits)
    note clear = grade_checked_clean [OF clean [unfolded g]]
    have each: "cr_verdict r = VVerified \<and> cr_sound r \<and> cr_claim r = claim (fst e)"
      if "(e, c) \<in> set checked"
        "citation_record_of (fst e) c (map_of verdicts (finding_id (fst e))) = Inr r" for e c r
    proof -
      from that(1) have pair: "(fst e, c) \<in> set pairs" by (force simp: pairs_def)
      from settle_entries_sound [OF verdicts that(1)] clear(2) [OF pair] obtain v where
        v: "map_of verdicts (finding_id (fst e)) = Some v" by auto
      from that(2) v have rec: "citation_record_of (fst e) c (Some v) = Inr r" by simp
      from record_verified [OF rec clear(2) [OF pair] clear(3) [OF pair v]]
        citation_record_Inr [OF rec] clear(2) [OF pair]
      show ?thesis by simp
    qed
    have settled: "cr_verdict r = VVerified \<and> cr_sound r" if "r \<in> set records" for r
      using map_res_set [OF records that] each by auto
    have "\<exists>r \<in> set records. cr_claim r = x" if "x \<in> set ?prose" for x
    proof -
      from that clear(1) have "x \<in> set (parsed_claims parsed)"
        by (auto simp: unc_def filter_empty_conv)
      then obtain e c where ec: "(e, c) \<in> set checked" "claim (fst e) = x"
        unfolding claims by auto
      from map_res_mem [OF records ec(1)] each [OF ec(1)] ec(2) show ?thesis by auto
    qed
    moreover have checks: "gr_checks g = records" and none: "gr_unverified g = []"
      by (simp_all only: g clear(4,5))
    moreover from False have some: "pairs \<noteq> [] \<or> unc \<noteq> []" by (simp add: pairs_def)
    have "gr_coverage g = Some 1"
      unfolding g by (rule grade_checked_coverage [OF clean [unfolded g] some])
    ultimately show ?thesis using settled unfolding checks by blast
  qed
  then show "\<forall>r \<in> set (gr_checks g). cr_verdict r = VVerified \<and> cr_sound r"
    and "\<forall>x \<in> set ?prose. \<exists>r \<in> set (gr_checks g). cr_claim r = x"
    and "gr_unverified g = []" and "gr_checks g \<noteq> [] \<Longrightarrow> gr_coverage g = Some 1"
    by blast+
qed

lemma without_base_nothing_claimed:
  assumes "grade_evidence h loads (Some ct) output sources None required src = Inr g"
    and "gr_gaps g = []"
  shows "findings_in output (re_finding_headings ct) = [] \<and> gr_checks g = [] \<and> gr_unverified g = []"
  using assms by (auto simp: grade_evidence_def simple_grade_def missing_block_def bind_res_Inr
      Let_def split: if_splits)

subsection \<open>The next action\<close>

definition action_of :: "string list \<Rightarrow> next_action option result \<Rightarrow> string \<Rightarrow> bool" where
  "action_of codes r k \<longleftrightarrow> (\<exists>a. r = Inr (Some a) \<and> na_kind a = k \<and> action_ok a
     \<and> na_gap_codes a = codes \<and> (na_actor a = ''host'') = (k = ''observe_again''))"

lemma action_of_mk:
  assumes "codes \<noteq> []" and "k \<in> set next_action_kinds"
    and "actor = (if k = ''observe_again'' then ''host'' else ''producer'')"
  shows "action_of codes (bind_res (mk_action k codes actor d) (\<lambda>a. Inr (Some a))) k"
  using assms by (auto simp: action_of_def mk_action_def action_ok_def next_action_actors_def Let_def)

lemma action_if:
  assumes "c \<Longrightarrow> \<exists>k. action_of cs r k \<and> (p \<longrightarrow> k = x)"
    and "\<not> c \<Longrightarrow> \<exists>k. action_of cs r' k \<and> (p \<longrightarrow> k = x)"
  shows "\<exists>k. action_of cs (if c then r else r') k \<and> (p \<longrightarrow> k = x)"
  using assms by simp

lemma action_leaf:
  assumes "codes \<noteq> []" and "k \<in> set next_action_kinds"
    and "actor = (if k = ''observe_again'' then ''host'' else ''producer'')" and "p \<Longrightarrow> k = x"
  shows "\<exists>j. action_of codes (bind_res (mk_action k codes actor d) (\<lambda>a. Inr (Some a))) j \<and> (p \<longrightarrow> j = x)"
  using action_of_mk assms by blast

lemma next_action_kind:
  assumes "outstanding_codes gaps g waiting off \<noteq> []"
  shows "\<exists>k. action_of (outstanding_codes gaps g waiting off)
      (next_action_of gaps g sources base review waiting off) k
    \<and> (waiting \<noteq> [] \<or> ''claims_not_checked'' \<in> set (gr_gaps g) \<or> gr_blocked g \<noteq> []
        \<longrightarrow> k = ''observe_again'')"
  unfolding next_action_of_def Let_def if_not_P [OF assms]
  by (intro action_if action_leaf assms) (simp_all add: next_action_kinds_def)

lemma next_action_none:
  "outstanding_codes gaps g waiting off = [] \<Longrightarrow>
     next_action_of gaps g sources base review waiting off = Inr None"
  by (simp add: next_action_of_def)

subsection \<open>Evaluations\<close>

lemma evaluate_Inr:
  assumes "evaluate h loads i = Inr ev"
  obtains g action where "graded h loads i = Inr g" and "action_for i g = Inr action"
    and "ev = evaluation_of i g action"
  using assms by (auto simp: evaluate_def bind_res_Inr)

lemma evaluation_fields:
  "av_passed (evaluation_of i g a) = passes i g"
  "av_unmet (evaluation_of i g a) = unmet_codes i g"
  "av_met (evaluation_of i g a) =
     sorted_set (filter (\<lambda>c. c \<notin> set (unmet_codes i g)) (declared_codes i))"
  "av_requires_approval (evaluation_of i g a) = requires_write_approval (ei_task i)"
  "av_missing_sections (evaluation_of i g a) = missing_sections (ei_output i)"
  "av_retry_is_possible (evaluation_of i g a) = retry_possible i g"
  "av_should_retry (evaluation_of i g a) \<longleftrightarrow>
     retry_possible i g \<and> ei_iteration i < ei_max_iterations i"
  "av_adjustment (evaluation_of i g a) \<noteq> None \<longleftrightarrow> av_should_retry (evaluation_of i g a)"
  "av_next_action (evaluation_of i g a) = a"
  "av_evidence_gaps (evaluation_of i g a) = gap_codes_of i g"
  "av_unverified (evaluation_of i g a) = gr_unverified g"
  "av_coverage (evaluation_of i g a) = gr_coverage g"
  "av_citation_checks (evaluation_of i g a) = gr_checks g"
  "av_blocked_by (evaluation_of i g a) = gr_blocked g"
  by (simp_all add: evaluation_of_def Let_def)

lemma action_for_cases:
  "action_for i g = Inr None \<and> (passes i g \<or>
      outstanding_codes (missing_sections (ei_output i)) g (waiting_on i) (off_topic i g) = [])
   \<or> \<not> passes i g \<and> (\<exists>k. action_of
      (outstanding_codes (missing_sections (ei_output i)) g (waiting_on i) (off_topic i g))
      (action_for i g) k
      \<and> (waiting_on i \<noteq> [] \<or> ''claims_not_checked'' \<in> set (gr_gaps g) \<or> gr_blocked g \<noteq> []
        \<longrightarrow> k = ''observe_again''))"
proof (cases "passes i g")
  case True
  then show ?thesis by (simp add: action_for_def)
next
  case False
  then have "action_for i g = next_action_of (missing_sections (ei_output i)) g
      (observed_sources (ei_observations i)) (ei_base i) (ei_review i) (waiting_on i) (off_topic i g)"
    by (simp add: action_for_def)
  with False show ?thesis
    using next_action_kind next_action_none by metis
qed

lemma action_for_total: "\<exists>a. action_for i g = Inr a"
  using action_for_cases [of i g] by (auto simp: action_of_def)

lemma evaluate_Inl: "evaluate h loads i = Inl e \<longleftrightarrow> graded h loads i = Inl e"
  using action_for_total by (auto simp: evaluate_def bind_res_Inl) (metis Inl_Inr_False)

subsection \<open>Criteria\<close>

lemma repo_declares:
  assumes "ei_route i = ''repo_review''"
  shows "set (map fst repo_review_criteria) \<subseteq> set (declared_codes i)"
proof -
  have "route_criteria ''repo_review'' = repo_review_criteria"
    by (simp add: route_criteria_def exit_criteria_def)
  with assms show ?thesis
    by (auto simp: declared_codes_def criteria_for_def split: option.splits if_splits)
qed

lemma repo_criteria_codes: "map fst repo_review_criteria = [''plan_targets_read'',
    ''sources_documented'', ''findings_are_checkable'', ''citations_hold'', ''claims_are_settled'',
    ''recommendation'', ''next_step'', ''confidence'']"
  by (simp add: repo_review_criteria_def)

lemma gap_fails_criterion:
  "set (criteria_of_gap c) \<inter> set (map fst repo_review_criteria) \<noteq> {}
     \<or> c = ''no_on_topic_finding'' \<or> c = ''no_answering_finding''"
proof -
  have "list_all (\<lambda>(k, cs). list_ex (\<lambda>x. x \<in> set (map fst repo_review_criteria)) cs
      \<or> k = ''no_on_topic_finding'' \<or> k = ''no_answering_finding'') criterion_for_gap"
    unfolding repo_criteria_codes criterion_for_gap_def by simp
  moreover have "''claims_are_settled'' \<in> set (map fst repo_review_criteria)"
    unfolding repo_criteria_codes by simp
  ultimately show ?thesis
  proof (cases "map_of criterion_for_gap c")
    case None
    with \<open>''claims_are_settled'' \<in> _\<close> show ?thesis by (simp add: criteria_of_gap_def)
  next
    case (Some cs)
    with \<open>list_all _ criterion_for_gap\<close>
    have "list_ex (\<lambda>x. x \<in> set (map fst repo_review_criteria)) cs
        \<or> c = ''no_on_topic_finding'' \<or> c = ''no_answering_finding''"
      by (auto simp: list_all_iff dest!: map_of_SomeD)
    with Some show ?thesis by (auto simp: criteria_of_gap_def list_ex_iff)
  qed
qed

lemma relevance_gaps_declared:
  assumes "c \<in> set (gap_codes_of i g)" and "c \<notin> set (gr_gaps g)"
  shows "c = ''no_on_topic_finding'' \<Longrightarrow> ''findings_are_on_topic'' \<in> set (declared_codes i)"
    and "c = ''no_answering_finding'' \<Longrightarrow> ''findings_answer_the_question'' \<in> set (declared_codes i)"
  using assms by (auto simp: gap_codes_of_def Let_def split: if_splits)

lemma relevance_criteria:
  "criteria_of_gap ''no_on_topic_finding'' = [''findings_are_on_topic'', ''findings_answer_the_question'']"
  "criteria_of_gap ''no_answering_finding'' = [''findings_answer_the_question'']"
  by (simp_all add: criteria_of_gap_def criterion_for_gap_def)

lemma set_unmet: "set (unmet_codes i g) = set (declared_codes i) \<inter>
    ((if too_short i then {''substance''} else {})
     \<union> set (missing_sections (ei_output i)) \<inter> fst ` set required_sections
     \<union> (\<Union>c \<in> set (gap_codes_of i g). set (criteria_of_gap c)))"
  by (auto simp: unmet_codes_def)

text \<open>The grades of the evidence never use the two relevance codes themselves.\<close>

lemma part_codes: "set (part a xs) \<subseteq> {a}"
  by simp

definition evidence_codes :: "string list" where
  "evidence_codes = [''no_sources_observed'', ''sources_not_documented'', ''uncited_findings'',
     ''claims_not_checked'', ''malformed_findings'', ''uncheckable_findings'', ''unsound_citations'',
     ''contradicted_findings'', ''claim_text_mismatch'', ''unverified_findings'']"

lemma grade_checked_codes:
  "set (gr_gaps (grade_checked ct unc checks d recs)) \<subseteq> set evidence_codes"
  by (auto simp: grade_checked_def Let_def evidence_codes_def)

lemma simple_grade_fields [simp]:
  "gr_gaps (simple_grade gaps a) = gaps" "gr_checks (simple_grade gaps a) = []"
  "gr_unverified (simple_grade gaps a) = []" "gr_blocked (simple_grade gaps a) = []"
  "gr_actionable (simple_grade gaps a) = a" "gr_coverage (simple_grade gaps a) = None"
  by (simp_all add: simple_grade_def)

lemma against_evidence_gaps:
  "returns (grade_against_evidence h loads ct output b required src) (\<lambda>g.
     gr_gaps g \<in> {[], [''no_sources_observed''], [''malformed_findings''],
      [''sources_not_documented'']} \<or> (\<exists>unc checks d recs. g = grade_checked ct unc checks d recs))"
  unfolding grade_against_evidence_def Let_def missing_block_def
  by (intro returning) auto

lemma without_base_gaps:
  "returns (grade_evidence h loads ct output sources None required src) (\<lambda>g.
     gr_gaps g \<in> {[], [''no_sources_observed''], [''malformed_findings''],
      [''uncited_findings''], [''claims_not_checked''], [''sources_not_documented'']})"
  unfolding grade_evidence_def Let_def missing_block_def
  by (intro returning) auto

lemma graded_codes:
  assumes "graded h loads i = Inr g" shows "set (gr_gaps g) \<subseteq> set evidence_codes"
proof (cases "ei_base i")
  case None
  from returnsD [OF without_base_gaps assms [unfolded graded_def None]] show ?thesis
    by (auto simp: evidence_codes_def)
next
  case (Some b)
  show ?thesis
  proof (cases "map_of route_evaluators (ei_route i)")
    case None
    with assms show ?thesis by (auto simp: graded_def grade_evidence_def)
  next
    case (Some ct)
    with \<open>ei_base i = Some b\<close> assms
    have "grade_against_evidence h loads ct (ei_output i) b (ei_block_required i)
        (ei_findings_source i) = Inr g"
      by (simp add: graded_def grade_evidence_def)
    from returnsD [OF against_evidence_gaps this]
    consider "gr_gaps g \<in> {[], [''no_sources_observed''], [''malformed_findings''],
        [''sources_not_documented'']}"
      | unc checks d recs where "g = grade_checked ct unc checks d recs" by blast
    then show ?thesis
    proof cases
      case 1
      then show ?thesis by (auto simp: evidence_codes_def)
    next
      case 2
      show ?thesis unfolding 2 by (rule grade_checked_codes)
    qed
  qed
qed

lemma repo_gap_unmet:
  assumes "graded h loads i = Inr g" and "ei_route i = ''repo_review''"
    and "c \<in> set (gap_codes_of i g)"
  shows "unmet_codes i g \<noteq> []"
proof -
  have "\<exists>x \<in> set (criteria_of_gap c). x \<in> set (declared_codes i)"
  proof (cases "c = ''no_on_topic_finding'' \<or> c = ''no_answering_finding''")
    case True
    then have "c \<notin> set (gr_gaps g)"
      using graded_codes [OF assms(1)] by (auto simp: evidence_codes_def)
    from True relevance_gaps_declared [OF assms(3) this] show ?thesis
      by (auto simp: relevance_criteria)
  next
    case False
    with gap_fails_criterion [of c] repo_declares [OF assms(2)] show ?thesis by blast
  qed
  with assms(3) have "set (unmet_codes i g) \<noteq> {}" unfolding set_unmet by blast
  then show ?thesis by auto
qed

subsection \<open>Bounds of the score\<close>

lemma rhe_near: "\<bar>real_of_int (rhe x) - x\<bar> \<le> 1 / 2"
  unfolding rhe_def Let_def by (auto simp: abs_le_iff)

lemma rhe_nonneg: "0 \<le> x \<Longrightarrow> 0 \<le> rhe x"
  by (auto simp: rhe_def Let_def)

lemma float_ratio_near:
  assumes "0 < n" shows "\<bar>float_ratio (int k) n - real k / real n\<bar> \<le> 1 / 100"
proof (cases "k = 0")
  case True
  then show ?thesis by (simp add: float_ratio_def)
next
  case False
  define e where "e = 52 + scale n k n"
  have "\<bar>real_of_int (rhe (real k * 2 ^ e / real n)) - real k * 2 ^ e / real n\<bar> \<le> 1 / 2"
    by (rule rhe_near)
  then have "\<bar>real_of_int (rhe (real k * 2 ^ e / real n)) / 2 ^ e - real k / real n\<bar> \<le> 1 / 2 / 2 ^ e"
    by (simp add: abs_le_iff field_simps)
  also have "1 / 2 / 2 ^ e \<le> (1 :: real) / 100"
  proof -
    have "(2 :: real) ^ 52 \<le> 2 ^ e" by (rule power_increasing) (simp_all add: e_def)
    then show ?thesis by (simp add: field_simps)
  qed
  finally show ?thesis using False by (simp add: float_ratio_def e_def Let_def)
qed

lemma float_ratio_nonneg: "0 \<le> float_ratio (int k) n"
  by (simp add: float_ratio_def Let_def rhe_nonneg)

lemma share_bounds:
  assumes "0 < n" and "n \<le> 10" and "k \<le> n"
  shows "0 \<le> round2 (float_ratio (int k) n)" and "round2 (float_ratio (int k) n) \<le> 1"
    and "round2 (float_ratio (int k) n) = 1 \<longleftrightarrow> k = n"
proof -
  let ?x = "float_ratio (int k) n"
  show "0 \<le> round2 ?x" by (simp add: round2_def rhe_nonneg float_ratio_nonneg)
  have less: "round2 ?x < 1" if "k \<noteq> n"
  proof -
    from that assms have "real k / real n \<le> 9 / 10"
      by (simp add: field_simps)
    with float_ratio_near [OF assms(1), of k] have "?x \<le> 91 / 100"
      unfolding abs_le_iff by linarith
    with rhe_near [of "?x * 100"] have "real_of_int (rhe (?x * 100)) < 100"
      unfolding abs_le_iff by linarith
    then show ?thesis by (simp add: round2_def)
  qed
  show "round2 ?x \<le> 1" "round2 ?x = 1 \<longleftrightarrow> k = n"
    using less float_ratio_self [OF assms(1)] by (cases "k = n"; force)+
qed

lemma length_sorted_set: "length (sorted_set xs) = card (set xs)"
  by (metis distinct_card distinct_remdups set_sorted_set sorted_set_def)

lemma declared_count:
  "0 < card (set (declared_codes i)) \<and> card (set (declared_codes i)) \<le> 10 \<and> declared_codes i \<noteq> []"
proof -
  have "length (route_criteria r) \<le> 8 \<and> route_criteria r \<noteq> []" for r
    by (auto simp: route_criteria_def exit_criteria_def repo_review_criteria_def
        generic_criteria_def)
  from this [of "ei_route i"] have "length (declared_codes i) \<le> 10 \<and> declared_codes i \<noteq> []"
    by (auto simp: declared_codes_def criteria_for_def split: option.splits)
  then show ?thesis
    by (meson card_gt_0_iff card_length finite_set le_trans set_empty)
qed

lemma blocked_has_gaps:
  assumes "graded h loads i = Inr g" and "gr_blocked g \<noteq> []" shows "gr_gaps g \<noteq> []"
proof -
  have checked: "gr_blocked (grade_checked ct unc cs d rs) \<noteq> []
      \<Longrightarrow> gr_gaps (grade_checked ct unc cs d rs) \<noteq> []" for ct unc cs d rs
    by (simp add: grade_checked_def Let_def split: if_splits)
  have "returns (grade_against_evidence h loads ct out b req src)
      (\<lambda>g. gr_blocked g \<noteq> [] \<longrightarrow> gr_gaps g \<noteq> [])" for ct out b req src
    unfolding grade_against_evidence_def Let_def missing_block_def
    by (intro returning) (auto dest: checked)
  then have "returns (graded h loads i) (\<lambda>g. gr_blocked g \<noteq> [] \<longrightarrow> gr_gaps g \<noteq> [])"
    unfolding graded_def grade_evidence_def Let_def missing_block_def
    by (intro returning) auto
  with assms show ?thesis by (auto dest: returnsD)
qed

subsection \<open>A sample\<close>

definition sample_output :: string where
  "sample_output = ''## Observed sources'' @ [LF] @ ''- `README.md`'' @ [LF] @ ''## Recommendation'' @
     [LF] @ ''x'' @ [LF] @ ''## Next step'' @ [LF] @ ''x'' @ [LF] @ ''## Confidence'' @ [LF] @ ''x''"

definition sample_input :: eval_input where
  "sample_input = \<lparr>ei_task = ''look'', ei_output = sample_output, ei_focus = [], ei_iteration = 1,
     ei_max_iterations = 2, ei_route = ''repo_review'', ei_observations = [''README.md:'' @ [LF] @ ''text''],
     ei_base = None, ei_review = None, ei_resolved = [], ei_block_required = False,
     ei_findings_source = []\<rparr>"

definition sample_grade :: grade where
  "sample_grade = (simple_grade [] False)\<lparr>gr_reasons :=
     [''Output records the sources it read and asserts no finding of its own.'']\<rparr>"

lemma sample_graded: "graded h loads sample_input = Inr sample_grade"
proof -
  have "observed_sources (ei_observations sample_input) \<noteq> []" by code_simp
  moreover have "findings_in sample_output [''## Findings'', ''## Verified findings''] = []"
    by code_simp
  moreover have "contains sample_output ''## Observed sources''" by code_simp
  ultimately show ?thesis
    by (simp add: graded_def grade_evidence_def route_evaluators_def sample_input_def
        sample_grade_def Let_def)
qed

lemma sample_passes: "passes sample_input sample_grade"
  by code_simp

lemma sample_evaluated:
  "evaluate h loads sample_input = Inr (evaluation_of sample_input sample_grade None)"
  using sample_graded sample_passes by (simp add: evaluate_def action_for_def)

lemma sample_passed: "av_passed (evaluation_of sample_input sample_grade None)"
  using sample_passes by (simp add: evaluation_fields)

section \<open>Properties\<close>

text \<open>C10. A pass rests on settled claims: a review of a repository that passes asserts nothing
  that was not settled. Every finding the output states under a findings heading is the claim
  of a record whose citations hold and whose verdict is verified, every record the evaluation
  carries is of that kind, nothing is left unverified and no gap is open, every source the plan
  named was read, every required section is present, and no write was asked for.\<close>

theorem pass_rests_on_settled_claims:
  assumes "evaluate h loads i = Inr ev" and "av_passed ev" and "ei_route i = ''repo_review''"
  shows "(\<forall>r \<in> set (av_citation_checks ev). cr_verdict r = VVerified \<and> cr_sound r)
    \<and> (\<forall>x \<in> set (findings_in (ei_output i) [''## Findings'', ''## Verified findings'']).
         \<exists>r \<in> set (av_citation_checks ev). cr_claim r = x)
    \<and> av_unverified ev = [] \<and> av_evidence_gaps ev = [] \<and> waiting_on i = []
    \<and> (av_citation_checks ev = [] \<or> av_coverage ev = Some 1)
    \<and> missing_sections (ei_output i) = [] \<and> \<not> requires_write_approval (ei_task i)"
proof -
  obtain g a where g: "graded h loads i = Inr g" and ev: "ev = evaluation_of i g a"
    using evaluate_Inr [OF assms(1)] by metis
  from assms(2) have pass: "passes i g" by (simp add: ev evaluation_fields)
  then have none: "gap_codes_of i g = []"
    using repo_gap_unmet [OF g assms(3)] by (metis list.set_intros(1) neq_Nil_conv passes_def)
  then have clean: "gr_gaps g = []" and read: "waiting_on i = []"
    by (auto simp: gap_codes_of_def Let_def split: if_splits)
  have sections: "missing_sections (ei_output i) = []"
  proof -
    have "set (missing_sections (ei_output i)) \<subseteq> set (map fst required_sections)"
      by (auto simp: missing_sections_def)
    moreover have "set (map fst required_sections) \<subseteq> set (declared_codes i)"
      using repo_declares [OF assms(3)]
      unfolding repo_criteria_codes by (auto simp: required_sections_def)
    ultimately have "set (missing_sections (ei_output i)) \<subseteq> set (unmet_codes i g)"
      unfolding set_unmet by auto
    with pass show ?thesis by (simp add: passes_def)
  qed
  obtain ct where ct: "map_of route_evaluators (ei_route i) = Some ct" "re_requires_claim_check ct"
    "re_finding_headings ct = [''## Findings'', ''## Verified findings'']"
    by (simp add: assms(3) route_evaluators_def)
  have "(\<forall>r \<in> set (gr_checks g). cr_verdict r = VVerified \<and> cr_sound r)
    \<and> (\<forall>x \<in> set (findings_in (ei_output i) (re_finding_headings ct)).
         \<exists>r \<in> set (gr_checks g). cr_claim r = x)
    \<and> gr_unverified g = [] \<and> (gr_checks g = [] \<or> gr_coverage g = Some 1)"
  proof (cases "ei_base i")
    case None
    with g ct(1) without_base_nothing_claimed clean show ?thesis
      by (metis empty_iff graded_def list.set(1))
  next
    case (Some b)
    with g ct(1) have "grade_against_evidence h loads ct (ei_output i) b (ei_block_required i)
        (ei_findings_source i) = Inr g"
      by (simp add: graded_def grade_evidence_def)
    from against_evidence_settled [OF this clean ct(2)] show ?thesis by blast
  qed
  with pass none read sections ct(3) show ?thesis
    by (simp add: ev evaluation_fields passes_def)
qed

theorem pass_rests_on_settled_claims_witness:
  "\<exists>ev. evaluate sample_host (\<lambda>_. Inl JSONDecodeError) sample_input = Inr ev \<and> av_passed ev \<and> av_unverified ev = []"
proof -
  note e = sample_evaluated [of sample_host "\<lambda>_. Inl JSONDecodeError"]
  have "ei_route sample_input = ''repo_review''" by (simp add: sample_input_def)
  with pass_rests_on_settled_claims [OF e sample_passed] e sample_passed show ?thesis by blast
qed



text \<open>Every retry has an instruction. When a retry is possible the evaluation carries a
  well-formed action with every outstanding gap, a retry is offered exactly when one is
  possible and iterations are left, and then with an adjustment; the host is named exactly for
  reading again; and whenever sources are unread, claims were not checked or a citation can
  only be repaired by another read, the action is to read again.\<close>

theorem retry_has_instruction:
  assumes "evaluate h loads i = Inr ev"
  shows "(av_should_retry ev \<longleftrightarrow> av_retry_is_possible ev \<and> ei_iteration i < ei_max_iterations i)
    \<and> (av_adjustment ev \<noteq> None \<longleftrightarrow> av_should_retry ev)
    \<and> (case av_next_action ev of
        None \<Rightarrow> \<not> av_retry_is_possible ev \<and> (av_passed ev \<or> waiting_on i = [] \<and> av_blocked_by ev = []
          \<and> ''claims_not_checked'' \<notin> set (av_evidence_gaps ev) \<and> av_missing_sections ev = [])
      | Some a \<Rightarrow> \<not> av_passed ev \<and> action_ok a \<and> ((na_actor a = ''host'') = (na_kind a = ''observe_again''))
          \<and> (na_kind a = ''observe_again'' \<or> waiting_on i = [] \<and> av_blocked_by ev = []
            \<and> ''claims_not_checked'' \<notin> set (av_evidence_gaps ev)))"
proof -
  obtain g a where g: "graded h loads i = Inr g" and a: "action_for i g = Inr a"
    and ev: "ev = evaluation_of i g a" using evaluate_Inr [OF assms] by metis
  let ?codes = "outstanding_codes (missing_sections (ei_output i)) g (waiting_on i) (off_topic i g)"
  have gap: "''claims_not_checked'' \<in> set (gap_codes_of i g) \<longleftrightarrow> ''claims_not_checked'' \<in> set (gr_gaps g)"
    by (auto simp: gap_codes_of_def Let_def)
  have codes: "?codes = [] \<longleftrightarrow> waiting_on i = [] \<and> gr_gaps g = []
      \<and> missing_sections (ei_output i) = [] \<and> \<not> off_topic i g"
    by (auto simp: outstanding_codes_def)
  have offered: "(av_adjustment (evaluation_of i g a) \<noteq> None) = av_should_retry (evaluation_of i g a)"
    by (rule evaluation_fields)
  show ?thesis
  proof (cases a)
    case None
    with a action_for_cases [of i g] have quiet: "passes i g \<or> ?codes = []"
      by (auto simp: action_of_def)
    have "\<not> retry_possible i g"
      using quiet codes by (auto simp: retry_possible_def)
    moreover have "passes i g \<or> waiting_on i = [] \<and> gr_blocked g = [] \<and> gr_gaps g = []
        \<and> missing_sections (ei_output i) = []"
      using quiet codes blocked_has_gaps [OF g] by blast
    ultimately show ?thesis using None gap offered by (auto simp: ev evaluation_fields(1-7,9-14))
  next
    case (Some act)
    with a action_for_cases [of i g] obtain k where "\<not> passes i g" "action_of ?codes (Inr (Some act)) k"
      "waiting_on i \<noteq> [] \<or> ''claims_not_checked'' \<in> set (gr_gaps g) \<or> gr_blocked g \<noteq> []
        \<longrightarrow> k = ''observe_again''" by auto
    then show ?thesis
      using Some gap offered by (auto simp: ev evaluation_fields(1-7,9-14) action_of_def)
  qed
qed

theorem retry_has_instruction_witness:
  "\<exists>ev. evaluate sample_host (\<lambda>_. Inl JSONDecodeError) sample_input = Inr ev \<and> av_next_action ev = None
     \<and> \<not> av_retry_is_possible ev"
proof -
  note e = sample_evaluated [of sample_host "\<lambda>_. Inl JSONDecodeError"]
  have "av_next_action (evaluation_of sample_input sample_grade None) = None"
    by (simp add: evaluation_fields)
  with retry_has_instruction [OF e] e show ?thesis by auto
qed

text \<open>Grading fails only where it reads: the evaluation raises exactly when grading the evidence
  does, and it cannot raise at all on a route without an evidence contract, nor without an
  evidence base when no findings block is required.\<close>

theorem evaluation_raises_only_by_reading:
  "(evaluate h loads i = Inl e) = (graded h loads i = Inl e)
    \<and> \<not> (evaluate h loads i = Inl e \<and> (map_of route_evaluators (ei_route i) = None
        \<or> ei_base i = None \<and> \<not> ei_block_required i))"
proof -
  have "map_of route_evaluators (ei_route i) = None \<or> ei_base i = None \<and> \<not> ei_block_required i
      \<Longrightarrow> graded h loads i \<noteq> Inl e"
    by (auto simp: graded_def grade_evidence_def Let_def split: option.splits)
  then show ?thesis using evaluate_Inl by blast
qed

text \<open>The coverage can be negative: when a block states a claim twice in one scope, so that both
  findings have one id, and one of them cites a source that does not hold while the source of
  the other refutes the claim, both are counted as refuted and one again as unsound. The share
  is then minus one half, which the evaluation's schema (minimum 0) does not admit.\<close>

theorem coverage_can_be_negative:
  assumes "claim f = claim f'" and "finding_id f = finding_id f'"
    and "\<not> citations_are_sound c" and "citations_are_sound c'" and "cv_result v = CRContradicted"
  shows "gr_coverage (grade_checked ct [] [(f, c), (f', c')] [(finding_id f', v)] recs) = Some (- 1 / 2)"
proof -
  have "\<lfloor>- (50 :: real)\<rfloor> = - 50" by simp
  then have "round2 (float_ratio (- 1) 2) = - 1 / 2"
    by (simp add: float_ratio_def round2_def rhe_def Let_def numeral_2_eq_2)
  then show ?thesis
    using assms
    by (simp add: grade_checked_def Let_def has_result_def unsettled_def is_decisive_iff
        numeral_2_eq_2)
qed

theorem coverage_can_be_negative_witness:
  "gr_coverage (grade_checked \<lparr>re_evidence_heading = [], re_finding_headings = [],
      re_requires_sources = True, re_min_coverage = 1, re_requires_claim_check = True\<rparr> []
     [(sample_finding, sample_check\<lparr>ec_statuses := []\<rparr>), (sample_finding, sample_check)]
     [(finding_id sample_finding, plain CRContradicted [])] []) = Some (- 1 / 2)"
  by (rule coverage_can_be_negative) (simp_all add: citations_are_sound_def sample_check_def plain_def)

text \<open>Not every run that did not pass is told what to do next: when the only thing missing is
  length, nothing is outstanding as a code, so the evaluation carries neither an action nor a
  retry, although the code states that an action is emitted whenever the gate was not cleared.\<close>

theorem too_short_has_no_action:
  assumes "map_of route_evaluators (ei_route i) = None" and "ei_review i = None"
    and "too_short i" and "missing_sections (ei_output i) = []"
  shows "\<exists>ev. evaluate h loads i = Inr ev \<and> \<not> av_passed ev \<and> av_unmet ev = [''substance'']
    \<and> av_next_action ev = None \<and> \<not> av_retry_is_possible ev"
proof -
  let ?g = "simple_grade [] False"
  have g: "graded h loads i = Inr ?g" by (simp add: graded_def grade_evidence_def assms(1))
  have codes: "declared_codes i = map fst generic_criteria"
    using assms(1,2)
    by (auto simp: declared_codes_def criteria_for_def route_criteria_def exit_criteria_def
        route_evaluators_def)
  have none: "gap_codes_of i ?g = []" "waiting_on i = []"
    using assms(2) by (simp_all add: gap_codes_of_def waiting_on_def codes generic_criteria_def)
  have unmet: "unmet_codes i ?g = [''substance'']"
    using assms(3,4) none by (simp add: unmet_codes_def codes generic_criteria_def sorted_set_def)
  have "action_for i ?g = Inr None"
    using none assms(4) unmet
    by (simp add: action_for_def passes_def next_action_of_def outstanding_codes_def off_topic_def)
  moreover have "\<not> retry_possible i ?g"
    using none assms(4) by (simp add: retry_possible_def off_topic_def)
  ultimately show ?thesis
    using g unmet by (simp add: evaluate_def evaluation_fields passes_def)
qed

definition short_input :: eval_input where
  "short_input = sample_input\<lparr>ei_route := ''general''\<rparr>"

theorem too_short_has_no_action_witness:
  "\<exists>ev. evaluate sample_host (\<lambda>_. Inl JSONDecodeError) short_input = Inr ev \<and> \<not> av_passed ev \<and> av_next_action ev = None"
proof -
  have "too_short short_input" "missing_sections (ei_output short_input) = []" by code_simp+
  moreover have "map_of route_evaluators (ei_route short_input) = None" "ei_review short_input = None"
    by (simp_all add: short_input_def sample_input_def route_evaluators_def)
  ultimately show ?thesis using too_short_has_no_action [of short_input] by blast
qed

end
