(* ===== verification/Errors.thy ===== *)
theory Errors
  imports Executor Grading Observer
begin

section \<open>What a pass can raise\<close>

text \<open>
  A computation is \<open>orderly\<close> when the exception it ends with, if any, is not the one of an illegal
  move. Planning, producing and grading are orderly as soon as the files, the parser and the
  readers are: they raise what those raise and the errors of their own constructors. The rules
  follow the code, as those of \<open>returning\<close> do.
\<close>

named_theorems orderly \<open>computations that never report an illegal move\<close>

definition tame :: "exc \<Rightarrow> bool" where "tame e \<longleftrightarrow> e \<noteq> InvalidTransition"

definition calm :: "'a result \<Rightarrow> bool" where
  "calm m \<longleftrightarrow> (\<forall>e. m = Inl e \<longrightarrow> tame e)"

lemma calmD: "calm m \<Longrightarrow> m = Inl e \<Longrightarrow> tame e"
  by (simp add: calm_def)

lemma calm_iff: "calm m \<longleftrightarrow> m \<noteq> Inl InvalidTransition"
  by (auto simp: calm_def tame_def)

lemma tame_simps [simp]: "tame ValueError" "tame TypeError" "tame KeyError" "tame (Foreign n t)"
    "tame ResumeRefused" "tame AppendOnlyViolation" "tame JSONDecodeError"
  by (simp_all add: tame_def)

lemma calm_Inr [orderly]: "calm (Inr x)"
  by (simp add: calm_def)

lemma calm_Inl [orderly]: "tame e \<Longrightarrow> calm (Inl e)"
  by (simp add: calm_def)

lemma calm_bind [orderly]: "calm m \<Longrightarrow> (\<And>x. calm (f x)) \<Longrightarrow> calm (bind_res m f)"
  by (auto simp: calm_def bind_res_Inl)

lemma calm_if [orderly]: "(c \<Longrightarrow> calm m) \<Longrightarrow> (\<not> c \<Longrightarrow> calm m') \<Longrightarrow> calm (if c then m else m')"
  by simp

lemma calm_option [orderly]:
  "(v = None \<Longrightarrow> calm m) \<Longrightarrow> (\<And>x. v = Some x \<Longrightarrow> calm (f x)) \<Longrightarrow> calm (case v of None \<Rightarrow> m | Some x \<Rightarrow> f x)"
  by (cases v) simp_all

lemma calm_sum [orderly]:
  "(\<And>e. v = Inl e \<Longrightarrow> calm (f e)) \<Longrightarrow> (\<And>x. v = Inr x \<Longrightarrow> calm (g x))
     \<Longrightarrow> calm (case v of Inl e \<Rightarrow> f e | Inr x \<Rightarrow> g x)"
  by (cases v) simp_all

lemma calm_prod [orderly]: "(\<And>a b. v = (a, b) \<Longrightarrow> calm (f a b)) \<Longrightarrow> calm (case v of (a, b) \<Rightarrow> f a b)"
  by (cases v) simp_all

lemma calm_map [orderly]: "(\<And>x. x \<in> set xs \<Longrightarrow> calm (f x)) \<Longrightarrow> calm (map_res f xs)"
  by (induction xs) (auto intro!: orderly)

lemma calm_get_key [orderly]: "calm (get_key d k)"
  by (auto simp: get_key_def intro!: orderly)

lemma calm_py_int [orderly]: "calm (py_int v)"
  by (auto simp: py_int_def calm_def split: pyval.splits option.splits pyfloat.splits)

subsection \<open>Constructors\<close>

lemma calm_mk [orderly]: "calm (mk_finding f)" "calm (mk_ref r)" "calm (mk_typed c)" "calm (mk_condition d)"
    "calm (mk_base b)" "calm (mk_plan p)"
  by (simp_all add: mk_finding_def mk_ref_def mk_typed_def mk_condition_def mk_base_def mk_plan_def calm_def)

lemma calm_window [orderly]: "calm (mk_window w)"
  by (auto simp: mk_window_def calm_def)

lemma calm_request [orderly]: "calm (request_from a b c d e' f g h k)"
  by (auto simp: request_from_def mk_request_def Let_def calm_def)

lemma calm_with [orderly]: "calm (with_observations b obs)"
  by (simp add: with_observations_def orderly)

lemma calm_build_plan [orderly]: "calm (build_plan task r sid)"
  unfolding build_plan_def build_review_plan_def Let_def by (intro orderly)

subsection \<open>Files and readers\<close>

text \<open>What the file system and the readers of the host are trusted with.\<close>

definition polite_host :: "host \<Rightarrow> bool" where
  "polite_host h \<longleftrightarrow> (\<forall>p. open_file h p \<noteq> Inl (OpenError InvalidTransition))"

definition polite_readers :: "(string \<times> reader) list \<Rightarrow> bool" where
  "polite_readers rs \<longleftrightarrow> (\<forall>(k, rd) \<in> set rs. \<forall>ob. calm (rd ob))"

lemma calm_read_within: "polite_host h \<Longrightarrow> calm (read_within h r p mb)"
  by (auto simp: read_within_def resolve_within_def bind_res_Inl tame_def Let_def polite_host_def calm_def
      split: if_splits option.splits sum.splits open_error.splits)

lemma calm_reader:
  assumes "polite_host h" and "polite_readers extra"
    and "map_of (resolve_readers h r extra) k = Some rd"
  shows "calm (rd ob)"
  using assms calm_read_within [OF assms(1)]
  by (cases "k = ''local_file''")
     (auto simp: resolve_readers_def polite_readers_def dest!: map_of_SomeD)

lemma calm_drift:
  assumes "polite_host h" shows "calm (detect_drift h sn obs)"
proof -
  have seen: "calm (verify_observation h ob (root sn))" for ob
    using calm_read_within [OF assms]
    by (auto simp: verify_observation_def Let_def calm_def split: if_splits sum.splits exc.splits)
  show ?thesis
    unfolding detect_drift_def verify_all_def Let_def by (intro orderly seen)
qed

subsection \<open>Findings and claims\<close>

lemma calm_check_finding:
  assumes "polite_host h" and "polite_readers extra"
  shows "calm (check_finding h f obs r extra)"
proof -
  have "calm (check_reference (sha h) rf byid (resolve_readers h r extra))" for rf byid
    unfolding check_reference_def
    by (intro orderly) (auto dest: calm_reader [OF assms] calmD)
  then show ?thesis
    unfolding check_finding_def Let_def by (intro orderly)
qed

lemma calm_observed_text:
  assumes "polite_host h" and "polite_readers extra"
  shows "calm (observed_text h f sid obs r extra)"
  unfolding observed_text_def Let_def
  by (intro orderly) (auto dest: calm_reader [OF assms] calmD)

lemma calm_check_claim:
  assumes "polite_host h" and "polite_readers extra"
  shows "calm (check_claim h f typed cond obs r extra)"
proof -
  note seen = calm_observed_text [OF assms]
  have render: "calm (render c p a b other)" for c p a b other
    unfolding render_def by (intro orderly) simp
  have holds: "calm (typed_holds c t)" for c t
    by (cases "tc_kind c") (simp_all add: typed_holds_def calm_def)
  have differ: "calm (check_targets_differ h f c obs r extra)" for c
    unfolding check_targets_differ_def Let_def by (intro orderly seen render)
  have typed: "calm (check_typed_claim h f c obs r extra)" for c
    unfolding check_typed_claim_def Let_def by (intro orderly seen render holds differ)
  have cond: "calm (check_condition h f c obs r extra)" for c
    unfolding check_condition_def Let_def by (intro orderly seen)
  show ?thesis
    unfolding check_claim_def by (intro orderly typed cond)
qed

subsection \<open>Grading\<close>

lemma calm_findings:
  assumes "\<And>t. calm (loads t)" shows "calm (structured_findings f loads output)"
proof -
  have ref: "calm (build_reference v)" for v
    by (cases v) (simp_all add: build_reference_def orderly)
  have items: "calm (str_items v)" for v
    by (cases v) (simp_all add: str_items_def orderly)
  have create: "calm (create_finding f c sc sev why refs lims cmd)" for c sc sev why refs lims cmd
    by (simp add: create_finding_def orderly)
  have finding: "calm (build_finding f v)" for v
    by (cases v) (auto simp: build_finding_def split: pyval.splits intro!: orderly ref items create)
  have tuple: "calm (string_tuple v)" for v
    by (cases v) (auto simp: string_tuple_def split: pyval.splits intro!: orderly)
  have typed: "calm (build_typed v)" for v
    by (cases v) (auto simp: build_typed_def build_typed_claim_def split: pyval.splits
        intro!: orderly tuple)
  have cond: "calm (build_condition_of v)" for v
    by (cases v) (auto simp: build_condition_of_def build_condition_def split: pyval.splits
        intro!: orderly)
  have entry: "calm (build_entry f fence v)" for fence v
    unfolding build_entry_def by (intro orderly typed finding cond) simp
  have all: "calm (map_res (build_entry f fence) items)" for fence items
    by (intro orderly entry)
  show ?thesis
    unfolding structured_findings_def
    using assms all
    by (auto simp: calm_def split: option.splits sum.splits pyval.splits)
qed

lemma calm_evaluate:
  assumes "polite_host h" and "\<And>t. calm (loads t)"
    and "\<And>b. ei_base i = Some b \<Longrightarrow> polite_readers (base_readers b)"
  shows "calm (evaluate h loads i)"
proof -
  note found = calm_findings [OF assms(2)]
  have checked: "calm (check_entries h b es)" and settled: "calm (settle_entries h b cs d)"
    if "ei_base i = Some b" for b es cs d
  proof -
    note rd = assms(1) assms(3) [OF that]
    show "calm (check_entries h b es)"
      unfolding check_entries_def by (intro orderly calm_check_finding rd)
    show "calm (settle_entries h b cs d)"
      by (induction cs arbitrary: d) (auto intro!: orderly calm_check_claim rd)
  qed
  have recorded: "calm (citation_record_of f c v)" for f c v
    unfolding citation_record_of_def apply_verdict_def apply_check_def Let_def
    by (intro orderly) simp
  have "calm (grade_against_evidence h loads ct out b req src)" if "ei_base i = Some b" for ct out b req src
    unfolding grade_against_evidence_def Let_def
    by (intro orderly found recorded checked [OF that] settled [OF that])
  then have "calm (graded h loads i)"
    unfolding graded_def grade_evidence_def Let_def by (intro orderly found)
  then show ?thesis
    by (auto simp: calm_def evaluate_Inl)
qed

subsection \<open>Producing\<close>

lemma calm_produce: "calm (execute_plan_parts task p obs fb base)"
proof -
  have cmd: "calm (run_check_command raw)" for raw
    unfolding run_check_command_def Let_def by (intro orderly) simp
  have gate: "calm (gate_checks ls d)" for ls d
    by (induction ls d rule: gate_checks.induct) (auto intro!: orderly cmd)
  have line: "calm (local_command_line ob key)" for ob key
    unfolding local_command_line_def by (intro orderly cmd)
  have render: "calm (render c p a b other)" for c p a b other
    unfolding render_def by (intro orderly) simp
  have fact: "calm (contains_finding ob tx n q l)" for ob tx n q l
    unfolding contains_finding_def by (intro orderly render)
  have marker: "calm (finding_for_marker ob m l)" for ob m l
    unfolding finding_for_marker_def by (intro orderly fact)
  have drift: "calm (target_drift_finding g sc key lt ct)" for g sc key lt ct
    unfolding target_drift_finding_def by (intro orderly line render)
  have drifts: "calm (target_drifts g sc local ci ks)" for g sc local ci ks
    by (induction ks) (auto simp: Let_def intro!: orderly drift)
  have "calm (f task rp b)" if "f \<in> set producers" for f rp b
    using that
    by (auto simp: producers_def produce_ci_release_gate_parity_def produce_ci_test_command_parity_def
        produce_release_changelog_parity_def produce_release_metadata_parity_def Let_def
        local_gate_checks_def intro!: orderly gate drifts marker fact)
  moreover have "calm (first_output rs)" if "\<forall>r \<in> set rs. calm r" for rs
    using that by (induction rs) (auto intro!: orderly)
  ultimately have "calm (produce_repo_review task p b)" for b
    unfolding produce_repo_review_def by (intro orderly) simp
  then show ?thesis
    unfolding execute_plan_parts_def by (intro orderly)
qed

end
