(* ===== verification/Loop_Facts.thy ===== *)
theory Loop_Facts
  imports Controller Errors
begin

section \<open>Reasoning about the loop\<close>

text \<open>
  A weakest-precondition calculus for the computations of \<open>Controller\<close> with one rule per
  construct, and one rule per stage of a run in the order of the code. The stages are stated
  over the run record alone: everything else the controller holds (budget, log, clock, rounds)
  never moves the run.
\<close>

named_theorems wps \<open>weakest preconditions of the constructs\<close>

definition wp :: "('s, 'a) op \<Rightarrow> ('a \<Rightarrow> 's ctl \<Rightarrow> bool) \<Rightarrow> (exc \<Rightarrow> 's ctl \<Rightarrow> bool) \<Rightarrow> 's ctl \<Rightarrow> bool" where
  "wp m Q E s \<longleftrightarrow> (case m s of (Inr a, s') \<Rightarrow> Q a s' | (Inl e, s') \<Rightarrow> E e s')"

lemma wp_ret [wps]: "wp (ret a) Q E s = Q a s"
  by (simp add: wp_def ret_def)
lemma wp_fail [wps]: "wp (fail e) Q E s = E e s"
  by (simp add: wp_def fail_def)
lemma wp_bind [wps]: "wp (bind_op m f) Q E s = wp m (\<lambda>a. wp (f a) Q E) E s"
  by (auto simp: wp_def bind_op_def split: prod.splits sum.splits)
lemma wp_then [wps]: "wp (then_op m n) Q E s = wp m (\<lambda>_. wp n Q E) E s"
  by (simp add: then_op_def wp_bind)
lemma wp_attempt [wps]: "wp (attempt m) Q E s = wp m (\<lambda>a. Q (Inr a)) (\<lambda>e. Q (Inl e)) s"
  by (auto simp: wp_def attempt_def split: prod.splits sum.splits)
lemma wp_lift [wps]: "wp (lift_res r) Q E s = (case r of Inl e \<Rightarrow> E e s | Inr a \<Rightarrow> Q a s)"
  by (auto simp: wp_def lift_res_def split: sum.splits)
lemma wp_get [wps]: "wp get_ctl Q E s = Q s s"
  by (simp add: wp_def get_ctl_def)
lemma wp_upd [wps]: "wp (upd_ctl f) Q E s = Q () (f s)"
  by (simp add: wp_def upd_ctl_def)
lemma wp_upd_run [wps]: "wp (upd_run f) Q E s = Q () (s\<lparr>c_run := f (c_run s)\<rparr>)"
  by (simp add: upd_run_def wp_upd)
lemma wp_move: "wp (move f) Q E s =
    (case f (c_run s) of Inl e \<Rightarrow> E e s | Inr r \<Rightarrow> Q () (s\<lparr>c_run := r\<rparr>))"
  by (auto simp: wp_def move_def split: sum.splits)
lemma wp_when [wps]: "wp (when_op b m) Q E s = (if b then wp m Q E s else Q () s)"
  by (simp add: when_op_def wp_ret)
lemma wp_tick [wps]: "wp tick_op Q E s = Q (c_tick s) (s\<lparr>c_tick := Suc (c_tick s)\<rparr>)"
  by (simp add: wp_def tick_op_def)
lemma wp_note [wps]: "wp (note_meta k v) Q E s =
    Q () (s\<lparr>c_run := (c_run s)\<lparr>rs_metadata := dict_set k v (rs_metadata (c_run s))\<rparr>\<rparr>)"
  by (simp add: note_meta_def wp_upd_run)
lemma wp_if [wps]: "wp (if c then m else n) Q E s = (if c then wp m Q E s else wp n Q E s)"
  by simp
lemma wp_option [wps]: "wp (case v of None \<Rightarrow> m | Some x \<Rightarrow> f x) Q E s =
    (case v of None \<Rightarrow> wp m Q E s | Some x \<Rightarrow> wp (f x) Q E s)"
  by (cases v) simp_all
lemma wp_sum [wps]: "wp (case v of Inl e \<Rightarrow> f e | Inr x \<Rightarrow> g x) Q E s =
    (case v of Inl e \<Rightarrow> wp (f e) Q E s | Inr x \<Rightarrow> wp (g x) Q E s)"
  by (cases v) simp_all
lemma wp_prod [wps]: "wp (case v of (a, b) \<Rightarrow> f a b) Q E s = (case v of (a, b) \<Rightarrow> wp (f a b) Q E s)"
  by (cases v) simp_all

lemma wp_weaken:
  "wp m Q E s \<Longrightarrow> (\<And>a s'. Q a s' \<Longrightarrow> Q' a s') \<Longrightarrow> (\<And>e s'. E e s' \<Longrightarrow> E' e s') \<Longrightarrow> wp m Q' E' s"
  by (auto simp: wp_def split: prod.splits sum.splits)

lemma wpD: "wp m Q E s \<Longrightarrow> m s = (Inr a, s') \<Longrightarrow> Q a s'"
  by (simp add: wp_def)
lemma wpE: "wp m Q E s \<Longrightarrow> m s = (Inl e, s') \<Longrightarrow> E e s'"
  by (simp add: wp_def)

subsection \<open>Steps that do not touch the run\<close>

definition keeps :: "('s, 'a) op \<Rightarrow> bool" where
  "keeps m \<longleftrightarrow> (\<forall>s. c_run (snd (m s)) = c_run s)"

text \<open>A tame step, moreover, never reports an illegal move.\<close>

definition quiet :: "('s, 'a) op \<Rightarrow> bool" where
  "quiet m \<longleftrightarrow> keeps m \<and> (\<forall>s e. fst (m s) = Inl e \<longrightarrow> tame e)"

lemma wp_keeps:
  assumes "keeps m"
  shows "wp m (\<lambda>_ s'. c_run s' = c_run s) (\<lambda>_ s'. c_run s' = c_run s) s"
proof -
  obtain r s' where m: "m s = (r, s')" by fastforce
  with assms have "c_run s' = c_run s" unfolding keeps_def by (metis snd_conv)
  with m show ?thesis by (cases r) (simp_all add: wp_def)
qed

lemma wp_quiet:
  assumes "quiet m"
  shows "wp m (\<lambda>_ s'. c_run s' = c_run s) (\<lambda>e s'. c_run s' = c_run s \<and> tame e) s"
proof -
  obtain r s' where m: "m s = (r, s')" by fastforce
  with assms have "c_run s' = c_run s" "\<And>e. r = Inl e \<Longrightarrow> tame e"
    unfolding quiet_def keeps_def by (metis snd_conv, metis fst_conv)
  with m show ?thesis by (cases r) (simp_all add: wp_def)
qed

lemma keepsI:
  assumes "\<And>s. wp m (\<lambda>_ s'. c_run s' = c_run s) (\<lambda>_ s'. c_run s' = c_run s) s"
  shows "keeps m"
  unfolding keeps_def
proof
  fix s
  obtain r s' where "m s = (r, s')" by fastforce
  with assms [of s] show "c_run (snd (m s)) = c_run s"
    by (cases r) (simp_all add: wp_def)
qed

lemma quietI:
  assumes "\<And>s. wp m (\<lambda>_ s'. c_run s' = c_run s) (\<lambda>e s'. c_run s' = c_run s \<and> tame e) s"
  shows "quiet m"
proof -
  have "c_run (snd (m s)) = c_run s \<and> (\<forall>e. fst (m s) = Inl e \<longrightarrow> tame e)" for s
  proof -
    obtain r s' where "m s = (r, s')" by fastforce
    with assms [of s] show ?thesis by (cases r) (simp_all add: wp_def)
  qed
  then show ?thesis by (simp add: quiet_def keeps_def)
qed

text \<open>The rule for using a step that leaves the run alone.\<close>

lemma wp_by_quiet:
  "quiet m \<Longrightarrow> (\<And>a s'. c_run s' = c_run s \<Longrightarrow> Q a s') \<Longrightarrow> (\<And>e s'. tame e \<Longrightarrow> c_run s' = c_run s \<Longrightarrow> E e s') \<Longrightarrow> wp m Q E s"
  by (rule wp_weaken [OF wp_quiet]) auto

lemma wp_by_keeps:
  "keeps m \<Longrightarrow> (\<And>a s'. c_run s' = c_run s \<Longrightarrow> Q a s') \<Longrightarrow> (\<And>e s'. c_run s' = c_run s \<Longrightarrow> E e s')
     \<Longrightarrow> wp m Q E s"
  by (rule wp_weaken [OF wp_keeps]) auto

lemma keeps_bind: "keeps m \<Longrightarrow> (\<And>a. keeps (f a)) \<Longrightarrow> keeps (bind_op m f)"
  by (rule keepsI) (auto simp: wps intro!: wp_by_keeps)

lemma keeps_then: "keeps m \<Longrightarrow> keeps n \<Longrightarrow> keeps (then_op m n)"
  by (simp add: then_op_def keeps_bind)

lemma keeps_attempt: "keeps m \<Longrightarrow> quiet (attempt m)"
  by (rule quietI) (auto simp: wps intro!: wp_by_keeps)

lemma quiet_keeps: "quiet m \<Longrightarrow> keeps m"
  by (simp add: quiet_def)

lemma quiet_bind: "quiet m \<Longrightarrow> (\<And>a. quiet (f a)) \<Longrightarrow> quiet (bind_op m f)"
  by (rule quietI) (auto simp: wps intro!: wp_by_quiet)

lemma quiet_then: "quiet m \<Longrightarrow> quiet n \<Longrightarrow> quiet (then_op m n)"
  by (simp add: then_op_def quiet_bind)

lemma keeps_basic: "keeps (ret a)" "keeps (fail e)" "keeps get_ctl" "keeps tick_op" "keeps (lift_res r)"
    "keeps (budget_op env f)" "keeps (log_op env g)"
  by (simp_all add: keeps_def ret_def fail_def get_ctl_def tick_op_def lift_res_def budget_op_def
      log_op_def split: option.splits prod.splits)

lemma quiet_basic: "quiet (ret a)" "quiet get_ctl" "quiet tick_op" "tame e \<Longrightarrow> quiet (fail e)"
    "(\<And>e. r = Inl e \<Longrightarrow> tame e) \<Longrightarrow> quiet (lift_res r)"
  by (simp_all add: quiet_def keeps_basic)
     (simp_all add: ret_def fail_def get_ctl_def tick_op_def lift_res_def)

lemma quiet_check: "quiet (check_budget env)"
  by (simp add: quiet_def keeps_basic check_budget_def)
     (auto simp: budget_op_def check_def tame_def split: option.splits if_splits)

lemma quiet_charge: "quiet (budget_op env (\<lambda>r. charge_output r c))"
  by (simp add: quiet_def keeps_basic)
     (auto simp: budget_op_def charge_output_def check_def tame_def Let_def
       split: option.splits if_splits sum.splits)

definition polite_sink :: "'s env \<Rightarrow> bool" where
  "polite_sink env \<longleftrightarrow> (\<forall>s r. sink_wr env s r \<noteq> Inl InvalidTransition)"

lemma log_append_tame:
  assumes "polite_sink env" and "log_append (sink_wr env) t k it c p l = (l', Inl e)"
  shows "tame e"
  using assms
  by (auto simp: log_append_def mk_event_def tame_def polite_sink_def Let_def
      split: sum.splits option.splits if_splits)

lemma quiet_log_fact: "polite_sink env \<Longrightarrow> quiet (log_fact env k it p)"
  unfolding log_fact_def
  by (rule quiet_then) (auto simp: quiet_def keeps_basic quiet_basic log_op_def ret_def bind_res_Inl
      dest: log_append_tame split: option.splits prod.splits)

lemma quiet_begin_call: "polite_sink env \<Longrightarrow> quiet (begin_call env k it t i b)"
  unfolding begin_call_def
  by (auto simp: quiet_def keeps_basic log_op_def start_call_def bind_res_Inl Let_def
      dest: log_append_tame split: option.splits prod.splits)

lemma quiet_end_call: "polite_sink env \<Longrightarrow> quiet (end_call env c o' it err)"
  unfolding end_call_def
  by (auto simp: quiet_basic intro!: quiet_then split: option.splits)
     (auto simp: quiet_def keeps_basic log_op_def finish_call_def bind_res_Inl tame_def [of AppendOnlyViolation]
      dest: log_append_tame split: option.splits prod.splits if_splits)

lemmas quiet_steps = quiet_basic quiet_check quiet_charge quiet_log_fact quiet_begin_call
  quiet_end_call quiet_then quiet_bind keeps_attempt

lemma quiet_each: "(\<And>x. quiet (f x)) \<Longrightarrow> quiet (each_op f xs)"
  by (induction xs) (simp_all add: quiet_basic quiet_then)

subsection \<open>Where a run can be\<close>

text \<open>
  \<open>held sn es k i m r\<close>: the run is at pass \<open>i\<close> of \<open>m\<close> with the evaluations \<open>es\<close> and \<open>k\<close> outputs, every evaluation has its output and every
  output its pass, and the evidence is that of the snapshot the run was opened with. A run is
  \<open>at\<close> a status while it has no stop reason; it has \<open>ended\<close> when status and reason agree and the
  reason is one the last evaluation bears out.
\<close>

definition held :: "snapshot option \<Rightarrow> evaluation list \<Rightarrow> nat \<Rightarrow> int \<Rightarrow> int \<Rightarrow> run_state \<Rightarrow> bool" where
  "held sn es k i m r \<longleftrightarrow> rs_iteration r = i \<and> rs_max_iterations r = m \<and> rs_evaluations r = es
     \<and> length (rs_outputs r) = k \<and> length es \<le> k \<and> int k \<le> i
     \<and> map_option base_snapshot (rs_evidence r) = sn
     \<and> (case rs_evidence r of None \<Rightarrow> True | Some b \<Rightarrow> base_ok b \<and> polite_readers (base_readers b))"

definition in_status :: "status \<Rightarrow> snapshot option \<Rightarrow> evaluation list \<Rightarrow> nat \<Rightarrow> int \<Rightarrow> int \<Rightarrow> run_state \<Rightarrow> bool" where
  "in_status st sn es k i m r \<longleftrightarrow> rs_status r = st \<and> rs_stop_reason r = None \<and> held sn es k i m r"

definition borne_out :: "stop_reason \<Rightarrow> run_state \<Rightarrow> bool" where
  "borne_out q r \<longleftrightarrow> (q \<in> {Passed, ApprovalRequired, MaxIterations, InsufficientEvidence} \<longrightarrow>
     rs_evaluations r \<noteq> [] \<and> (let ev = last (rs_evaluations r) in
       av_requires_approval ev = (q = ApprovalRequired)
       \<and> (q = Passed \<longrightarrow> av_passed ev) \<and> (q = MaxIterations \<or> q = InsufficientEvidence \<longrightarrow> \<not> av_passed ev)
       \<and> (q = MaxIterations \<longrightarrow> av_retry_is_possible ev \<and> rs_max_iterations r \<le> rs_iteration r)
       \<and> (q = InsufficientEvidence \<longrightarrow> av_evidence_gaps ev \<noteq> [])))"

definition ended :: "snapshot option \<Rightarrow> evaluation list \<Rightarrow> nat \<Rightarrow> int \<Rightarrow> int \<Rightarrow> run_state \<Rightarrow> bool" where
  "ended sn es k i m r \<longleftrightarrow> held sn es k i m r \<and> (\<exists>q. rs_stop_reason r = Some q
     \<and> rs_status r = spec_status (spec_of q) \<and> borne_out q r)"

lemma meta_simps [simp]:
  "held sn es k i m (r\<lparr>rs_metadata := d\<rparr>) = held sn es k i m r"
  "in_status st sn es k i m (r\<lparr>rs_metadata := d\<rparr>) = in_status st sn es k i m r"
  "borne_out q (r\<lparr>rs_metadata := d\<rparr>) = borne_out q r"
  "ended sn es k i m (r\<lparr>rs_metadata := d\<rparr>) = ended sn es k i m r"
  by (simp_all add: held_def in_status_def borne_out_def ended_def)

lemma stop_run_ok:
  assumes "\<not> terminal (rs_status r)" and "q \<noteq> ApprovalRequired \<or> rs_status r = Evaluating"
  shows "stop_run q r = Inr (r\<lparr>rs_status := spec_status (spec_of q), rs_stop_reason := Some q\<rparr>)"
proof -
  have "legal (rs_status r) (spec_status (spec_of q))"
    using assms interruption_legal [OF assms(1)] by (cases q) auto
  with assms(1) show ?thesis by (simp add: stop_run_Inr)
qed

lemma wp_stop:
  assumes "in_status st sn es k i m (c_run s)" and "\<not> terminal st"
    and "q \<noteq> ApprovalRequired \<or> st = Evaluating" and "borne_out q (c_run s)"
    and "\<And>s'. ended sn es k i m (c_run s') \<Longrightarrow> rs_stop_reason (c_run s') = Some q \<Longrightarrow> Q () s'"
  shows "wp (stop_op q) Q E s"
proof -
  from assms(1-3) have "stop_run q (c_run s) = Inr ((c_run s)\<lparr>rs_status := spec_status (spec_of q),
      rs_stop_reason := Some q\<rparr>)" by (intro stop_run_ok) (auto simp: in_status_def)
  moreover from assms(1,4) have "ended sn es k i m ((c_run s)\<lparr>rs_status := spec_status (spec_of q),
      rs_stop_reason := Some q\<rparr>)"
    by (simp add: ended_def in_status_def held_def borne_out_def)
  ultimately show ?thesis using assms(5) by (simp add: stop_op_def wp_move)
qed

lemma borne_out_control [simp]:
  "borne_out StopCancelled r" "borne_out BudgetExhausted r" "borne_out ToolError r"
  "borne_out Blocked r" "borne_out NoProgress r"
  by (simp_all add: borne_out_def)

definition control_reasons :: "stop_reason set" where
  "control_reasons = {StopCancelled, BudgetExhausted}"

lemma wp_control:
  assumes "in_status st sn es k i m (c_run s)" and "\<not> terminal st" and "is_control e"
    and "\<And>q s'. q \<in> control_reasons \<Longrightarrow> rs_stop_reason (c_run s') = Some q
      \<Longrightarrow> ended sn es k i m (c_run s') \<Longrightarrow> Q () s'"
  shows "wp (control_stop e) Q E s"
  using assms
  by (auto simp: control_stop_def is_control_def control_reasons_def wps split: exc.splits intro!: wp_stop)

lemma wp_failure:
  assumes "in_status st sn es k i m (c_run s)" and "\<not> terminal st"
    and "\<And>s'. ended sn es k i m (c_run s') \<Longrightarrow> Q () s'"
  shows "wp (failure_stop g e) Q E s"
  unfolding failure_stop_def wps
  by (rule wp_stop [OF assms(1,2)]) (auto intro: assms(3))

lemma wp_enter:
  assumes "in_status st sn es k i m (c_run s)" and "legal st t"
    and "\<And>s'. in_status t sn es k i m (c_run s') \<Longrightarrow> Q () s'"
  shows "wp (move (enter t)) Q E s"
proof -
  from assms(1,2) have "enter t (c_run s) = Inr ((c_run s)\<lparr>rs_status := t\<rparr>)"
    by (simp add: enter_Inr in_status_def)
  with assms show ?thesis
    by (simp add: wp_move in_status_def held_def)
qed

definition controlled :: "('s, 'a) op \<Rightarrow> bool" where
  "controlled m \<longleftrightarrow> keeps m \<and> (\<forall>s e. fst (m s) = Inl e \<longrightarrow> is_control e)"

lemma wp_by_controlled:
  assumes "controlled m" and "\<And>a s'. c_run s' = c_run s \<Longrightarrow> Q a s'"
    and "\<And>e s'. is_control e \<Longrightarrow> c_run s' = c_run s \<Longrightarrow> E e s'"
  shows "wp m Q E s"
proof -
  obtain r s' where m: "m s = (r, s')" by fastforce
  with assms(1) have "c_run s' = c_run s" "\<And>e. r = Inl e \<Longrightarrow> is_control e"
    unfolding controlled_def keeps_def by (metis snd_conv, metis fst_conv)
  with m assms(2,3) show ?thesis by (cases r) (simp_all add: wp_def)
qed

lemma check_control: "check r b = Inl e \<Longrightarrow> is_control e"
  by (auto simp: check_def is_control_def split: if_splits)

lemma controlled_check: "controlled (check_budget env)"
  by (auto simp: controlled_def keeps_basic check_budget_def)
     (auto simp: budget_op_def dest: check_control split: option.splits)

lemma controlled_charge: "controlled (budget_op env (\<lambda>r. charge_output r c))"
  by (auto simp: controlled_def keeps_basic)
     (auto simp: budget_op_def charge_output_def Let_def is_control_def check_def
       split: option.splits sum.splits if_splits)

lemma controlledI:
  assumes "\<And>s. wp m (\<lambda>_ s'. c_run s' = c_run s) (\<lambda>e s'. c_run s' = c_run s \<and> is_control e) s"
  shows "controlled m"
proof -
  have "c_run (snd (m s)) = c_run s \<and> (\<forall>e. fst (m s) = Inl e \<longrightarrow> is_control e)" for s
  proof -
    obtain r s' where "m s = (r, s')" by fastforce
    with assms [of s] show ?thesis by (cases r) (simp_all add: wp_def)
  qed
  then show ?thesis by (simp add: controlled_def keeps_def)
qed

lemma controlled_then: "controlled m \<Longrightarrow> controlled n \<Longrightarrow> controlled (then_op m n)"
  by (rule controlledI) (auto simp: wps intro!: wp_by_controlled)

lemma controlled_each: "(\<And>x. controlled (f x)) \<Longrightarrow> controlled (each_op f xs)"
  by (induction xs) (simp_all add: controlled_then, simp add: controlled_def keeps_basic ret_def)

lemma wp_expired:
  assumes "in_status st sn es k i m (c_run s)" and "\<not> terminal st"
    and "\<And>q s'. q \<in> control_reasons \<Longrightarrow> rs_stop_reason (c_run s') = Some q
      \<Longrightarrow> ended sn es k i m (c_run s') \<Longrightarrow> Q True s'"
    and "\<And>s'. in_status st sn es k i m (c_run s') \<Longrightarrow> Q False s'"
  shows "wp (expired env) Q E s"
proof (cases "c_budget s")
  case None
  with assms show ?thesis
    by (auto simp: expired_def wps is_control_def intro!: wp_control)
next
  case (Some b)
  with assms show ?thesis
    by (auto simp: expired_def wps intro!: wp_by_controlled [OF controlled_check] wp_control)
qed

subsection \<open>Rounds of reading\<close>

lemma wp_refused:
  assumes "polite_sink env" and "in_status st sn es k i m (c_run s)" and "\<not> terminal st"
    and "\<And>s'. ended sn es k i m (c_run s') \<Longrightarrow> Q () s'" and "\<And>e s'. tame e \<Longrightarrow> E e s'"
  shows "wp (refused_read env read it e) Q E s"
  unfolding refused_read_def wps using assms
  by (auto intro!: wp_by_quiet [OF quiet_end_call] wp_control wp_failure)

lemma keeps_ask: "keeps (ask_host env q)"
  by (rule keepsI)
     (auto simp: ask_host_def wps split: option.splits prod.splits sum.splits
       intro!: wp_by_keeps [OF quiet_keeps [OF quiet_check]])

lemma wp_adopt:
  assumes "polite_sink env" and "in_status st sn es k i m (c_run s)" and "rs_evidence (c_run s) = Some base"
    and "\<And>o' s'. o' \<noteq> RStopped \<Longrightarrow> in_status st sn es k i m (c_run s') \<Longrightarrow> Q o' s'"
    and "\<And>e s'. tame e \<Longrightarrow> E e s'"
  shows "wp (adopt_round env base q ps merged r ctx) Q E s"
proof -
  have "in_status st sn es k i m (x\<lparr>rs_evidence := Some b', rs_observations := obs\<rparr>)"
    if "with_observations base merged = Inr b'" "x = c_run s" for b' x obs
    using that assms(2,3) by (auto simp: in_status_def held_def with_observations_def)
  moreover have "tame e" if "with_observations base merged = Inl e" for e
    using that by (simp add: with_observations_def mk_base_def split: if_splits)
  ultimately show ?thesis
    using assms
    by (auto simp: adopt_round_def wps Let_def split: sum.splits
        intro!: wp_by_quiet [OF quiet_log_fact])
qed

lemma wp_observe_round:
  assumes polite: "polite_sink env" and st: "in_status st sn es k i m (c_run s)" "\<not> terminal st"
    and stop: "\<And>s'. ended sn es k i m (c_run s') \<Longrightarrow> Q RStopped s'"
    and go: "\<And>o' s'. o' \<noteq> RStopped \<Longrightarrow> in_status st sn es k i m (c_run s') \<Longrightarrow> Q o' s'"
    and err: "\<And>e s'. tame e \<Longrightarrow> E e s'"
  shows "wp (observe_round env recorded q ps) Q E s"
proof (cases "rs_evidence (c_run s) = None \<or> c_budget s = None")
  case True
  then show ?thesis by (auto simp: observe_round_def Let_def wps err split: option.splits)
next
  case False
  then obtain base where base: "rs_evidence (c_run s) = Some base" and b: "c_budget s \<noteq> None" by auto
  note started = wp_by_quiet [OF quiet_begin_call [OF polite]]
  note finish = wp_by_quiet [OF quiet_end_call [OF polite]]
  note paid = wp_by_controlled [OF controlled_each [OF controlled_charge]]
  note halt = wp_stop [where st = st and sn = sn and es = es and k = k and i = i and m = m, OF _ st(2)]
  note refused = wp_refused [where st = st and sn = sn and es = es and k = k and i = i and m = m, OF polite _ st(2)]
  note adopt = wp_adopt [where st = st and sn = sn and es = es and k = k and i = i and m = m, OF polite]
  show ?thesis
    unfolding observe_round_def Let_def wps base option.case if_not_P [OF b]
    apply (rule started)
     defer
     apply (erule err)
    apply (rule wp_by_keeps [OF keeps_ask])
    subgoal for call s1 got s2
      apply (clarsimp split: prod.splits simp: wps)
      apply (intro conjI impI)
       apply (rule finish)
        apply (rule halt)
           apply (simp add: st(1))
          apply simp
         apply simp
        apply (erule stop)
       apply (erule err)
      apply (rule paid)
       apply (rule finish)
        apply (rule adopt)
           apply (simp add: st(1))
          apply (simp add: base)
         apply (erule (1) go)
        apply (erule err)
       apply (erule err)
      apply (simp add: wps)
      apply (rule refused)
        apply (simp add: st(1))
       apply (erule stop)
      apply (erule err)
      done
    subgoal for call s1 e s2
      apply (simp add: wps)
      apply (rule refused)
        apply (simp add: st(1))
       apply (erule stop)
      apply (erule err)
      done
    done
qed

subsection \<open>Reading again and drift\<close>

lemma calm_window_of: "calm (map_res window_of ws)"
  by (auto simp: window_of_def split: pyval.splits intro!: orderly)

lemma quiet_find_drift:
  assumes "\<And>t. polite_host (host_at env t)" shows "quiet (find_drift env)"
  by (rule quietI)
     (auto simp: find_drift_def wps split: option.splits sum.splits dest: calmD [OF calm_drift [OF assms]])

lemma wp_ask:
  assumes polite: "polite_sink env" and st: "in_status Evaluating sn es k i m (c_run s)"
    and stop: "\<And>s'. ended sn es k i m (c_run s') \<Longrightarrow> Q RStopped s'"
    and go: "\<And>o' s'. o' \<noteq> RStopped \<Longrightarrow> in_status Observing sn es k i m (c_run s') \<Longrightarrow> Q o' s'"
    and err: "\<And>e s'. tame e \<Longrightarrow> E e s'"
  shows "wp (bind_op (lift_res (map_res window_of ws)) (\<lambda>windows.
     bind_op (lift_res (request_from a b c d it ps windows (windows = []) qn)) (\<lambda>q.
     then_op (move (enter Observing)) (observe_round env recorded q ps)))) Q E s"
  using calmD [OF calm_window_of] calmD [OF calm_request]
  by (auto simp: wps split: sum.splits intro!: err wp_enter [OF st]
      wp_observe_round [OF polite] stop go)

lemma wp_read_again:
  assumes polite: "polite_sink env" and st: "in_status Evaluating sn es k i m (c_run s)"
    and stop: "\<And>s'. ended sn es k i m (c_run s') \<Longrightarrow> Q RStopped s'"
    and go: "\<And>o' s'. o' \<noteq> RStopped \<Longrightarrow> in_status Observing sn es k i m (c_run s') \<Longrightarrow> Q o' s'"
    and err: "\<And>e s'. tame e \<Longrightarrow> E e s'"
  shows "wp (read_again env recorded ev report review) Q E s"
proof (cases "rs_evidence (c_run s)")
  case None
  then show ?thesis by (simp add: read_again_def Let_def wp_bind wp_get wp_fail err)
next
  case (Some base)
  show ?thesis
    unfolding read_again_def Let_def wp_bind [of get_ctl] wp_get Some option.case
    apply (rule wp_ask [where sn = sn and es = es and k = k and i = i and m = m, OF polite st])
      apply (erule stop)
     apply (erule (1) go)
    apply (erule err)
    done
qed

end
