(* ===== verification/Passes.thy ===== *)
theory Passes
  imports Loop_Facts
begin

section \<open>Passes and runs\<close>

text \<open>
  The rules of the stages of one pass, in the order of the code, then the loop and the run. What
  is outside is trusted with one thing: a file, the parser, a reader, a memory or the sink does
  not raise the exception of an illegal move.
\<close>

definition polite :: "'s env \<Rightarrow> bool" where
  "polite env \<longleftrightarrow> polite_sink env \<and> (\<forall>t. polite_host (host_at env t)) \<and> (\<forall>t. calm (json_loads env t))
     \<and> (\<forall>rd \<in> set_option (memory_reader env). \<forall>t. calm (rd t)) \<and> (\<forall>c. calm (memory_writer env c))"

lemma politeD:
  assumes "polite env"
  shows "polite_sink env" "polite_host (host_at env t)" "calm (json_loads env x)"
    "memory_reader env = Some rd \<Longrightarrow> calm (rd x)" "calm (memory_writer env c)"
  using assms by (auto simp: polite_def)

text \<open>An evaluation as the grader leaves it.\<close>

definition fair :: "evaluation \<Rightarrow> int \<Rightarrow> int \<Rightarrow> bool" where
  "fair ev i m \<longleftrightarrow> (av_passed ev \<longrightarrow> \<not> av_requires_approval ev) \<and> (av_should_retry ev \<longrightarrow> i < m)"

lemma evaluate_fair:
  assumes "evaluate h loads x = Inr ev"
  shows "fair ev (ei_iteration x) (ei_max_iterations x)"
proof -
  from assms obtain g a where "ev = evaluation_of x g a" by (rule evaluate_Inr)
  then show ?thesis by (simp add: fair_def evaluation_fields passes_def)
qed

lemma borne_out_classify:
  assumes "rs_evaluations r \<noteq> []" and "last (rs_evaluations r) = ev"
    and "fair ev (rs_iteration r) (rs_max_iterations r)"
  shows "borne_out (classify_stop (av_passed ev) (av_requires_approval ev) (av_blocked_by ev)
     (av_evidence_gaps ev) (av_retry_is_possible ev) (rs_iteration r < rs_max_iterations r)) r"
  using assms by (auto simp: borne_out_def classify_stop_def fair_def Let_def)

lemma wp_end_pass:
  assumes "in_status st sn es k i m (c_run s)" and "\<not> terminal st"
    and "q \<noteq> ApprovalRequired \<or> st = Evaluating" and "borne_out q (c_run s)"
    and "\<And>s'. ended sn es k i m (c_run s') \<Longrightarrow> Q Halt s'"
  shows "wp (end_pass q) Q E s"
  unfolding end_pass_def wps
  by (rule wp_stop [OF assms(1-4)]) (simp add: wps assms(5))

subsection \<open>After grading\<close>

lemma wp_decide:
  assumes st: "in_status st sn es k i m (c_run s)" "st \<in> {Evaluating, Observing}"
    and ev: "es \<noteq> []" "last es = ev" "fair ev i m" "av_requires_approval ev \<Longrightarrow> st = Evaluating"
    and stop: "\<And>s'. ended sn es k i m (c_run s') \<Longrightarrow> Q Halt s'"
    and again: "\<And>s'. i < m \<Longrightarrow> in_status Replanning sn es k i m (c_run s') \<Longrightarrow> Q Again s'"
  shows "wp (decide env ev) Q E s"
proof -
  have live: "\<not> terminal st" and replan: "legal st Replanning"
    using st(2) by (auto simp: legal_def transitions_def interruptions_def)
  note halt = wp_end_pass [where st = st and sn = sn and es = es and k = k and i = i and m = m, OF _ live]
  have sane: "rs_evaluations (c_run s) = es" "rs_iteration (c_run s) = i" "rs_max_iterations (c_run s) = m"
    using st(1) by (simp_all add: in_status_def held_def)
  have cls: "borne_out (classify_stop (av_passed ev) (av_requires_approval ev) (av_blocked_by ev)
     (av_evidence_gaps ev) (av_retry_is_possible ev) (i < m)) (c_run s)"
    using borne_out_classify [of "c_run s" ev] ev(1-3) sane by simp
  have approval: "classify_stop (av_passed ev) (av_requires_approval ev) b g r l \<noteq> ApprovalRequired
      \<or> st = Evaluating" for b g r l
    using ev(4) by (auto simp: classify_stop_def)
  have "i < m" if "av_should_retry ev"
    using ev(3) that by (simp add: fair_def)
  then have last: "wp (if av_requires_approval ev \<or> av_passed ev \<or> \<not> av_should_retry ev then
      end_pass (classify_stop (av_passed ev) (av_requires_approval ev) (av_blocked_by ev)
        (av_evidence_gaps ev) (av_retry_is_possible ev) (i < m))
      else then_op (move (enter Replanning)) (ret Again)) Q E s"
    by (cases "av_requires_approval ev \<or> av_passed ev \<or> \<not> av_should_retry ev")
       (simp_all add: wps halt [OF st(1) approval cls] stop wp_enter [OF st(1) replan] again)
  have stuck: "wp (then_op (note_meta a v) (end_pass NoProgress)) Q E s" for a v
    unfolding wps by (rule halt) (simp_all add: st(1) stop)
  show ?thesis
    unfolding decide_def Let_def wp_bind [of get_ctl] wp_get sane
    by (simp only: wp_if [of "identical_output env s \<and> _"] wp_if [of "repeated_failure s \<and> _"] stuck last
        if_cancel)
qed

lemma wp_settle:
  assumes st: "in_status st sn es k i m (c_run s)" "st \<in> {Evaluating, Observing}"
    and ev: "es \<noteq> []" "last es = ev" "fair ev i m" "av_requires_approval ev \<Longrightarrow> st = Evaluating"
    and stop: "\<And>s'. ended sn es k i m (c_run s') \<Longrightarrow> Q Halt s'"
    and again: "\<And>s'. i < m \<Longrightarrow> in_status Replanning sn es k i m (c_run s') \<Longrightarrow> Q Again s'"
    and err: "\<And>e s'. tame e \<Longrightarrow> E e s'"
  shows "wp (settle env ev report) Q E s"
proof -
  have live: "\<not> terminal st" using st(2) by auto
  note halt = wp_end_pass [where st = st and sn = sn and es = es and k = k and i = i and m = m, OF _ live]
  note halt' = wp_stop [where st = st and sn = sn and es = es and k = k and i = i and m = m, OF _ live]
  have calm: "tame e" if "retry_class x = Inl e" for x e
    using that by (auto simp: retry_class_def split: option.splits if_splits)
  have decided: "wp (decide env ev) Q E s"
    by (rule wp_decide [OF st ev stop again])
  show ?thesis
    unfolding settle_def no_new_material_def stop_for_drift_def
    by (auto simp: wps st(1) err decided split: option.splits sum.splits dest: calm
        intro!: err halt halt' stop)
qed

lemma wp_after_grading:
  assumes polite: "polite_sink env" and st: "in_status Evaluating sn es k i m (c_run s)"
    and ev: "es \<noteq> []" "last es = ev" "fair ev i m"
    and stop: "\<And>s'. ended sn es k i m (c_run s') \<Longrightarrow> Q Halt s'"
    and again: "\<And>s'. i < m \<Longrightarrow> in_status Replanning sn es k i m (c_run s') \<Longrightarrow> Q Again s'"
    and err: "\<And>e s'. tame e \<Longrightarrow> E e s'"
  shows "wp (after_grading env recorded review ev report) Q E s"
proof (cases "wants_reading env ev report s")
  case False
  then show ?thesis
    unfolding after_grading_def wps by simp (rule wp_settle [OF st _ ev _ stop again err]; simp)
next
  case True
  then have left: "i < m" and free: "\<not> av_requires_approval ev"
    using st by (auto simp: wants_reading_def in_status_def held_def)
  have go: "wp (case o' of RStopped \<Rightarrow> ret Halt | RNew \<Rightarrow> then_op (move (enter Replanning)) (ret Again)
        | RNothing \<Rightarrow> settle env ev report) Q E s'"
    if "o' \<noteq> RStopped" and here: "in_status Observing sn es k i m (c_run s')" for o' s'
  proof (cases o')
    case RNew
    then show ?thesis
      by (auto simp: wps legal_def transitions_def interruptions_def intro!: wp_enter [OF here] again left)
  next
    case RNothing
    then show ?thesis
      using free by simp (rule wp_settle [OF here _ ev _ stop again err]; simp)
  qed (use that in simp)
  show ?thesis
    unfolding after_grading_def wps if_P [OF True]
    apply (rule wp_read_again [OF polite st])
      apply (simp add: wps stop)
     apply (erule (1) go)
    apply (erule err)
    done
qed

subsection \<open>Producing\<close>

lemma quiet_upd [simp]: "quiet (upd_ctl (\<lambda>s. s\<lparr>c_budget := b, c_log := l\<rparr>))"
  by (rule quietI) (simp add: wps)

lemma quiet_case [simp]:
  "(\<And>e. quiet (f e)) \<Longrightarrow> (\<And>x. quiet (g x)) \<Longrightarrow> quiet (case v of Inl e \<Rightarrow> f e | Inr x \<Rightarrow> g x)"
  "quiet m \<Longrightarrow> (\<And>y. quiet (h y)) \<Longrightarrow> quiet (case w of None \<Rightarrow> m | Some y \<Rightarrow> h y)"
  "(\<And>a b. quiet (n a b)) \<Longrightarrow> quiet (case p of (a, b) \<Rightarrow> n a b)"
  by (auto split: sum.splits option.splits prod.splits)

lemma quiet_make_call:
  assumes "polite_sink env" shows "quiet (make_call env inp)"
  unfolding make_call_def Let_def using assms
  by (auto intro!: quiet_steps quiet_case keeps_basic quiet_keeps [OF quiet_begin_call]
      quiet_keeps [OF quiet_end_call])

lemma wp_model_failed:
  assumes "polite_sink env" and "in_status st sn es k i m (c_run s)" and "\<not> terminal st"
    and "\<And>s'. ended sn es k i m (c_run s') \<Longrightarrow> Q None s'" and "\<And>e s'. tame e \<Longrightarrow> E e s'"
  shows "wp (model_failed env call e) Q E s"
  unfolding model_failed_def wps using assms
  by (auto simp: wps intro!: wp_by_quiet [OF quiet_end_call] wp_control wp_failure)

lemma wp_produce_model:
  assumes polite: "polite_sink env" and st: "in_status st sn es k i m (c_run s)" "\<not> terminal st"
    and stop: "\<And>s'. ended sn es k i m (c_run s') \<Longrightarrow> Q None s'"
    and go: "\<And>x s'. in_status st sn es k i m (c_run s') \<Longrightarrow> Q (Some x) s'"
    and err: "\<And>e s'. tame e \<Longrightarrow> E e s'"
  shows "wp (produce_model env inp) Q E s"
proof -
  have failed: "wp (model_failed env call e) Q E s1" if "c_run s1 = c_run s" for call e s1
    by (rule wp_model_failed [where st = st and sn = sn and es = es and k = k and i = i and m = m])
       (simp_all add: polite st that stop err)
  have charged: "keeps (charge_call env mo)" for mo
    by (simp add: charge_call_def keeps_then keeps_basic)
  have paid: "wp (bind_op (attempt (charge_call env mo)) (\<lambda>paid. case paid of
       Inl e \<Rightarrow> model_failed env call e
     | Inr _ \<Rightarrow> then_op (note_result (fst mo)) (ret (Some (case mr_block (fst mo) of
         Some block \<Rightarrow> (snd mo, block, ''findings_block'')
       | None \<Rightarrow> (snd mo, snd mo, ''adapter_output'')))))) Q E s1"
    if "c_run s1 = c_run s" for mo call s1
    unfolding wps
    by (rule wp_by_keeps [OF charged])
       (simp_all add: that st(1) failed note_result_def wps go)
  show ?thesis
    unfolding produce_model_def wp_bind [of "make_call env inp"]
    apply (rule wp_by_quiet [OF quiet_make_call [OF polite]])
    subgoal for got s1
      by (cases got; cases "fst got") (simp_all add: failed paid)
    apply (erule err)
    done
qed

lemma wp_produce_rules:
  assumes st: "in_status st sn es k i m (c_run s)" "\<not> terminal st"
    and stop: "\<And>s'. ended sn es k i m (c_run s') \<Longrightarrow> Q None s'"
    and go: "\<And>x s'. in_status st sn es k i m (c_run s') \<Longrightarrow> Q (Some x) s'"
    and err: "\<And>e s'. tame e \<Longrightarrow> E e s'"
  shows "wp (produce_rules env inp) Q E s"
proof -
  have paid: "wp (bind_op (attempt (budget_op env (\<lambda>r. charge_output r out))) (\<lambda>paid. case paid of
       Inl e \<Rightarrow> then_op (control_stop e) (ret None)
     | Inr _ \<Rightarrow> ret (Some x))) Q E s" for out x
    unfolding wps
    by (rule wp_by_controlled [OF controlled_charge])
       (auto simp: st wps go stop intro!: wp_control [where st = st and sn = sn and es = es and k = k
         and i = i and m = m])
  show ?thesis
    unfolding produce_rules_def
    using paid calmD [OF calm_produce]
    by (auto simp: wps split: sum.splits intro!: err)
qed

subsection \<open>One pass\<close>

lemma wp_go:
  assumes "wp m (\<lambda>b s'. if b then Q Halt s' else wp n Q E s') E s"
  shows "wp (go m n) Q E s"
  unfolding go_def wps using assms by (rule wp_weaken) (auto simp: wps split: if_splits)

lemma wp_go_expired:
  assumes st: "in_status st sn es k i m (c_run s)" "\<not> terminal st"
    and stop: "\<And>q s'. q \<in> control_reasons \<Longrightarrow> rs_stop_reason (c_run s') = Some q
      \<Longrightarrow> ended sn es k i m (c_run s') \<Longrightarrow> Q Halt s'"
    and on: "\<And>s'. in_status st sn es k i m (c_run s') \<Longrightarrow> wp n Q E s'"
  shows "wp (go (expired env) n) Q E s"
  by (rule wp_go, rule wp_expired [OF st]) (simp_all add: stop on)

lemma grading_input_tick: "grading_input (s\<lparr>c_tick := t\<rparr>) = grading_input s"
  by (simp add: grading_input_def resolved_patterns_def fun_eq_iff)

lemma wp_grade_pass:
  fixes s :: "'s ctl"
  assumes polite: "polite env" and st: "in_status Evaluating sn es k i m (c_run s)" "length es < k"
    and stop: "\<And>ev s'. ended sn (es @ [ev]) k i m (c_run s') \<Longrightarrow> Q Halt s'"
    and again: "\<And>ev s'. i < m \<Longrightarrow> in_status Replanning sn (es @ [ev]) k i m (c_run s') \<Longrightarrow> Q Again s'"
    and err: "\<And>e s'. tame e \<Longrightarrow> E e s'"
  shows "wp (grade_pass env recorded task route plan out src) Q E s"
proof -
  note sink = politeD(1) [OF polite]
  let ?x = "grading_input s task route plan out src"
  have calm: "calm (evaluate (host_at env t) (json_loads env) ?x)" for t
    using st(1) politeD(2,3) [OF polite]
    by (intro calm_evaluate) (auto simp: grading_input_def in_status_def held_def)
  have x: "ei_iteration ?x = i" "ei_max_iterations ?x = m"
    using st(1) by (simp_all add: grading_input_def in_status_def held_def)
  have graded: "in_status Evaluating sn (es @ [ev]) k i m
      ((c_run s)\<lparr>rs_evaluations := rs_evaluations (c_run s) @ [ev]\<rparr>)" for ev
    using st by (auto simp: in_status_def held_def)
  have after: "wp (go (expired env) (bind_op (find_drift env)
      (after_grading env recorded (pl_review plan) ev))) Q E s1"
    if "in_status Evaluating sn (es @ [ev]) k i m (c_run s1)" and "fair ev i m" for ev s1
  proof (rule wp_go_expired [OF that(1)])
    fix s2 :: "'s ctl"
    assume here: "in_status Evaluating sn (es @ [ev]) k i m (c_run s2)"
    show "wp (bind_op (find_drift env) (after_grading env recorded (pl_review plan) ev)) Q E s2"
      unfolding wp_bind
      by (rule wp_by_quiet [OF quiet_find_drift [OF politeD(2) [OF polite]]])
         (auto simp: here that(2) err sink intro: stop again
           intro!: wp_after_grading [where sn = sn and es = "es @ [ev]" and k = k and i = i and m = m])
  qed (simp_all add: stop)
  show ?thesis
    unfolding grade_pass_def
    using calmD [OF calm] evaluate_fair [of _ _ ?x]
    by (auto simp: wps x grading_input_tick split: sum.splits
        intro!: err wp_by_quiet [OF quiet_log_fact [OF sink]] after graded)
qed

lemma wp_execute_pass:
  fixes s :: "'s ctl"
  assumes polite: "polite env" and st: "in_status Executing sn es k i m (c_run s)" "int k < i"
    and stop: "\<And>es' k' s'. ended sn es' k' i m (c_run s') \<Longrightarrow> Q Halt s'"
    and again: "\<And>es' k' s'. i < m \<Longrightarrow> in_status Replanning sn es' k' i m (c_run s') \<Longrightarrow> Q Again s'"
    and err: "\<And>e s'. tame e \<Longrightarrow> E e s'"
  shows "wp (execute_pass env recorded task route plan) Q E s"
proof -
  have noted: "in_status Executing sn es (Suc k) i m (r\<lparr>rs_outputs := rs_outputs r @ [out]\<rparr>)"
    if "in_status Executing sn es k i m r" for r out
    using that st(2) by (auto simp: in_status_def held_def)
  have grade: "wp (then_op (record_output out origin) (then_op (move (enter Evaluating))
      (go (expired env) (grade_pass env recorded task route plan out src)))) Q E s1"
    if here: "in_status Executing sn es k i m (c_run s1)" for out src origin s1
  proof -
    have "length es < Suc k" using here by (simp add: in_status_def held_def)
    then have "wp (go (expired env) (grade_pass env recorded task route plan out src)) Q E s2"
      if "in_status Evaluating sn es (Suc k) i m (c_run s2)" for s2
      by (intro wp_go_expired [OF that] wp_grade_pass [OF polite]) (auto intro: stop again err)
    then show ?thesis
      unfolding record_output_def wps
      by (intro wp_enter [where st = Executing and sn = sn and es = es and k = "Suc k" and i = i and m = m])
         (simp_all add: noted [OF here] legal_def transitions_def interruptions_def)
  qed
  show ?thesis
    unfolding execute_pass_def
  proof (rule wp_go_expired [OF st(1)])
    fix s1 :: "'s ctl"
    assume here: "in_status Executing sn es k i m (c_run s1)"
    show "wp (bind_op get_ctl (\<lambda>s.
       let inp = \<lparr>mi_task = task, mi_route = route, mi_plan = plan,
             mi_observations = rs_observations (c_run s),
             mi_feedback = last_of (rs_evaluations (c_run s))\<rparr> in
       bind_op (if adapter env \<noteq> None then produce_model env inp else produce_rules env inp) (\<lambda>p. case p of
         None \<Rightarrow> ret Halt
       | Some (out, src, origin) \<Rightarrow> then_op (record_output out origin)
           (then_op (move (enter Evaluating))
           (go (expired env) (grade_pass env recorded task route plan out src)))))) Q E s1"
      unfolding wp_bind wp_get Let_def
      by (auto simp: wp_ret wp_prod split: prod.splits
          intro!: wp_produce_model [OF politeD(1) [OF polite] here] wp_produce_rules [OF here] stop err grade)
  qed (simp_all add: stop)
qed

lemma wp_one_pass:
  fixes s :: "'s ctl"
  assumes polite: "polite env" and st: "in_status st sn es k i m (c_run s)" "st \<in> {Observing, Replanning}"
    and early: "\<And>q s'. q \<in> control_reasons \<Longrightarrow> rs_stop_reason (c_run s') = Some q
      \<Longrightarrow> ended sn es k i m (c_run s') \<Longrightarrow> Q Halt s'"
    and stop: "\<And>es' k' s'. ended sn es' k' (i + 1) m (c_run s') \<Longrightarrow> Q Halt s'"
    and again: "\<And>es' k' s'. i + 1 < m \<Longrightarrow> in_status Replanning sn es' k' (i + 1) m (c_run s') \<Longrightarrow> Q Again s'"
    and err: "\<And>e s'. tame e \<Longrightarrow> E e s'"
  shows "wp (one_pass env recorded task) Q E s"
  unfolding one_pass_def
proof (rule wp_go_expired [OF st(1)])
  show "\<not> terminal st" using st(2) by auto
  show "Q Halt s'" if "q \<in> control_reasons" "rs_stop_reason (c_run s') = Some q"
      "ended sn es k i m (c_run s')" for q s'
    using that by (rule early)
  fix s1 :: "'s ctl"
  assume here: "in_status st sn es k i m (c_run s1)"
  have legal: "legal st Routing" "legal Routing Planning" "legal Planning Executing"
    using st(2) by (auto simp: legal_def transitions_def interruptions_def)
  have counted: "in_status st sn es k (i + 1) m ((c_run s1)\<lparr>rs_iteration := rs_iteration (c_run s1) + 1\<rparr>)"
      "int k < i + 1"
    using here by (auto simp: in_status_def held_def)
  have keep [simp]: "in_status u sn es k j m (r\<lparr>rs_route := x\<rparr>) = in_status u sn es k j m r"
      "in_status u sn es k j m (r\<lparr>rs_plan := y\<rparr>) = in_status u sn es k j m r" for u j r x y
    by (simp_all add: in_status_def held_def)
  have executed: "wp (execute_pass env recorded task route plan) Q E s2"
    if "in_status Executing sn es k (i + 1) m (c_run s2)" for route plan s2
    by (rule wp_execute_pass [OF polite that counted(2)]) (auto intro: stop again err)
  have planned: "wp (then_op (upd_run (\<lambda>r. r\<lparr>rs_plan := Some plan\<rparr>))
       (then_op (log_fact env c j p) (then_op (move (enter Executing))
         (execute_pass env recorded task route plan)))) Q E s2"
    if there: "in_status Planning sn es k (i + 1) m (c_run s2)" for plan c j p route s2
    unfolding wps
    by (rule wp_by_quiet [OF quiet_log_fact [OF politeD(1) [OF polite]]])
       (auto simp: there err intro!: executed
          wp_enter [where st = Planning and sn = sn and es = es and k = k and i = "i + 1" and m = m] legal)
  show "wp (then_op (upd_run (\<lambda>r. r\<lparr>rs_iteration := rs_iteration r + 1\<rparr>))
     (then_op (move (enter Routing))
     (then_op (upd_run (\<lambda>r. r\<lparr>rs_route := Some (select_route task)\<rparr>))
     (then_op (move (enter Planning)) (bind_op get_ctl (\<lambda>s.
     bind_op (lift_res (build_plan task (select_route task)
       (map_option (snap_id \<circ> base_snapshot) (rs_evidence (c_run s))))) (\<lambda>plan.
     then_op (upd_run (\<lambda>r. r\<lparr>rs_plan := Some plan\<rparr>))
     (then_op (log_fact env ''plan_selected'' (rs_iteration (c_run s))
       (plan_payload (select_route task) plan))
     (then_op (move (enter Executing))
       (execute_pass env recorded task (select_route task) plan)))))))))) Q E s1"
    unfolding wp_then [of "upd_run _" "then_op (move (enter Routing)) _"] wp_upd_run
      wp_then [of "move (enter Routing)"]
    apply (rule wp_enter [where st = st and sn = sn and es = es and k = k and i = "i + 1" and m = m])
      apply (simp add: counted)
     apply (rule legal)
    unfolding wp_then [of "upd_run _" "then_op (move (enter Planning)) _"] wp_upd_run
      wp_then [of "move (enter Planning)"]
    apply (rule wp_enter [where st = Routing and sn = sn and es = es and k = k and i = "i + 1" and m = m])
      apply simp
     apply (rule legal)
    unfolding wp_bind [of get_ctl] wp_get wp_bind [of "lift_res _"] wp_lift
    by (auto split: sum.splits intro!: planned err dest: calmD [OF calm_build_plan])
qed

subsection \<open>The loop\<close>

text \<open>With one unit of fuel per pass left, the loop never runs out: it ends the run.\<close>

lemma wp_run_loop:
  assumes polite: "polite env" and st: "in_status st sn es k i m (c_run s)" "st \<in> {Observing, Replanning}"
    and fuel: "i < m" "m - i \<le> int n"
    and stop: "\<And>es' k' i' s'. i' \<le> m \<Longrightarrow> ended sn es' k' i' m (c_run s') \<Longrightarrow> Q () s'"
    and err: "\<And>e s'. tame e \<Longrightarrow> E e s'"
  shows "wp (run_loop n env recorded task) Q E s"
  using st fuel
proof (induction n arbitrary: st es k i s)
  case (Suc n)
  then have left: "rs_iteration (c_run s) < rs_max_iterations (c_run s)"
    by (simp add: in_status_def held_def)
  have next_pass: "wp (run_loop n env recorded task) Q E s'"
    if "i + 1 < m" "in_status Replanning sn es' k' (i + 1) m (c_run s')" for es' k' s'
    using Suc.prems(4) that by (intro Suc.IH) auto
  have halt: "Q () s'" if "i' \<in> {i, i + 1}" "ended sn es' k' i' m (c_run s')" for es' k' i' s'
    using Suc.prems(3) that(1) by (intro stop [OF _ that(2)]) auto
  show ?case
    unfolding run_loop.simps wp_bind [of get_ctl] wp_get if_P [OF left] wp_bind [of "one_pass _ _ _"]
    by (rule wp_one_pass [OF polite Suc.prems(1,2)])
       (auto simp: wp_ret intro: halt next_pass err)
qed simp

subsection \<open>The run\<close>

lemma held_obs [simp]: "held sn es k i m (r\<lparr>rs_observations := x\<rparr>) = held sn es k i m r"
    "in_status u sn es k i m (r\<lparr>rs_observations := x\<rparr>) = in_status u sn es k i m r"
    "ended sn es k i m (r\<lparr>rs_memory_candidates := c\<rparr>) = ended sn es k i m r"
  by (simp_all add: held_def in_status_def ended_def borne_out_def)

lemma wp_read_one:
  assumes "in_status st sn es k i m (c_run s)"
    and "\<And>s'. in_status st sn es k i m (c_run s') \<Longrightarrow> Q () s'"
    and "\<And>e s'. in_status st sn es k i m (c_run s') \<Longrightarrow> E e s'"
  shows "wp (read_one env task rd) Q E s"
  unfolding read_one_def using assms
  by (auto simp: wps split: option.splits prod.splits sum.splits pyval.splits
      intro!: wp_by_controlled [OF controlled_check] wp_by_controlled [OF controlled_charge])

lemma wp_each_reader:
  assumes "in_status st sn es k i m (c_run s)"
    and "\<And>s'. in_status st sn es k i m (c_run s') \<Longrightarrow> Q () s'"
    and "\<And>e s'. in_status st sn es k i m (c_run s') \<Longrightarrow> E e s'"
  shows "wp (each_op (read_one env task) rds) Q E s"
  using assms(1)
proof (induction rds arbitrary: s)
  case Nil
  then show ?case by (simp add: wps assms(2))
next
  case (Cons rd rds)
  show ?case
    unfolding each_op.simps wps
    by (rule wp_read_one [OF Cons.prems]) (auto intro: Cons.IH assms(3))
qed

lemma wp_read_sources:
  assumes st: "in_status st sn es k i m (c_run s)" "\<not> terminal st"
    and stop: "\<And>s'. ended sn es k i m (c_run s') \<Longrightarrow> Q True s'"
    and go: "\<And>s'. in_status st sn es k i m (c_run s') \<Longrightarrow> Q False s'"
  shows "wp (read_sources env task) Q E s"
  unfolding read_sources_def wps
  by (rule wp_each_reader [OF st(1)])
     (auto simp: wps st(2) intro: go stop intro!:
       wp_control [where st = st and sn = sn and es = es and k = k and i = i and m = m]
       wp_failure [where st = st and sn = sn and es = es and k = k and i = i and m = m])

lemma wp_read_memory:
  assumes "polite env" and "in_status st sn es k i m (c_run s)"
    and "\<And>s'. in_status st sn es k i m (c_run s') \<Longrightarrow> Q () s'" and "\<And>e s'. tame e \<Longrightarrow> E e s'"
  shows "wp (read_memory env task) Q E s"
  unfolding read_memory_def using assms(2) politeD(4) [OF assms(1), THEN calmD]
  by (auto simp: wps split: option.splits sum.splits intro!: assms(3,4))

lemma wp_first_read:
  assumes polite: "polite env" and st: "in_status st sn es k i m (c_run s)" "\<not> terminal st"
    and stop: "\<And>s'. ended sn es k i m (c_run s') \<Longrightarrow> Q True s'"
    and go: "\<And>s'. in_status st sn es k i m (c_run s') \<Longrightarrow> Q False s'"
    and err: "\<And>e s'. tame e \<Longrightarrow> E e s'"
  shows "wp (first_read env recorded task wanted) Q E s"
proof -
  have round: "wp (observe_round env recorded q ps) (\<lambda>o'. wp (ret (o' = RStopped)) Q E) E s" for q ps
    by (rule wp_observe_round [OF politeD(1) [OF polite] st]) (auto simp: wps intro: stop go err)
  show ?thesis
    unfolding first_read_def Let_def
    using round calmD [OF calm_build_plan] calmD [OF calm_request] st(1)
    by (auto simp: wp_get wp_bind wp_option wp_ret wp_if wp_lift split: option.splits sum.splits intro: err go)
qed

lemma quiet_stopped: "polite_sink env \<Longrightarrow> quiet (stopped env)"
  unfolding stopped_def Let_def by (intro quiet_bind quiet_basic quiet_log_fact)

lemma wp_note_usage:
  assumes "ended sn es k i m (c_run s)" and "\<And>s'. ended sn es k i m (c_run s') \<Longrightarrow> Q () s'"
  shows "wp note_usage Q E s"
  using assms by (auto simp: note_usage_def wps split: option.splits)

lemma wp_leave:
  assumes "polite_sink env" and "ended sn es k i m (c_run s)"
    and "\<And>s'. ended sn es k i m (c_run s') \<Longrightarrow> Q () s'" and "\<And>e s'. tame e \<Longrightarrow> E e s'"
  shows "wp (then_op note_usage (stopped env)) Q E s"
  unfolding wps
  by (rule wp_note_usage [OF assms(2)], rule wp_by_quiet [OF quiet_stopped [OF assms(1)]])
     (simp_all add: assms(3,4))

lemma wp_finish_run:
  assumes "polite env" and "ended sn es k i m (c_run s)"
    and "\<And>s'. ended sn es k i m (c_run s') \<Longrightarrow> Q () s'" and "\<And>e s'. tame e \<Longrightarrow> E e s'"
  shows "wp (finish_run env) Q E s"
proof -
  have why: "rs_stop_reason (c_run s) \<noteq> None" using assms(2) by (auto simp: ended_def)
  have remembered: "wp (then_op (remember env) (stopped env)) Q E s1"
    if "ended sn es k i m (c_run s1)" for s1
    unfolding remember_def Let_def wps
    using that calmD [OF politeD(5) [OF assms(1)]]
    by (auto simp: assms(3,4) wps split: sum.splits
        intro!: wp_by_quiet [OF quiet_stopped [OF politeD(1) [OF assms(1)]]])
  show ?thesis
    unfolding finish_run_def wp_bind [of get_ctl] wp_get wp_then [of "when_op _ _"] wp_when
      wp_then [of note_usage]
    using why by (auto simp: wp_note intro!: wp_note_usage [OF assms(2)] remembered)
qed

definition polite_args :: "'s run_args \<Rightarrow> bool" where
  "polite_args a \<longleftrightarrow> (\<forall>b \<in> set_option (ra_evidence a). base_ok b \<and> polite_readers (base_readers b))"

lemma calm_mk_log: "calm (mk_log run sink previous)"
proof -
  have pair: "calm (pair_of v)" for v
    by (auto simp: pair_of_def calm_def split: pyval.splits list.splits)
  have dict: "calm (as_dict v)" for v
    by (auto simp: as_dict_def split: pyval.splits intro!: orderly pair)
  have event: "calm (mk_event e)" for e
    by (simp add: mk_event_def calm_def)
  have "calm (event_from_record r)" for r
    unfolding event_from_record_def by (intro orderly dict event) simp
  then show ?thesis
    unfolding mk_log_def by (intro orderly) simp_all
qed

lemma calm_unfinished: "calm (unfinished_calls rs)"
proof -
  have "calm (call_step r d)" for r d
    by (auto simp: call_step_def split: pyval.splits intro!: orderly)
  then have "calm (call_fold rs d)" for d
    by (induction rs arbitrary: d) (auto intro!: orderly)
  then show ?thesis
    unfolding unfinished_calls_def call_states_def by (intro orderly)
qed

lemma quiet_open_log:
  assumes "polite_sink env" shows "quiet (open_log env a)"
proof -
  have upd: "quiet (upd_ctl (\<lambda>s. s\<lparr>c_log := l\<rparr>))" for l
    by (rule quietI) (simp add: wps)
  show ?thesis
    unfolding open_log_def
    by (auto intro!: quiet_basic quiet_bind quiet_then quiet_log_fact assms upd
        split: option.splits dest: calmD [OF calm_mk_log] calmD [OF calm_unfinished])
qed

lemma wp_run_body:
  fixes s :: "'s ctl" and a :: "'s run_args"
  defines "sn \<equiv> map_option base_snapshot (ra_evidence a)"
  assumes polite: "polite env" "polite_args a" and m: "1 \<le> ra_max a"
    and new: "c_run s = new_run t run_id (ra_max a)"
    and stop: "\<And>es k i s'. i \<le> ra_max a \<Longrightarrow> ended sn es k i (ra_max a) (c_run s') \<Longrightarrow> Q () s'"
    and err: "\<And>e s'. tame e \<Longrightarrow> E e s'"
  shows "wp (run_body env recorded a) Q E s"
proof -
  let ?m = "ra_max a" and ?task = "ra_task a"
  note sink = politeD(1) [OF polite(1)]
  have left: "wp (then_op note_usage (stopped env)) Q E s1" if "ended sn [] 0 0 ?m (c_run s1)" for s1
    by (rule wp_leave [OF sink that]) (use m in \<open>auto intro: stop [where i = 0] err\<close>)
  have loop: "wp (then_op (run_loop (nat ?m) env recorded ?task) (finish_run env)) Q E s1"
    if "in_status Observing sn [] 0 0 ?m (c_run s1)" for s1
    unfolding wp_then
    by (rule wp_run_loop [OF polite(1) that])
       (use m in \<open>auto intro: stop err intro!: wp_finish_run [OF polite(1)]\<close>)
  have first: "wp (bind_op (first_read env recorded ?task (ra_read_first a)) (\<lambda>x.
      if x then then_op note_usage (stopped env)
      else then_op (run_loop (nat ?m) env recorded ?task) (finish_run env))) Q E s1"
    if "in_status Observing sn [] 0 0 ?m (c_run s1)" for s1
    unfolding wp_bind by (rule wp_first_read [OF polite(1) that]) (auto intro: left loop err)
  let ?start = "bind_op (expired env) (\<lambda>x. if x then then_op note_usage (stopped env) else
      bind_op (first_read env recorded ?task (ra_read_first a)) (\<lambda>x.
      if x then then_op note_usage (stopped env)
      else then_op (run_loop (nat ?m) env recorded ?task) (finish_run env)))"
  have deadline: "wp ?start Q E s1" if "in_status Observing sn [] 0 0 ?m (c_run s1)" for s1
    unfolding wp_bind [of "expired env"] by (rule wp_expired [OF that]) (auto intro: left first)
  let ?warn = "case safety_notice ?task of None \<Rightarrow> ret ()
        | Some n \<Rightarrow> if n = [] then ret () else note_meta ''safety_notice'' (PStr n)"
  have recalled: "wp (then_op (read_memory env ?task) (then_op ?warn ?start)) Q E s1"
    if "in_status Observing sn [] 0 0 ?m (c_run s1)" for s1
    unfolding wp_then
    by (rule wp_read_memory [OF polite(1) that])
       (auto simp: wp_option wp_ret wp_if wp_note err intro!: deadline split: option.splits)
  have opened: "in_status Observing sn [] 0 0 ?m
      (r\<lparr>rs_observations := x, rs_evidence := ra_evidence a\<rparr>)"
    if "in_status Observing None [] 0 0 ?m r" for r x
    using that polite(2) by (auto simp: sn_def in_status_def held_def polite_args_def split: option.splits)
  have "in_status New None [] 0 0 ?m (c_run s)"
    by (simp add: new new_run_def in_status_def held_def)
  then show ?thesis
    unfolding run_body_def Let_def wp_then [of "move _"]
  proof (rule wp_enter)
    show "legal New Observing" by (simp add: legal_def transitions_def)
    fix s1 :: "'s ctl"
    assume "in_status Observing None [] 0 0 ?m (c_run s1)"
    then show "wp (then_op (upd_run (\<lambda>r. r\<lparr>rs_observations := rs_observations r @ ra_observations a,
         rs_evidence := ra_evidence a\<rparr>))
     (bind_op (read_sources env ?task) (\<lambda>x. if x then then_op note_usage (stopped env) else
       then_op (read_memory env ?task) (then_op ?warn ?start)))) Q E s1"
      unfolding wp_then [of "upd_run _"] wp_upd_run wp_bind [of "read_sources _ _"]
      by (intro wp_read_sources [where st = Observing and sn = sn and es = "[]" and k = 0 and i = 0 and m = ?m])
         (auto simp: opened intro!: left recalled)
  qed
qed

end
