(* ===== verification/Samples.thy ===== *)
theory Samples
  imports Passes
begin

section \<open>Two runs\<close>

text \<open>
  Concrete runs, evaluated: one that is cancelled before its first pass, with a log, and one that
  passes on the output of a model. They show that the theorems over runs apply.
\<close>

text \<open>A run that is cancelled before its first pass.\<close>

definition sample_env :: "unit env" where
  "sample_env = \<lparr>host_at = (\<lambda>_. sample_host), reading_at = (\<lambda>_. \<lparr>cancelled = True, now = 0\<rparr>),
     stamp_at = (\<lambda>_. ''2026-01-01T00:00:00Z''), sink_wr = (\<lambda>s r. Inr s), json_loads = (\<lambda>_. Inl JSONDecodeError),
     hash = (\<lambda>s. s), input_json = (\<lambda>_. PNone), request_json = (\<lambda>_. PNone), adapter = None,
     adapter_name = [], adapter_idempotent = False, observer = None, readers = [], memory_reader = None,
     memory_writer = (\<lambda>_. Inr None), float_text = (\<lambda>_. []), tools = False\<rparr>"

definition sample_args :: "unit run_args" where
  "sample_args = \<lparr>ra_task = ''look'', ra_observations = [], ra_evidence = None, ra_limits = None,
     ra_read_first = False, ra_run_id = ''r'', ra_max = 2, ra_previous = None, ra_sink = Some ()\<rparr>"

lemma sample_polite: "polite sample_env" "polite_args sample_args"
  by (simp_all add: polite_def sample_env_def polite_sink_def polite_host_def sample_host_def calm_def
      polite_args_def sample_args_def)

lemma sample_run: "fst (run_all sample_env sample_args) = Inr ()
    \<and> rs_stop_reason (c_run (snd (run_all sample_env sample_args))) = Some StopCancelled"
  by code_simp

lemma sample_logged: "fst (run_all sample_env sample_args) = Inr ()
    \<and> c_log (snd (run_all sample_env sample_args)) \<noteq> None"
  by code_simp

text \<open>A run whose first output passes.\<close>

definition live_env :: "unit env" where
  "live_env = sample_env\<lparr>reading_at := (\<lambda>_. \<lparr>cancelled = False, now = 0\<rparr>), adapter := Some (\<lambda>_ _ b l.
     (Inr (Reply \<lparr>mr_output = Some sample_output, mr_model = None, mr_provider = None, mr_metadata = [],
       mr_block = None\<rparr>), b, l))\<rparr>"

definition live_args :: "unit run_args" where
  "live_args = sample_args\<lparr>ra_sink := None, ra_task := ''repo'',
     ra_observations := [''README.md:'' @ [LF] @ ''text'']\<rparr>"

lemma live_polite: "polite live_env" "polite_args live_args"
  by (simp_all add: polite_def live_env_def live_args_def sample_env_def polite_sink_def polite_host_def
      sample_host_def calm_def polite_args_def sample_args_def)

lemma live_run: "case run_all live_env live_args of (r, s) \<Rightarrow>
    r = Inr () \<and> rs_stop_reason (c_run s) = Some Passed"
  by code_simp

end
