(* ===== verification/Runs.thy ===== *)
theory Runs
  imports Samples
begin

section \<open>What a run promises\<close>

text \<open>
  The theorems over whole runs, from the stage rules of \<open>Passes\<close>, and the abstract loop they
  implement.
\<close>

lemma run_all_ends:
  assumes polite: "polite env" "polite_args a"
  shows "wp (\<lambda>s. run_all env a) (\<lambda>_ s'. \<exists>es k i. i \<le> ra_max a
      \<and> ended (map_option base_snapshot (ra_evidence a)) es k i (ra_max a) (c_run s')) (\<lambda>e _. tame e) s"
proof (cases "ra_max a < 1 \<or> unmetered env a")
  case True
  then show ?thesis by (auto simp: wp_def run_all_def)
next
  case False
  let ?Q = "\<lambda>_ s'. \<exists>es k i. i \<le> ra_max a
      \<and> ended (map_option base_snapshot (ra_evidence a)) es k i (ra_max a) (c_run s')"
  let ?E = "\<lambda>e (_ :: 'a ctl). tame e"
  have body: "wp (run_body env r a) ?Q ?E s1"
    if "c_run s1 = new_run (ra_task a) (ra_run_id a) (ra_max a)" for r s1
    by (rule wp_run_body [OF polite _ that]) (use False in auto)
  have "wp (then_op (open_log env a)
        (then_op (case ra_limits a of None \<Rightarrow> ret ()
           | Some l \<Rightarrow> bind_op tick_op (\<lambda>t. upd_ctl (\<lambda>s. s\<lparr>c_budget := Some (mk_budget l (now (reading_at env t)))\<rparr>)))
        (run_body env (recorded_rounds (ra_previous a)) a))) ?Q ?E (fresh_ctl a)"
    unfolding wp_then
    by (rule wp_by_quiet [OF quiet_open_log [OF politeD(1) [OF polite(1)]]])
       (auto simp: wps fresh_ctl_def split: option.splits intro!: body)
  with False show ?thesis by (simp add: wp_def run_all_def)
qed

lemma run_all_done:
  assumes "polite env" "polite_args a" "run_all env a = (Inr (), s)"
  obtains es k i where "i \<le> ra_max a"
    "ended (map_option base_snapshot (ra_evidence a)) es k i (ra_max a) (c_run s)"
  using wpD [OF run_all_ends [OF assms(1,2)] assms(3)] by auto

lemma run_all_failed:
  assumes "polite env" "polite_args a" "run_all env a = (Inl e, s)"
  shows "e \<noteq> InvalidTransition"
  using wpE [OF run_all_ends [OF assms(1,2)] assms(3)] by (simp add: tame_def)

subsection \<open>The last event\<close>

definition closed_log :: "'s ctl \<Rightarrow> bool" where
  "closed_log s \<longleftrightarrow> (case c_log s of None \<Rightarrow> True | Some l \<Rightarrow> log_events l \<noteq> []
     \<and> ev_kind (last (log_events l)) = ''run_stopped''
     \<and> ev_iteration (last (log_events l)) = rs_iteration (c_run s))"

lemma wp_any: "(\<And>a s'. Q a s') \<Longrightarrow> (\<And>e s'. E e s') \<Longrightarrow> wp m Q E s"
  by (auto simp: wp_def split: prod.splits sum.splits)

lemma log_fact_last:
  "wp (log_fact env kind it p) (\<lambda>_ s'. c_run s' = c_run s \<and> (case c_log s' of None \<Rightarrow> True
     | Some l \<Rightarrow> log_events l \<noteq> [] \<and> ev_kind (last (log_events l)) = kind
        \<and> ev_iteration (last (log_events l)) = it)) (\<lambda>_ _. True) s"
proof (cases "c_log s")
  case None
  then show ?thesis by (simp add: log_fact_def wps wp_def log_op_def ret_def then_op_def bind_op_def)
next
  case (Some l)
  obtain l' r where app: "log_append (sink_wr env) (stamp_at env (c_tick s)) kind it PNone p l = (l', r)"
    by fastforce
  have "log_events l' \<noteq> [] \<and> ev_kind (last (log_events l')) = kind \<and> ev_iteration (last (log_events l')) = it"
    if "r = Inr x" for x
    using app that by (auto simp: log_append_def mk_event_def Let_def split: sum.splits option.splits if_splits)
  with Some app show ?thesis
    by (cases r) (simp_all add: log_fact_def wp_def log_op_def ret_def then_op_def bind_op_def)
qed

lemma stopped_closes: "wp (stopped env) (\<lambda>_. closed_log) (\<lambda>_ _. True) s"
  unfolding stopped_def Let_def wps
  by (rule wp_weaken [OF log_fact_last]) (auto simp: closed_log_def split: option.splits)

lemma run_body_closes: "wp (run_body env r a) (\<lambda>_. closed_log) (\<lambda>_ _. True) s"
proof -
  have leave: "wp (then_op note_usage (stopped env)) (\<lambda>_. closed_log) (\<lambda>_ _. True) s1" for s1
    unfolding wp_then by (intro wp_any stopped_closes) simp
  have finish: "wp (finish_run env) (\<lambda>_. closed_log) (\<lambda>_ _. True) s1" for s1
    unfolding finish_run_def wp_then wp_bind [of get_ctl] wp_get by (intro wp_any stopped_closes) simp_all
  show ?thesis
    unfolding run_body_def Let_def wp_then [of "move _"] wp_then [of "upd_run _"] wp_bind [of "read_sources _ _"]
      wp_if wp_then [of "read_memory _ _"] wp_then [of "case _ of None \<Rightarrow> _ | Some n \<Rightarrow> _ n"]
      wp_bind [of "expired _"] wp_bind [of "first_read _ _ _ _"] wp_then [of "run_loop _ _ _ _"]
    by (intro wp_any) (auto intro!: leave finish wp_any)
qed

lemma run_all_closes: "wp (\<lambda>s. run_all env a) (\<lambda>_. closed_log) (\<lambda>_ _. True) s"
proof (cases "ra_max a < 1 \<or> unmetered env a")
  case True
  then show ?thesis by (auto simp: wp_def run_all_def)
next
  case False
  have "wp (then_op (open_log env a)
        (then_op (case ra_limits a of None \<Rightarrow> ret ()
           | Some l \<Rightarrow> bind_op tick_op (\<lambda>t. upd_ctl (\<lambda>s. s\<lparr>c_budget := Some (mk_budget l (now (reading_at env t)))\<rparr>)))
        (run_body env (recorded_rounds (ra_previous a)) a))) (\<lambda>_. closed_log) (\<lambda>_ _. True) (fresh_ctl a)"
    unfolding wp_then by (intro wp_any run_body_closes) simp_all
  with False show ?thesis by (simp add: wp_def run_all_def)
qed

subsection \<open>The abstract loop\<close>

text \<open>
  What a reader of the code expects of the loop: the number of the pass, and whether the run is
  open or closed with a reason. A pass leaves the run open only when another one may follow.
\<close>

datatype phase = Open | Closed stop_reason

inductive loop_step :: "int \<Rightarrow> int \<times> phase \<Rightarrow> int \<times> phase \<Rightarrow> bool" for m where
  again: "i + 1 < m \<Longrightarrow> loop_step m (i, Open) (i + 1, Open)"
| early: "i < m \<Longrightarrow> q \<in> control_reasons \<Longrightarrow> loop_step m (i, Open) (i, Closed q)"
| final: "i < m \<Longrightarrow> loop_step m (i, Open) (i + 1, Closed q)"

inductive_cases loop_stepE: "loop_step m x y"
inductive_simps loop_step_closed [simp]: "loop_step m (i, Closed q) y"

lemma loop_step_bound: "(loop_step m)\<^sup>*\<^sup>* (i, Open) (j, p) \<Longrightarrow> i \<le> j \<and> (i \<le> m \<longrightarrow> j \<le> m)"
proof (induction "(j, p)" arbitrary: j p rule: rtranclp_induct)
  case (step y)
  then show ?case by (cases y) (auto elim!: loop_stepE)
qed simp

definition abs_run :: "run_state \<Rightarrow> int \<times> phase" where
  "abs_run r = (rs_iteration r, case rs_stop_reason r of None \<Rightarrow> Open | Some q \<Rightarrow> Closed q)"

lemma abs_in_status [simp]: "in_status st sn es k i m r \<Longrightarrow> abs_run r = (i, Open)"
  by (simp add: abs_run_def in_status_def held_def)

lemma abs_ended: "ended sn es k i m r \<Longrightarrow> \<exists>q. abs_run r = (i, Closed q)"
  by (auto simp: abs_run_def ended_def held_def)

lemma wp_pass_step:
  assumes "polite env" and "in_status st sn es k i m (c_run s)" and "st \<in> {Observing, Replanning}" and "i < m"
  shows "wp (one_pass env recorded task) (\<lambda>f s'. loop_step m (i, Open) (abs_run (c_run s'))
      \<and> (case f of Halt \<Rightarrow> snd (abs_run (c_run s')) \<noteq> Open
          | Again \<Rightarrow> \<exists>es' k'. in_status Replanning sn es' k' (i + 1) m (c_run s'))) (\<lambda>_ _. True) s"
proof (rule wp_one_pass [OF assms(1-3)])
  fix q and s' :: "'a ctl"
  assume q: "q \<in> control_reasons" "rs_stop_reason (c_run s') = Some q" "ended sn es k i m (c_run s')"
  then have "abs_run (c_run s') = (i, Closed q)" by (simp add: abs_run_def ended_def held_def)
  with q(1) assms(4) show "loop_step m (i, Open) (abs_run (c_run s')) \<and> (case Halt of Halt \<Rightarrow>
      snd (abs_run (c_run s')) \<noteq> Open | Again \<Rightarrow> \<exists>es' k'. in_status Replanning sn es' k' (i + 1) m (c_run s'))"
    by (simp add: loop_step.early)
qed (use assms(4) in \<open>auto dest!: abs_ended intro: loop_step.intros\<close>)

lemma wp_loop_path:
  assumes "polite env" and "in_status st sn es k i m (c_run s)" and "st \<in> {Observing, Replanning}"
  shows "wp (run_loop n env recorded task) (\<lambda>_ s'. (loop_step m)\<^sup>*\<^sup>* (i, Open) (abs_run (c_run s')))
     (\<lambda>_ _. True) s"
  using assms(2,3)
proof (induction n arbitrary: st es k i s)
  case (Suc n)
  show ?case
  proof (cases "i < m")
    case True
    have "wp (run_loop n env recorded task) (\<lambda>_ s2. (loop_step m)\<^sup>*\<^sup>* (i, Open) (abs_run (c_run s2)))
        (\<lambda>_ _. True) s1"
      if "loop_step m (i, Open) (i + 1, Open)" "in_status Replanning sn es' k' (i + 1) m (c_run s1)" for es' k' s1
      using Suc.IH [OF that(2)] that(1) by (auto elim!: wp_weaken intro: converse_rtranclp_into_rtranclp)
    then show ?thesis
      unfolding run_loop.simps wp_bind [of get_ctl] wp_get wp_if wp_bind [of "one_pass _ _ _"] wp_ret
      using Suc.prems by (auto split: flow.splits simp: wp_ret intro!: wp_weaken [OF wp_pass_step [OF assms(1) Suc.prems True]])
  next
    case False
    with Suc.prems(1) show ?thesis by (auto simp: wps in_status_def held_def)
  qed
qed (simp add: wps)

lemma run_loop_fuel:
  assumes "polite env" and "in_status st sn es k i m (c_run s)" and "st \<in> {Observing, Replanning}"
    and "m - i \<le> int n"
  shows "run_loop (n + d) env recorded task s = run_loop n env recorded task s"
  using assms(2-)
proof (induction n arbitrary: st es k i s)
  case 0
  then show ?case
    by (cases d) (auto simp: ret_def bind_op_def get_ctl_def in_status_def held_def)
next
  case (Suc n)
  show ?case
  proof (cases "i < m")
    case True
    obtain r s1 where one: "one_pass env recorded task s = (r, s1)" by fastforce
    have "run_loop (n + d) env recorded task s1 = run_loop n env recorded task s1" if "r = Inr Again"
      using wpD [OF wp_pass_step [OF assms(1) Suc.prems(1,2) True] one [unfolded that]] Suc.prems(3)
      by (auto intro: Suc.IH)
    then show ?thesis
      by (cases r) (auto simp: bind_op_def get_ctl_def one split: flow.splits)
  next
    case False
    with Suc.prems(1) show ?thesis by (auto simp: bind_op_def get_ctl_def ret_def in_status_def held_def)
  qed
qed

text \<open>A run as \<open>run_body\<close> hands it to the loop.\<close>

definition opened :: "run_state \<Rightarrow> bool" where
  "opened r \<longleftrightarrow> rs_status r = Observing \<and> rs_stop_reason r = None \<and> rs_iteration r = 0
     \<and> rs_evaluations r = [] \<and> rs_outputs r = []
     \<and> (\<forall>b \<in> set_option (rs_evidence r). base_ok b \<and> polite_readers (base_readers b))"

lemma opened_in_status:
  "opened r \<Longrightarrow> in_status Observing (map_option base_snapshot (rs_evidence r)) [] 0 0 (rs_max_iterations r) r"
  by (auto simp: opened_def in_status_def held_def split: option.splits)

subsection \<open>A run handed to the loop\<close>

definition sample_ctl :: "unit ctl" where
  "sample_ctl = (fresh_ctl sample_args)\<lparr>c_run := (c_run (fresh_ctl sample_args))\<lparr>rs_status := Observing\<rparr>\<rparr>"

lemma sample_ctl_facts: "opened (c_run sample_ctl)" "rs_max_iterations (c_run sample_ctl) = 2"
  by (simp_all add: sample_ctl_def opened_def fresh_ctl_def new_run_def sample_args_def)

lemma sample_loop: "fst (run_loop 2 sample_env [] ''look'' sample_ctl) = Inr ()"
  by code_simp

section \<open>Properties\<close>

text \<open>C1. No run reports an illegal move, and a run that returns is over: it has one stop reason, its
  status is the terminal status of that reason, it used at most \<open>max_iterations\<close> passes, each
  with at most one output and one evaluation. What a run can raise are the failures of the
  files, the parser, the sink and the readers, and those of its own checks.\<close>

theorem run_ends:
  assumes "polite env" and "polite_args a"
  shows "case run_all env a of
      (Inl e, s) \<Rightarrow> e \<noteq> InvalidTransition
    | (Inr _, s) \<Rightarrow> (let r = c_run s in
        \<exists>q. rs_stop_reason r = Some q \<and> rs_status r = spec_status (spec_of q) \<and> terminal (rs_status r)
          \<and> rs_iteration r \<le> ra_max a \<and> int (length (rs_outputs r)) \<le> rs_iteration r
          \<and> length (rs_evaluations r) \<le> length (rs_outputs r))"
proof (cases "run_all env a")
  case (Pair x s)
  show ?thesis
  proof (cases x)
    case (Inl e)
    with Pair run_all_failed [OF assms] show ?thesis by simp
  next
    case (Inr u)
    then obtain es k i where i: "i \<le> ra_max a"
      and "ended (map_option base_snapshot (ra_evidence a)) es k i (ra_max a) (c_run s)"
      using run_all_done [OF assms] Pair by (metis unit.exhaust)
    moreover have "terminal (spec_status (spec_of q))" for q by (cases q) simp_all
    ultimately show ?thesis using Pair Inr by (auto simp: ended_def held_def)
  qed
qed

theorem run_ends_witness:
  "rs_stop_reason (c_run (snd (run_all sample_env sample_args))) = Some StopCancelled
   \<and> rs_status (c_run (snd (run_all sample_env sample_args))) = spec_status (spec_of StopCancelled)"
  using run_ends [OF sample_polite] sample_run by (auto simp: Let_def split: prod.splits sum.splits)

text \<open>C2. A run that ends with a judgement has the evaluation for it, and it is the last one:
  a passed run ends on an evaluation that passed and asks for no approval, a run waits for
  approval only when its evaluation asks for it, it is out of passes only with a retry still
  possible, and it lacks evidence only when the evaluation names the gaps.\<close>

theorem stop_reason_borne_out:
  assumes "polite env" and "polite_args a" and "run_all env a = (Inr (), s)"
    and "rs_stop_reason (c_run s) = Some q" and "q \<in> {Passed, ApprovalRequired, MaxIterations, InsufficientEvidence}"
  shows "rs_evaluations (c_run s) \<noteq> [] \<and> (let ev = last (rs_evaluations (c_run s)) in
      (av_passed ev \<longleftrightarrow> q = Passed \<or> q = ApprovalRequired \<and> av_passed ev)
      \<and> (av_requires_approval ev \<longleftrightarrow> q = ApprovalRequired)
      \<and> (q = MaxIterations \<longrightarrow> av_retry_is_possible ev \<and> ra_max a \<le> rs_iteration (c_run s))
      \<and> (q = InsufficientEvidence \<longrightarrow> av_evidence_gaps ev \<noteq> []))"
proof -
  from assms(1-3) obtain es k i
    where "ended (map_option base_snapshot (ra_evidence a)) es k i (ra_max a) (c_run s)"
    by (rule run_all_done)
  with assms(4) have "borne_out q (c_run s)" "rs_max_iterations (c_run s) = ra_max a"
    by (auto simp: ended_def held_def)
  with assms(5) show ?thesis by (auto simp: borne_out_def Let_def)
qed

theorem stop_reason_borne_out_witness:
  "av_passed (last (rs_evaluations (c_run (snd (run_all live_env live_args)))))
   \<and> \<not> av_requires_approval (last (rs_evaluations (c_run (snd (run_all live_env live_args)))))"
proof -
  obtain s where s: "run_all live_env live_args = (Inr (), s)" "rs_stop_reason (c_run s) = Some Passed"
    using live_run by (cases "run_all live_env live_args") auto
  with stop_reason_borne_out [OF live_polite s] show ?thesis by (simp add: Let_def)
qed

text \<open>C9. The evidence of a run is never exchanged: whatever the rounds of reading brought, it is
  an evidence base of the snapshot the run was opened with, well formed (every observation of
  that snapshot, no source twice), and a run opened without one never gets one.\<close>

theorem evidence_of_one_snapshot:
  assumes "polite env" and "polite_args a" and "run_all env a = (Inr (), s)"
  shows "case (ra_evidence a, rs_evidence (c_run s)) of
      (None, None) \<Rightarrow> True
    | (Some b, Some b') \<Rightarrow> base_snapshot b' = base_snapshot b
        \<and> (\<forall>ob \<in> set (base_observations b'). snapshot_id ob = snap_id (base_snapshot b))
        \<and> distinct (map source_id (base_observations b'))
    | _ \<Rightarrow> False"
proof -
  from assms obtain es k i
    where "ended (map_option base_snapshot (ra_evidence a)) es k i (ra_max a) (c_run s)"
    by (rule run_all_done)
  then show ?thesis
    by (cases "ra_evidence a"; cases "rs_evidence (c_run s)") (auto simp: ended_def held_def base_ok_def)
qed

theorem evidence_of_one_snapshot_witness:
  "rs_evidence (c_run (snd (run_all live_env live_args))) = None"
proof -
  obtain s where s: "run_all live_env live_args = (Inr (), s)"
    using live_run by (cases "run_all live_env live_args") auto
  have "ra_evidence live_args = None" by (simp add: live_args_def sample_args_def)
  with evidence_of_one_snapshot [OF live_polite s] s show ?thesis by (simp split: option.splits)
qed

text \<open>C8. The bound of the loop is not a cut-off: with \<open>max_iterations\<close> passes allowed, more are
  never used, whatever the model, the host and the clock do.\<close>

theorem loop_terminates:
  assumes "polite env" and "opened (c_run s)"
  shows "run_loop (nat (rs_max_iterations (c_run s)) + d) env recorded task s
    = run_loop (nat (rs_max_iterations (c_run s))) env recorded task s"
  by (rule run_loop_fuel [OF assms(1) opened_in_status [OF assms(2)]]) simp_all

theorem loop_terminates_witness:
  "run_loop (2 + 5) sample_env [] ''look'' sample_ctl = run_loop 2 sample_env [] ''look'' sample_ctl"
  using loop_terminates [OF sample_polite(1) sample_ctl_facts(1), where d = 5] by (simp add: sample_ctl_facts)

text \<open>C7. The loop implements its abstract machine: from an opened run, the passes are a path of
  \<open>loop_step\<close>, and when at least one pass is allowed the path ends with the run closed. The
  code's stop after the loop, for a run without a reason, is therefore never reached.\<close>

theorem loop_refines_machine:
  assumes "polite env" and "opened (c_run s)" and "0 < rs_max_iterations (c_run s)"
    and "run_loop (nat (rs_max_iterations (c_run s))) env recorded task s = (Inr (), s')"
  shows "(loop_step (rs_max_iterations (c_run s)))\<^sup>*\<^sup>* (0, Open) (abs_run (c_run s'))
    \<and> (\<exists>q. rs_stop_reason (c_run s') = Some q) \<and> rs_iteration (c_run s') \<le> rs_max_iterations (c_run s)"
proof -
  note st = opened_in_status [OF assms(2)]
  have path: "(loop_step (rs_max_iterations (c_run s)))\<^sup>*\<^sup>* (0, Open) (abs_run (c_run s'))"
    using wpD [OF wp_loop_path [OF assms(1) st] assms(4)] by simp
  have "wp (run_loop (nat (rs_max_iterations (c_run s))) env recorded task)
      (\<lambda>_ s'. \<exists>q. rs_stop_reason (c_run s') = Some q) (\<lambda>e _. tame e) s"
    by (rule wp_run_loop [OF assms(1) st]) (use assms(3) in \<open>auto simp: ended_def\<close>)
  from wpD [OF this assms(4)] path loop_step_bound [of "rs_max_iterations (c_run s)" 0 "rs_iteration (c_run s')"]
    assms(3) show ?thesis by (auto simp: abs_run_def)
qed

theorem loop_refines_machine_witness:
  "(loop_step 2)\<^sup>*\<^sup>* (0, Open) (abs_run (c_run (snd (run_loop 2 sample_env [] ''look'' sample_ctl))))"
proof -
  obtain s' where "run_loop 2 sample_env [] ''look'' sample_ctl = (Inr (), s')"
    using sample_loop by (cases "run_loop 2 sample_env [] ''look'' sample_ctl") auto
  with loop_refines_machine [OF sample_polite(1) sample_ctl_facts(1), of "[]" "''look''" s']
  show ?thesis by (simp add: sample_ctl_facts)
qed

text \<open>A run that returns has closed its log: the last event is \<open>run_stopped\<close>, at the pass the
  run ended on.\<close>

theorem run_closes_its_log:
  assumes "run_all env a = (Inr (), s)" and "c_log s = Some l"
  shows "log_events l \<noteq> [] \<and> ev_kind (last (log_events l)) = ''run_stopped''
    \<and> ev_iteration (last (log_events l)) = rs_iteration (c_run s)"
  using wpD [OF run_all_closes assms(1)] assms(2) by (simp add: closed_log_def)

theorem run_closes_its_log_witness:
  "\<exists>l. c_log (snd (run_all sample_env sample_args)) = Some l
     \<and> ev_kind (last (log_events l)) = ''run_stopped''"
proof -
  obtain s where s: "run_all sample_env sample_args = (Inr (), s)"
    using sample_logged by (cases "run_all sample_env sample_args") auto
  then obtain l where "c_log s = Some l" using sample_logged by auto
  with run_closes_its_log [OF s] s show ?thesis by auto
qed

end
