(* ===== verification/Histories.thy ===== *)
theory Histories
  imports Prelude
begin

section \<open>Histories of operations\<close>

text \<open>
  Several parts of the program are objects whose operations a host calls in any order, each one
  under a lock: a history is the operations in the order the lock admitted them, with what each
  answered. Two interfaces are shared: an invariant that relates the history to the state
  (\<open>audited\<close>), and keys that an operation spends at most once (\<open>one_shot\<close>).
\<close>

fun trace :: "('x \<Rightarrow> 's \<Rightarrow> 's \<times> 'r result) \<Rightarrow> 'x list \<Rightarrow> 's \<Rightarrow> 's \<times> ('x \<times> 'r result) list" where
  "trace step [] s = (s, [])"
| "trace step (x # xs) s =
     (let (s1, r) = step x s; (s2, rs) = trace step xs s1 in (s2, (x, r) # rs))"

lemma trace_Cons:
  "trace step (x # xs) s = (s2, h) \<longleftrightarrow>
     (\<exists>s1 r rs. step x s = (s1, r) \<and> trace step xs s1 = (s2, rs) \<and> h = (x, r) # rs)"
  by (auto simp: Let_def split: prod.splits)

lemma trace_split:
  "trace step xs s = (s2, pre @ (x, r) # post) \<Longrightarrow>
     \<exists>ys zs s1 s1'. trace step ys s = (s1, pre) \<and> step x s1 = (s1', r) \<and> trace step zs s1' = (s2, post)"
proof (induction pre arbitrary: xs s)
  case Nil
  then show ?case
    by (cases xs) (auto simp: trace_Cons simp del: trace.simps(2) intro: exI [of _ "[]"] trace.simps(1))
next
  case (Cons p pre)
  then obtain y ys s1 r1 where xs: "xs = y # ys" "step y s = (s1, r1)" "p = (y, r1)"
    "trace step ys s1 = (s2, pre @ (x, r) # post)"
    by (cases xs) (auto simp: trace_Cons simp del: trace.simps(2))
  from Cons.IH [OF xs(4)] obtain ys' zs t t' where
    "trace step ys' s1 = (t, pre)" "step x t = (t', r)" "trace step zs t' = (s2, post)" by blast
  with xs(2,3) show ?case
    by (intro exI [of _ "y # ys'"] exI [of _ zs] exI [of _ t] exI [of _ t'])
       (simp add: trace_Cons del: trace.simps(2))
qed

locale audited =
  fixes step :: "'x \<Rightarrow> 's \<Rightarrow> 's \<times> 'r result"
    and fits :: "('x \<times> 'r result) list \<Rightarrow> 's \<Rightarrow> bool"
  assumes fits_step: "fits h s \<Longrightarrow> step x s = (s', r) \<Longrightarrow> fits (h @ [(x, r)]) s'"
begin

lemma fits_trace: "fits h s \<Longrightarrow> trace step xs s = (s', rs) \<Longrightarrow> fits (h @ rs) s'"
proof (induction xs arbitrary: h s rs)
  case Nil
  then show ?case by simp
next
  case (Cons x xs)
  then obtain s1 r rs1 where s: "step x s = (s1, r)" "trace step xs s1 = (s', rs1)" "rs = (x, r) # rs1"
    by (auto simp: trace_Cons simp del: trace.simps(2))
  from Cons.IH [OF fits_step [OF Cons.prems(1) s(1)] s(2)] s(3) show ?case by simp
qed

lemma fits_before:
  assumes "fits [] s" and "trace step xs s = (s2, pre @ (x, r) # post)"
  shows "\<exists>s1 s1'. fits pre s1 \<and> step x s1 = (s1', r)"
  using trace_split [OF assms(2)] fits_trace [OF assms(1)] by (metis append_Nil)

end

locale one_shot =
  fixes step :: "'x \<Rightarrow> 's \<Rightarrow> 's \<times> 'r result"
    and inv :: "'s \<Rightarrow> bool"
    and spent :: "'s \<Rightarrow> 'k set"
    and spends :: "'x \<times> 'r result \<Rightarrow> 'k option"
  assumes inv_step: "inv s \<Longrightarrow> step x s = (s', r) \<Longrightarrow> inv s'"
    and spent_step: "inv s \<Longrightarrow> step x s = (s', r) \<Longrightarrow> spent s \<subseteq> spent s'"
    and spends_step: "inv s \<Longrightarrow> step x s = (s', r) \<Longrightarrow> spends (x, r) = Some k
      \<Longrightarrow> k \<notin> spent s \<and> k \<in> spent s'"
begin

lemma trace_keeps: "inv s \<Longrightarrow> trace step xs s = (s', rs) \<Longrightarrow> inv s' \<and> spent s \<subseteq> spent s'"
proof (induction xs arbitrary: s rs)
  case (Cons x xs)
  then obtain s1 r rs1 where s: "step x s = (s1, r)" "trace step xs s1 = (s', rs1)"
    by (auto simp: trace_Cons simp del: trace.simps(2))
  with Cons.IH [OF inv_step [OF Cons.prems(1) s(1)] s(2)] spent_step [OF Cons.prems(1) s(1)]
  show ?case by blast
qed simp

text \<open>Along any history no key is spent twice, and none that was spent before.\<close>

lemma trace_spends_once:
  "inv s \<Longrightarrow> trace step xs s = (s', rs) \<Longrightarrow>
     distinct (List.map_filter spends rs) \<and> set (List.map_filter spends rs) \<inter> spent s = {}"
proof (induction xs arbitrary: s rs)
  case Nil
  then show ?case by (simp add: List.map_filter_def)
next
  case (Cons x xs)
  then obtain s1 r rs1 where s: "step x s = (s1, r)" "trace step xs s1 = (s', rs1)" "rs = (x, r) # rs1"
    by (auto simp: trace_Cons simp del: trace.simps(2))
  note inv1 = inv_step [OF Cons.prems(1) s(1)]
  from Cons.IH [OF inv1 s(2)] spent_step [OF Cons.prems(1) s(1)]
    spends_step [OF Cons.prems(1) s(1)] show ?case
    by (cases "spends (x, r)") (auto simp: s(3) List.map_filter_simps)
qed

end

end
