(* ===== verification/Approval.thy ===== *)
theory Approval
  imports EventLog Snapshots Histories
begin

section \<open>Write approval (atlas_core/approval.py)\<close>

text \<open>
  An operation with the digest a person approves, the authority that records requests, grants
  and refusals and spends a grant once, and the document of one request. The two clocks, the
  stamp of an audit event, the probe of the repository's head and the token a grant draws are
  arguments of each operation; hashing and the rendering of a time are fields of the
  surroundings. The authority keeps its pending requests in a dictionary in insertion order.
  An operation on the authority holds its lock, so a concurrent use is a history of whole
  operations. An operation that raises keeps what it had changed before.
\<close>

definition operation_kinds :: "string list" where
  "operation_kinds = [''diff'', ''command'', ''ref'']"

definition max_ttl_seconds :: real where "max_ttl_seconds = 3600"

text \<open>\<open>re.compile(r"[0-9a-f]{40}([0-9a-f]{24})?").fullmatch\<close>.\<close>

definition commit_shape :: "string \<Rightarrow> bool" where
  "commit_shape s \<longleftrightarrow> (length s = 40 \<or> length s = 64) \<and> list_all is_hex s"

subsection \<open>Operations\<close>

text \<open>What \<open>_freeze\<close> makes of a JSON value: a tuple of a list, a read-only view of an object,
  and the value itself otherwise.\<close>

datatype frozen =
    Plain pyval
  | Tuple "frozen list"
  | Proxy "(string \<times> frozen) list"

fun freeze :: "pyval \<Rightarrow> frozen" where
  "freeze (PDict d) = Proxy (map (\<lambda>(k, v). (k, freeze v)) d)"
| "freeze (PList xs) = Tuple (map freeze xs)"
| "freeze v = Plain v"

fun thaw :: "frozen \<Rightarrow> pyval" where
  "thaw (Proxy d) = PDict (map (\<lambda>(k, v). (k, thaw v)) d)"
| "thaw (Tuple xs) = PList (map thaw xs)"
| "thaw (Plain v) = v"

record operation =
  op_kind :: string
  op_tool :: string
  op_arguments :: frozen
  op_repo :: string
  op_ref :: string
  op_head :: string
  op_sha256 :: string

text \<open>\<open>allow_nan=False\<close> refuses a float that is not finite, at any depth.\<close>

fun finite_json :: "pyval \<Rightarrow> bool" where
  "finite_json (PFloat f _) = (case f of Fin _ \<Rightarrow> True | _ \<Rightarrow> False)"
| "finite_json (PList xs) = list_all finite_json xs"
| "finite_json (PDict d) = list_all (\<lambda>(k, v). finite_json v) d"
| "finite_json _ = True"

text \<open>Reading back what \<open>sort_keys\<close> wrote gives the same value with sorted keys.\<close>

fun sort_keys :: "pyval \<Rightarrow> pyval" where
  "sort_keys (PList xs) = PList (map sort_keys xs)"
| "sort_keys (PDict d) = PDict (sort_key fst (map (\<lambda>(k, v). (k, sort_keys v)) d))"
| "sort_keys v = v"

definition canonical_operation :: "string \<Rightarrow> string \<Rightarrow> pyval \<Rightarrow> string \<Rightarrow> string \<Rightarrow> string \<Rightarrow> string" where
  "canonical_operation kind tool args rp rf head = dumps (PDict
     [(''kind'', PStr kind), (''tool'', PStr tool), (''arguments'', args),
      (''repo'', PStr rp), (''ref'', PStr rf), (''head'', PStr head)])"

definition mk_operation ::
  "(string \<Rightarrow> string) \<Rightarrow> string \<Rightarrow> string \<Rightarrow> frozen \<Rightarrow> string \<Rightarrow> string \<Rightarrow> string \<Rightarrow> operation result" where
  "mk_operation sha256 kind tool args rp rf head =
     (if kind \<notin> set operation_kinds then Inl ValueError
      else if tool = [] \<or> rp = [] \<or> rf = [] then Inl ValueError
      else if \<not> commit_shape head then Inl ValueError
      else if \<not> finite_json (thaw args) then Inl ValueError
      else Inr \<lparr>op_kind = kind, op_tool = tool, op_arguments = freeze (sort_keys (thaw args)),
        op_repo = rp, op_ref = rf, op_head = head,
        op_sha256 = sha256 (canonical_operation kind tool (thaw args) rp rf head)\<rparr>)"

definition clean_head :: "host \<Rightarrow> string \<Rightarrow> string result" where
  "clean_head h dir = (let s = take_snapshot h [] dir in
     if snap_commit s = unknown \<or> snap_worktree s \<noteq> ''clean''
     then Inl (ApprovalRejected ''state_unpinned'') else Inr (snap_commit s))"

subsection \<open>The authority\<close>

datatype decision = Requested | Granted | Refused | Consumed

fun decision_name :: "decision \<Rightarrow> string" where
  "decision_name Requested = ''requested''"
| "decision_name Granted = ''granted''"
| "decision_name Refused = ''refused''"
| "decision_name Consumed = ''consumed''"

record pending =
  pd_operation :: operation
  pd_iteration :: int
  pd_token :: "string option"
  pd_by :: "string option"
  pd_granted_at :: "real option"
  pd_monotonic :: "real option"
  pd_wall :: "real option"
  pd_decision :: decision

definition mk_pending :: "operation \<Rightarrow> int \<Rightarrow> pending" where
  "mk_pending op it = \<lparr>pd_operation = op, pd_iteration = it, pd_token = None, pd_by = None,
     pd_granted_at = None, pd_monotonic = None, pd_wall = None, pd_decision = Requested\<rparr>"

record 's authority =
  au_log :: "'s event_log option"
  au_pending :: "(string \<times> pending) list"

definition mk_authority :: "'s event_log option \<Rightarrow> 's authority" where
  "mk_authority l = \<lparr>au_log = l, au_pending = []\<rparr>"

record 's surroundings =
  su_write :: "'s \<Rightarrow> dict \<Rightarrow> 's result"
  su_sha256 :: "string \<Rightarrow> string"
  su_iso :: "real \<Rightarrow> string"

record moment =
  mo_clock :: real
  mo_wall :: real
  mo_stamp :: string

definition record_decision ::
  "'s surroundings \<Rightarrow> moment \<Rightarrow> string \<Rightarrow> string \<Rightarrow> pending \<Rightarrow> dict
     \<Rightarrow> 's authority \<Rightarrow> 's authority \<times> unit result" where
  "record_decision su mo d i item extra a = (case au_log a of
     None \<Rightarrow> (a, Inr ())
   | Some l \<Rightarrow> (case log_append (su_write su) (mo_stamp mo) ''approval_recorded''
         (pd_iteration item) PNone
         ([(''decision'', PStr d), (''approval_id'', PStr i),
           (''operation_sha256'', PStr (op_sha256 (pd_operation item))),
           (''operation_kind'', PStr (op_kind (pd_operation item))),
           (''tool'', PStr (op_tool (pd_operation item))),
           (''repo'', PStr (op_repo (pd_operation item))),
           (''ref'', PStr (op_ref (pd_operation item))),
           (''head'', PStr (op_head (pd_operation item)))] @ extra) l of
       (l', r) \<Rightarrow> (a\<lparr>au_log := Some l'\<rparr>, bind_res r (\<lambda>_. Inr ()))))"

definition put_pending :: "string \<Rightarrow> pending \<Rightarrow> 's authority \<Rightarrow> 's authority" where
  "put_pending i item a = a\<lparr>au_pending := dict_set i item (au_pending a)\<rparr>"

definition approval_id :: "operation \<Rightarrow> nat \<Rightarrow> string" where
  "approval_id op n = ''approval-'' @ take 16 (op_sha256 op) @ ''-'' @ str_nat n"

definition request ::
  "'s surroundings \<Rightarrow> moment \<Rightarrow> operation \<Rightarrow> int \<Rightarrow> 's authority \<Rightarrow> 's authority \<times> string result" where
  "request su mo op it a =
     (let i = approval_id op (length (au_pending a)); item = mk_pending op it in
      case record_decision su mo ''requested'' i item [] (put_pending i item a) of
        (a', r) \<Rightarrow> (a', bind_res r (\<lambda>_. Inr i)))"

definition open_request :: "string \<Rightarrow> 's authority \<Rightarrow> pending result" where
  "open_request i a = (case map_of (au_pending a) i of
     None \<Rightarrow> Inl KeyError
   | Some item \<Rightarrow> if pd_decision item \<noteq> Requested then Inl ValueError else Inr item)"

definition grant ::
  "'s surroundings \<Rightarrow> moment \<Rightarrow> string \<Rightarrow> string \<Rightarrow> real \<Rightarrow> string \<Rightarrow> 's authority
     \<Rightarrow> 's authority \<times> string result" where
  "grant su mo i who ttl token a =
     (if strip who = [] then (a, Inl ValueError)
      else if \<not> (0 < ttl \<and> ttl \<le> max_ttl_seconds) then (a, Inl ValueError)
      else case open_request i a of
        Inl e \<Rightarrow> (a, Inl e)
      | Inr item \<Rightarrow>
          (let item' = item\<lparr>pd_token := Some (su_sha256 su token), pd_by := Some who,
                 pd_granted_at := Some (mo_wall mo), pd_monotonic := Some (mo_clock mo + ttl),
                 pd_wall := Some (mo_wall mo + ttl), pd_decision := Granted\<rparr> in
           case record_decision su mo ''granted'' i item'
               [(''granted_by'', PStr who), (''expires_at'', PStr (su_iso su (mo_wall mo + ttl)))]
               (put_pending i item' a) of
             (a', r) \<Rightarrow> (a', bind_res r (\<lambda>_. Inr token))))"

definition refuse ::
  "'s surroundings \<Rightarrow> moment \<Rightarrow> string \<Rightarrow> string \<Rightarrow> 's authority \<Rightarrow> 's authority \<times> string result" where
  "refuse su mo i who a = (case open_request i a of
     Inl e \<Rightarrow> (a, Inl e)
   | Inr item \<Rightarrow>
       (let item' = item\<lparr>pd_decision := Refused, pd_by := Some who,
              pd_granted_at := Some (mo_wall mo)\<rparr> in
        case record_decision su mo ''refused'' i item' [(''granted_by'', PStr who)]
            (put_pending i item' a) of
          (a', r) \<Rightarrow> (a', bind_res r (\<lambda>_. Inr []))))"

definition reject ::
  "'s surroundings \<Rightarrow> moment \<Rightarrow> string \<Rightarrow> pending \<Rightarrow> string \<Rightarrow> dict \<Rightarrow> 's authority
     \<Rightarrow> 's authority \<times> string result" where
  "reject su mo i item reason extra a =
     (case record_decision su mo ''rejected'' i item ((''reason'', PStr reason) # extra) a of
        (a', r) \<Rightarrow> (a', bind_res r (\<lambda>_. Inl (ApprovalRejected reason))))"

definition reject_unknown ::
  "'s surroundings \<Rightarrow> moment \<Rightarrow> operation \<Rightarrow> int \<Rightarrow> 's authority \<Rightarrow> 's authority \<times> string result" where
  "reject_unknown su mo op it a =
     reject su mo ''unknown'' (mk_pending op it) ''unknown_token'' [] a"

definition opt_text :: "string option \<Rightarrow> pyval" where
  "opt_text v = (case v of None \<Rightarrow> PNone | Some s \<Rightarrow> PStr s)"

definition holds_token :: "string \<Rightarrow> pending \<Rightarrow> bool" where
  "holds_token h item \<longleftrightarrow> pd_token item = Some h"

fun rejection_reason :: "exc \<Rightarrow> string option" where
  "rejection_reason (ApprovalRejected why) = Some why"
| "rejection_reason _ = None"

definition consume ::
  "'s surroundings \<Rightarrow> moment \<Rightarrow> (string \<Rightarrow> string result) \<Rightarrow> string \<Rightarrow> operation \<Rightarrow> int
     \<Rightarrow> 's authority \<Rightarrow> 's authority \<times> string result" where
  "consume su mo head_of token op it a =
     (case find (\<lambda>(i, item). holds_token (su_sha256 su token) item) (au_pending a) of
        None \<Rightarrow> reject_unknown su mo op it a
      | Some (i, item) \<Rightarrow>
          if pd_decision item = Consumed then reject su mo i item ''already_used'' [] a
          else (case (pd_decision item, pd_monotonic item, pd_wall item) of
            (Granted, Some m, Some w) \<Rightarrow>
              if m \<le> mo_clock mo \<or> w \<le> mo_wall mo then reject su mo i item ''expired'' [] a
              else (case head_of (op_repo (pd_operation item)) of
                  Inl e \<Rightarrow> (case rejection_reason e of
                      Some why \<Rightarrow> reject su mo i item why [] a
                    | None \<Rightarrow> (a, Inl e))
                | Inr cur \<Rightarrow>
                    if cur \<noteq> op_head (pd_operation item)
                    then reject su mo i item ''head_moved'' [(''current_head'', PStr cur)] a
                    else if op_sha256 op \<noteq> op_sha256 (pd_operation item)
                    then reject su mo i item ''operation_mismatch''
                      [(''offered_sha256'', PStr (op_sha256 op))] a
                    else (let item' = item\<lparr>pd_decision := Consumed\<rparr> in
                      case record_decision su mo ''consumed'' i item'
                          [(''granted_by'', opt_text (pd_by item))] (put_pending i item' a) of
                        (a', r) \<Rightarrow> (a', bind_res r (\<lambda>_. Inr i))))
          | _ \<Rightarrow> reject su mo i item ''not_granted'' [] a))"

text \<open>The \<open>atlas-approval.v1\<close> document of one request.\<close>

definition approval_document ::
  "'s surroundings \<Rightarrow> string \<Rightarrow> string \<Rightarrow> 's authority \<Rightarrow> dict result" where
  "approval_document su i run a = (case map_of (au_pending a) i of
     None \<Rightarrow> Inl KeyError
   | Some item \<Rightarrow>
       (let op = pd_operation item;
            granted = (case pd_decision item of Requested \<Rightarrow> PNone | Refused \<Rightarrow> PBool False
              | _ \<Rightarrow> PBool True) in
        Inr [(''schema'', PStr ''atlas-approval.v1''), (''approval_id'', PStr i),
          (''run_id'', PStr run), (''iteration'', PInt (pd_iteration item)),
          (''required'', PBool True),
          (''reason'', PStr (op_kind op @ '' write via '' @ op_tool op)),
          (''granted'', granted), (''granted_by'', opt_text (pd_by item)),
          (''granted_at'', opt_text (map_option (su_iso su) (pd_granted_at item))),
          (''binds_to'', if truthy granted then PDict
             [(''kind'', PStr (op_kind op)), (''sha256'', PStr (op_sha256 op)),
              (''repo'', PStr (op_repo op)), (''ref'', PStr (op_ref op))] else PNone)]))"

subsection \<open>Histories\<close>

datatype approval_op =
    Request operation int
  | Grant string string real string
  | Refuse string string
  | Spend "string \<Rightarrow> string result" string operation int

fun approval_step ::
  "'s surroundings \<Rightarrow> moment \<times> approval_op \<Rightarrow> 's authority \<Rightarrow> 's authority \<times> string result" where
  "approval_step su (mo, Request op it) a = request su mo op it a"
| "approval_step su (mo, Grant i who ttl token) a = grant su mo i who ttl token a"
| "approval_step su (mo, Refuse i who) a = refuse su mo i who a"
| "approval_step su (mo, Spend head_of token op it) a = consume su mo head_of token op it a"

section \<open>Lemmas\<close>

lemma freeze_atom: "(\<forall>d. v \<noteq> PDict d) \<Longrightarrow> (\<forall>xs. v \<noteq> PList xs) \<Longrightarrow> freeze v = Plain v"
  by (cases v) auto

lemma thaw_freeze [simp]: "thaw (freeze v) = v"
  by (induction v rule: freeze.induct) (auto simp: comp_def case_prod_beta intro!: map_idI)

instantiation decision :: order
begin

definition less_eq_decision :: "decision \<Rightarrow> decision \<Rightarrow> bool" where
  "less_eq_decision d e \<longleftrightarrow> d = e \<or> d = Requested \<or> (d = Granted \<and> e = Consumed)"

definition less_decision :: "decision \<Rightarrow> decision \<Rightarrow> bool" where
  "less_decision d e \<longleftrightarrow> d \<le> e \<and> d \<noteq> (e :: decision)"

instance
  by standard (auto simp: less_eq_decision_def less_decision_def)

end

lemma record_decision_pending:
  "record_decision su mo d i item extra a = (a', r) \<Longrightarrow> au_pending a' = au_pending a"
  by (auto simp: record_decision_def split: option.splits prod.splits)

lemma reject_pending:
  "reject su mo i item reason extra a = (a', r) \<Longrightarrow>
     au_pending a' = au_pending a \<and> (\<exists>e. r = Inl e)"
  by (auto simp: reject_def bind_res_def split: prod.splits sum.splits dest: record_decision_pending)

lemma put_pending_simps [simp]:
  "au_pending (put_pending i item a) = dict_set i item (au_pending a)"
  "au_log (put_pending i item a) = au_log a"
  by (simp_all add: put_pending_def)

subsection \<open>What each operation does to the pending requests\<close>

lemma request_pending:
  assumes "request su mo op it a = (a', r)"
  shows "au_pending a' = dict_set (approval_id op (length (au_pending a))) (mk_pending op it) (au_pending a)
    \<and> (\<forall>x. r = Inr x \<longrightarrow> x = approval_id op (length (au_pending a)))"
  using assms record_decision_pending
  by (fastforce simp: request_def Let_def bind_res_def split: prod.splits sum.splits)

lemma open_request_Inr:
  "open_request i a = Inr item \<longleftrightarrow>
     map_of (au_pending a) i = Some item \<and> pd_decision item = Requested"
  by (auto simp: open_request_def split: option.splits)

lemma grant_cases:
  assumes "grant su mo i who ttl token a = (a', r)"
  shows "(a' = a \<and> (\<exists>e. r = Inl e)) \<or>
    (\<exists>item. map_of (au_pending a) i = Some item \<and> pd_decision item = Requested
      \<and> strip who \<noteq> [] \<and> 0 < ttl \<and> ttl \<le> max_ttl_seconds
      \<and> au_pending a' = dict_set i (item\<lparr>pd_token := Some (su_sha256 su token), pd_by := Some who,
           pd_granted_at := Some (mo_wall mo), pd_monotonic := Some (mo_clock mo + ttl),
           pd_wall := Some (mo_wall mo + ttl), pd_decision := Granted\<rparr>) (au_pending a)
      \<and> (\<forall>x. r = Inr x \<longrightarrow> x = token))"
  using assms record_decision_pending
  by (fastforce simp: grant_def Let_def open_request_Inr bind_res_def
      split: prod.splits sum.splits if_splits)

lemma refuse_cases:
  assumes "refuse su mo i who a = (a', r)"
  shows "(a' = a \<and> (\<exists>e. r = Inl e)) \<or>
    (\<exists>item. map_of (au_pending a) i = Some item \<and> pd_decision item = Requested
      \<and> au_pending a' = dict_set i (item\<lparr>pd_decision := Refused, pd_by := Some who,
           pd_granted_at := Some (mo_wall mo)\<rparr>) (au_pending a))"
  using assms record_decision_pending
  by (fastforce simp: refuse_def Let_def open_request_Inr bind_res_def
      split: prod.splits sum.splits if_splits)

definition spendable ::
  "'s surroundings \<Rightarrow> moment \<Rightarrow> (string \<Rightarrow> string result) \<Rightarrow> string \<Rightarrow> operation \<Rightarrow> pending \<Rightarrow> bool" where
  "spendable su mo head_of token op item \<longleftrightarrow> holds_token (su_sha256 su token) item
     \<and> pd_decision item = Granted
     \<and> (case pd_monotonic item of None \<Rightarrow> False | Some m \<Rightarrow> mo_clock mo < m)
     \<and> (case pd_wall item of None \<Rightarrow> False | Some w \<Rightarrow> mo_wall mo < w)
     \<and> head_of (op_repo (pd_operation item)) = Inr (op_head (pd_operation item))
     \<and> op_sha256 op = op_sha256 (pd_operation item)"

abbreviation the_holder :: "'s surroundings \<Rightarrow> string \<Rightarrow> 's authority \<Rightarrow> (string \<times> pending) option" where
  "the_holder su token a \<equiv>
     find (\<lambda>(i, item). holds_token (su_sha256 su token) item) (au_pending a)"

lemma the_holder_Some:
  "the_holder su token a = Some (i, item) \<Longrightarrow> holds_token (su_sha256 su token) item
     \<and> (i, item) \<in> set (au_pending a)"
  by (auto simp: find_Some_iff in_set_conv_nth)

lemma spendable_fields:
  "spendable su mo head_of token op item \<Longrightarrow>
     \<exists>m w. pd_monotonic item = Some m \<and> pd_wall item = Some w \<and> mo_clock mo < m \<and> mo_wall mo < w"
  by (auto simp: spendable_def split: option.splits)

definition idle :: "'s authority \<Rightarrow> 's authority \<times> string result \<Rightarrow> bool" where
  "idle a x \<longleftrightarrow> au_pending (fst x) = au_pending a \<and> (\<exists>e. snd x = Inl e)"

lemma idle_Inl: "idle a (a, Inl e)"
  by (simp add: idle_def)

lemma idle_reject: "idle a (reject su mo i item reason extra a)"
  using reject_pending by (cases "reject su mo i item reason extra a") (fastforce simp: idle_def)

lemma consume_idle:
  assumes "the_holder su token a = Some (i, item)" and "\<not> spendable su mo head_of token op item"
    and "consume su mo head_of token op it a = (a', r)"
  shows "au_pending a' = au_pending a \<and> (\<exists>e. r = Inl e)"
proof -
  have "holds_token (su_sha256 su token) item" using the_holder_Some [OF assms(1)] by simp
  with assms(2) have n: "pd_decision item = Granted \<Longrightarrow> pd_monotonic item = Some m
      \<Longrightarrow> pd_wall item = Some w \<Longrightarrow> \<not> (m \<le> mo_clock mo \<or> w \<le> mo_wall mo)
      \<Longrightarrow> head_of (op_repo (pd_operation item)) = Inr (op_head (pd_operation item))
      \<Longrightarrow> op_sha256 op \<noteq> op_sha256 (pd_operation item)" for m w
    by (auto simp: spendable_def)
  have "idle a (consume su mo head_of token op it a)"
    unfolding consume_def assms(1) option.case prod.case
    using n [rotated -1]
    by (auto simp: idle_reject idle_Inl split: decision.split option.split sum.split)
  with assms(3) show ?thesis by (simp add: idle_def)
qed

text \<open>A spend either changes no request, or marks the one that holds the token as consumed.\<close>

lemma consume_cases:
  assumes "consume su mo head_of token op it a = (a', r)"
  shows "(au_pending a' = au_pending a \<and> (\<exists>e. r = Inl e)) \<or>
    (\<exists>i item. the_holder su token a = Some (i, item) \<and> spendable su mo head_of token op item
      \<and> au_pending a' = dict_set i (item\<lparr>pd_decision := Consumed\<rparr>) (au_pending a)
      \<and> (\<forall>x. r = Inr x \<longrightarrow> x = i))"
proof (cases "the_holder su token a")
  case None
  with assms show ?thesis by (auto simp: consume_def reject_unknown_def dest: reject_pending)
next
  case (Some q)
  then obtain i item where q: "the_holder su token a = Some (i, item)" by (cases q) auto
  show ?thesis
  proof (cases "spendable su mo head_of token op item")
    case True
    with spendable_fields [OF True] q assms show ?thesis
      by (auto simp: consume_def spendable_def Let_def bind_res_def dest: record_decision_pending
          split: prod.splits sum.splits)
  next
    case False
    from consume_idle [OF q False assms] show ?thesis by blast
  qed
qed

subsection \<open>Names of requests\<close>

lemma digit_not_dash: "n < 10 \<Longrightarrow> digit n \<noteq> CHR ''-''"
proof
  assume "n < 10" "digit n = CHR ''-''"
  then have "code CHR ''-'' = 48 + n" using code_digit [of n] by metis
  then show False by (simp add: code_def)
qed

lemma str_nat_no_dash: "CHR ''-'' \<notin> set (str_nat n)"
proof (induction n rule: less_induct)
  case (less n)
  then show ?case
    by (cases "n < 10")
       (auto simp: str_nat_small str_nat_snoc digit_not_dash [symmetric] simp del: digit.simps)
qed

lemma approval_id_inj:
  assumes "approval_id op m = approval_id op' n" shows "m = n"
proof -
  have tail: "rev (takeWhile (\<lambda>c. c \<noteq> CHR ''-'') (rev (approval_id o' k))) = str_nat k" for o' k
  proof -
    have "takeWhile (\<lambda>c. c \<noteq> CHR ''-'') (rev (str_nat k) @ CHR ''-'' # ys) = rev (str_nat k)" for ys
      using str_nat_no_dash [of k] by (subst takeWhile_append2) auto
    then show ?thesis by (simp add: approval_id_def)
  qed
  from tail [of op m] tail [of op' n] assms show ?thesis by (simp add: str_nat_inj)
qed

definition numbered :: "(string \<times> pending) list \<Rightarrow> bool" where
  "numbered d \<longleftrightarrow> map fst d = map2 approval_id (map (\<lambda>x. pd_operation (snd x)) d) [0..<length d]"

lemma numbered_nth:
  "numbered d \<longleftrightarrow> (\<forall>n < length d. fst (d ! n) = approval_id (pd_operation (snd (d ! n))) n)"
  unfolding numbered_def list_eq_iff_nth_eq by simp

lemma numbered_distinct:
  assumes "numbered d" shows "distinct (map fst d)"
  unfolding distinct_conv_nth
proof (intro allI impI)
  fix i j assume ij: "i < length (map fst d)" "j < length (map fst d)" "i \<noteq> j"
  then have "fst (d ! i) = approval_id (pd_operation (snd (d ! i))) i"
    "fst (d ! j) = approval_id (pd_operation (snd (d ! j))) j"
    using assms by (simp_all add: numbered_nth)
  with ij show "map fst d ! i \<noteq> map fst d ! j" using approval_id_inj by fastforce
qed

lemma numbered_fresh:
  assumes "numbered d" shows "approval_id op (length d) \<notin> fst ` set d"
proof
  assume "approval_id op (length d) \<in> fst ` set d"
  then obtain n where n: "n < length d" "fst (d ! n) = approval_id op (length d)"
    by (auto simp: in_set_conv_nth)
  with assms have "approval_id (pd_operation (snd (d ! n))) n = approval_id op (length d)"
    unfolding numbered_nth by metis
  with n(1) approval_id_inj show False by blast
qed

lemma numbered_request:
  "numbered d \<Longrightarrow> numbered (d @ [(approval_id op (length d), mk_pending op it)])"
  unfolding numbered_nth by (auto simp: nth_append less_Suc_eq mk_pending_def)

lemma dict_set_values:
  "map_of d k = Some u \<Longrightarrow> f v = f u \<Longrightarrow> map (\<lambda>x. f (snd x)) (dict_set k v d) = map (\<lambda>x. f (snd x)) d"
  by (induction d) auto

lemma map_of_key: "map_of d k = Some u \<Longrightarrow> k \<in> fst ` set d"
  by (metis domI dom_map_of_conv_image_fst)

lemma length_dict_set_known: "map_of d k = Some u \<Longrightarrow> length (dict_set k v d) = length d"
  by (metis keys_dict_set length_map map_of_key)

lemma numbered_update:
  "numbered d \<Longrightarrow> map_of d i = Some item \<Longrightarrow> pd_operation item' = pd_operation item
     \<Longrightarrow> numbered (dict_set i item' d)"
  unfolding numbered_def
  by (simp add: keys_dict_set map_of_key length_dict_set_known
      dict_set_values [where f = pd_operation])

lemma the_holder_lookup:
  "numbered (au_pending a) \<Longrightarrow> the_holder su token a = Some (i, item) \<Longrightarrow>
     map_of (au_pending a) i = Some item"
  using the_holder_Some [of su token a i item] numbered_distinct by (simp add: map_of_is_SomeI)

subsection \<open>What one operation changes\<close>

text \<open>Every operation leaves the requests alone, adds one under a new name, or moves one on.\<close>

inductive desk_change ::
  "'s surroundings \<Rightarrow> moment \<Rightarrow> approval_op \<Rightarrow> string result
     \<Rightarrow> (string \<times> pending) list \<Rightarrow> (string \<times> pending) list \<Rightarrow> bool" for su mo where
  unchanged: "desk_change su mo p (Inl e) d d"
| asked: "(\<And>x. r = Inr x \<Longrightarrow> x = approval_id op (length d)) \<Longrightarrow>
     desk_change su mo (Request op it) r d (dict_set (approval_id op (length d)) (mk_pending op it) d)"
| granted: "map_of d i = Some item \<Longrightarrow> pd_decision item = Requested \<Longrightarrow> strip who \<noteq> [] \<Longrightarrow> 0 < ttl
     \<Longrightarrow> ttl \<le> max_ttl_seconds \<Longrightarrow>
     desk_change su mo (Grant i who ttl token) r d (dict_set i (item\<lparr>pd_token := Some (su_sha256 su token),
       pd_by := Some who, pd_granted_at := Some (mo_wall mo), pd_monotonic := Some (mo_clock mo + ttl),
       pd_wall := Some (mo_wall mo + ttl), pd_decision := Granted\<rparr>) d)"
| refused: "map_of d i = Some item \<Longrightarrow> pd_decision item = Requested \<Longrightarrow>
     desk_change su mo (Refuse i who) r d (dict_set i (item\<lparr>pd_decision := Refused, pd_by := Some who,
       pd_granted_at := Some (mo_wall mo)\<rparr>) d)"
| spent: "map_of d i = Some item \<Longrightarrow> spendable su mo head_of token op item
     \<Longrightarrow> (\<And>x. r = Inr x \<Longrightarrow> x = i) \<Longrightarrow>
     desk_change su mo (Spend head_of token op it) r d (dict_set i (item\<lparr>pd_decision := Consumed\<rparr>) d)"

inductive_cases desk_spend: "desk_change su mo (Spend head_of token op it) (Inr x) d d'"

lemma approval_step_change:
  assumes "approval_step su (mo, p) a = (a', r)" and "numbered (au_pending a)"
  shows "desk_change su mo p r (au_pending a) (au_pending a')"
proof (cases p)
  case (Request op it)
  with request_pending [of su mo op it a a' r] assms show ?thesis
    by (auto intro: asked)
next
  case (Grant i who ttl token)
  with grant_cases [of su mo i who ttl token a a' r] assms show ?thesis
    by (auto intro: granted unchanged)
next
  case (Refuse i who)
  with refuse_cases [of su mo i who a a' r] assms show ?thesis
    by (auto intro: refused unchanged)
next
  case (Spend head_of token op it)
  with consume_cases [of su mo head_of token op it a a' r] assms(1)
  consider e where "r = Inl e" "au_pending a' = au_pending a"
    | i item where "the_holder su token a = Some (i, item)" "spendable su mo head_of token op item"
      "au_pending a' = dict_set i (item\<lparr>pd_decision := Consumed\<rparr>) (au_pending a)"
      "\<And>x. r = Inr x \<Longrightarrow> x = i"
    by (simp only: approval_step.simps) blast
  then show ?thesis
  proof cases
    case 1
    then show ?thesis by (simp add: unchanged)
  next
    case 2
    from spent [OF the_holder_lookup [OF assms(2) 2(1)] 2(2,4)] Spend 2(3) show ?thesis by simp
  qed
qed

lemma desk_change_numbered: "desk_change su mo p r d d' \<Longrightarrow> numbered d \<Longrightarrow> numbered d'"
  by (induction rule: desk_change.induct)
     (auto simp: dict_set_fresh numbered_fresh numbered_request intro: numbered_update)

lemma desk_change_lookup:
  assumes "desk_change su mo p r d d'" and "numbered d" and "map_of d i = Some item"
  shows "\<exists>item'. map_of d' i = Some item' \<and> pd_operation item' = pd_operation item
    \<and> pd_decision item \<le> pd_decision item'"
  using assms
proof (induction rule: desk_change.induct)
  case (asked r op d it)
  then have "i \<noteq> approval_id op (length d)" using numbered_fresh map_of_key by metis
  with asked show ?case by simp
qed (auto simp: less_eq_decision_def spendable_def)

section \<open>What a history says of each request\<close>

type_synonym audit = "((moment \<times> approval_op) \<times> string result) list"

definition asked_in :: "audit \<Rightarrow> operation \<Rightarrow> bool" where
  "asked_in h op \<longleftrightarrow> (\<exists>mo it r. ((mo, Request op it), r) \<in> set h)"

definition granted_in :: "'s surroundings \<Rightarrow> audit \<Rightarrow> string \<Rightarrow> pending \<Rightarrow> bool" where
  "granted_in su h i item \<longleftrightarrow> (\<exists>g who ttl token r. ((g, Grant i who ttl token), r) \<in> set h
     \<and> strip who \<noteq> [] \<and> 0 < ttl \<and> ttl \<le> max_ttl_seconds
     \<and> pd_token item = Some (su_sha256 su token)
     \<and> pd_monotonic item = Some (mo_clock g + ttl) \<and> pd_wall item = Some (mo_wall g + ttl))"

definition explained :: "'s surroundings \<Rightarrow> audit \<Rightarrow> string \<Rightarrow> pending \<Rightarrow> bool" where
  "explained su h i item \<longleftrightarrow> asked_in h (pd_operation item)
     \<and> (if pd_decision item \<in> {Granted, Consumed} then granted_in su h i item
        else pd_token item = None)"

definition refused_in :: "audit \<Rightarrow> string \<Rightarrow> bool" where
  "refused_in h i \<longleftrightarrow> (\<exists>mo who x. ((mo, Refuse i who), Inr x) \<in> set h)"

definition accounted :: "'s surroundings \<Rightarrow> audit \<Rightarrow> 's authority \<Rightarrow> bool" where
  "accounted su h a \<longleftrightarrow> numbered (au_pending a)
     \<and> (\<forall>i item. map_of (au_pending a) i = Some item \<longrightarrow> explained su h i item)
     \<and> (\<forall>i. refused_in h i \<longrightarrow> (\<exists>item. map_of (au_pending a) i = Some item \<and> pd_decision item = Refused))"

lemma asked_in_more: "asked_in h op \<Longrightarrow> asked_in (h @ h') op"
  by (auto simp: asked_in_def)

lemma granted_in_more: "granted_in su h i item \<Longrightarrow> granted_in su (h @ h') i item"
  unfolding granted_in_def by fastforce

lemma explained_more: "explained su h i item \<Longrightarrow> explained su (h @ h') i item"
  by (auto simp: explained_def asked_in_more granted_in_more split: if_splits)

lemma granted_in_cong: "granted_in su h i (item\<lparr>pd_decision := d\<rparr>) = granted_in su h i item"
  by (simp add: granted_in_def)

lemma explained_overwrite:
  "\<forall>i item. map_of d i = Some item \<longrightarrow> explained su h i item \<Longrightarrow> explained su (h @ h') j item'
     \<Longrightarrow> map_of (dict_set j item' d) i = Some item \<Longrightarrow> explained su (h @ h') i item"
  by (cases "i = j") (simp_all add: explained_more)

lemma explained_change:
  assumes "desk_change su mo p r d d'" and old: "\<forall>i item. map_of d i = Some item \<longrightarrow> explained su h i item"
    and new: "map_of d' i = Some item"
  shows "explained su (h @ [((mo, p), r)]) i item"
  using assms(1)
proof (cases rule: desk_change.cases)
  case (unchanged e)
  with old new show ?thesis by (simp add: explained_more)
next
  case (asked op it)
  have "explained su (h @ [((mo, p), r)]) (approval_id op (length d)) (mk_pending op it)"
    unfolding asked(1) explained_def asked_in_def by (simp add: mk_pending_def) blast
  from explained_overwrite [OF old this] new show ?thesis unfolding asked(2) .
next
  case (granted j item0 who ttl token)
  let ?new = "item0\<lparr>pd_token := Some (su_sha256 su token),
      pd_by := Some who, pd_granted_at := Some (mo_wall mo), pd_monotonic := Some (mo_clock mo + ttl),
      pd_wall := Some (mo_wall mo + ttl), pd_decision := Granted\<rparr>"
  have "granted_in su (h @ [((mo, p), r)]) j ?new"
    unfolding granted_in_def granted(1)
    by (rule exI [of _ mo], rule exI [of _ who], rule exI [of _ ttl], rule exI [of _ token]) (use granted in auto)
  moreover have "asked_in (h @ [((mo, p), r)]) (pd_operation item0)"
    using old granted(3) by (simp add: explained_def asked_in_more)
  ultimately have "explained su (h @ [((mo, p), r)]) j ?new" by (simp add: explained_def)
  from explained_overwrite [OF old this] new show ?thesis unfolding granted(2) .
next
  case (refused j item0 who)
  from old refused(3) have "explained su (h @ [((mo, p), r)]) j item0" by (simp add: explained_more)
  then have "explained su (h @ [((mo, p), r)]) j (item0\<lparr>pd_decision := Refused, pd_by := Some who,
      pd_granted_at := Some (mo_wall mo)\<rparr>)"
    using refused(4) by (simp add: explained_def)
  from explained_overwrite [OF old this] new show ?thesis unfolding refused(2) .
next
  case (spent j item0 head_of token op it)
  from old spent(3) have "explained su (h @ [((mo, p), r)]) j item0" by (simp add: explained_more)
  then have "explained su (h @ [((mo, p), r)]) j (item0\<lparr>pd_decision := Consumed\<rparr>)"
    using spent(4) by (simp add: explained_def granted_in_cong spendable_def)
  from explained_overwrite [OF old this] new show ?thesis unfolding spent(2) .
qed

lemma refused_in_snoc:
  "refused_in (h @ [((mo, p), r)]) i \<longleftrightarrow> refused_in h i \<or> (\<exists>who x. p = Refuse i who \<and> r = Inr x)"
  by (auto simp: refused_in_def)

lemma refused_stays:
  "desk_change su mo p r d d' \<Longrightarrow> numbered d \<Longrightarrow> map_of d i = Some item \<Longrightarrow> pd_decision item = Refused
     \<Longrightarrow> \<exists>item'. map_of d' i = Some item' \<and> pd_decision item' = Refused"
  by (drule desk_change_lookup, assumption, assumption) (auto simp: less_eq_decision_def)

lemma refused_now:
  "desk_change su mo (Refuse i who) (Inr x) d d' \<Longrightarrow> \<exists>item. map_of d' i = Some item \<and> pd_decision item = Refused"
  by (cases rule: desk_change.cases) auto

lemma accounted_step:
  assumes "accounted su h a" and "approval_step su x a = (a', r)"
  shows "accounted su (h @ [(x, r)]) a'"
proof -
  obtain mo p where x: "x = (mo, p)" by (cases x)
  have n: "numbered (au_pending a)" using assms(1) by (simp add: accounted_def)
  note c = approval_step_change [OF assms(2) [unfolded x] n]
  have e: "\<forall>i item. map_of (au_pending a') i = Some item \<longrightarrow> explained su (h @ [(x, r)]) i item"
    using explained_change [OF c] assms(1) by (auto simp: accounted_def x)
  have "\<exists>item. map_of (au_pending a') i = Some item \<and> pd_decision item = Refused"
    if "refused_in (h @ [(x, r)]) i" for i
    using that assms(1) c refused_stays [OF c n] refused_now
    by (fastforce simp: accounted_def x refused_in_snoc)
  with e desk_change_numbered [OF c n] show ?thesis by (simp add: accounted_def)
qed

interpretation desk: audited "approval_step su" "accounted su" for su :: "'s surroundings"
  by unfold_locales (rule accounted_step)

definition spent_ids :: "'s authority \<Rightarrow> string set" where
  "spent_ids a = {i. \<exists>item. map_of (au_pending a) i = Some item \<and> pd_decision item = Consumed}"

fun spent_by :: "(moment \<times> approval_op) \<times> string result \<Rightarrow> string option" where
  "spent_by ((_, Spend _ _ _ _), Inr i) = Some i"
| "spent_by _ = None"

lemma spent_by_Some: "spent_by x = Some i \<longleftrightarrow> (\<exists>mo ho tok op it. x = ((mo, Spend ho tok op it), Inr i))"
  by (cases x rule: spent_by.cases) auto

interpretation permit: one_shot "approval_step su" "\<lambda>a. numbered (au_pending a)" spent_ids spent_by
  for su :: "'s surroundings"
proof unfold_locales
  fix x a a' r k
  assume a: "numbered (au_pending a)" "approval_step su x a = (a', r)"
  obtain mo p where x: "x = (mo, p)" by (cases x)
  note c = approval_step_change [OF a(2) [unfolded x] a(1)]
  show "numbered (au_pending a')" using desk_change_numbered [OF c a(1)] .
  show "spent_ids a \<subseteq> spent_ids a'"
    using desk_change_lookup [OF c a(1)] by (fastforce simp: spent_ids_def less_eq_decision_def)
  assume "spent_by (x, r) = Some k"
  with x c obtain ho tok op it where "desk_change su mo (Spend ho tok op it) (Inr k) (au_pending a) (au_pending a')"
    by (auto simp: spent_by_Some)
  then show "k \<notin> spent_ids a \<and> k \<in> spent_ids a'"
    by (cases rule: desk_change.cases) (auto simp: spent_ids_def spendable_def)
qed

lemma new_authority: "accounted su [] (mk_authority l)"
  by (simp add: accounted_def mk_authority_def numbered_def refused_in_def)

lemma spend_authenticated:
  assumes "accounted su h a" and "approval_step su (mo, Spend head_of token op it) a = (a', Inr i)"
  shows "\<exists>asked g who ttl token' r. asked_in h asked \<and> op_sha256 asked = op_sha256 op
    \<and> head_of (op_repo asked) = Inr (op_head asked)
    \<and> ((g, Grant i who ttl token'), r) \<in> set h \<and> su_sha256 su token' = su_sha256 su token
    \<and> strip who \<noteq> [] \<and> 0 < ttl \<and> ttl \<le> max_ttl_seconds
    \<and> mo_clock mo < mo_clock g + ttl \<and> mo_wall mo < mo_wall g + ttl"
proof -
  have n: "numbered (au_pending a)" using assms(1) by (simp add: accounted_def)
  from approval_step_change [OF assms(2) n] obtain item where
    item: "map_of (au_pending a) i = Some item" "spendable su mo head_of token op item"
    by (auto elim: desk_spend)
  with assms(1) have "asked_in h (pd_operation item)" "granted_in su h i item"
    by (auto simp: accounted_def explained_def spendable_def)
  then obtain g who ttl token' r where g: "((g, Grant i who ttl token'), r) \<in> set h" "strip who \<noteq> []"
    "0 < ttl" "ttl \<le> max_ttl_seconds" "pd_token item = Some (su_sha256 su token')"
    "pd_monotonic item = Some (mo_clock g + ttl)" "pd_wall item = Some (mo_wall g + ttl)"
    by (auto simp: granted_in_def)
  show ?thesis
    by (rule exI [of _ "pd_operation item"], rule exI [of _ g], rule exI [of _ who], rule exI [of _ ttl],
        rule exI [of _ token'], rule exI [of _ r])
      (use item(2) g \<open>asked_in h (pd_operation item)\<close> in \<open>auto simp: spendable_def holds_token_def\<close>)
qed

section \<open>The digest of an operation\<close>

lemma insort_key_map: "insort_key f (g x) (map g xs) = map g (insort_key (\<lambda>y. f (g y)) x xs)"
  by (induction xs) auto

lemma sort_key_map: "sort_key f (map g xs) = map g (sort_key (\<lambda>y. f (g y)) xs)"
  by (induction xs) (simp_all add: insort_key_map)

lemma sort_key_idem [simp]: "sort_key f (sort_key f xs) = sort_key f xs"
  by (rule sort_key_id_if_sorted) simp

text \<open>Sorting the keys by what maps to the keys: the entries \<open>(k, g v)\<close> sort as the \<open>(k, v)\<close> do.\<close>

lemma sort_entries:
  "sort_key fst (map (\<lambda>(k, v). (k, g v)) d) = map (\<lambda>(k, v). (k, g v)) (sort_key fst d)"
  by (simp add: sort_key_map case_prod_beta)

lemma sort_twice:
  "sort_key fst (map (\<lambda>(k, v). (k, g v)) (sort_key fst (map (\<lambda>(k, v). (k, h v)) d))) =
     sort_key fst (map (\<lambda>(k, v). (k, g (h v))) d)"
proof -
  have "sort_key fst (map (\<lambda>(k, v). (k, g v)) (sort_key fst (map (\<lambda>(k, v). (k, h v)) d))) =
      map (\<lambda>(k, v). (k, g v)) (map (\<lambda>(k, v). (k, h v)) (sort_key fst d))"
    by (simp only: sort_entries [of g] sort_entries [of h] sort_key_idem)
  also have "\<dots> = map (\<lambda>(k, v). (k, g (h v))) (sort_key fst d)" by auto
  finally show ?thesis by (simp only: sort_entries [of "\<lambda>v. g (h v)"])
qed

lemma dumps_sort_keys: "dumps (sort_keys v) = dumps v"
proof (induction v rule: sort_keys.induct)
  case (1 xs)
  then show ?case by (simp add: comp_def cong: map_cong)
next
  case (2 d)
  then have "map (\<lambda>(k, v). (k, dumps (sort_keys v))) d = map (\<lambda>(k, v). (k, dumps v)) d"
    by fastforce
  then show ?case by (simp only: sort_keys.simps dumps.simps sort_twice)
qed simp_all

lemma finite_sort_keys: "finite_json (sort_keys v) = finite_json v"
  by (induction v rule: sort_keys.induct) (auto simp: list_all_iff)

lemma sort_keys_idem: "sort_keys (sort_keys v) = sort_keys v"
proof (induction v rule: sort_keys.induct)
  case (2 d)
  then have "map (\<lambda>(k, v). (k, sort_keys (sort_keys v))) d = map (\<lambda>(k, v). (k, sort_keys v)) d"
    by fastforce
  then show ?case by (simp only: sort_keys.simps sort_twice)
qed (auto simp: comp_def)

lemma canonical_sort_keys:
  "canonical_operation k t (sort_keys v) rp rf h = canonical_operation k t v rp rf h"
  unfolding canonical_operation_def dumps.simps by (simp add: dumps_sort_keys)

section \<open>Permissions\<close>

text \<open>The contract: under each name one permission for the operation with one digest, which is
  asked for, answered once and spent at most once.\<close>

type_synonym permissions = "string \<Rightarrow> (string \<times> decision) option"

inductive perm_step :: "permissions \<Rightarrow> permissions \<Rightarrow> bool" where
  perm_idle: "perm_step m m"
| perm_ask: "m i = None \<Longrightarrow> perm_step m (m(i \<mapsto> (d, Requested)))"
| perm_yes: "m i = Some (d, Requested) \<Longrightarrow> perm_step m (m(i \<mapsto> (d, Granted)))"
| perm_no: "m i = Some (d, Requested) \<Longrightarrow> perm_step m (m(i \<mapsto> (d, Refused)))"
| perm_spend: "m i = Some (d, Granted) \<Longrightarrow> perm_step m (m(i \<mapsto> (d, Consumed)))"

definition permission_of :: "pending \<Rightarrow> string \<times> decision" where
  "permission_of item = (op_sha256 (pd_operation item), pd_decision item)"

definition perms :: "'s authority \<Rightarrow> permissions" where
  "perms a = map_option permission_of \<circ> map_of (au_pending a)"

lemma perms_set:
  "map_option permission_of \<circ> map_of (dict_set i item d) =
     (map_option permission_of \<circ> map_of d)(i \<mapsto> permission_of item)"
  by auto

lemma permission_of_pending: "permission_of (mk_pending op it) = (op_sha256 op, Requested)"
  by (simp add: permission_of_def mk_pending_def)

lemma desk_change_perm:
  "desk_change su mo p r d d' \<Longrightarrow> numbered d \<Longrightarrow>
     perm_step (map_option permission_of \<circ> map_of d) (map_option permission_of \<circ> map_of d')"
proof (induction rule: desk_change.induct)
  case (asked r op d it)
  then have "map_of d (approval_id op (length d)) = None"
    using numbered_fresh by (simp add: map_of_eq_None_iff)
  then have "(map_option permission_of \<circ> map_of d) (approval_id op (length d)) = None" by simp
  from perm_ask [where m = "map_option permission_of \<circ> map_of d" and d = "op_sha256 op" and i = "approval_id op (length d)", OF this] show ?case
    unfolding perms_set permission_of_pending .
qed (simp_all add: perms_set permission_of_def perm_idle perm_yes perm_no perm_spend spendable_def)

lemma trace_perms:
  "numbered (au_pending a) \<Longrightarrow> trace (approval_step su) xs a = (a', rs) \<Longrightarrow> perm_step\<^sup>*\<^sup>* (perms a) (perms a')"
proof (induction xs arbitrary: a rs)
  case (Cons x xs)
  obtain mo p where x: "x = (mo, p)" by (cases x)
  from Cons.prems(2) obtain a1 r rs1 where
    s: "approval_step su (mo, p) a = (a1, r)" "trace (approval_step su) xs a1 = (a', rs1)"
    by (auto simp: trace_Cons x simp del: trace.simps(2))
  note c = approval_step_change [OF s(1) Cons.prems(1)]
  from desk_change_perm [OF c Cons.prems(1)] Cons.IH [OF desk_change_numbered [OF c Cons.prems(1)] s(2)]
  show ?case unfolding perms_def by (rule converse_rtranclp_into_rtranclp)
qed simp

lemma perm_step_advances:
  "perm_step m m' \<Longrightarrow> m i = Some (d, x) \<Longrightarrow> \<exists>y. m' i = Some (d, y) \<and> x \<le> y"
  by (induction rule: perm_step.induct) (auto simp: less_eq_decision_def)

lemma perms_advance:
  "perm_step\<^sup>*\<^sup>* m m' \<Longrightarrow> m i = Some (d, x) \<Longrightarrow> \<exists>y. m' i = Some (d, y) \<and> x \<le> y"
  by (induction rule: rtranclp_induct) (fastforce dest: perm_step_advances intro: order_trans)+

section \<open>Properties\<close>


text \<open>C16. The authority implements one-shot permissions: every history of its operations is a
  path of the abstract permissions from none, so under each name the digest never changes and
  the decision only advances from requested to granted to consumed, or to refused.\<close>

theorem authority_refines_permissions:
  assumes "trace (approval_step su) xs (mk_authority l) = (a, rs)"
    and "trace (approval_step su) ys a = (a', rs')"
  shows "perm_step\<^sup>*\<^sup>* Map.empty (perms a) \<and> perm_step\<^sup>*\<^sup>* (perms a) (perms a')
    \<and> (\<forall>i. case perms a i of None \<Rightarrow> True
        | Some (d, x) \<Rightarrow> \<exists>y. perms a' i = Some (d, y) \<and> x \<le> y)"
proof -
  have "numbered (au_pending (mk_authority l))" by (simp add: mk_authority_def numbered_def)
  from trace_perms [OF this assms(1)] permit.trace_keeps [OF this assms(1)] trace_perms [OF _ assms(2)]
  have p: "perm_step\<^sup>*\<^sup>* Map.empty (perms a)" "perm_step\<^sup>*\<^sup>* (perms a) (perms a')"
    by (simp_all add: perms_def mk_authority_def comp_def)
  then show ?thesis using perms_advance [OF p(2)] by (auto split: option.split)
qed

text \<open>What a spend does is decided by the request that holds the token: when that is granted,
  unexpired on both clocks, for this digest and in a repository that has not moved it becomes
  consumed, and in every other case the spend raises and leaves every request as it was. An
  allowed spend raises only when the audit record cannot be written.\<close>

theorem consume_decides:
  "case consume su mo head_of token op it a of (a', r) \<Rightarrow>
     (case the_holder su token a of
        None \<Rightarrow> au_pending a' = au_pending a \<and> (\<exists>e. r = Inl e)
      | Some (i, item) \<Rightarrow>
          if spendable su mo head_of token op item
          then au_pending a' = dict_set i (item\<lparr>pd_decision := Consumed\<rparr>) (au_pending a)
            \<and> (r = Inr i \<or> (\<exists>e. r = Inl e \<and> au_log a \<noteq> None))
          else au_pending a' = au_pending a \<and> (\<exists>e. r = Inl e))"
proof (cases "consume su mo head_of token op it a")
  case (Pair a' r)
  show ?thesis
  proof (cases "the_holder su token a")
    case None
    with consume_cases [OF Pair] show ?thesis by (simp add: Pair)
  next
    case (Some q)
    then obtain i item where q: "the_holder su token a = Some (i, item)" by (cases q) auto
    show ?thesis
    proof (cases "spendable su mo head_of token op item")
      case True
      with spendable_fields [OF True] q Pair show ?thesis
        by (auto simp: consume_def spendable_def Let_def bind_res_def record_decision_def put_pending_def
            split: prod.splits sum.splits option.splits)
    next
      case False
      with consume_idle [OF q False Pair] q show ?thesis by (simp add: Pair)
    qed
  qed
qed

text \<open>What was approved cannot drift: an operation that could be built names its tool,
  repository and ref and a full commit id, and building it again from the arguments it keeps
  gives the same operation with the same digest.\<close>

theorem operation_pins_its_digest:
  assumes "mk_operation f kind tool args rp rf cm = Inr op"
  shows "mk_operation f kind tool (op_arguments op) rp rf cm = Inr op
    \<and> op_sha256 op = f (canonical_operation (op_kind op) (op_tool op) (thaw (op_arguments op))
        (op_repo op) (op_ref op) (op_head op))
    \<and> op_kind op \<in> set operation_kinds \<and> op_tool op \<noteq> [] \<and> op_repo op \<noteq> [] \<and> op_ref op \<noteq> []
    \<and> commit_shape (op_head op) \<and> finite_json (thaw (op_arguments op))"
  using assms
  by (auto simp: mk_operation_def canonical_sort_keys finite_sort_keys sort_keys_idem split: if_splits)

subsection \<open>Concrete histories\<close>

definition sample_commit :: string where "sample_commit = replicate 40 (CHR ''a'')"

definition sample_operation :: operation where
  "sample_operation = \<lparr>op_kind = ''ref'', op_tool = ''git_branch'', op_arguments = Proxy [],
     op_repo = ''/r'', op_ref = ''refs/heads/x'', op_head = sample_commit, op_sha256 = ''d''\<rparr>"

definition sample_surroundings :: "unit surroundings" where
  "sample_surroundings = \<lparr>su_write = (\<lambda>s _. Inr s), su_sha256 = (\<lambda>s. s), su_iso = (\<lambda>_. ''t'')\<rparr>"

definition at_time :: "real \<Rightarrow> moment" where
  "at_time t = \<lparr>mo_clock = t, mo_wall = 1000 + t, mo_stamp = ''t''\<rparr>"

lemma str_nat_0: "str_nat 0 = ''0''"
  by code_simp

lemmas sample_simps = sample_operation_def sample_surroundings_def at_time_def trace.simps
  request_def grant_def consume_def refuse_def reject_def reject_unknown_def record_decision_def
  open_request_def mk_authority_def mk_pending_def put_pending_def approval_id_def holds_token_def
  max_ttl_seconds_def str_nat_0 strip_def lstrip_def rstrip_def is_space_def Let_def

lemma sample_history:
  "\<exists>a i. trace (approval_step sample_surroundings)
     [(at_time 0, Request sample_operation 0), (at_time 1, Grant ''approval-d-0'' ''ada'' 60 ''tok''),
      (at_time 2, Spend (\<lambda>_. Inr sample_commit) ''tok'' sample_operation 0)]
     (mk_authority None) =
   (a, [((at_time 0, Request sample_operation 0), Inr ''approval-d-0''),
      ((at_time 1, Grant ''approval-d-0'' ''ada'' 60 ''tok''), Inr ''tok'')]
     @ ((at_time 2, Spend (\<lambda>_. Inr sample_commit) ''tok'' sample_operation 0), Inr i) # [])
   \<and> i = ''approval-d-0''"
  by (simp add: sample_simps)


theorem authority_refines_permissions_witness:
  "\<exists>a. trace (approval_step sample_surroundings) [(at_time 0, Request sample_operation 0)]
     (mk_authority None) = (a, [((at_time 0, Request sample_operation 0), Inr ''approval-d-0'')])
     \<and> perm_step\<^sup>*\<^sup>* Map.empty (perms a)"
proof -
  obtain a where a: "trace (approval_step sample_surroundings) [(at_time 0, Request sample_operation 0)]
     (mk_authority None) = (a, [((at_time 0, Request sample_operation 0), Inr ''approval-d-0'')])"
    by (simp add: sample_simps)
  from authority_refines_permissions [OF a, of "[]"] a show ?thesis by auto
qed

theorem operation_pins_its_digest_witness:
  "\<exists>op. mk_operation (\<lambda>_. ''d'') ''ref'' ''git_branch'' (freeze (PDict [(''b'', PInt 1), (''a'', PNone)]))
     ''/r'' ''refs/heads/x'' sample_commit = Inr op
     \<and> op_arguments op = Proxy [(''a'', Plain PNone), (''b'', Plain (PInt 1))]
     \<and> mk_operation (\<lambda>_. ''d'') ''ref'' ''git_branch'' (op_arguments op) ''/r'' ''refs/heads/x'' sample_commit
       = Inr op"
proof -
  have c: "commit_shape sample_commit"
    by (simp add: commit_shape_def sample_commit_def is_hex_def code_def list_all_iff)
  obtain op where op: "mk_operation (\<lambda>_. ''d'') ''ref'' ''git_branch''
      (freeze (PDict [(''b'', PInt 1), (''a'', PNone)])) ''/r'' ''refs/heads/x'' sample_commit = Inr op"
    "op_arguments op = Proxy [(''a'', Plain PNone), (''b'', Plain (PInt 1))]"
    using c by (simp add: mk_operation_def operation_kinds_def)
  from operation_pins_its_digest [OF op(1)] op show ?thesis by auto
qed

end
