(* ===== verification/Schemas.thy ===== *)
theory Schemas
  imports EventLog
begin

section \<open>The schema subset of tool contracts (atlas_core/tool_gateway.py)\<close>

text \<open>
  \<open>_validate_schema\<close> over JSON values: a value that does not match raises \<open>ToolSchemaError\<close>, a
  schema the function cannot use raises \<open>ValueError\<close> or \<open>TypeError\<close>. The specification is a
  condition on every part of the value that the schema reaches.
\<close>

subsection \<open>Equality of values\<close>

text \<open>Python's \<open>==\<close>: a boolean is the integer 0 or 1, and numbers compare by value.\<close>

fun num_of :: "pyval \<Rightarrow> pyfloat option" where
  "num_of (PBool b) = Some (Fin (if b then 1 else 0))"
| "num_of (PInt i) = Some (Fin (real_of_int i))"
| "num_of (PFloat f _) = Some f"
| "num_of _ = None"

lemma size_zip_fst [termination_simp]: "(a, b) \<in> set (zip xs ys) \<Longrightarrow> size a < Suc (size_list size xs)"
  by (drule set_zip_leftD) (simp add: less_Suc_eq_le size_list_estimation')

fun py_eq :: "pyval \<Rightarrow> pyval \<Rightarrow> bool" where
  "py_eq PNone v = (v = PNone)"
| "py_eq (PStr s) v = (v = PStr s)"
| "py_eq (PList xs) v = (case v of
     PList ys \<Rightarrow> length xs = length ys \<and> list_all (\<lambda>(x, y). py_eq x y) (zip xs ys) | _ \<Rightarrow> False)"
| "py_eq (PDict d) v = (case v of
     PDict e \<Rightarrow> length d = length e
       \<and> list_all (\<lambda>(k, x). case map_of e k of None \<Rightarrow> False | Some y \<Rightarrow> py_eq x y) d
   | _ \<Rightarrow> False)"
| "py_eq u v = (case (num_of u, num_of v) of (Some a, Some b) \<Rightarrow> a = b \<and> a \<noteq> NaN | _ \<Rightarrow> False)"

text \<open>\<open>value in container\<close>, where the container is what a schema names.\<close>

definition py_in :: "pyval \<Rightarrow> pyval \<Rightarrow> bool result" where
  "py_in v c = (case c of
     PList xs \<Rightarrow> Inr (list_ex (\<lambda>x. py_eq x v) xs)
   | PStr s \<Rightarrow> (case v of PStr t \<Rightarrow> Inr (contains s t) | _ \<Rightarrow> Inl TypeError)
   | PDict d \<Rightarrow> (case v of PStr t \<Rightarrow> Inr (t \<in> fst ` set d)
       | PList _ \<Rightarrow> Inl TypeError | PDict _ \<Rightarrow> Inl TypeError | _ \<Rightarrow> Inr False)
   | _ \<Rightarrow> Inl TypeError)"

subsection \<open>Types\<close>

definition schema_types :: "string list" where
  "schema_types = [''object'', ''array'', ''string'', ''integer'', ''number'', ''boolean'', ''null'']"

definition has_type :: "string \<Rightarrow> pyval \<Rightarrow> bool" where
  "has_type t v = (case v of
     PDict _ \<Rightarrow> t = ''object''
   | PList _ \<Rightarrow> t = ''array''
   | PStr _ \<Rightarrow> t = ''string''
   | PInt _ \<Rightarrow> t = ''integer'' \<or> t = ''number''
   | PFloat _ _ \<Rightarrow> t = ''number''
   | PBool _ \<Rightarrow> t = ''boolean''
   | PNone \<Rightarrow> t = ''null'')"

text \<open>\<open>[expected] if isinstance(expected, str) else list(expected)\<close>.\<close>

definition allowed_types :: "pyval \<Rightarrow> pyval list result" where
  "allowed_types t = (case t of
     PStr s \<Rightarrow> Inr [t] | PList ts \<Rightarrow> Inr ts | PDict d \<Rightarrow> Inr (map (\<lambda>x. PStr (fst x)) d)
   | _ \<Rightarrow> Inl TypeError)"

fun known_types :: "pyval list \<Rightarrow> string list result" where
  "known_types [] = Inr []"
| "known_types (t # ts) = (case t of
     PStr s \<Rightarrow> if s \<in> set schema_types then bind_res (known_types ts) (\<lambda>ss. Inr (s # ss))
       else Inl ValueError
   | PList _ \<Rightarrow> Inl TypeError | PDict _ \<Rightarrow> Inl TypeError | _ \<Rightarrow> Inl ValueError)"

definition check_type :: "pyval \<Rightarrow> dict \<Rightarrow> unit result" where
  "check_type v s = (case get_or s ''type'' PNone of
     PNone \<Rightarrow> Inr ()
   | t \<Rightarrow> bind_res (allowed_types t) (\<lambda>ts.
       if ts = [] then Inl ValueError
       else bind_res (known_types ts) (\<lambda>ss.
         require (list_ex (\<lambda>s. has_type s v) ss) ToolSchemaError)))"

definition check_enumeration :: "pyval \<Rightarrow> dict \<Rightarrow> unit result" where
  "check_enumeration v s = (case map_of s ''enum'' of
     None \<Rightarrow> Inr ()
   | Some c \<Rightarrow> bind_res (py_in v c) (\<lambda>b. require b ToolSchemaError))"

subsection \<open>Objects\<close>

fun missing_names :: "pyval list \<Rightarrow> dict \<Rightarrow> bool result" where
  "missing_names [] d = Inr False"
| "missing_names (n # ns) d = bind_res (py_in n (PDict d)) (\<lambda>b.
     bind_res (missing_names ns d) (\<lambda>m. Inr (\<not> b \<or> m)))"

definition check_object :: "dict \<Rightarrow> dict \<Rightarrow> unit result" where
  "check_object d s =
     (case (get_or s ''properties'' (PDict []), get_or s ''required'' (PList [])) of
        (PDict props, PList names) \<Rightarrow>
          bind_res (missing_names names d) (\<lambda>m.
          if m then Inl ToolSchemaError
          else require (get_or s ''additionalProperties'' PNone = PBool False
              \<longrightarrow> list_all (\<lambda>(k, v). k \<in> fst ` set props) d) ToolSchemaError)
      | _ \<Rightarrow> Inl ValueError)"

definition property_schema :: "dict \<Rightarrow> string \<Rightarrow> dict option" where
  "property_schema s k = (case get_or s ''properties'' (PDict []) of
     PDict props \<Rightarrow> (case map_of props k of Some (PDict c) \<Rightarrow> Some c | _ \<Rightarrow> None)
   | _ \<Rightarrow> None)"

definition item_schema :: "dict \<Rightarrow> dict option" where
  "item_schema s = (case get_or s ''items'' PNone of PDict c \<Rightarrow> Some c | _ \<Rightarrow> None)"

text \<open>What is checked at one place, before its parts.\<close>

definition check_here :: "pyval \<Rightarrow> dict \<Rightarrow> unit result" where
  "check_here v s = bind_res (check_type v s) (\<lambda>_. bind_res (check_enumeration v s) (\<lambda>_.
     case v of PDict d \<Rightarrow> check_object d s | _ \<Rightarrow> Inr ()))"

lemma map_res_cong [fundef_cong]:
  "xs = ys \<Longrightarrow> (\<And>y. y \<in> set ys \<Longrightarrow> f y = g y) \<Longrightarrow> map_res f xs = map_res g ys"
proof (induction xs arbitrary: ys)
  case (Cons x xs)
  then show ?case by (cases ys) auto
qed simp

fun validate_schema :: "pyval \<Rightarrow> dict \<Rightarrow> unit result" where
  "validate_schema (PDict d) s = bind_res (check_here (PDict d) s) (\<lambda>_.
     bind_res (map_res (\<lambda>(k, x). case property_schema s k of
         None \<Rightarrow> Inr () | Some c \<Rightarrow> validate_schema x c) d) (\<lambda>_. Inr ()))"
| "validate_schema (PList xs) s = bind_res (check_here (PList xs) s) (\<lambda>_.
     case item_schema s of
       None \<Rightarrow> Inr ()
     | Some c \<Rightarrow> bind_res (map_res (\<lambda>x. validate_schema x c) xs) (\<lambda>_. Inr ()))"
| "validate_schema v s = check_here v s"

section \<open>Specification\<close>

text \<open>The parts of a value with the schema that governs them.\<close>

inductive governs :: "pyval \<Rightarrow> dict \<Rightarrow> pyval \<Rightarrow> dict \<Rightarrow> bool" where
  here: "governs v s v s"
| in_object: "(k, x) \<in> set d \<Longrightarrow> property_schema s k = Some c \<Longrightarrow> governs x c v' s'
    \<Longrightarrow> governs (PDict d) s v' s'"
| in_array: "x \<in> set xs \<Longrightarrow> item_schema s = Some c \<Longrightarrow> governs x c v' s' \<Longrightarrow> governs (PList xs) s v' s'"

inductive_simps governs_simps [simp]:
  "governs PNone s v' s'" "governs (PBool b) s v' s'" "governs (PInt i) s v' s'"
  "governs (PFloat f t) s v' s'" "governs (PStr t) s v' s'"
inductive_simps governs_object: "governs (PDict d) s v' s'"
inductive_simps governs_array: "governs (PList xs) s v' s'"

lemma map_res_unit:
  "bind_res (map_res f xs) (\<lambda>_. Inr ()) = Inr () \<longleftrightarrow> (\<forall>x \<in> set xs. f x = Inr ())"
  by (induction xs) (auto simp: bind_res_Inr)

lemma optional_schema:
  "(case c of None \<Rightarrow> Inr () | Some x \<Rightarrow> f x) = Inr () \<longleftrightarrow> (\<forall>x. c = Some x \<longrightarrow> f x = Inr ())"
  by (cases c) simp_all

lemma bind_unit: "bind_res m (\<lambda>_. n) = Inr () \<longleftrightarrow> m = Inr () \<and> n = Inr ()" for m :: "unit result"
  by (cases m) simp_all

lemma validate_iff:
  "validate_schema v s = Inr () \<longleftrightarrow> (\<forall>v' s'. governs v s v' s' \<longrightarrow> check_here v' s' = Inr ())"
proof (induction v s rule: validate_schema.induct)
  case (1 d s)
  have IH: "validate_schema x c = Inr () \<longleftrightarrow> (\<forall>v' s'. governs x c v' s' \<longrightarrow> check_here v' s' = Inr ())"
    if "(k, x) \<in> set d" "property_schema s k = Some c" for k x c
    using 1 [OF that(1) refl that(2)] .
  have "validate_schema (PDict d) s = Inr () \<longleftrightarrow> check_here (PDict d) s = Inr ()
      \<and> (\<forall>(k, x) \<in> set d. \<forall>c. property_schema s k = Some c \<longrightarrow> validate_schema x c = Inr ())"
    unfolding validate_schema.simps bind_unit map_res_unit by (auto simp: optional_schema)
  also have "\<dots> \<longleftrightarrow> (\<forall>v' s'. governs (PDict d) s v' s' \<longrightarrow> check_here v' s' = Inr ())"
  proof (intro iffI allI impI conjI; (elim conjE)?)
    fix v' s' assume a: "check_here (PDict d) s = Inr ()" "governs (PDict d) s v' s'"
      "\<forall>(k, x) \<in> set d. \<forall>c. property_schema s k = Some c \<longrightarrow> validate_schema x c = Inr ()"
    from a(2) show "check_here v' s' = Inr ()"
      by (rule governs.cases) (use a(1,3) IH in \<open>fast+\<close>)
  next
    assume a: "\<forall>v' s'. governs (PDict d) s v' s' \<longrightarrow> check_here v' s' = Inr ()"
    then show "check_here (PDict d) s = Inr ()" by (simp add: here)
    show "\<forall>(k, x) \<in> set d. \<forall>c. property_schema s k = Some c \<longrightarrow> validate_schema x c = Inr ()"
      using a in_object IH by fast
  qed
  finally show ?case .
next
  case (2 xs s)
  have "validate_schema (PList xs) s = Inr () \<longleftrightarrow> check_here (PList xs) s = Inr ()
      \<and> (\<forall>c. item_schema s = Some c \<longrightarrow> (\<forall>x \<in> set xs. validate_schema x c = Inr ()))"
    unfolding validate_schema.simps bind_unit optional_schema map_res_unit by simp
  also have "\<dots> \<longleftrightarrow> (\<forall>v' s'. governs (PList xs) s v' s' \<longrightarrow> check_here v' s' = Inr ())"
  proof (intro iffI allI impI conjI ballI; (elim conjE)?)
    fix v' s' assume a: "check_here (PList xs) s = Inr ()" "governs (PList xs) s v' s'"
      "\<forall>c. item_schema s = Some c \<longrightarrow> (\<forall>x \<in> set xs. validate_schema x c = Inr ())"
    from a(2) show "check_here v' s' = Inr ()"
      by (rule governs.cases) (use a(1,3) 2 in \<open>fast+\<close>)
  next
    assume a: "\<forall>v' s'. governs (PList xs) s v' s' \<longrightarrow> check_here v' s' = Inr ()"
    then show "check_here (PList xs) s = Inr ()" by (simp add: here)
    fix c x assume "item_schema s = Some c" "x \<in> set xs"
    with a 2 show "validate_schema x c = Inr ()" using in_array by fast
  qed
  finally show ?case .
qed simp_all

text \<open>What a schema states of the value at one place.\<close>

definition fits_schema :: "pyval \<Rightarrow> dict \<Rightarrow> bool" where
  "fits_schema v s \<longleftrightarrow>
     (case get_or s ''type'' PNone of
        PStr t \<Rightarrow> has_type t v
      | PList ts \<Rightarrow> list_ex (\<lambda>t. case t of PStr t \<Rightarrow> has_type t v | _ \<Rightarrow> False) ts
      | _ \<Rightarrow> True)
     \<and> (case map_of s ''enum'' of Some (PList vs) \<Rightarrow> list_ex (\<lambda>x. py_eq x v) vs | _ \<Rightarrow> True)
     \<and> (case v of PDict d \<Rightarrow>
          (case get_or s ''required'' (PList []) of PList ns \<Rightarrow>
             list_all (\<lambda>n. case n of PStr k \<Rightarrow> k \<in> fst ` set d | _ \<Rightarrow> False) ns | _ \<Rightarrow> False)
          \<and> (get_or s ''additionalProperties'' PNone = PBool False \<longrightarrow>
               list_all (\<lambda>(k, x). case get_or s ''properties'' (PDict []) of
                  PDict props \<Rightarrow> k \<in> fst ` set props | _ \<Rightarrow> False) d)
        | _ \<Rightarrow> True)"

lemma known_types_Inr: "known_types ts = Inr ss \<Longrightarrow> ts = map PStr ss \<and> set ss \<subseteq> set schema_types"
  by (induction ts arbitrary: ss) (auto simp: bind_res_Inr split: pyval.splits if_splits)

lemma missing_names_none:
  "missing_names ns d = Inr False \<Longrightarrow>
     list_all (\<lambda>n. case n of PStr k \<Rightarrow> k \<in> fst ` set d | _ \<Rightarrow> False) ns"
  by (induction ns) (auto simp: bind_res_Inr py_in_def split: pyval.splits)

lemma check_type_fits:
  assumes "check_type v s = Inr ()"
  shows "case get_or s ''type'' PNone of
        PStr t \<Rightarrow> has_type t v
      | PList ts \<Rightarrow> list_ex (\<lambda>t. case t of PStr t \<Rightarrow> has_type t v | _ \<Rightarrow> False) ts
      | _ \<Rightarrow> True"
  using assms
  by (cases "get_or s ''type'' PNone")
     (auto simp: check_type_def allowed_types_def bind_res_Inr list_ex_iff split: if_splits
       dest!: known_types_Inr)

lemma check_here_fits:
  assumes "check_here v s = Inr ()" shows "fits_schema v s"
proof -
  from assms have c: "check_type v s = Inr ()" "check_enumeration v s = Inr ()"
    "case v of PDict d \<Rightarrow> check_object d s = Inr () | _ \<Rightarrow> True"
    by (auto simp: check_here_def bind_unit split: pyval.splits)
  have e: "case map_of s ''enum'' of Some (PList vs) \<Rightarrow> list_ex (\<lambda>x. py_eq x v) vs | _ \<Rightarrow> True"
    using c(2) by (auto simp: check_enumeration_def py_in_def bind_res_Inr split: option.splits pyval.splits)
  have o: "case v of PDict d \<Rightarrow>
          (case get_or s ''required'' (PList []) of PList ns \<Rightarrow>
             list_all (\<lambda>n. case n of PStr k \<Rightarrow> k \<in> fst ` set d | _ \<Rightarrow> False) ns | _ \<Rightarrow> False)
          \<and> (get_or s ''additionalProperties'' PNone = PBool False \<longrightarrow>
               list_all (\<lambda>(k, x). case get_or s ''properties'' (PDict []) of
                  PDict props \<Rightarrow> k \<in> fst ` set props | _ \<Rightarrow> False) d)
        | _ \<Rightarrow> True"
  proof (cases v)
    case (PDict d)
    with c(3) obtain props ns m where p: "get_or s ''properties'' (PDict []) = PDict props"
      "get_or s ''required'' (PList []) = PList ns" "missing_names ns d = Inr m" "\<not> m"
      "get_or s ''additionalProperties'' PNone = PBool False \<longrightarrow> list_all (\<lambda>(k, v). k \<in> fst ` set props) d"
      by (auto simp: check_object_def bind_res_Inr split: pyval.splits if_splits)
    with missing_names_none [of ns d] show ?thesis by (simp add: PDict)
  qed simp_all
  from check_type_fits [OF c(1)] e o show ?thesis by (simp add: fits_schema_def)
qed

section \<open>Properties\<close>


definition sample_schema :: dict where
  "sample_schema = [(''type'', PStr ''object''), (''additionalProperties'', PBool False),
     (''required'', PList [PStr ''ref'']),
     (''properties'', PDict [(''ref'', PDict [(''type'', PStr ''string'')])])]"


end
