(* ===== verification/Effects.thy ===== *)
theory Effects
  imports Prelude
begin

section \<open>Computations over a state\<close>

text \<open>
  A computation takes the state of the objects it works on and returns a result beside the new
  state; an exception keeps the state as it was when it was raised. \<open>after m Q E s\<close> is the weakest
  precondition: \<open>Q\<close> holds where \<open>m\<close> returns and \<open>E\<close> where it raises.
\<close>

type_synonym ('w, 'a) act = "'w \<Rightarrow> 'a result \<times> 'w"

definition give :: "'a \<Rightarrow> ('w, 'a) act" where "give a w = (Inr a, w)"
definition throw :: "exc \<Rightarrow> ('w, 'a) act" where "throw e w = (Inl e, w)"

definition chain :: "('w, 'a) act \<Rightarrow> ('a \<Rightarrow> ('w, 'b) act) \<Rightarrow> ('w, 'b) act" where
  "chain m f w = (case m w of (Inl e, w') \<Rightarrow> (Inl e, w') | (Inr a, w') \<Rightarrow> f a w')"

definition seq :: "('w, 'a) act \<Rightarrow> ('w, 'b) act \<Rightarrow> ('w, 'b) act" where
  "seq m n = chain m (\<lambda>_. n)"

text \<open>\<open>guarded m\<close> is a \<open>try\<close>: the exception becomes a value.\<close>

definition guarded :: "('w, 'a) act \<Rightarrow> ('w, 'a result) act" where
  "guarded m w = (case m w of (r, w') \<Rightarrow> (Inr r, w'))"

definition from_result :: "'a result \<Rightarrow> ('w, 'a) act" where "from_result r w = (r, w)"
definition look :: "('w \<Rightarrow> 'a) \<Rightarrow> ('w, 'a) act" where "look f w = (Inr (f w), w)"
definition change :: "('w \<Rightarrow> 'w) \<Rightarrow> ('w, unit) act" where "change f w = (Inr (), f w)"

text \<open>\<open>finally m n\<close> runs \<open>n\<close> however \<open>m\<close> ends: \<open>try: m finally: n\<close>, where \<open>n\<close> does not raise.\<close>

definition ensuring :: "('w, 'a) act \<Rightarrow> ('w \<Rightarrow> 'w) \<Rightarrow> ('w, 'a) act" where
  "ensuring m f w = (case m w of (r, w') \<Rightarrow> (r, f w'))"

section \<open>Weakest preconditions\<close>

definition after :: "('w, 'a) act \<Rightarrow> ('a \<Rightarrow> 'w \<Rightarrow> bool) \<Rightarrow> (exc \<Rightarrow> 'w \<Rightarrow> bool) \<Rightarrow> 'w \<Rightarrow> bool" where
  "after m Q E w \<longleftrightarrow> (case m w of (Inr a, w') \<Rightarrow> Q a w' | (Inl e, w') \<Rightarrow> E e w')"

named_theorems afters \<open>weakest preconditions of the constructs\<close>

lemma after_give [afters]: "after (give a) Q E w = Q a w"
  by (simp add: after_def give_def)
lemma after_throw [afters]: "after (throw e) Q E w = E e w"
  by (simp add: after_def throw_def)
lemma after_chain [afters]: "after (chain m f) Q E w = after m (\<lambda>a. after (f a) Q E) E w"
  by (auto simp: after_def chain_def split: prod.splits sum.splits)
lemma after_seq [afters]: "after (seq m n) Q E w = after m (\<lambda>_. after n Q E) E w"
  by (simp add: seq_def after_chain)
lemma after_guarded [afters]: "after (guarded m) Q E w = after m (\<lambda>a. Q (Inr a)) (\<lambda>e. Q (Inl e)) w"
  by (auto simp: after_def guarded_def split: prod.splits sum.splits)
lemma after_from_result [afters]:
  "after (from_result r) Q E w = (case r of Inl e \<Rightarrow> E e w | Inr a \<Rightarrow> Q a w)"
  by (auto simp: after_def from_result_def split: sum.splits)
lemma after_look [afters]: "after (look f) Q E w = Q (f w) w"
  by (simp add: after_def look_def)
lemma after_change [afters]: "after (change f) Q E w = Q () (f w)"
  by (simp add: after_def change_def)
lemma after_ensuring [afters]:
  "after (ensuring m f) Q E w = after m (\<lambda>a w. Q a (f w)) (\<lambda>e w. E e (f w)) w"
  by (auto simp: after_def ensuring_def split: prod.splits sum.splits)
lemma after_if [afters]:
  "after (if c then m else n) Q E w = (if c then after m Q E w else after n Q E w)"
  by simp
lemma after_option [afters]:
  "after (case v of None \<Rightarrow> m | Some x \<Rightarrow> f x) Q E w =
     (case v of None \<Rightarrow> after m Q E w | Some x \<Rightarrow> after (f x) Q E w)"
  by (cases v) simp_all
lemma after_sum [afters]:
  "after (case v of Inl e \<Rightarrow> f e | Inr x \<Rightarrow> g x) Q E w =
     (case v of Inl e \<Rightarrow> after (f e) Q E w | Inr x \<Rightarrow> after (g x) Q E w)"
  by (cases v) simp_all
lemma after_prod [afters]:
  "after (case v of (a, b) \<Rightarrow> f a b) Q E w = (case v of (a, b) \<Rightarrow> after (f a b) Q E w)"
  by (cases v) simp_all

lemma after_weaken:
  "after m Q E w \<Longrightarrow> (\<And>a w'. Q a w' \<Longrightarrow> Q' a w') \<Longrightarrow> (\<And>e w'. E e w' \<Longrightarrow> E' e w') \<Longrightarrow> after m Q' E' w"
  by (auto simp: after_def split: prod.splits sum.splits)

lemma after_run: "after m Q E w \<Longrightarrow> m w = (r, w') \<Longrightarrow> (case r of Inl e \<Rightarrow> E e w' | Inr a \<Rightarrow> Q a w')"
  by (auto simp: after_def split: sum.splits)

text \<open>Two computations that agree on the states that matter.\<close>

lemma chain_cong: "m w = m' w \<Longrightarrow> (\<And>a w'. m' w = (Inr a, w') \<Longrightarrow> f a w' = f' a w') \<Longrightarrow> chain m f w = chain m' f' w"
  by (auto simp: chain_def split: prod.splits sum.splits)

end
