(* ===== verification/Tool_Gateway.thy ===== *)
theory Tool_Gateway
  imports Approval Schemas Effects Controller
begin

section \<open>The tool gateway (atlas_core/tool_gateway.py)\<close>

text \<open>
  Tool definitions, the gateway that runs read tools with retries and write tools with an
  approval, and the isolated worker. Handlers, operation descriptions and the process channel
  are parameters; a handler is given the gateway, so it may do anything to its state, calls to
  the gateway included. What the tools work on is a world of the host's own. The gateway and
  its approval authority hold the one log of the run, as \<open>propose\<close> builds them. A schema's own
  error is taken not to mention JSON in its text, and arguments are JSON values.
\<close>

subsection \<open>Results of a handler\<close>

text \<open>\<open>fl_json\<close>: a \<open>ValueError\<close> or \<open>TypeError\<close> whose text mentions JSON. \<open>fl_remote\<close>: a
  \<open>_RemoteToolError\<close> marked retryable.\<close>

record failure =
  fl_exc :: exc
  fl_json :: bool
  fl_remote :: bool

definition plain_failure :: "exc \<Rightarrow> failure" where
  "plain_failure e = \<lparr>fl_exc = e, fl_json = False, fl_remote = False\<rparr>"

datatype returned = Json pyval | NotJson

fun dumps_plain :: "pyval \<Rightarrow> string" where
  "dumps_plain PNone = ''null''"
| "dumps_plain (PBool b) = (if b then ''true'' else ''false'')"
| "dumps_plain (PInt i) = str_int i"
| "dumps_plain (PFloat f t) = t"
| "dumps_plain (PStr s) = json_str s"
| "dumps_plain (PList xs) = ''['' @ join '', '' (map dumps_plain xs) @ '']''"
| "dumps_plain (PDict d) = ''{'' @ join '', '' (map (\<lambda>(k, v). json_str k @ '': '' @ dumps_plain v) d) @ ''}''"

text \<open>\<open>json.dumps(result, ensure_ascii=False, allow_nan=False)\<close>.\<close>

definition serialize :: "returned \<Rightarrow> failure + (pyval \<times> string)" where
  "serialize r = (case r of
     NotJson \<Rightarrow> Inl \<lparr>fl_exc = TypeError, fl_json = True, fl_remote = False\<rparr>
   | Json v \<Rightarrow> if finite_json v then Inr (v, dumps_plain v)
       else Inl \<lparr>fl_exc = ValueError, fl_json = True, fl_remote = False\<rparr>)"

subsection \<open>The gateway's state\<close>

record ('s, 'w) gateway =
  gw_budget :: budget
  gw_log :: "'s event_log option"
  gw_desk :: "(string \<times> pending) list option"
  gw_route :: "string option"
  gw_world :: 'w
  gw_tick :: nat

type_synonym ('s, 'w) handler =
  "bool \<Rightarrow> dict \<Rightarrow> ('s, 'w) gateway \<Rightarrow> (failure + returned) \<times> ('s, 'w) gateway"

record ('s, 'w) tool =
  tl_name :: string
  tl_capability :: string
  tl_handler :: "('s, 'w) handler"
  tl_routes :: "string list"
  tl_input :: dict
  tl_output :: dict
  tl_timeout :: real
  tl_sandbox :: string
  tl_idempotent :: "bool option"
  tl_attempts :: int
  tl_retry :: "exc \<Rightarrow> bool"
  tl_describe :: "(dict \<Rightarrow> 'w \<Rightarrow> operation result) option"

definition tool_name_shape :: "string \<Rightarrow> bool" where
  "tool_name_shape s \<longleftrightarrow> (case s of [] \<Rightarrow> False | c # cs \<Rightarrow> ch_lower c
     \<and> list_all (\<lambda>c. ch_lower c \<or> ch_digit c \<or> c = CHR ''_'') cs)"

text \<open>\<open>__post_init__\<close>, in the order of its checks; all of them raise \<open>ValueError\<close>. The tests of
  Python types are those of the record's fields.\<close>

definition mk_tool :: "('s, 'w) tool \<Rightarrow> ('s, 'w) tool result" where
  "mk_tool t =
     (if \<not> tool_name_shape (tl_name t) then Inl ValueError
      else if tl_capability t \<notin> set [''read'', ''write'', ''network''] then Inl ValueError
      else if tl_routes t = [] \<or> [] \<in> set (tl_routes t) then Inl ValueError
      else if tl_sandbox t \<notin> set [''in_process'', ''isolated_process''] then Inl ValueError
      else if tl_timeout t \<le> 0 then Inl ValueError
      else if tl_attempts t < 1 then Inl ValueError
      else if 1 < tl_attempts t \<and> tl_idempotent t \<noteq> Some True then Inl ValueError
      else if tl_capability t = ''write'' \<and> tl_attempts t \<noteq> 1 then Inl ValueError
      else Inr t)"

definition is_idempotent :: "('s, 'w) tool \<Rightarrow> bool" where
  "is_idempotent t \<longleftrightarrow> tl_idempotent t = Some True
     \<or> (tl_idempotent t = None \<and> tl_capability t = ''read'')"

type_synonym ('s, 'w) toolset = "(string \<times> ('s, 'w) tool) list"

definition mk_gateway ::
  "budget \<Rightarrow> ('s, 'w) toolset \<Rightarrow> 's event_log option \<Rightarrow> (string \<times> pending) list option \<Rightarrow> 'w
     \<Rightarrow> ('s, 'w) gateway result" where
  "mk_gateway b ts l desk w =
     (if list_ex (\<lambda>(n, t). n \<noteq> tl_name t) ts then Inl ValueError
      else Inr \<lparr>gw_budget = b, gw_log = l, gw_desk = desk, gw_route = None, gw_world = w, gw_tick = 0\<rparr>)"

definition set_route :: "string \<Rightarrow> (('s, 'w) gateway, unit) act" where
  "set_route r = (if r = [] then throw ValueError else change (\<lambda>g. g\<lparr>gw_route := Some r\<rparr>))"

subsection \<open>Surroundings\<close>

record ('s, 'w) gate_env =
  ge_reading :: "nat \<Rightarrow> reading"
  ge_stamp :: "nat \<Rightarrow> string"
  ge_moment :: "nat \<Rightarrow> moment"
  ge_clock :: "nat \<Rightarrow> real"
  ge_office :: "'s surroundings"
  ge_head :: "nat \<Rightarrow> 'w \<Rightarrow> string \<Rightarrow> string result"
  ge_posix :: bool
  ge_channel :: "nat \<Rightarrow> real \<Rightarrow> pyval \<Rightarrow> pyval option result"
  ge_text :: "exc \<Rightarrow> string"

definition tick :: "(('s, 'w) gateway, nat) act" where
  "tick g = (Inr (gw_tick g), g\<lparr>gw_tick := Suc (gw_tick g)\<rparr>)"

definition on_budget ::
  "('s, 'w) gate_env \<Rightarrow> (reading \<Rightarrow> budget \<Rightarrow> budget \<times> unit result) \<Rightarrow> (('s, 'w) gateway, unit) act" where
  "on_budget env f = chain tick (\<lambda>t g. case f (ge_reading env t) (gw_budget g) of
     (b, r) \<Rightarrow> (r, g\<lparr>gw_budget := b\<rparr>))"

definition check_limits :: "('s, 'w) gate_env \<Rightarrow> (('s, 'w) gateway, unit) act" where
  "check_limits env = on_budget env (\<lambda>r b. (b, check r b))"

definition on_log ::
  "('s, 'w) gate_env \<Rightarrow> (string \<Rightarrow> 's event_log \<Rightarrow> 's event_log \<times> 'a result)
     \<Rightarrow> (('s, 'w) gateway, 'a option) act" where
  "on_log env f g = (case gw_log g of
     None \<Rightarrow> (Inr None, g)
   | Some l \<Rightarrow> (case f (ge_stamp env (gw_tick g)) l of
        (l', r) \<Rightarrow> (bind_res r (\<lambda>x. Inr (Some x)), g\<lparr>gw_log := Some l', gw_tick := Suc (gw_tick g)\<rparr>)))"

definition tool_payload :: "('s, 'w) tool option \<Rightarrow> string option \<Rightarrow> int \<Rightarrow> dict" where
  "tool_payload t route k =
     [(''idempotent'', PBool (case t of None \<Rightarrow> False | Some t \<Rightarrow> is_idempotent t)),
      (''capability'', opt_text (map_option tl_capability t)),
      (''route'', opt_text route),
      (''sandbox'', opt_text (map_option tl_sandbox t)),
      (''attempt'', PInt k)]"

definition start_tool ::
  "('s, 'w) gate_env \<Rightarrow> ('s, 'w) tool option \<Rightarrow> string \<Rightarrow> pyval \<Rightarrow> int
     \<Rightarrow> (('s, 'w) gateway, string option) act" where
  "start_tool env t name args k = chain (look gw_route) (\<lambda>route.
     on_log env (\<lambda>now. start_call (su_write (ge_office env)) (su_sha256 (ge_office env)) now
       ''tool_call'' 0 (PStr name) args (tool_payload t route k)))"

definition finish_tool ::
  "('s, 'w) gate_env \<Rightarrow> string option \<Rightarrow> string \<Rightarrow> pyval \<Rightarrow> (('s, 'w) gateway, unit) act" where
  "finish_tool env call outcome err = (case call of
     None \<Rightarrow> give ()
   | Some c \<Rightarrow> seq (on_log env (\<lambda>now. finish_call (su_write (ge_office env)) now c outcome 0 err []))
       (give ()))"

definition refuse_call ::
  "('s, 'w) gate_env \<Rightarrow> string option \<Rightarrow> string \<Rightarrow> exc \<Rightarrow> (('s, 'w) gateway, 'a) act" where
  "refuse_call env call why e = seq (finish_tool env call ''denied'' (PStr why)) (throw e)"

subsection \<open>Running a handler\<close>

text \<open>What \<open>_isolated_worker\<close> sends: the handler runs in a copy of the process, so what it does to
  the gateway is lost.\<close>

definition isolated_worker ::
  "('s, 'w) gate_env \<Rightarrow> ('s, 'w) tool \<Rightarrow> dict \<Rightarrow> ('s, 'w) gateway \<Rightarrow> pyval" where
  "isolated_worker env t args g =
     (let failed = (\<lambda>f. PDict [(''ok'', PBool False), (''error'', PStr (exc_name (fl_exc f))),
            (''message'', PStr (take 256 (ge_text env (fl_exc f)))),
            (''retryable'', PBool (tl_retry t (fl_exc f)))]) in
      case fst (tl_handler t False args g) of
        Inl f \<Rightarrow> failed f
      | Inr r \<Rightarrow> (case serialize r of Inl f \<Rightarrow> failed f
          | Inr (v, s) \<Rightarrow> PDict [(''ok'', PBool True), (''result'', v)]))"

definition remote_failure :: "string \<Rightarrow> bool \<Rightarrow> failure" where
  "remote_failure err retry =
     \<lparr>fl_exc = Foreign ''_RemoteToolError'' err, fl_json = False, fl_remote = retry\<rparr>"

definition read_reply :: "pyval \<Rightarrow> failure + returned" where
  "read_reply payload = (case payload of
     PDict d \<Rightarrow>
       if get_or d ''ok'' PNone = PBool True then Inr (Json (get_or d ''result'' PNone))
       else Inl (remote_failure (str_val (get_or d ''error'' (PStr ''ToolProcessError'')))
         (truthy (get_or d ''retryable'' (PBool False))))
   | _ \<Rightarrow> Inl (plain_failure (Foreign ''AttributeError'' [])))"

definition run_isolated ::
  "('s, 'w) gate_env \<Rightarrow> ('s, 'w) tool \<Rightarrow> dict \<Rightarrow> (('s, 'w) gateway, failure + returned) act" where
  "run_isolated env t args =
     (if \<not> ge_posix env then give (Inl (plain_failure (ToolDenied ''isolated_process requires POSIX'')))
      else chain tick (\<lambda>k. chain tick (\<lambda>k'. chain (look gw_budget) (\<lambda>b.
        case remaining_seconds (ge_reading env k) (now (ge_reading env k')) b of
          Inl e \<Rightarrow> give (Inl (plain_failure e))
        | Inr left \<Rightarrow> chain tick (\<lambda>j. chain (look (isolated_worker env t args)) (\<lambda>payload.
            give (case ge_channel env j (min (tl_timeout t) left) payload of
              Inl e \<Rightarrow> Inl (plain_failure e)
            | Inr None \<Rightarrow> Inl (plain_failure ToolTimeout)
            | Inr (Some reply) \<Rightarrow> read_reply reply)))))))"

definition execute_tool ::
  "('s, 'w) gate_env \<Rightarrow> ('s, 'w) tool \<Rightarrow> dict \<Rightarrow> (('s, 'w) gateway, failure + returned) act" where
  "execute_tool env t args =
     (if tl_sandbox t = ''isolated_process'' then run_isolated env t args
      else chain tick (\<lambda>k. chain (\<lambda>g. case tl_handler t True args g of (r, g') \<Rightarrow> (Inr r, g')) (\<lambda>r.
        case r of
          Inl f \<Rightarrow> give (Inl f)
        | Inr v \<Rightarrow> chain tick (\<lambda>k'. give
            (if tl_timeout t < ge_clock env k' - ge_clock env k then Inl (plain_failure ToolTimeout)
             else Inr v)))))"

text \<open>The body of the \<open>try\<close>: run, check the budget, serialize, check the schema, charge.\<close>

definition run_and_check ::
  "('s, 'w) gate_env \<Rightarrow> ('s, 'w) tool \<Rightarrow> dict \<Rightarrow> (('s, 'w) gateway, failure + pyval) act" where
  "run_and_check env t args = chain (execute_tool env t args) (\<lambda>r. case r of
     Inl f \<Rightarrow> give (Inl f)
   | Inr v \<Rightarrow> chain (guarded (check_limits env)) (\<lambda>c. case c of
       Inl e \<Rightarrow> give (Inl (plain_failure e))
     | Inr _ \<Rightarrow> (case serialize v of
         Inl f \<Rightarrow> give (Inl f)
       | Inr (x, s) \<Rightarrow> (case validate_schema x (tl_output t) of
           Inl e \<Rightarrow> give (Inl (plain_failure e))
         | Inr _ \<Rightarrow> chain (guarded (on_budget env (\<lambda>r. charge_output r s))) (\<lambda>c. case c of
             Inl e \<Rightarrow> give (Inl (plain_failure e))
           | Inr _ \<Rightarrow> give (Inr x))))))"

definition reserve_call :: "('s, 'w) gate_env \<Rightarrow> string option \<Rightarrow> (('s, 'w) gateway, unit) act" where
  "reserve_call env call = chain (guarded (on_budget env reserve_tool)) (\<lambda>r. case r of
     Inl e \<Rightarrow> refuse_call env call (exc_name e) e
   | Inr _ \<Rightarrow> give ())"

subsection \<open>Read tools\<close>

definition raised_error :: "failure \<Rightarrow> exc" where
  "raised_error f = (if fl_exc f = ToolSchemaError then ToolSchemaError
     else if fl_json f then TypeError else fl_exc f)"

text \<open>\<open>n\<close> attempts are left; \<open>k\<close> is the number of this one. With none left the loop of the code
  is over, which it never is without a return or a raise.\<close>

fun attempts ::
  "nat \<Rightarrow> ('s, 'w) gate_env \<Rightarrow> ('s, 'w) tool \<Rightarrow> string \<Rightarrow> dict \<Rightarrow> int \<Rightarrow> string option
     \<Rightarrow> (('s, 'w) gateway, pyval) act" where
  "attempts 0 env t name args k call = throw (Foreign ''AssertionError'' [])"
| "attempts (Suc n) env t name args k call =
     seq (reserve_call env call) (chain (run_and_check env t args) (\<lambda>r. case r of
       Inr v \<Rightarrow> seq (finish_tool env call ''ok'' PNone) (give v)
     | Inl f \<Rightarrow> seq (finish_tool env call ''failed'' (PStr (exc_name (fl_exc f))))
         (if 0 < n \<and> (tl_retry t (fl_exc f) \<or> fl_remote f)
          then chain (start_tool env (Some t) name (PDict args) (k + 1))
            (attempts n env t name args (k + 1))
          else throw (raised_error f))))"

definition allowed_on :: "('s, 'w) tool \<Rightarrow> string option \<Rightarrow> bool" where
  "allowed_on t route \<longleftrightarrow> ''*'' \<in> set (tl_routes t)
     \<or> (case route of None \<Rightarrow> False | Some r \<Rightarrow> r \<in> set (tl_routes t))"

text \<open>What follows the start of the call: the checks that deny it, then the attempts.\<close>

definition answer_read ::
  "('s, 'w) gate_env \<Rightarrow> ('s, 'w) toolset \<Rightarrow> string \<Rightarrow> pyval \<Rightarrow> string option \<Rightarrow> string option
     \<Rightarrow> (('s, 'w) gateway, pyval) act" where
  "answer_read env ts name args call route = (case map_of ts name of
     None \<Rightarrow> refuse_call env call ''tool not registered'' (ToolDenied ''tool not registered'')
   | Some t \<Rightarrow>
       if tl_capability t \<noteq> ''read'' then
         refuse_call env call ''capability not allowed in read-only run''
           (ToolDenied ''capability not allowed in read-only run'')
       else if \<not> allowed_on t route then
         refuse_call env call ''tool not allowed for route'' (ToolDenied ''tool not allowed for route'')
       else (case (if args = PNone then PDict [] else args) of
         PDict d \<Rightarrow> (case validate_schema (PDict d) (tl_input t) of
             Inl e \<Rightarrow> if e = ToolSchemaError
               then refuse_call env call ''ToolSchemaError'' ToolSchemaError else throw e
           | Inr _ \<Rightarrow> attempts (nat (tl_attempts t)) env t name d 1 call)
       | _ \<Rightarrow> refuse_call env call ''TypeError'' TypeError))"

definition invoke ::
  "('s, 'w) gate_env \<Rightarrow> ('s, 'w) toolset \<Rightarrow> string \<Rightarrow> pyval \<Rightarrow> (('s, 'w) gateway, pyval) act" where
  "invoke env ts name args = seq (check_limits env)
     (chain (start_tool env (map_of ts name) name args 1) (\<lambda>call.
        chain (look gw_route) (answer_read env ts name args call)))"

text \<open>\<open>ToolContext.invoke\<close>.\<close>

definition context_invoke ::
  "('s, 'w) gate_env \<Rightarrow> ('s, 'w) toolset \<Rightarrow> bool \<Rightarrow> string \<Rightarrow> pyval \<Rightarrow> (('s, 'w) gateway, pyval) act" where
  "context_invoke env ts nested name args =
     (if \<not> nested then throw (ToolDenied ''nested calls are unavailable in isolated_process'')
      else invoke env ts name args)"

subsection \<open>Write tools\<close>

definition spend_approval ::
  "('s, 'w) gate_env \<Rightarrow> string \<Rightarrow> operation \<Rightarrow> int \<Rightarrow> (('s, 'w) gateway, string) act" where
  "spend_approval env token op it = chain tick (\<lambda>k g. case gw_desk g of
     None \<Rightarrow> (Inl (ToolDenied ''no approval authority''), g)
   | Some d \<Rightarrow> (case consume (ge_office env) (ge_moment env k) (ge_head env k (gw_world g)) token op it
         \<lparr>au_log = gw_log g, au_pending = d\<rparr> of
       (a, r) \<Rightarrow> (r, g\<lparr>gw_log := au_log a, gw_desk := Some (au_pending a)\<rparr>)))"

definition approve_call ::
  "('s, 'w) gate_env \<Rightarrow> (dict \<Rightarrow> 'w \<Rightarrow> operation result) \<Rightarrow> string \<Rightarrow> dict \<Rightarrow> string \<Rightarrow> int
     \<Rightarrow> (('s, 'w) gateway, string) act" where
  "approve_call env describe name args token it = chain (look gw_world) (\<lambda>w.
     chain (from_result (describe args w)) (\<lambda>op.
     if op_tool op \<noteq> name then throw ValueError else spend_approval env token op it))"

text \<open>The call once the approval is spent.\<close>

definition perform_write ::
  "('s, 'w) gate_env \<Rightarrow> ('s, 'w) tool \<Rightarrow> dict \<Rightarrow> string option \<Rightarrow> (('s, 'w) gateway, pyval) act" where
  "perform_write env t d call = seq (reserve_call env call) (chain (run_and_check env t d) (\<lambda>r. case r of
     Inl f \<Rightarrow> seq (finish_tool env call ''failed'' (PStr (exc_name (fl_exc f)))) (throw (fl_exc f))
   | Inr v \<Rightarrow> seq (finish_tool env call ''ok'' PNone) (give v)))"

definition answer_write ::
  "('s, 'w) gate_env \<Rightarrow> ('s, 'w) toolset \<Rightarrow> string \<Rightarrow> pyval \<Rightarrow> string \<Rightarrow> int \<Rightarrow> string option
     \<Rightarrow> string option \<times> (string \<times> pending) list option \<Rightarrow> (('s, 'w) gateway, pyval) act" where
  "answer_write env ts name args token it call seen = (case map_of ts name of
     None \<Rightarrow> refuse_call env call ''tool not registered'' (ToolDenied ''tool not registered'')
   | Some t \<Rightarrow> (case (tl_capability t = ''write'', tl_describe t) of
       (True, Some describe) \<Rightarrow>
         if snd seen = None then
           refuse_call env call ''no approval authority'' (ToolDenied ''no approval authority'')
         else if \<not> allowed_on t (fst seen) then
           refuse_call env call ''tool not allowed for route'' (ToolDenied ''tool not allowed for route'')
         else (case args of
           PDict d \<Rightarrow>
             if \<not> finite_json args then refuse_call env call ''TypeError'' TypeError
             else (case validate_schema args (tl_input t) of
               Inl e \<Rightarrow> if e = ToolSchemaError
                 then refuse_call env call ''ToolSchemaError'' ToolSchemaError else throw e
             | Inr _ \<Rightarrow> chain (guarded (approve_call env describe name d token it)) (\<lambda>r. case r of
                 Inl e \<Rightarrow> refuse_call env call (exc_name e) e
               | Inr _ \<Rightarrow> perform_write env t d call))
         | _ \<Rightarrow> refuse_call env call ''TypeError'' TypeError)
     | _ \<Rightarrow> refuse_call env call ''not a described write tool''
         (ToolDenied ''not a described write tool'')))"

definition invoke_write ::
  "('s, 'w) gate_env \<Rightarrow> ('s, 'w) toolset \<Rightarrow> string \<Rightarrow> pyval \<Rightarrow> string \<Rightarrow> int
     \<Rightarrow> (('s, 'w) gateway, pyval) act" where
  "invoke_write env ts name args token it = seq (check_limits env)
     (chain (start_tool env (map_of ts name) name args 1) (\<lambda>call.
        chain (look (\<lambda>g. (gw_route g, gw_desk g))) (answer_write env ts name args token it call)))"

end
