(* ===== verification/Gateway_Calls.thy ===== *)
theory Gateway_Calls
  imports Tool_Gateway
begin

section \<open>What the gateway guarantees of its calls\<close>

text \<open>
  Proofs about \<open>Tool_Gateway\<close>: which handlers a call can reach, what an approval is needed for,
  and what the log says of a call afterwards. A sink that never fails and handlers that leave
  the log alone are hypotheses of the last.
\<close>

subsection \<open>The log of a call\<close>

definition flawless :: "('s, 'w) gate_env \<Rightarrow> bool" where
  "flawless env \<longleftrightarrow> (\<forall>s r. \<exists>s'. su_write (ge_office env) s r = Inr s')"

lemma redact_names [simp]:
  "redact_text ''tool_call'' = ''tool_call''" "redact_text ''ok'' = ''ok''"
  "redact_text ''failed'' = ''failed''" "redact_text ''denied'' = ''denied''"
  by code_simp+

text \<open>The outcomes of a list of events that is a sequence of calls begun and finished.\<close>

fun outcomes :: "event list \<Rightarrow> string list option" where
  "outcomes [] = Some []"
| "outcomes [e] = None"
| "outcomes (e # f # es) =
     (if ev_kind e = ''call_started'' \<and> ev_kind f = ''call_finished'' \<and> ev_call e = ev_call f
      then map_option (\<lambda>os. outcome_of f # os) (outcomes es) else None)"

lemma outcomes_append:
  "outcomes es = Some os \<Longrightarrow> outcomes (es @ fs) = map_option (\<lambda>ps. os @ ps) (outcomes fs)"
  by (induction es arbitrary: os rule: outcomes.induct)
     (auto simp: option.map_comp comp_def split: if_splits option.splits intro: option.expand)

lemma append_writes:
  assumes "\<forall>s r. \<exists>s'. w s r = Inr s'" and "event_ok ev"
    and "ev = \<lparr>ev_run = log_run l, ev_seq = int (length (log_events l)), ev_kind = kind,
      ev_at = tm, ev_iteration = it, ev_call = call, ev_payload = redact_payload payload\<rparr>"
  shows "\<exists>l'. log_append w tm kind it call payload l = (l', Inr ev)
    \<and> log_events l' = log_events l @ [ev] \<and> log_run l' = log_run l"
proof -
  have m: "mk_event \<lparr>ev_run = log_run l, ev_seq = int (length (log_events l)), ev_kind = kind,
      ev_at = tm, ev_iteration = it, ev_call = call, ev_payload = redact_payload payload\<rparr> = Inr ev"
    using assms(2,3) by (simp add: mk_event_def)
  show ?thesis
  proof (cases "log_sink l")
    case None
    then show ?thesis by (simp add: log_append_def m Let_def)
  next
    case (Some s)
    obtain s' where "w s (event_dict ev) = Inr s'" using assms(1) by blast
    with Some show ?thesis by (simp add: log_append_def m Let_def)
  qed
qed

lemma calls_ok_run: "calls_ok l \<Longrightarrow> log_run l \<noteq> []"
  by (simp add: calls_ok_def log_ok_def)

lemma call_name_nonempty [simp]: "call_name l \<noteq> []"
  by (simp add: call_name_def)

lemma call_name_unfinished:
  assumes "calls_ok l" shows "\<not> list_ex (call_event ''call_finished'' (call_name l)) (log_events l)"
  using call_name_fresh [OF assms] assms by (auto simp: calls_ok_def count_zero [symmetric])

lemma start_call_writes:
  assumes w: "\<forall>s r. \<exists>s'. w s r = Inr s'" and l: "calls_ok l"
  shows "\<exists>l' ev. start_call w f tm ''tool_call'' 0 target inp payload l = (l', Inr (call_name l))
    \<and> log_events l' = log_events l @ [ev] \<and> call_event ''call_started'' (call_name l) ev \<and> calls_ok l'"
proof -
  let ?p = "[(''call_kind'', PStr ''tool_call''), (''target'', target),
    (''input_sha256'', if inp = PNone then PNone else PStr (digest f inp))] @ payload"
  let ?ev = "\<lparr>ev_run = log_run l, ev_seq = int (length (log_events l)), ev_kind = ''call_started'',
    ev_at = tm, ev_iteration = 0, ev_call = PStr (call_name l), ev_payload = redact_payload ?p\<rparr>"
  have "event_ok ?ev"
    using calls_ok_run [OF l]
    by (simp add: event_ok_def event_kinds_def needs_call_def names_one_of_def get_or_def
        redact_payload_def call_kinds_def verbatim_keys_def)
  from append_writes [OF w this refl] obtain l' where
    l': "log_append w tm ''call_started'' 0 (PStr (call_name l)) ?p l = (l', Inr ?ev)"
      "log_events l' = log_events l @ [?ev]" by blast
  have "calls_ok (log_apply w f (OStart tm ''tool_call'' 0 target inp payload) l)"
    using log_fold_calls_ok [OF l, of w f "[OStart tm ''tool_call'' 0 target inp payload]"] by simp
  then have "calls_ok l'" using l' by (simp add: start_call_def Let_def)
  with l' show ?thesis by (auto simp: start_call_def Let_def call_event_def)
qed

lemma finish_call_writes:
  assumes w: "\<forall>s r. \<exists>s'. w s r = Inr s'" and l: "calls_ok l"
    and c: "list_ex (call_event ''call_started'' c) (log_events l)"
      "\<not> list_ex (call_event ''call_finished'' c) (log_events l)"
    and out: "out \<in> {''ok'', ''failed'', ''denied''}"
  shows "\<exists>l' ev. finish_call w tm c out 0 err [] l = (l', Inr ev)
    \<and> log_events l' = log_events l @ [ev] \<and> call_event ''call_finished'' c ev \<and> outcome_of ev = out
    \<and> calls_ok l'"
proof -
  let ?p = "[(''outcome'', PStr out), (''error'', err)]"
  let ?ev = "\<lparr>ev_run = log_run l, ev_seq = int (length (log_events l)), ev_kind = ''call_finished'',
    ev_at = tm, ev_iteration = 0, ev_call = PStr c, ev_payload = redact_payload ?p\<rparr>"
  have "c \<noteq> []" using l c(1) by (auto simp: calls_ok_def started_in_def)
  then have "event_ok ?ev"
    using calls_ok_run [OF l] out
    by (auto simp: event_ok_def event_kinds_def needs_call_def names_one_of_def get_or_def
        redact_payload_def call_outcomes_def verbatim_keys_def)
  from append_writes [OF w this refl] obtain l' where
    l': "log_append w tm ''call_finished'' 0 (PStr c) ?p l = (l', Inr ?ev)"
      "log_events l' = log_events l @ [?ev]" by auto
  have "calls_ok (log_apply w (\<lambda>s. s) (OFinish tm c out 0 err []) l)"
    using log_fold_calls_ok [OF l, of w "\<lambda>s. s" "[OFinish tm c out 0 err []]"] by simp
  then have "calls_ok l'" using l' c by (simp add: finish_call_def)
  moreover have "outcome_of ?ev = out"
    using out by (auto simp: outcome_of_def redact_payload_def get_or_def verbatim_keys_def)
  ultimately show ?thesis using l' c by (auto simp: finish_call_def call_event_def)
qed

subsection \<open>Calls begun and settled\<close>

definition grown :: "('s, 'w) gateway \<Rightarrow> ('s, 'w) gateway \<Rightarrow> string list \<Rightarrow> bool" where
  "grown g g' os \<longleftrightarrow> (case gw_log g of
     None \<Rightarrow> gw_log g' = None
   | Some l \<Rightarrow> \<exists>l' new. gw_log g' = Some l' \<and> calls_ok l' \<and> log_events l' = log_events l @ new
       \<and> outcomes new = Some os)"

definition opened ::
  "('s, 'w) gateway \<Rightarrow> ('s, 'w) gateway \<Rightarrow> string list \<Rightarrow> string option \<Rightarrow> bool" where
  "opened g g' os call \<longleftrightarrow> (case gw_log g of
     None \<Rightarrow> gw_log g' = None \<and> call = None
   | Some l \<Rightarrow> \<exists>l' new ev c. call = Some c \<and> gw_log g' = Some l' \<and> calls_ok l'
       \<and> log_events l' = log_events l @ new @ [ev] \<and> outcomes new = Some os
       \<and> call_event ''call_started'' c ev
       \<and> \<not> list_ex (call_event ''call_finished'' c) (log_events l'))"

lemma opened_moved: "opened g g' os call \<Longrightarrow> gw_log g'' = gw_log g' \<Longrightarrow> opened g g'' os call"
  unfolding opened_def by (simp only:)

lemma grown_moved: "grown g g' os \<Longrightarrow> gw_log g'' = gw_log g' \<Longrightarrow> grown g g'' os"
  unfolding grown_def by (simp only:)

lemma start_tool_opens:
  assumes "flawless env" and "grown g w os"
  shows "after (start_tool env t n a k) (\<lambda>call w'. opened g w' os call
    \<and> gw_desk w' = gw_desk w \<and> gw_world w' = gw_world w \<and> gw_route w' = gw_route w \<and> gw_budget w' = gw_budget w)
    (\<lambda>_ _. False) w"
proof (cases "gw_log w")
  case None
  with assms(2) show ?thesis
    by (auto simp: start_tool_def afters on_log_def after_def chain_def look_def grown_def opened_def
        split: option.splits)
next
  case (Some l)
  with assms(2) obtain l0 new where l: "gw_log g = Some l0" "calls_ok l" "log_events l = log_events l0 @ new"
    "outcomes new = Some os"
    by (auto simp: grown_def split: option.splits)
  from start_call_writes [OF assms(1) [unfolded flawless_def] l(2), of "su_sha256 (ge_office env)"
      "ge_stamp env (gw_tick w)" "PStr n" a "tool_payload t (gw_route w) k"]
  obtain l' ev where s: "start_call (su_write (ge_office env)) (su_sha256 (ge_office env))
      (ge_stamp env (gw_tick w)) ''tool_call'' 0 (PStr n) a (tool_payload t (gw_route w) k) l = (l', Inr (call_name l))"
    "log_events l' = log_events l @ [ev]" "call_event ''call_started'' (call_name l) ev" "calls_ok l'" by blast
  have "\<not> list_ex (call_event ''call_finished'' (call_name l)) (log_events l')"
    using call_name_unfinished [OF l(2)] s(2,3) by (auto simp: call_event_def)
  with s l Some show ?thesis
    unfolding start_tool_def after_chain after_look by (simp add: after_def on_log_def opened_def)
qed

lemma finish_tool_settles:
  assumes "flawless env" and "opened g w os call" and "out \<in> {''ok'', ''failed'', ''denied''}"
  shows "after (finish_tool env call out err) (\<lambda>_ w'. grown g w' (os @ [out])) (\<lambda>_ _. False) w"
proof (cases "gw_log g")
  case None
  with assms(2) show ?thesis by (simp add: finish_tool_def opened_def grown_def afters)
next
  case (Some l0)
  with assms(2) obtain l new ev c where o: "call = Some c" "gw_log w = Some l" "calls_ok l"
    "log_events l = log_events l0 @ new @ [ev]" "outcomes new = Some os" "call_event ''call_started'' c ev"
    "\<not> list_ex (call_event ''call_finished'' c) (log_events l)"
    by (auto simp: opened_def)
  from o(4,6) have "list_ex (call_event ''call_started'' c) (log_events l)" by simp
  from finish_call_writes [OF assms(1) [unfolded flawless_def] o(3) this o(7) assms(3)]
  obtain l' f where f: "finish_call (su_write (ge_office env)) (ge_stamp env (gw_tick w)) c out 0 err [] l = (l', Inr f)"
    "log_events l' = log_events l @ [f]" "call_event ''call_finished'' c f" "outcome_of f = out" "calls_ok l'"
    by blast
  have "outcomes (new @ [ev, f]) = Some (os @ [out])"
    using outcomes_append [OF o(5)] o(6) f(3,4) by (simp add: call_event_def)
  with o f Some show ?thesis
    unfolding finish_tool_def o(1) option.case after_seq after_give
    by (simp add: after_def on_log_def grown_def)
qed

text \<open>Computations that leave the log alone keep a call open.\<close>

definition mute :: "(('s, 'w) gateway, 'a) act \<Rightarrow> bool" where
  "mute m \<longleftrightarrow> (\<forall>g. gw_log (snd (m g)) = gw_log g)"

named_theorems mutes \<open>computations that leave the log alone\<close>

lemma mute_basic [mutes]:
  "mute (give a)" "mute (throw e)" "mute (look f)" "mute (from_result r)" "mute tick"
  by (simp_all add: mute_def give_def throw_def look_def from_result_def tick_def)

lemma mute_chain [mutes]: "mute m \<Longrightarrow> (\<And>a. mute (f a)) \<Longrightarrow> mute (chain m f)"
  unfolding mute_def chain_def by (auto split: prod.split sum.split) (metis snd_conv)+

lemma mute_seq [mutes]: "mute m \<Longrightarrow> mute n \<Longrightarrow> mute (seq m n)"
  unfolding seq_def by (rule mute_chain)

lemma mute_guarded [mutes]: "mute m \<Longrightarrow> mute (guarded m)"
  unfolding mute_def guarded_def by (auto split: prod.split) (metis snd_conv)

lemma mute_if [mutes]: "(c \<Longrightarrow> mute m) \<Longrightarrow> (\<not> c \<Longrightarrow> mute n) \<Longrightarrow> mute (if c then m else n)"
  by simp

lemma mute_sum [mutes]:
  "(\<And>e. v = Inl e \<Longrightarrow> mute (f e)) \<Longrightarrow> (\<And>x. v = Inr x \<Longrightarrow> mute (g x))
     \<Longrightarrow> mute (case v of Inl e \<Rightarrow> f e | Inr x \<Rightarrow> g x)"
  by (cases v) simp_all

lemma mute_prod [mutes]: "(\<And>a b. mute (f a b)) \<Longrightarrow> mute (case v of (a, b) \<Rightarrow> f a b)"
  by (cases v) simp

lemma mute_budget [mutes]: "mute (on_budget env f)"
  unfolding on_budget_def by (intro mutes) (auto simp: mute_def split: prod.split)

lemma mute_check [mutes]: "mute (check_limits env)"
  unfolding check_limits_def by (intro mutes)

definition quiet_tool :: "('s, 'w) tool \<Rightarrow> bool" where
  "quiet_tool t \<longleftrightarrow> (\<forall>nested args g. gw_log (snd (tl_handler t nested args g)) = gw_log g)"

lemma mute_handler: "quiet_tool t \<Longrightarrow> mute (\<lambda>g. case tl_handler t b args g of (r, g') \<Rightarrow> (Inr r, g'))"
  unfolding mute_def quiet_tool_def by (auto split: prod.split) (metis snd_conv)

lemma mute_run_and_check: "quiet_tool t \<Longrightarrow> mute (run_and_check env t args)"
  unfolding run_and_check_def execute_tool_def run_isolated_def
  by (intro mutes mute_handler)

lemma after_mute:
  assumes "mute m" and "\<And>w'. gw_log w' = gw_log w \<Longrightarrow> P w'"
  shows "after m (\<lambda>_. P) (\<lambda>_. P) w"
  using assms by (auto simp: after_def mute_def split: prod.split sum.split) (metis snd_conv)+

text \<open>Computations that return a value whatever happens.\<close>

definition total :: "('w, 'a) act \<Rightarrow> bool" where
  "total m \<longleftrightarrow> (\<forall>g. \<exists>a g'. m g = (Inr a, g'))"

named_theorems totals \<open>computations that do not raise\<close>

lemma total_basic [totals]: "total (give a)" "total (look f)" "total tick" "total (guarded m)"
  by (auto simp: total_def give_def look_def tick_def guarded_def split: prod.split)

lemma total_chain [totals]:
  assumes "total m" and "\<And>a. total (f a)" shows "total (chain m f)"
  unfolding total_def
proof
  fix g
  obtain a g1 where 1: "m g = (Inr a, g1)" using assms(1) unfolding total_def by blast
  obtain b g2 where "f a g1 = (Inr b, g2)" using assms(2) unfolding total_def by blast
  with 1 show "\<exists>b g'. chain m f g = (Inr b, g')" by (simp add: chain_def)
qed

lemma total_if [totals]: "(c \<Longrightarrow> total m) \<Longrightarrow> (\<not> c \<Longrightarrow> total n) \<Longrightarrow> total (if c then m else n)"
  by simp

lemma total_sum [totals]:
  "(\<And>e. v = Inl e \<Longrightarrow> total (f e)) \<Longrightarrow> (\<And>x. v = Inr x \<Longrightarrow> total (g x))
     \<Longrightarrow> total (case v of Inl e \<Rightarrow> f e | Inr x \<Rightarrow> g x)"
  by (cases v) simp_all

lemma total_prod [totals]: "(\<And>a b. total (f a b)) \<Longrightarrow> total (case v of (a, b) \<Rightarrow> f a b)"
  by (cases v) simp

lemma total_handler [totals]: "total (\<lambda>g. case h g of (r, g') \<Rightarrow> (Inr r, g'))"
  by (auto simp: total_def split: prod.split)

lemma total_run_and_check: "total (run_and_check env t args)"
  unfolding run_and_check_def execute_tool_def run_isolated_def
  by (intro totals)

lemma after_total:
  assumes "mute m" and "total m" and "\<And>w'. gw_log w' = gw_log w \<Longrightarrow> P w'"
  shows "after m (\<lambda>_. P) (\<lambda>_ _. False) w"
proof -
  obtain a w' where m: "m w = (Inr a, w')" using assms(2) unfolding total_def by blast
  with assms(1) have "gw_log w' = gw_log w" unfolding mute_def by (metis snd_conv)
  with m assms(3) show ?thesis by (simp add: after_def)
qed

definition settled_as :: "('s, 'w) gateway \<Rightarrow> ('s, 'w) gateway \<Rightarrow> string list \<Rightarrow> nat \<Rightarrow> string set \<Rightarrow> bool" where
  "settled_as g w os n xs \<longleftrightarrow> (\<exists>m < n. \<exists>x \<in> xs. grown g w (os @ replicate m ''failed'' @ [x]))"

lemma settled_as_now: "grown g w (os @ [x]) \<Longrightarrow> x \<in> xs \<Longrightarrow> settled_as g w os (Suc n) xs"
  unfolding settled_as_def by (intro exI [of _ 0]) auto

lemma settled_as_later: "settled_as g w (os @ [''failed'']) n xs \<Longrightarrow> settled_as g w os (Suc n) xs"
  unfolding settled_as_def
proof (elim exE bexE conjE)
  fix m x assume "m < n" "x \<in> xs" "grown g w ((os @ [''failed'']) @ replicate m ''failed'' @ [x])"
  then show "\<exists>m < Suc n. \<exists>x \<in> xs. grown g w (os @ replicate m ''failed'' @ [x])"
    by (intro exI [of _ "Suc m"] conjI bexI [of _ x]) simp_all
qed

lemma refuse_call_settles:
  assumes "flawless env" and "opened g w os call"
  shows "after (refuse_call env call why e) (\<lambda>_ _. False) (\<lambda>_ w'. settled_as g w' os (Suc n) {''failed'', ''denied''}) w"
  unfolding refuse_call_def after_seq after_throw
  by (rule after_weaken [OF finish_tool_settles [OF assms]]) (auto intro: settled_as_now)

lemma reserve_call_settles:
  fixes env :: "('s, 'w) gate_env"
  assumes "flawless env" and "opened g w os call"
  shows "after (reserve_call env call) (\<lambda>_ w'. opened g w' os call)
    (\<lambda>_ w'. settled_as g w' os (Suc n) {''failed'', ''denied''}) w"
  unfolding reserve_call_def after_chain after_guarded
proof (rule after_weaken [OF after_mute [OF mute_budget, where P = "\<lambda>w'. opened g w' os call"]])
  fix w' :: "('s, 'w) gateway" assume "gw_log w' = gw_log w"
  with assms(2) show "opened g w' os call" by (rule opened_moved)
next
  fix a :: unit and w' :: "('s, 'w) gateway" assume "opened g w' os call"
  then show "after (case Inr a of Inl e \<Rightarrow> refuse_call env call (exc_name e) e | Inr _ \<Rightarrow> give ())
      (\<lambda>_ w'. opened g w' os call) (\<lambda>_ w'. settled_as g w' os (Suc n) {''failed'', ''denied''}) w'"
    by (simp add: after_give)
next
  fix e and w' :: "('s, 'w) gateway" assume o: "opened g w' os call"
  show "after (case Inl e of Inl e \<Rightarrow> refuse_call env call (exc_name e) e | Inr _ \<Rightarrow> give ())
      (\<lambda>_ w'. opened g w' os call) (\<lambda>_ w'. settled_as g w' os (Suc n) {''failed'', ''denied''}) w'"
    unfolding sum.case by (rule after_weaken [OF refuse_call_settles [OF assms(1) o]]) simp_all
qed

lemma attempts_settle:
  fixes env :: "('s, 'w) gate_env"
  assumes env: "flawless env" and t: "quiet_tool t"
  shows "opened g w os call \<Longrightarrow> 0 < n \<Longrightarrow> after (attempts n env t name args k call)
    (\<lambda>_ w'. settled_as g w' os n {''ok''}) (\<lambda>_ w'. settled_as g w' os n {''failed'', ''denied''}) w"
proof (induction n arbitrary: w os k call)
  case (Suc n)
  have ran: "after (run_and_check env t args) (\<lambda>_ w'. opened g w' os call) (\<lambda>_ _. False) w'"
    if "opened g w' os call" for w' :: "('s, 'w) gateway"
    by (rule after_total [OF mute_run_and_check [OF t] total_run_and_check]) (rule opened_moved [OF that])
  have grew: "after (finish_tool env call x err) (\<lambda>_ w'. grown g w' (os @ [x])) (\<lambda>_ _. False) w'"
    if "opened g w' os call" "x \<in> {''ok'', ''failed'', ''denied''}" for w' :: "('s, 'w) gateway" and x err
    by (rule finish_tool_settles [OF env that])
  show ?case
    unfolding attempts.simps after_seq after_chain
  proof (rule after_weaken [OF reserve_call_settles [OF env Suc.prems(1), of n]])
    fix w' :: "('s, 'w) gateway" assume opened: "opened g w' os call"
    show "after (run_and_check env t args) (\<lambda>r. after (case r of
         Inl f \<Rightarrow> seq (finish_tool env call ''failed'' (PStr (exc_name (fl_exc f))))
           (if 0 < n \<and> (tl_retry t (fl_exc f) \<or> fl_remote f)
            then chain (start_tool env (Some t) name (PDict args) (k + 1)) (attempts n env t name args (k + 1))
            else throw (raised_error f))
       | Inr v \<Rightarrow> seq (finish_tool env call ''ok'' PNone) (give v))
      (\<lambda>_ w'. settled_as g w' os (Suc n) {''ok''}) (\<lambda>_ w'. settled_as g w' os (Suc n) {''failed'', ''denied''}))
      (\<lambda>_ w'. settled_as g w' os (Suc n) {''failed'', ''denied''}) w'"
    proof (rule after_weaken [OF ran [OF opened]])
      fix r :: "failure + pyval" and v :: "('s, 'w) gateway" assume o: "opened g v os call"
      show "after (case r of
         Inl f \<Rightarrow> seq (finish_tool env call ''failed'' (PStr (exc_name (fl_exc f))))
           (if 0 < n \<and> (tl_retry t (fl_exc f) \<or> fl_remote f)
            then chain (start_tool env (Some t) name (PDict args) (k + 1)) (attempts n env t name args (k + 1))
            else throw (raised_error f))
       | Inr v \<Rightarrow> seq (finish_tool env call ''ok'' PNone) (give v))
      (\<lambda>_ w'. settled_as g w' os (Suc n) {''ok''}) (\<lambda>_ w'. settled_as g w' os (Suc n) {''failed'', ''denied''}) v"
      proof (cases r)
        case (Inr x)
        show ?thesis
          unfolding Inr sum.case after_seq after_give
          by (rule after_weaken [OF grew [OF o]]) (auto intro: settled_as_now)
      next
        case (Inl f)
        have next_try: "after (chain (start_tool env (Some t) name (PDict args) (k + 1)) (attempts n env t name args (k + 1)))
            (\<lambda>_ w'. settled_as g w' os (Suc n) {''ok''}) (\<lambda>_ w'. settled_as g w' os (Suc n) {''failed'', ''denied''}) u"
          if "0 < n" "grown g u (os @ [''failed''])" for u :: "('s, 'w) gateway"
          unfolding after_chain
        proof (rule after_weaken [OF start_tool_opens [OF env that(2)]])
          fix c and u' :: "('s, 'w) gateway"
          assume "opened g u' (os @ [''failed'']) c \<and> gw_desk u' = gw_desk u
            \<and> gw_world u' = gw_world u \<and> gw_route u' = gw_route u \<and> gw_budget u' = gw_budget u"
          then have c: "opened g u' (os @ [''failed'']) c" by simp
          show "after (attempts n env t name args (k + 1) c) (\<lambda>_ w'. settled_as g w' os (Suc n) {''ok''})
              (\<lambda>_ w'. settled_as g w' os (Suc n) {''failed'', ''denied''}) u'"
            by (rule after_weaken [OF Suc.IH [OF c that(1)]]) (rule settled_as_later, assumption)+
        qed simp
        show ?thesis
          unfolding Inl sum.case after_seq after_if after_throw
          by (rule after_weaken [OF grew [OF o]])
            (auto intro: settled_as_now next_try)
      qed
    qed simp_all
  qed
qed simp

definition usable :: "dict \<Rightarrow> bool" where
  "usable s \<longleftrightarrow> (\<forall>v e. validate_schema v s = Inl e \<longrightarrow> e = ToolSchemaError)"

definition orderly_tool :: "('s, 'w) tool \<Rightarrow> bool" where
  "orderly_tool t \<longleftrightarrow> quiet_tool t \<and> usable (tl_input t) \<and> 1 \<le> tl_attempts t"

definition max_calls :: "('s, 'w) toolset \<Rightarrow> string \<Rightarrow> nat" where
  "max_calls ts name = (case map_of ts name of None \<Rightarrow> 1 | Some t \<Rightarrow> nat (tl_attempts t))"

lemma invoke_settles:
  fixes env :: "('s, 'w) gate_env"
  assumes env: "flawless env" and g: "grown g g []"
    and ts: "\<And>t. map_of ts name = Some t \<Longrightarrow> orderly_tool t"
  shows "after (invoke env ts name args) (\<lambda>_ w. settled_as g w [] (max_calls ts name) {''ok''})
    (\<lambda>_ w. grown g w [] \<or> settled_as g w [] (max_calls ts name) {''failed'', ''denied''}) g"
proof -
  obtain N where N: "max_calls ts name = Suc N"
    using ts by (cases "map_of ts name"; cases "max_calls ts name") (auto simp: max_calls_def orderly_tool_def)
  have refuse: "after (refuse_call env call why e) (\<lambda>_ w. settled_as g w [] (max_calls ts name) {''ok''})
      (\<lambda>_ w. grown g w [] \<or> settled_as g w [] (max_calls ts name) {''failed'', ''denied''}) w"
    if "opened g w [] call" for w :: "('s, 'w) gateway" and call why e
    by (rule after_weaken [OF refuse_call_settles [OF env that, of why e N]]) (simp_all add: N)
  have settle: "after (attempts (nat (tl_attempts t)) env t name d 1 call)
      (\<lambda>_ w. settled_as g w [] (max_calls ts name) {''ok''})
      (\<lambda>_ w. grown g w [] \<or> settled_as g w [] (max_calls ts name) {''failed'', ''denied''}) w"
    if "opened g w [] call" "map_of ts name = Some t" for w :: "('s, 'w) gateway" and call t d
    using ts [OF that(2)] that
    by (intro after_weaken [OF attempts_settle [OF env _ that(1), of t "nat (tl_attempts t)" name d 1]])
      (auto simp: orderly_tool_def max_calls_def)
  have body: "after (answer_read env ts name args call route)
      (\<lambda>_ w. settled_as g w [] (max_calls ts name) {''ok''})
      (\<lambda>_ w. grown g w [] \<or> settled_as g w [] (max_calls ts name) {''failed'', ''denied''}) w"
    if o: "opened g w [] call" for w :: "('s, 'w) gateway" and call route
  proof (cases "map_of ts name")
    case None
    then show ?thesis by (simp add: answer_read_def refuse [OF o])
  next
    case (Some t)
    have u: "validate_schema v (tl_input t) = Inl e \<Longrightarrow> e = ToolSchemaError" for v e
      using ts [OF Some] by (simp add: orderly_tool_def usable_def)
    show ?thesis
      by (auto simp: answer_read_def Some refuse [OF o] settle [OF o Some] dest: u
          split: pyval.split sum.split simp del: validate_schema.simps)
  qed
  show ?thesis
    unfolding invoke_def after_seq after_chain after_look
  proof (rule after_weaken [OF after_mute [OF mute_check, where P = "\<lambda>w. grown g w []"]])
    fix w' :: "('s, 'w) gateway" assume "gw_log w' = gw_log g"
    with g show "grown g w' []" by (rule grown_moved)
  next
    fix u :: unit and w :: "('s, 'w) gateway" assume "grown g w []"
    show "after (start_tool env (map_of ts name) name args 1)
      (\<lambda>call w'. after (answer_read env ts name args call (gw_route w'))
        (\<lambda>_ w. settled_as g w [] (max_calls ts name) {''ok''})
        (\<lambda>_ w. grown g w [] \<or> settled_as g w [] (max_calls ts name) {''failed'', ''denied''}) w')
      (\<lambda>_ w. grown g w [] \<or> settled_as g w [] (max_calls ts name) {''failed'', ''denied''}) w"
      by (rule after_weaken [OF start_tool_opens [OF env \<open>grown g w []\<close>]]) (erule conjE, erule body, simp)
  qed simp
qed

subsection \<open>Which handlers a call reaches\<close>

definition with_handlers ::
  "(string \<Rightarrow> ('s, 'w) handler) \<Rightarrow> (('s, 'w) tool \<Rightarrow> bool) \<Rightarrow> ('s, 'w) toolset \<Rightarrow> ('s, 'w) toolset" where
  "with_handlers f P ts = map (\<lambda>(n, t). (n, if P t then t\<lparr>tl_handler := f n\<rparr> else t)) ts"

lemma map_of_with_handlers:
  "map_of (with_handlers f P ts) n = map_option (\<lambda>t. if P t then t\<lparr>tl_handler := f n\<rparr> else t) (map_of ts n)"
  by (induction ts) (auto simp: with_handlers_def)

lemma start_tool_handler:
  "start_tool env (map_option (\<lambda>t. if P t then t\<lparr>tl_handler := h\<rparr> else t) t) name args k =
     start_tool env t name args k"
  unfolding start_tool_def tool_payload_def
  by (cases t) (simp_all add: is_idempotent_def)

lemma handler_kept [simp]:
  "tl_capability (if P t then t\<lparr>tl_handler := h\<rparr> else t) = tl_capability t"
  "tl_describe (if P t then t\<lparr>tl_handler := h\<rparr> else t) = tl_describe t"
  "tl_input (if P t then t\<lparr>tl_handler := h\<rparr> else t) = tl_input t"
  "allowed_on (if P t then t\<lparr>tl_handler := h\<rparr> else t) r = allowed_on t r"
  by (simp_all add: allowed_on_def split: option.split)

subsection \<open>What an approval is needed for\<close>

text \<open>The call is covered: the tool is a described write, the arguments are an object, and at some
  reading of the clocks a spend of the token on the described operation would be allowed.\<close>

definition covered ::
  "('s, 'w) gate_env \<Rightarrow> ('s, 'w) toolset \<Rightarrow> string \<Rightarrow> pyval \<Rightarrow> string \<Rightarrow> ('s, 'w) gateway \<Rightarrow> bool" where
  "covered env ts name args token g \<longleftrightarrow> (\<exists>t describe d op ps i item k.
     map_of ts name = Some t \<and> tl_capability t = ''write'' \<and> tl_describe t = Some describe
     \<and> args = PDict d \<and> describe d (gw_world g) = Inr op \<and> op_tool op = name
     \<and> gw_desk g = Some ps
     \<and> find (\<lambda>(i, item). holds_token (su_sha256 (ge_office env) token) item) ps = Some (i, item)
     \<and> spendable (ge_office env) (ge_moment env k) (ge_head env k (gw_world g)) token op item)"

lemma spend_approval_fails:
  assumes "spend_approval env token op it g = (Inr x, g')"
  shows "\<exists>ps i item. gw_desk g = Some ps
     \<and> find (\<lambda>(i, item). holds_token (su_sha256 (ge_office env) token) item) ps = Some (i, item)
     \<and> spendable (ge_office env) (ge_moment env (gw_tick g)) (ge_head env (gw_tick g) (gw_world g)) token op item"
proof (cases "gw_desk g")
  case None
  with assms show ?thesis by (simp add: spend_approval_def chain_def tick_def)
next
  case (Some ps)
  obtain a r where c: "consume (ge_office env) (ge_moment env (gw_tick g)) (ge_head env (gw_tick g) (gw_world g))
      token op it \<lparr>au_log = gw_log g, au_pending = ps\<rparr> = (a, r)" by fastforce
  with assms Some have "r = Inr x" by (simp add: spend_approval_def chain_def tick_def)
  with consume_cases [OF c] show ?thesis by (auto simp: Some)
qed

lemma approve_call_covered:
  assumes "approve_call env describe name d token it g = (Inr x, g')"
    and "map_of ts name = Some t" "tl_capability t = ''write''" "tl_describe t = Some describe"
  shows "covered env ts name (PDict d) token g"
proof -
  from assms(1) obtain op where op: "describe d (gw_world g) = Inr op" "op_tool op = name"
    "spend_approval env token op it g = (Inr x, g')"
    by (auto simp: approve_call_def chain_def look_def from_result_def throw_def
        split: sum.splits if_splits)
  from spend_approval_fails [OF op(3)] op(1,2) assms(2-4) show ?thesis
    unfolding covered_def by blast
qed

lemma covered_moves:
  "gw_desk w = gw_desk g \<Longrightarrow> gw_world w = gw_world g \<Longrightarrow> covered env ts name args token w = covered env ts name args token g"
  by (simp add: covered_def)

lemma check_limits_frame:
  "check_limits env g = (r, w) \<Longrightarrow> gw_desk w = gw_desk g \<and> gw_world w = gw_world g"
  by (auto simp: check_limits_def on_budget_def chain_def tick_def split: prod.splits sum.splits)

lemma start_tool_frame:
  "start_tool env t n a k g = (r, w) \<Longrightarrow> gw_desk w = gw_desk g \<and> gw_world w = gw_world g"
  by (auto simp: start_tool_def on_log_def chain_def look_def split: option.splits prod.splits sum.splits)

lemma answer_write_handler:
  assumes "\<not> covered env ts name args token g"
  shows "answer_write env ts name args token it call seen g =
    answer_write env (with_handlers f (\<lambda>_. True) ts) name args token it call seen g"
proof (cases "map_of ts name")
  case None
  then show ?thesis by (simp add: answer_write_def map_of_with_handlers)
next
  case (Some t)
  have stop: "chain (guarded (approve_call env describe name d token it)) (\<lambda>r. case r of
        Inl e \<Rightarrow> refuse_call env call (exc_name e) e | Inr _ \<Rightarrow> perform_write env t d call) g =
      chain (guarded (approve_call env describe name d token it)) (\<lambda>r. case r of
        Inl e \<Rightarrow> refuse_call env call (exc_name e) e | Inr _ \<Rightarrow> perform_write env t' d call) g"
    if "tl_capability t = ''write''" "tl_describe t = Some describe" "args = PDict d" for describe d t'
  proof -
    obtain r w where r: "approve_call env describe name d token it g = (r, w)" by fastforce
    with approve_call_covered [OF _ Some that(1,2)] assms that(3) obtain e where "r = Inl e"
      by (cases r) auto
    with r show ?thesis by (simp add: chain_def guarded_def)
  qed
  note stop1 = stop [of _ _ "t\<lparr>tl_handler := f name\<rparr>"]
  have a: "allowed_on (t\<lparr>tl_handler := f name\<rparr>) r = allowed_on t r" for r
    by (simp add: allowed_on_def split: option.split)
  show ?thesis
  proof (cases "tl_capability t = ''write''")
    case True
    show ?thesis
    proof (cases "tl_describe t")
      case None
      then show ?thesis by (simp add: answer_write_def map_of_with_handlers Some True)
    next
      case (Some describe)
      note known = \<open>map_of ts name = Some t\<close> True Some
      show ?thesis
      proof (cases args)
        case (PDict d)
        show ?thesis
          unfolding answer_write_def map_of_with_handlers known option.map if_True PDict
          by (simp add: known a stop1 [OF True Some PDict] del: validate_schema.simps split: sum.split)
      qed (simp_all add: answer_write_def map_of_with_handlers known a)
    qed
  qed (simp add: answer_write_def map_of_with_handlers Some)
qed

section \<open>Properties\<close>

text \<open>C30. The read path never writes: \<open>invoke\<close> behaves the same whatever the handlers of the tools
  that are not read tools would do, so no task and no model output reaches one of them.\<close>

theorem read_path_never_writes:
  "invoke env (with_handlers f (\<lambda>t. tl_capability t \<noteq> ''read'') ts) name args g = invoke env ts name args g"
proof -
  have "answer_read env (with_handlers f (\<lambda>t. tl_capability t \<noteq> ''read'') ts) name args =
      answer_read env ts name args"
    by (intro ext, cases "map_of ts name") (simp_all add: answer_read_def map_of_with_handlers)
  then show ?thesis
    unfolding invoke_def map_of_with_handlers start_tool_handler by simp
qed



lemma calls_ok_unfinished:
  assumes "calls_ok l" and "list_ex (call_event ''call_started'' c) (log_events l)"
    and "\<not> list_ex (call_event ''call_finished'' c) (log_events l)"
  shows "\<exists>cs. unfinished_calls (map event_dict (log_events l)) = Inr cs \<and> c \<in> set cs"
proof -
  obtain d where d: "attests (log_events l) d" using assms(1) by (auto simp: calls_ok_def)
  then have "map_of d c = Some ''unknown''"
    using assms(2,3) find_none [of "call_event ''call_finished'' c" "log_events l"]
    by (simp add: attests_def call_spec_def started_in_def)
  then have "(c, ''unknown'') \<in> set d" by (rule map_of_SomeD)
  with d show ?thesis by (force simp: attests_def unfinished_calls_def)
qed

text \<open>A call whose tool has a schema the check cannot use is never settled: the check raises
  something else than \<open>ToolSchemaError\<close>, which leaves \<open>invoke\<close> with the call begun and no
  outcome recorded, so the log reports it as unfinished although nothing ran.\<close>

theorem unusable_schema_leaves_call_open:
  assumes env: "flawless env" and l: "gw_log g = Some l" "calls_ok l"
    and c: "check (ge_reading env (gw_tick g)) (gw_budget g) = Inr ()"
    and t: "map_of ts name = Some t" "tl_capability t = ''read''" "allowed_on t (gw_route g)"
    and v: "validate_schema (PDict d) (tl_input t) = Inl e" "e \<noteq> ToolSchemaError"
  shows "\<exists>g' l' call cs. invoke env ts name (PDict d) g = (Inl e, g') \<and> gw_log g' = Some l'
    \<and> length (log_events l') = Suc (length (log_events l)) \<and> gw_world g' = gw_world g
    \<and> unfinished_calls (map event_dict (log_events l')) = Inr cs \<and> call \<in> set cs
    \<and> \<not> list_ex (call_event ''call_started'' call) (log_events l)"
proof -
  let ?g1 = "g\<lparr>gw_tick := Suc (gw_tick g)\<rparr>"
  have c1: "check_limits env g = (Inr (), ?g1)"
    using c by (simp add: check_limits_def on_budget_def chain_def tick_def)
  have "grown ?g1 ?g1 []" using l by (simp add: grown_def)
  from start_tool_opens [OF env this, of "Some t" name "PDict d" 1] obtain call w where
    s: "start_tool env (Some t) name (PDict d) 1 ?g1 = (Inr call, w)" "opened ?g1 w [] call"
      "gw_world w = gw_world g" "gw_route w = gw_route g"
    by (auto simp: after_def split: prod.splits sum.splits)
  from s(2) l obtain l' new ev cn where o: "call = Some cn" "gw_log w = Some l'" "calls_ok l'"
    "log_events l' = log_events l @ new @ [ev]" "outcomes new = Some []"
    "call_event ''call_started'' cn ev" "\<not> list_ex (call_event ''call_finished'' cn) (log_events l')"
    by (auto simp: opened_def)
  have new: "new = []" using o(5) by (cases new rule: outcomes.cases) (auto split: if_splits)
  have "count_calls ''call_started'' cn (log_events l') \<le> 1" using o(3) by (simp add: calls_ok_def)
  then have fresh: "\<not> list_ex (call_event ''call_started'' cn) (log_events l)"
    using o(4,6) new by (auto simp: count_snoc count_zero [symmetric])
  have "list_ex (call_event ''call_started'' cn) (log_events l')" using o(4,6) by simp
  from calls_ok_unfinished [OF o(3) this o(7)] obtain cs where
    "unfinished_calls (map event_dict (log_events l')) = Inr cs" "cn \<in> set cs" by blast
  moreover have "invoke env ts name (PDict d) g = (Inl e, w)"
    using s c1 t v
    by (simp add: invoke_def seq_def chain_def look_def answer_read_def throw_def del: validate_schema.simps)
  ultimately show ?thesis using o new s(3) fresh by auto
qed

text \<open>A write the budget refuses has already spent its approval: the token is consumed before a
  tool call is reserved, so when the reservation fails nothing is written and the same grant
  cannot be used again, although a refusal is said to leave nothing changed.\<close>

theorem budget_refusal_spends_approval:
  assumes "gw_log g = None" and "check (ge_reading env (gw_tick g)) (gw_budget g) = Inr ()"
    and "map_of ts name = Some t" "tl_capability t = ''write''" "tl_describe t = Some describe"
      "allowed_on t (gw_route g)"
    and "finite_json (PDict d)" "validate_schema (PDict d) (tl_input t) = Inr ()"
    and "describe d (gw_world g) = Inr op" "op_tool op = name" and "gw_desk g = Some ps"
    and "find (\<lambda>(i, item). holds_token (su_sha256 (ge_office env) token) item) ps = Some (i, item)"
    and "spendable (ge_office env) (ge_moment env (Suc (gw_tick g)))
      (ge_head env (Suc (gw_tick g)) (gw_world g)) token op item"
    and "reserve_tool (ge_reading env (Suc (Suc (gw_tick g)))) (gw_budget g) = (b, Inl e)"
  shows "\<exists>g'. invoke_write env ts name (PDict d) token it g = (Inl e, g') \<and> gw_world g' = gw_world g
    \<and> gw_desk g' = Some (dict_set i (item\<lparr>pd_decision := Consumed\<rparr>) ps)"
proof -
  let ?g1 = "g\<lparr>gw_tick := Suc (gw_tick g)\<rparr>"
  let ?g2 = "g\<lparr>gw_tick := Suc (Suc (gw_tick g)), gw_desk := Some (dict_set i (item\<lparr>pd_decision := Consumed\<rparr>) ps)\<rparr>"
  let ?a = "\<lparr>au_log = None, au_pending = ps\<rparr>"
  have c: "check_limits env g = (Inr (), ?g1)"
    using assms(2) by (simp add: check_limits_def on_budget_def chain_def tick_def)
  have s: "start_tool env (Some t) name (PDict d) 1 ?g1 = (Inr None, ?g1)"
    using assms(1) by (simp add: start_tool_def on_log_def chain_def look_def)
  obtain m w where "pd_monotonic item = Some m" "pd_wall item = Some w"
    "mo_clock (ge_moment env (Suc (gw_tick g))) < m" "mo_wall (ge_moment env (Suc (gw_tick g))) < w"
    using spendable_fields [OF assms(13)] by blast
  with assms(12,13) have "consume (ge_office env) (ge_moment env (Suc (gw_tick g)))
      (ge_head env (Suc (gw_tick g)) (gw_world g)) token op it ?a
      = (?a\<lparr>au_pending := dict_set i (item\<lparr>pd_decision := Consumed\<rparr>) ps\<rparr>, Inr i)"
    by (simp add: consume_def spendable_def record_decision_def put_pending_def Let_def)
  with assms(1,9,10,11) have p: "approve_call env describe name d token it ?g1 = (Inr i, ?g2)"
    by (simp add: approve_call_def spend_approval_def chain_def look_def from_result_def tick_def)
  have r: "reserve_call env None ?g2 = (Inl e, ?g2\<lparr>gw_tick := Suc (Suc (Suc (gw_tick g))), gw_budget := b\<rparr>)"
    using assms(14)
    by (simp add: reserve_call_def on_budget_def chain_def guarded_def tick_def refuse_call_def seq_def
        finish_tool_def give_def throw_def)
  have "answer_write env ts name (PDict d) token it None (gw_route g, gw_desk g) ?g1 =
      (Inl e, ?g2\<lparr>gw_tick := Suc (Suc (Suc (gw_tick g))), gw_budget := b\<rparr>)"
    using assms(3-8,11) p r
    by (simp add: answer_write_def chain_def guarded_def perform_write_def seq_def
        del: validate_schema.simps finite_json.simps)
  with c s assms(3) show ?thesis
    by (simp add: invoke_write_def seq_def chain_def look_def)
qed

section \<open>Concrete calls\<close>

definition gate_sample :: "(unit, bool) gate_env" where
  "gate_sample = \<lparr>ge_reading = (\<lambda>_. \<lparr>cancelled = False, now = 0\<rparr>), ge_stamp = (\<lambda>_. ''t''),
     ge_moment = (\<lambda>_. at_time 2), ge_clock = (\<lambda>_. 0), ge_office = sample_surroundings,
     ge_head = (\<lambda>_ _ _. Inr sample_commit), ge_posix = True, ge_channel = (\<lambda>_ _ _. Inr None),
     ge_text = (\<lambda>_. [])\<rparr>"

definition gate_tool :: "string \<Rightarrow> dict \<Rightarrow> (unit, bool) tool" where
  "gate_tool cap schema = \<lparr>tl_name = ''git_branch'', tl_capability = cap,
     tl_handler = (\<lambda>_ _ g. (Inr (Json PNone), g\<lparr>gw_world := True\<rparr>)), tl_routes = [''*''], tl_input = schema,
     tl_output = [], tl_timeout = 5, tl_sandbox = ''in_process'', tl_idempotent = None, tl_attempts = 1,
     tl_retry = (\<lambda>_. False), tl_describe = Some (\<lambda>_ _. Inr sample_operation)\<rparr>"

definition granted_item :: pending where
  "granted_item = (mk_pending sample_operation 0)\<lparr>pd_token := Some ''tok'', pd_by := Some ''ada'',
     pd_granted_at := Some 1001, pd_monotonic := Some 61, pd_wall := Some 1061, pd_decision := Granted\<rparr>"

definition gate_state :: "int \<Rightarrow> (unit event_log) option \<Rightarrow> (string \<times> pending) list \<Rightarrow> (unit, bool) gateway" where
  "gate_state n l ps = \<lparr>gw_budget = mk_budget \<lparr>wall_seconds = 60, max_model_calls = 0, max_tool_calls = n,
       max_tokens = 0, max_output_bytes = 100\<rparr> 0, gw_log = l, gw_desk = Some ps, gw_route = None,
     gw_world = False, gw_tick = 0\<rparr>"

definition unit_log :: "unit event_log" where
  "unit_log = \<lparr>log_run = ''r'', log_sink = None, log_events = []\<rparr>"

lemmas gate_simps = gate_sample_def gate_tool_def gate_state_def granted_item_def mk_pending_def
  sample_surroundings_def sample_operation_def at_time_def mk_budget_def check_def reserve_tool_def
  holds_token_def allowed_on_def spendable_def

lemma gate_flawless: "flawless gate_sample"
  by (simp add: flawless_def gate_sample_def sample_surroundings_def)

lemma unit_log_ok: "calls_ok unit_log"
  by (rule new_log_calls_ok [of "''r''" None]) (simp add: mk_log_def unit_log_def)

lemma empty_schema_usable: "usable [(''type'', PStr ''object'')]"
  unfolding usable_def
proof (intro allI impI)
  fix v e assume "validate_schema v [(''type'', PStr ''object'')] = Inl e"
  moreover have "property_schema [(''type'', PStr ''object'')] k = None" for k
    by (simp add: property_schema_def get_or_def)
  moreover have "map_res (\<lambda>(k, x). Inr ()) d = Inr (map (\<lambda>_. ()) d)" for d :: dict
    by (induction d) auto
  ultimately show "e = ToolSchemaError"
    by (cases v) (auto simp: check_here_def check_type_def check_enumeration_def check_object_def get_or_def
        item_schema_def allowed_types_def schema_types_def has_type_def require_def)
qed



theorem unusable_schema_leaves_call_open_witness:
  "\<exists>g' l' cs. invoke gate_sample [(''git_branch'', gate_tool ''read'' [(''type'', PStr ''text'')])]
     ''git_branch'' (PDict []) (gate_state 1 (Some unit_log) []) = (Inl ValueError, g')
   \<and> gw_log g' = Some l' \<and> unfinished_calls (map event_dict (log_events l')) = Inr cs \<and> cs \<noteq> []"
proof -
  let ?t = "gate_tool ''read'' [(''type'', PStr ''text'')]"
  let ?g = "gate_state 1 (Some unit_log) []"
  have v: "validate_schema (PDict []) (tl_input ?t) = Inl ValueError"
    unfolding gate_tool_def by code_simp
  have "gw_log ?g = Some unit_log" "check (ge_reading gate_sample (gw_tick ?g)) (gw_budget ?g) = Inr ()"
    "tl_capability ?t = ''read''" "allowed_on ?t (gw_route ?g)"
    by (simp_all add: gate_simps)
  from unusable_schema_leaves_call_open [OF gate_flawless this(1) unit_log_ok this(2) _ this(3,4) v, of
      "[(''git_branch'', ?t)]" "''git_branch''"] show ?thesis by fastforce
qed

theorem budget_refusal_spends_approval_witness:
  "\<exists>g'. invoke_write gate_sample [(''git_branch'', (gate_tool ''write'' [])\<lparr>tl_describe :=
       Some (\<lambda>_ _. Inr sample_operation)\<rparr>)] ''git_branch'' (PDict []) ''tok'' 0
     (gate_state 0 None [(''approval-d-0'', granted_item)]) = (Inl (BudgetExceeded ''tool_calls''), g')
   \<and> gw_world g' = False
   \<and> gw_desk g' = Some [(''approval-d-0'', granted_item\<lparr>pd_decision := Consumed\<rparr>)]"
proof -
  let ?t = "(gate_tool ''write'' [])\<lparr>tl_describe := Some (\<lambda>_ _. Inr sample_operation)\<rparr>"
  let ?g = "gate_state 0 None [(''approval-d-0'', granted_item)]"
  have v: "validate_schema (PDict []) (tl_input ?t) = Inr ()"
    unfolding gate_tool_def by code_simp
  from budget_refusal_spends_approval [where env = gate_sample and g = ?g and t = ?t and d = "[]"
      and ts = "[(''git_branch'', ?t)]" and name = "''git_branch''" and token = "''tok''"
      and i = "''approval-d-0''" and item = granted_item and op = sample_operation and it = 0
      and ps = "[(''approval-d-0'', granted_item)]" and describe = "\<lambda>_ _. Inr sample_operation"
      and e = "BudgetExceeded ''tool_calls''" and b = "gw_budget ?g", OF _ _ _ _ _ _ _ v]
  show ?thesis by (simp add: gate_simps)
qed

end
