(* ===== verification/Patch_Proposal.thy ===== *)
theory Patch_Proposal
  imports Gateway_Calls
begin

section \<open>A patch becomes a branch, once approved (atlas_core/patch_proposal.py)\<close>

text \<open>
  Checks of branch names and of the paths a patch touches, the preparation in a clone, the one
  write tool with its description and its handler, the proposal from preparation to
  verification and rollback, and what the person is shown. Git, the test command, temporary
  directories and the person are parameters: each is a computation over the world of the host,
  which may answer anything and change the world. Decoded output is text; a message of
  \<open>ProposalRefused\<close> is not kept.
\<close>

definition refused :: exc where "refused = Foreign ''ProposalRefused'' []"

subsection \<open>Names and paths\<close>

definition branch_char :: "char \<Rightarrow> bool" where
  "branch_char c \<longleftrightarrow> ch_lower c \<or> ch_digit c \<or> c \<in> {CHR ''.'', CHR ''_'', CHR ''-''}"

text \<open>\<open>re.compile(r"atlas/[a-z0-9][a-z0-9._-]{0,62}").fullmatch\<close>.\<close>

definition branch_shape :: "string \<Rightarrow> bool" where
  "branch_shape s \<longleftrightarrow> starts_with s ''atlas/'' \<and> (case drop 6 s of
     [] \<Rightarrow> False
   | c # cs \<Rightarrow> (ch_lower c \<or> ch_digit c) \<and> length cs \<le> 62 \<and> list_all branch_char cs)"

definition validate_branch :: "string \<Rightarrow> string result" where
  "validate_branch s =
     (if \<not> branch_shape s \<or> contains s ''..'' \<or> ends_with s ''.lock'' \<or> ends_with s ''.''
      then Inl refused else Inr s)"

definition branch_ref :: "string \<Rightarrow> string" where "branch_ref b = ''refs/heads/'' @ b"

text \<open>The parts of a relative \<open>PurePosixPath\<close>.\<close>

definition pure_parts :: "string \<Rightarrow> string list" where
  "pure_parts p = filter (\<lambda>w. w \<noteq> [] \<and> w \<noteq> ''.'') (split_on (CHR ''/'') p)"

definition safe_path :: "string \<Rightarrow> unit result" where
  "safe_path p =
     (if p = [] \<or> starts_with p ''/'' \<or> CHR 0x5C \<in> set p then Inl refused
      else if list_ex (\<lambda>w. w = ''..'' \<or> w = []) (split_on (CHR ''/'') p) then Inl refused
      else if list_ex (\<lambda>w. lower w = ''.git'') (pure_parts p) then Inl refused else Inr ())"

definition mode_lines :: "string list" where
  "mode_lines = concat (map (\<lambda>k. map (\<lambda>m. k @ '' '' @ m) [''120000'', ''160000''])
     [''new file mode'', ''deleted file mode'', ''old mode'', ''new mode''])"

text \<open>\<open>_REFUSED_MODES.search\<close>: with \<open>re.M\<close> the pattern is a whole line between line feeds.\<close>

definition refused_modes :: "string \<Rightarrow> bool" where
  "refused_modes raw \<longleftrightarrow> list_ex (\<lambda>l. l \<in> set mode_lines) (split_on LF raw)"

text \<open>\<open>field.split(b"\t", 2)\<close> when it has three parts.\<close>

definition TAB :: char where "TAB = CHR 0x09"

definition split_tabs :: "string \<Rightarrow> (string \<times> string \<times> string) option" where
  "split_tabs s =
     (let a = takeWhile (\<lambda>c. c \<noteq> TAB) s; rest = drop (length a) s;
          b = takeWhile (\<lambda>c. c \<noteq> TAB) (tl rest); more = drop (length b) (tl rest) in
      if rest = [] \<or> more = [] then None else Some (a, b, tl more))"

text \<open>The records of \<open>git apply --numstat -z\<close>: a path, or an empty field and two paths.\<close>

fun numstat_paths :: "(string \<Rightarrow> string result) \<Rightarrow> string list \<Rightarrow> string list result" where
  "numstat_paths dec [] = Inr []"
| "numstat_paths dec (f # fs) =
     (if f = [] then Inr []
      else (case split_tabs f of
        None \<Rightarrow> Inl refused
      | Some (a, b, p) \<Rightarrow>
          if p \<noteq> [] then bind_res (dec p) (\<lambda>x. bind_res (numstat_paths dec fs) (\<lambda>xs. Inr (x # xs)))
          else bind_res (map_res dec (take 2 fs)) (\<lambda>xs.
            bind_res (numstat_paths dec (drop 2 fs)) (\<lambda>ys. Inr (xs @ ys)))))"

definition listed_paths :: "(string \<Rightarrow> string result) \<Rightarrow> string \<Rightarrow> string list result" where
  "listed_paths dec out = bind_res (numstat_paths dec (split_on (CHR 0x00) out)) (\<lambda>ps.
     if ps = [] then Inl refused
     else bind_res (map_res safe_path ps) (\<lambda>_. Inr ps))"

subsection \<open>The host\<close>

record git_result =
  gr_code :: int
  gr_out :: string

text \<open>How the test command ended, with what it wrote.\<close>

datatype process_end = Exited int string | TimedOut string | NotStarted string

record 'w shop_env =
  sh_git :: "string \<Rightarrow> string list \<Rightarrow> ('w, git_result) act"
  sh_update :: "string \<Rightarrow> string \<Rightarrow> ('w, git_result) act"
  sh_ref_ok :: "string \<Rightarrow> 'w \<Rightarrow> bool"
  sh_run :: "string list \<Rightarrow> string \<Rightarrow> real \<Rightarrow> ('w, process_end \<times> real) act"
  sh_mkdtemp :: "('w, string) act"
  sh_write :: "string \<Rightarrow> string \<Rightarrow> ('w, unit) act"
  sh_rmtree :: "string \<Rightarrow> 'w \<Rightarrow> 'w"
  sh_host :: "'w \<Rightarrow> host"
  sh_decode :: "string \<Rightarrow> string result"
  sh_sha :: "string \<Rightarrow> string"
  sh_float :: "real \<Rightarrow> string"

definition run_git :: "'w shop_env \<Rightarrow> string \<Rightarrow> string list \<Rightarrow> bool \<Rightarrow> ('w, git_result) act" where
  "run_git env cwd args must = chain (sh_git env cwd args) (\<lambda>r.
     if must \<and> gr_code r \<noteq> 0 then throw refused else give r)"

definition git_text :: "'w shop_env \<Rightarrow> string \<Rightarrow> string list \<Rightarrow> bool \<Rightarrow> ('w, string) act" where
  "git_text env cwd args must = chain (run_git env cwd args must) (\<lambda>r. give (strip (gr_out r)))"

definition diff_of :: "'w shop_env \<Rightarrow> string \<Rightarrow> string \<Rightarrow> string \<Rightarrow> ('w, string) act" where
  "diff_of env cwd a b = chain (run_git env cwd [''diff'', ''--binary'', ''--no-color'',
     ''--no-ext-diff'', ''--no-renames'', a, b] True) (\<lambda>r. give (gr_out r))"

definition patch_paths :: "'w shop_env \<Rightarrow> string \<Rightarrow> string \<Rightarrow> string \<Rightarrow> ('w, string list) act" where
  "patch_paths env dir file raw =
     (if refused_modes raw then throw refused
      else chain (run_git env dir [''apply'', ''--numstat'', ''-z'', file] True) (\<lambda>r.
        from_result (listed_paths (sh_decode env) (gr_out r))))"

subsection \<open>The test run\<close>

record test_run =
  tr_argv :: "string list"
  tr_exit :: "int option"
  tr_seconds :: real
  tr_output :: string
  tr_timed_out :: bool

definition tests_passed :: "test_run \<Rightarrow> bool" where
  "tests_passed t \<longleftrightarrow> tr_exit t = Some 0 \<and> \<not> tr_timed_out t"

definition max_test_output :: int where "max_test_output = 8192"

definition kept_output :: "string \<Rightarrow> string" where
  "kept_output raw = redact_text (drop (nat (int (length raw) - max_test_output)) raw)"

fun test_run_of :: "string list \<Rightarrow> process_end \<times> real \<Rightarrow> test_run" where
  "test_run_of argv (Exited c raw, secs) = \<lparr>tr_argv = argv, tr_exit = Some c, tr_seconds = secs,
     tr_output = kept_output raw, tr_timed_out = False\<rparr>"
| "test_run_of argv (TimedOut raw, secs) = \<lparr>tr_argv = argv, tr_exit = None, tr_seconds = secs,
     tr_output = kept_output raw, tr_timed_out = True\<rparr>"
| "test_run_of argv (NotStarted raw, secs) = \<lparr>tr_argv = argv, tr_exit = Some 127, tr_seconds = secs,
     tr_output = kept_output raw, tr_timed_out = False\<rparr>"

definition run_tests :: "'w shop_env \<Rightarrow> string list \<Rightarrow> string \<Rightarrow> real \<Rightarrow> ('w, test_run) act" where
  "run_tests env argv cwd timeout = chain (sh_run env argv cwd timeout) (\<lambda>r. give (test_run_of argv r))"

subsection \<open>The proposal\<close>

record proposal =
  pr_repo :: string
  pr_base :: string
  pr_base_ref :: string
  pr_branch :: string
  pr_commit :: string
  pr_diff :: string
  pr_diff_sha256 :: string
  pr_tests :: test_run
  pr_workdir :: string

definition proposal_arguments :: "proposal \<Rightarrow> dict" where
  "proposal_arguments p =
     [(''repo'', PStr (pr_repo p)), (''branch'', PStr (pr_branch p)), (''commit'', PStr (pr_commit p)),
      (''base'', PStr (pr_base p)), (''base_ref'', PStr (pr_base_ref p)),
      (''diff_sha256'', PStr (pr_diff_sha256 p)), (''source'', PStr (pr_workdir p))]"

definition proposal_operation :: "(string \<Rightarrow> string) \<Rightarrow> proposal \<Rightarrow> operation result" where
  "proposal_operation f p = mk_operation f ''ref'' ''create_branch'' (freeze (PDict (proposal_arguments p)))
     (pr_repo p) (branch_ref (pr_branch p)) (pr_base p)"

text \<open>\<open>except BaseException: clean up, raise\<close>.\<close>

definition on_error :: "('w, 'a) act \<Rightarrow> ('w \<Rightarrow> 'w) \<Rightarrow> ('w, 'a) act" where
  "on_error m f w = (case m w of (Inl e, w') \<Rightarrow> (Inl e, f w') | (Inr a, w') \<Rightarrow> (Inr a, w'))"

text \<open>\<open>bytes.strip\<close> drops ASCII white space only.\<close>

definition blank_byte :: "char \<Rightarrow> bool" where
  "blank_byte c \<longleftrightarrow> c \<in> {CHR '' '', CHR 0x09, LF, CR, CHR 0x0B, CHR 0x0C}"

definition max_patch_bytes :: int where "max_patch_bytes = 262144"

definition build_commit ::
  "'w shop_env \<Rightarrow> string \<Rightarrow> string \<Rightarrow> string \<Rightarrow> string \<Rightarrow> string \<Rightarrow> ('w, string) act" where
  "build_commit env dir rdir base br patch = (let clone = dir @ ''/clone''; file = dir @ ''/change.patch'' in
     seq (run_git env dir [''clone'', ''-q'', ''--shared'', ''--no-checkout'', rdir, clone] True)
     (seq (run_git env clone [''checkout'', ''-q'', ''--detach'', base] True)
     (seq (sh_write env file patch)
     (seq (patch_paths env clone file patch)
     (seq (run_git env clone [''apply'', ''--index'', file] True)
     (seq (run_git env clone [''-c'', ''user.name=Atlas Core'', ''-c'', ''user.email=atlas-core@localhost'',
         ''commit'', ''-q'', ''--no-verify'', ''-m'', ''atlas: proposed change on '' @ br] True)
     (git_text env clone [''rev-parse'', ''HEAD''] True)))))))"

definition prepare ::
  "'w shop_env \<Rightarrow> string \<Rightarrow> string \<Rightarrow> string \<Rightarrow> string list \<Rightarrow> real \<Rightarrow> ('w, proposal) act" where
  "prepare env rp patch br argv timeout =
     seq (from_result (validate_branch br))
     (if argv = [] then throw refused
      else if list_all blank_byte patch then throw refused
      else if max_patch_bytes < int (length patch) then throw refused
      else chain (look (\<lambda>w. resolve (sh_host env w) rp)) (\<lambda>rdir.
        chain (look (\<lambda>w. clean_head (sh_host env w) rdir)) (\<lambda>h. chain (from_result h) (\<lambda>base.
        chain (git_text env rdir [''symbolic-ref'', ''-q'', ''HEAD''] False) (\<lambda>base_ref.
        if \<not> starts_with base_ref ''refs/heads/'' then throw refused
        else chain (run_git env rdir [''rev-parse'', ''--verify'', ''--quiet'', branch_ref br] False) (\<lambda>known.
        if gr_code known = 0 then throw refused
        else chain (sh_mkdtemp env) (\<lambda>dir.
        on_error
          (chain (build_commit env dir rdir base br patch) (\<lambda>c.
            chain (diff_of env (dir @ ''/clone'') base c) (\<lambda>diff.
            chain (run_tests env argv (dir @ ''/clone'') timeout) (\<lambda>tests.
            give \<lparr>pr_repo = rdir, pr_base = base, pr_base_ref = base_ref, pr_branch = br, pr_commit = c,
              pr_diff = diff, pr_diff_sha256 = sh_sha env diff, pr_tests = tests,
              pr_workdir = dir @ ''/clone''\<rparr>))))
          (sh_rmtree env dir)))))))) "

subsection \<open>The write tool\<close>

definition arg :: "dict \<Rightarrow> string \<Rightarrow> string result" where
  "arg d k = (case map_of d k of None \<Rightarrow> Inl KeyError | Some (PStr s) \<Rightarrow> Inr s | Some _ \<Rightarrow> Inl TypeError)"

definition check_ref :: "'w shop_env \<Rightarrow> string \<Rightarrow> 'w \<Rightarrow> string result" where
  "check_ref env name w =
     (if \<not> starts_with name ''refs/heads/'' \<or> list_ex is_space name \<or> \<not> sh_ref_ok env name w
      then Inl refused else Inr name)"

definition transaction :: "string \<Rightarrow> string \<Rightarrow> string \<Rightarrow> string \<Rightarrow> string" where
  "transaction base_ref base rf cm =
     ''verify '' @ base_ref @ '' '' @ base @ [LF] @ ''create '' @ rf @ '' '' @ cm @ [LF]"

definition create_branch :: "'w shop_env \<Rightarrow> dict \<Rightarrow> ('w, dict) act" where
  "create_branch env args =
     chain (from_result (arg args ''repo'')) (\<lambda>rp.
     chain (from_result (arg args ''commit'')) (\<lambda>cm.
     chain (from_result (arg args ''branch'')) (\<lambda>br.
     chain (from_result (arg args ''source'')) (\<lambda>src.
     seq (run_git env rp [''fetch'', ''-q'', ''--no-tags'', ''--no-write-fetch-head'', src, cm] True)
     (chain (git_text env rp [''rev-parse'', cm @ ''^''] True) (\<lambda>parent.
     chain (from_result (arg args ''base'')) (\<lambda>base.
     if parent \<noteq> base then throw refused
     else chain (diff_of env rp base cm) (\<lambda>diff.
     chain (from_result (arg args ''diff_sha256'')) (\<lambda>approved.
     if sh_sha env diff \<noteq> approved then throw refused
     else chain (from_result (arg args ''base_ref'')) (\<lambda>base_ref.
     chain (look (check_ref env base_ref)) (\<lambda>ok. seq (from_result ok)
     (chain (sh_update env rp (transaction base_ref base (branch_ref br) cm)) (\<lambda>r.
     if gr_code r \<noteq> 0 then throw refused
     else give [(''ref'', PStr (branch_ref br)), (''commit'', PStr cm)]))))))))))))) "

definition describe_create_branch :: "'w shop_env \<Rightarrow> dict \<Rightarrow> 'w \<Rightarrow> operation result" where
  "describe_create_branch env args w =
     bind_res (arg args ''base_ref'') (\<lambda>base_ref. bind_res (check_ref env base_ref w) (\<lambda>_.
     bind_res (arg args ''commit'') (\<lambda>cm.
     if \<not> commit_shape cm then Inl refused
     else bind_res (arg args ''repo'') (\<lambda>rp. bind_res (arg args ''branch'') (\<lambda>b.
     bind_res (validate_branch b) (\<lambda>br. bind_res (arg args ''base'') (\<lambda>base.
     mk_operation (sh_sha env) ''ref'' ''create_branch'' (freeze (PDict args)) rp (branch_ref br) base)))))))"

definition create_names :: "string list" where
  "create_names = [''repo'', ''branch'', ''commit'', ''base'', ''base_ref'', ''diff_sha256'', ''source'']"

definition create_schema :: dict where
  "create_schema = [(''type'', PStr ''object''), (''additionalProperties'', PBool False),
     (''required'', PList (map PStr create_names)),
     (''properties'', PDict (map (\<lambda>n. (n, PDict [(''type'', PStr ''string'')])) create_names))]"

text \<open>A computation on the world, as part of one on the gateway.\<close>

definition on_world :: "('w, 'a) act \<Rightarrow> (('s, 'w) gateway, 'a) act" where
  "on_world m g = (case m (gw_world g) of (r, w) \<Rightarrow> (r, g\<lparr>gw_world := w\<rparr>))"

definition create_handler :: "'w shop_env \<Rightarrow> ('s, 'w) handler" where
  "create_handler env nested args g = (case on_world (create_branch env args) g of
     (Inl e, g') \<Rightarrow> (Inl (plain_failure e), g') | (Inr d, g') \<Rightarrow> (Inr (Json (PDict d)), g'))"

definition create_tool :: "'w shop_env \<Rightarrow> ('s, 'w) tool" where
  "create_tool env = \<lparr>tl_name = ''create_branch'', tl_capability = ''write'', tl_handler = create_handler env,
     tl_routes = [''*''], tl_input = create_schema,
     tl_output = [(''type'', PStr ''object''), (''required'', PList [PStr ''ref'', PStr ''commit''])],
     tl_timeout = 60, tl_sandbox = ''in_process'', tl_idempotent = None, tl_attempts = 1,
     tl_retry = (\<lambda>e. e \<in> {OSError, FileMissing, ToolTimeout}),
     tl_describe = Some (describe_create_branch env)\<rparr>"

subsection \<open>What the person reads\<close>

text \<open>Unicode category Cc or Cf, below code point 256; 151 stands for the em dash.\<close>

definition control_char :: "char \<Rightarrow> bool" where
  "control_char c \<longleftrightarrow> code c < 32 \<or> 127 \<le> code c \<and> code c \<le> 159 \<and> [c] \<noteq> em_dash \<or> code c = 173"

definition shown_char :: "char \<Rightarrow> string" where
  "shown_char c =
     (if c \<in> {LF, TAB} \<or> \<not> control_char c then [c]
      else if c = CR then [CHR 0x5C, CHR ''r''] else [CHR 0x5C, CHR ''x''] @ hex2 c)"

definition printable :: "string \<Rightarrow> string" where
  "printable s = concat (map shown_char s)"

definition opt_int_text :: "int option \<Rightarrow> string" where
  "opt_int_text v = (case v of None \<Rightarrow> ''None'' | Some i \<Rightarrow> str_int i)"

definition exit_text :: "test_run \<Rightarrow> string" where
  "exit_text t = (if tr_timed_out t then ''timed out'' else ''exit '' @ opt_int_text (tr_exit t))"

definition render_proposal :: "'w shop_env \<Rightarrow> proposal \<Rightarrow> string result" where
  "render_proposal env p = bind_res (proposal_operation (sh_sha env) p) (\<lambda>op.
     let t = pr_tests p in Inr (printable (join [LF]
       [''repository : '' @ pr_repo p,
        ''base       : '' @ pr_base p,
        ''new branch : '' @ pr_branch p @ '' -> '' @ pr_commit p,
        ''tests      : '' @ join '' '' (tr_argv t) @ '' ('' @ exit_text t @ '', '' @ sh_float env (tr_seconds t) @ ''s)'',
        rstrip (tr_output t), [], rstrip (pr_diff p), [],
        ''operation  : '' @ op_sha256 op])))"

subsection \<open>After the write\<close>

record repo_state =
  rp_refs :: string
  rp_head :: string
  rp_head_ref :: string
  rp_status :: string

definition repo_state_of :: "'w shop_env \<Rightarrow> string \<Rightarrow> ('w, repo_state) act" where
  "repo_state_of env rp =
     chain (run_git env rp [''for-each-ref'', ''--format=%(refname) %(objectname)''] True) (\<lambda>refs.
     chain (git_text env rp [''rev-parse'', ''HEAD''] True) (\<lambda>h.
     chain (git_text env rp [''symbolic-ref'', ''-q'', ''HEAD''] False) (\<lambda>hr.
     chain (run_git env rp [''status'', ''--porcelain'', ''--untracked-files=all''] True) (\<lambda>st.
     give \<lparr>rp_refs = gr_out refs, rp_head = h, rp_head_ref = hr, rp_status = gr_out st\<rparr>))))"

record post_check =
  ck_name :: string
  ck_passed :: bool
  ck_skipped :: bool
  ck_detail :: string

definition did_check :: "string \<Rightarrow> bool \<Rightarrow> string \<Rightarrow> post_check" where
  "did_check n b d = \<lparr>ck_name = n, ck_passed = b, ck_skipped = False, ck_detail = d\<rparr>"

definition skipped_checks :: "post_check list" where
  "skipped_checks = map (\<lambda>n. \<lparr>ck_name = n, ck_passed = False, ck_skipped = True,
       ck_detail = ''ref does not point at the commit''\<rparr>)
     [''parent_is_base'', ''diff_is_approved'', ''only_this_ref_changed'',
      ''head_and_worktree_untouched'', ''tests_pass_on_branch'']"

definition retest :: "'w shop_env \<Rightarrow> proposal \<Rightarrow> string \<Rightarrow> real \<Rightarrow> ('w, test_run) act" where
  "retest env p here timeout = chain (sh_mkdtemp env) (\<lambda>dir. ensuring
     (seq (run_git env dir [''clone'', ''-q'', ''--shared'', ''--no-checkout'', pr_repo p, dir @ ''/clone''] True)
     (seq (run_git env (dir @ ''/clone'') [''checkout'', ''-q'', ''--detach'', here] True)
     (run_tests env (tr_argv (pr_tests p)) (dir @ ''/clone'') timeout)))
     (sh_rmtree env dir))"

definition same_but_refs :: "repo_state \<Rightarrow> repo_state \<Rightarrow> bool" where
  "same_but_refs a b \<longleftrightarrow> rp_head a = rp_head b \<and> rp_head_ref a = rp_head_ref b \<and> rp_status a = rp_status b"

definition verify_created ::
  "'w shop_env \<Rightarrow> proposal \<Rightarrow> repo_state \<Rightarrow> real \<Rightarrow> ('w, post_check list \<times> test_run option) act" where
  "verify_created env p before timeout = (let rp = pr_repo p; rf = branch_ref (pr_branch p) in
     chain (git_text env rp [''rev-parse'', ''--verify'', ''--quiet'', rf] False) (\<lambda>here.
     if here \<noteq> pr_commit p then
       give (did_check ''ref_points_at_commit'' False here # skipped_checks, None)
     else chain (git_text env rp [''rev-parse'', here @ ''^''] True) (\<lambda>parent.
       chain (diff_of env rp (pr_base p) here) (\<lambda>diff.
       chain (repo_state_of env rp) (\<lambda>later.
       chain (retest env p here timeout) (\<lambda>t.
       give ([did_check ''ref_points_at_commit'' True here,
          did_check ''parent_is_base'' (parent = pr_base p) parent,
          did_check ''diff_is_approved'' (sh_sha env diff = pr_diff_sha256 p) (sh_sha env diff),
          did_check ''only_this_ref_changed'' (sort (splitlines (rp_refs later))
            = sort (splitlines (rp_refs before) @ [rf @ '' '' @ pr_commit p])) [],
          did_check ''head_and_worktree_untouched'' (same_but_refs later before) [],
          did_check ''tests_pass_on_branch'' (tests_passed t) (exit_text t)], Some t)))))))"

definition rollback :: "'w shop_env \<Rightarrow> proposal \<Rightarrow> ('w, bool) act" where
  "rollback env p = chain (run_git env (pr_repo p) [''update-ref'', ''-m'',
     ''atlas: roll back unverified proposal'', ''-d'', branch_ref (pr_branch p), pr_commit p] False)
     (\<lambda>r. give (gr_code r = 0))"

definition effect_json :: "string \<Rightarrow> bool \<Rightarrow> string \<Rightarrow> pyval" where
  "effect_json what back undo = PDict [(''what'', PStr what), (''reversible'', PBool back), (''undo'', PStr undo)]"

definition side_effects :: "proposal \<Rightarrow> bool \<Rightarrow> pyval" where
  "side_effects p rolled = (let rf = branch_ref (pr_branch p) in PList
     [effect_json (''created '' @ rf @ '' at '' @ pr_commit p) True
        (if rolled then ''rolled back'' else ''git update-ref -d '' @ rf @ '' '' @ pr_commit p),
      effect_json ''fetched the proposal's objects into the repository'' False
        (''not exactly: the objects become unreachable once the branch is deleted, ''
          @ ''but Core cannot restore the object store to its earlier bytes, and an ''
          @ ''eventual git gc is broader and later than an undo''),
      effect_json (''ran '' @ join '' '' (tr_argv (pr_tests p)) @ '' twice, in throwaway clones'') False
        (''not tracked by Core: the command ran with the user's privileges, and ''
          @ ''anything it did outside its clone is its own''),
      effect_json ''contacted no remote; pushed and merged nothing'' True ''nothing to undo''])"

subsection \<open>From a patch to a branch\<close>

definition outcome_codes :: "(string \<times> int) list" where
  "outcome_codes = [(''branch_created'', 0), (''verification_failed'', 4), (''tests_failed'', 2),
     (''approval_required'', 3), (''refused'', 3)]"

definition grant_ttl_seconds :: real where "grant_ttl_seconds = 300"

definition write_limits :: run_limits where
  "write_limits = \<lparr>wall_seconds = 120, max_model_calls = 0, max_tool_calls = 1, max_tokens = 0,
     max_output_bytes = 4096\<rparr>"

definition tests_json :: "'w shop_env \<Rightarrow> test_run \<Rightarrow> dict" where
  "tests_json env t = [(''exit_code'', case tr_exit t of None \<Rightarrow> PNone | Some i \<Rightarrow> PInt i),
     (''timed_out'', PBool (tr_timed_out t)),
     (''seconds'', PFloat (Fin (tr_seconds t)) (sh_float env (tr_seconds t)))]"

definition summary_of :: "'w shop_env \<Rightarrow> proposal \<Rightarrow> operation \<Rightarrow> pyval \<Rightarrow> dict" where
  "summary_of env p op approval =
     [(''repo'', PStr (pr_repo p)), (''base'', PStr (pr_base p)), (''branch'', PStr (pr_branch p)),
      (''commit'', PStr (pr_commit p)), (''diff_sha256'', PStr (pr_diff_sha256 p)),
      (''operation_sha256'', PStr (op_sha256 op)),
      (''tests'', PDict ((''argv'', PList (map PStr (tr_argv (pr_tests p)))) # tests_json env (pr_tests p))),
      (''approval_id'', approval)]"

definition check_json :: "post_check \<Rightarrow> dict" where
  "check_json c = [(''name'', PStr (ck_name c)), (''passed'', PBool (ck_passed c)), (''skipped'', PBool (ck_skipped c))]"

definition post_action_json ::
  "'w shop_env \<Rightarrow> proposal \<Rightarrow> post_check list \<Rightarrow> test_run option \<Rightarrow> bool option \<Rightarrow> dict" where
  "post_action_json env p checks t rolled = (let verified = list_all ck_passed checks in
     [(''verified'', PBool verified),
      (''checks'', PList (map (\<lambda>c. PDict (check_json c @ [(''detail'', PStr (ck_detail c))])) checks)),
      (''tests'', case t of None \<Rightarrow> PNone | Some t \<Rightarrow> PDict (tests_json env t)),
      (''rollback'', PDict
        [(''command'', PList (map PStr [''git'', ''-C'', pr_repo p, ''update-ref'', ''-d'',
            branch_ref (pr_branch p), pr_commit p])),
         (''attempted'', PBool (\<not> verified)),
         (''succeeded'', case rolled of None \<Rightarrow> PNone | Some b \<Rightarrow> PBool b)]),
      (''side_effects'', side_effects p (rolled = Some True))])"

definition on_desk ::
  "('s, 'w) gate_env \<Rightarrow> (moment \<Rightarrow> 's authority \<Rightarrow> 's authority \<times> 'a result) \<Rightarrow> (('s, 'w) gateway, 'a) act" where
  "on_desk env f = chain tick (\<lambda>k g. case gw_desk g of
     None \<Rightarrow> (Inl (Foreign ''AttributeError'' []), g)
   | Some d \<Rightarrow> (case f (ge_moment env k) \<lparr>au_log = gw_log g, au_pending = d\<rparr> of
       (a, r) \<Rightarrow> (r, g\<lparr>gw_log := au_log a, gw_desk := Some (au_pending a)\<rparr>)))"

definition open_gateway :: "('s, 'w) gate_env \<Rightarrow> (('s, 'w) gateway, unit) act" where
  "open_gateway env = chain tick (\<lambda>k. change (\<lambda>g.
     g\<lparr>gw_budget := mk_budget write_limits (now (ge_reading env k)), gw_route := None\<rparr>))"

text \<open>Verification, rollback and the record of both, after the write returned.\<close>

definition conclude ::
  "('s, 'w) gate_env \<Rightarrow> 'w shop_env \<Rightarrow> proposal \<Rightarrow> repo_state \<Rightarrow> real \<Rightarrow> dict
     \<Rightarrow> (('s, 'w) gateway, dict) act" where
  "conclude genv env p before timeout summary =
     chain (on_world (verify_created env p before timeout)) (\<lambda>(checks, t).
     let verified = list_all ck_passed checks in
     chain (if verified then give None else chain (on_world (rollback env p)) (\<lambda>b. give (Some b))) (\<lambda>rolled.
     seq (on_log genv (\<lambda>tm. log_append (su_write (ge_office genv)) tm ''write_verified'' 0 PNone
        [(''verified'', PBool verified), (''checks'', PList (map (\<lambda>c. PDict (check_json c)) checks)),
         (''ref'', PStr (branch_ref (pr_branch p))), (''commit'', PStr (pr_commit p)),
         (''rolled_back'', case rolled of None \<Rightarrow> PNone | Some b \<Rightarrow> PBool b)]))
     (give (summary @ [(''outcome'', PStr (if verified then ''branch_created'' else ''verification_failed'')),
        (''post_action'', PDict (post_action_json env p checks t rolled))]))))"

text \<open>After the yes: the grant, the gateway with its one call, and the write.\<close>

definition write_approved ::
  "('s, 'w) gate_env \<Rightarrow> 'w shop_env \<Rightarrow> string \<Rightarrow> string \<Rightarrow> real \<Rightarrow> proposal \<Rightarrow> string \<Rightarrow> dict
     \<Rightarrow> (('s, 'w) gateway, dict) act" where
  "write_approved genv env who token timeout p i summary =
     chain (on_desk genv (\<lambda>mo. grant (ge_office genv) mo i who grant_ttl_seconds token)) (\<lambda>tok.
     seq (open_gateway genv)
     (chain (on_world (repo_state_of env (pr_repo p))) (\<lambda>before.
     seq (invoke_write genv [(''create_branch'', create_tool env)] ''create_branch''
       (PDict (proposal_arguments p)) tok 0)
     (conclude genv env p before timeout summary))))"

text \<open>\<open>ask\<close> shows the text to the person and returns the answer; the digest is the person's yes.\<close>

definition act_on_answer ::
  "('s, 'w) gate_env \<Rightarrow> 'w shop_env \<Rightarrow> string \<Rightarrow> string \<Rightarrow> real \<Rightarrow> proposal \<Rightarrow> operation \<Rightarrow> string
     \<Rightarrow> string \<Rightarrow> (('s, 'w) gateway, dict) act" where
  "act_on_answer genv env who token timeout p op i answer = (let summary = summary_of env p op (PStr i) in
     if strip answer \<noteq> take 12 (op_sha256 op) then
       seq (on_desk genv (\<lambda>mo. refuse (ge_office genv) mo i who))
         (give (summary @ [(''outcome'', PStr ''refused'')]))
     else write_approved genv env who token timeout p i summary)"

definition ask_person ::
  "('s, 'w) gate_env \<Rightarrow> 'w shop_env \<Rightarrow> (string \<Rightarrow> ('w, string) act) \<Rightarrow> string \<Rightarrow> string \<Rightarrow> real \<Rightarrow> proposal
     \<Rightarrow> operation \<Rightarrow> string \<Rightarrow> (('s, 'w) gateway, dict) act" where
  "ask_person genv env f who token timeout p op i =
     chain (from_result (render_proposal env p)) (\<lambda>shown. chain (on_world (f shown))
       (act_on_answer genv env who token timeout p op i))"

definition decide_proposal ::
  "('s, 'w) gate_env \<Rightarrow> 'w shop_env \<Rightarrow> (string \<Rightarrow> ('w, string) act) option \<Rightarrow> string \<Rightarrow> string \<Rightarrow> real
     \<Rightarrow> proposal \<Rightarrow> (('s, 'w) gateway, dict) act" where
  "decide_proposal genv env ask who token timeout p =
     chain (from_result (proposal_operation (sh_sha env) p)) (\<lambda>op.
     if \<not> tests_passed (pr_tests p) then
       give (summary_of env p op PNone @ [(''outcome'', PStr ''tests_failed'')])
     else seq (change (\<lambda>g. g\<lparr>gw_desk := Some []\<rparr>))
       (chain (on_desk genv (\<lambda>mo. request (ge_office genv) mo op 0)) (\<lambda>i.
       case ask of
         None \<Rightarrow> give (summary_of env p op (PStr i) @ [(''outcome'', PStr ''approval_required'')])
       | Some f \<Rightarrow> ask_person genv env f who token timeout p op i)))"

definition parent_dir :: "string \<Rightarrow> string" where
  "parent_dir p = rev (drop 1 (dropWhile (\<lambda>c. c \<noteq> CHR ''/'') (rev p)))"

definition propose ::
  "('s, 'w) gate_env \<Rightarrow> 'w shop_env \<Rightarrow> string \<Rightarrow> string \<Rightarrow> string \<Rightarrow> string list
     \<Rightarrow> (string \<Rightarrow> ('w, string) act) option \<Rightarrow> string \<Rightarrow> string \<Rightarrow> real \<Rightarrow> (('s, 'w) gateway, dict) act" where
  "propose genv env rp patch br argv ask who token timeout =
     chain (on_world (prepare env rp patch br argv timeout)) (\<lambda>p.
     ensuring (decide_proposal genv env ask who token timeout p)
       (\<lambda>g. g\<lparr>gw_world := sh_rmtree env (parent_dir (pr_workdir p)) (gw_world g)\<rparr>))"

end
