(* ===== verification/Proposal_Facts.thy ===== *)
theory Proposal_Facts
  imports Patch_Proposal
begin

section \<open>What a proposal can write\<close>

text \<open>
  Proofs about \<open>Patch_Proposal\<close>: the paths a patch may touch, the text of the reference
  transaction, what the handler has checked when it runs it, and when it runs at all.
\<close>

subsection \<open>Paths\<close>

lemma split_on_no_sep: "c \<notin> set s \<Longrightarrow> split_on c s = [s]"
  by (induction s) auto

lemma split_on_cut: "c \<notin> set s \<Longrightarrow> split_on c (s @ c # t) = s # split_on c t"
  by (simp add: split_on_append split_on_no_sep)

definition inside_path :: "string \<Rightarrow> bool" where
  "inside_path p \<longleftrightarrow> p \<noteq> [] \<and> \<not> starts_with p ''/'' \<and> CHR 0x5C \<notin> set p
     \<and> list_all (\<lambda>w. w \<noteq> [] \<and> w \<noteq> ''..'' \<and> lower w \<noteq> ''.git'') (split_on (CHR ''/'') p)"

lemma safe_path_inside: "safe_path p = Inr () \<longleftrightarrow> inside_path p"
proof -
  have "lower ''.'' = ''.''" by code_simp
  then show ?thesis
    by (auto simp: safe_path_def inside_path_def pure_parts_def list_all_iff list_ex_iff)
qed

lemma listed_paths_inside: "listed_paths dec out = Inr ps \<Longrightarrow> ps \<noteq> [] \<and> list_all inside_path ps"
  by (auto simp: listed_paths_def bind_res_Inr list_all_iff safe_path_inside [symmetric]
      dest: map_res_mem split: if_splits)

text \<open>What \<open>git apply --numstat -z\<close> writes for a change and for a rename.\<close>

datatype numstat_entry = Changed string string string | Renamed string string string string

fun entry_text :: "numstat_entry \<Rightarrow> string" where
  "entry_text (Changed a d p) = a @ [TAB] @ d @ [TAB] @ p @ [CHR 0x00]"
| "entry_text (Renamed a d p q) = a @ [TAB] @ d @ [TAB, CHR 0x00] @ p @ [CHR 0x00] @ q @ [CHR 0x00]"

fun entry_paths :: "numstat_entry \<Rightarrow> string list" where
  "entry_paths (Changed a d p) = [p]"
| "entry_paths (Renamed a d p q) = [p, q]"

fun entry_ok :: "numstat_entry \<Rightarrow> bool" where
  "entry_ok (Changed a d p) \<longleftrightarrow> TAB \<notin> set (a @ d) \<and> CHR 0x00 \<notin> set (a @ d @ p) \<and> p \<noteq> []"
| "entry_ok (Renamed a d p q) \<longleftrightarrow> TAB \<notin> set (a @ d) \<and> CHR 0x00 \<notin> set (a @ d @ p @ q)"

lemma takeWhile_tab: "TAB \<notin> set a \<Longrightarrow> takeWhile (\<lambda>c. c \<noteq> TAB) (a @ TAB # s) = a"
  by (induction a) auto

lemma split_tabs_three: "TAB \<notin> set (a @ d) \<Longrightarrow> split_tabs (a @ TAB # d @ TAB # p) = Some (a, d, p)"
  by (simp add: split_tabs_def takeWhile_tab Let_def)

lemma split_nul_changed:
  "entry_ok (Changed a d p) \<Longrightarrow> split_on (CHR 0x00) (entry_text (Changed a d p) @ s)
     = (a @ TAB # d @ TAB # p) # split_on (CHR 0x00) s"
  using split_on_cut [of "CHR 0x00" "a @ TAB # d @ TAB # p" s] by (simp add: TAB_def)

lemma split_nul_renamed:
  assumes "entry_ok (Renamed a d p q)"
  shows "split_on (CHR 0x00) (entry_text (Renamed a d p q) @ s)
     = (a @ TAB # d @ [TAB]) # p # q # split_on (CHR 0x00) s"
proof -
  have "split_on (CHR 0x00) ((a @ TAB # d @ [TAB]) @ CHR 0x00 # p @ CHR 0x00 # q @ CHR 0x00 # s) =
      (a @ TAB # d @ [TAB]) # split_on (CHR 0x00) (p @ CHR 0x00 # q @ CHR 0x00 # s)"
    by (rule split_on_cut) (use assms in \<open>simp add: TAB_def\<close>)
  with assms show ?thesis by (simp add: split_on_cut)
qed

lemma numstat_roundtrip:
  "list_all entry_ok es \<Longrightarrow>
     numstat_paths (\<lambda>b. Inr b) (split_on (CHR 0x00) (concat (map entry_text es))) = Inr (concat (map entry_paths es))"
proof (induction es)
  case (Cons e es)
  show ?case
  proof (cases e)
    case (Changed a d p)
    with Cons split_nul_changed [of a d p] split_tabs_three [of a d p] show ?thesis by simp
  next
    case (Renamed a d p q)
    with Cons split_nul_renamed [of a d p q] split_tabs_three [of a d "[]"] show ?thesis by simp
  qed
qed simp

subsection \<open>The transaction\<close>

definition word_text :: "string \<Rightarrow> bool" where
  "word_text s \<longleftrightarrow> LF \<notin> set s \<and> CHR '' '' \<notin> set s"

lemma word_text_simps [simp]:
  "word_text (s @ t) \<longleftrightarrow> word_text s \<and> word_text t"
  "word_text (c # s) \<longleftrightarrow> c \<noteq> LF \<and> c \<noteq> CHR '' '' \<and> word_text s" "word_text []"
  by (auto simp: word_text_def)

lemma commit_shape_word: "commit_shape s \<Longrightarrow> word_text s"
proof -
  have "\<not> is_hex LF" "\<not> is_hex (CHR '' '')" by (simp_all add: is_hex_def code_def)
  then show "commit_shape s \<Longrightarrow> word_text s"
    unfolding commit_shape_def word_text_def list_all_iff by metis
qed

lemma check_ref_word: "check_ref env s w = Inr t \<Longrightarrow> t = s \<and> word_text s \<and> starts_with s ''refs/heads/''"
  by (auto simp: check_ref_def word_text_def list_ex_iff is_space_def split: if_splits)

lemma branch_char_word: "list_all branch_char s \<Longrightarrow> word_text s"
proof -
  have "\<not> branch_char LF" "\<not> branch_char (CHR '' '')"
    by (simp_all add: branch_char_def ch_lower_def ch_digit_def code_def)
  then show "list_all branch_char s \<Longrightarrow> word_text s"
    unfolding word_text_def list_all_iff by metis
qed

lemma starts_with_drop: "starts_with s t \<Longrightarrow> s = t @ drop (length t) s"
  by (induction s t rule: starts_with.induct) auto

lemma validate_branch_word:
  assumes "validate_branch s = Inr t"
  shows "t = s \<and> word_text s \<and> starts_with s ''atlas/'' \<and> \<not> contains s ''..''"
proof -
  have v: "t = s" "branch_shape s" "\<not> contains s ''..''"
    using assms by (auto simp: validate_branch_def split: if_splits)
  then obtain c cs where c: "drop 6 s = c # cs" "ch_lower c \<or> ch_digit c" "list_all branch_char cs"
    "starts_with s ''atlas/''" by (auto simp: branch_shape_def split: list.splits)
  then have "list_all branch_char (drop 6 s)" by (auto simp: branch_char_def)
  then have "word_text (''atlas/'' @ drop 6 s)" by (simp add: branch_char_word)
  moreover have "s = ''atlas/'' @ drop 6 s"
    using starts_with_drop [OF c(4)] by (simp add: numeral_eq_Suc)
  ultimately show ?thesis using v c(4) by (metis (no_types))
qed

lemma words_line:
  "word_text a \<Longrightarrow> word_text b \<Longrightarrow> word_text c \<Longrightarrow>
     split_on (CHR '' '') (a @ CHR '' '' # b @ CHR '' '' # c) = [a, b, c]"
  by (simp add: split_on_cut split_on_no_sep word_text_def)

lemma transaction_lines:
  assumes "word_text base_ref" "word_text base" "word_text rf" "word_text cm"
  shows "split_on LF (transaction base_ref base rf cm) =
    [''verify '' @ base_ref @ '' '' @ base, ''create '' @ rf @ '' '' @ cm, []]"
proof -
  have l: "LF \<notin> set (''verify '' @ base_ref @ '' '' @ base)" "LF \<notin> set (''create '' @ rf @ '' '' @ cm)"
    using assms by (auto simp: word_text_def)
  have "transaction base_ref base rf cm =
      (''verify '' @ base_ref @ '' '' @ base) @ LF # (''create '' @ rf @ '' '' @ cm) @ LF # []"
    by (simp add: transaction_def)
  then show ?thesis by (simp only: split_on_cut [OF l(1)] split_on_cut [OF l(2)] split_on.simps)
qed

subsection \<open>What the person sees\<close>

lemma hex_digit_clean: "n < 16 \<Longrightarrow> \<not> control_char (hex_digit n)"
proof -
  assume n: "n < 16"
  have "code (hex_digit n) = (if n < 10 then 48 + n else 87 + n)"
    using n by (simp add: hex_digit_def code_def)
  then show ?thesis using n by (auto simp: control_char_def split: if_splits)
qed

lemma shown_char_clean: "list_all (\<lambda>c. c \<in> {LF, TAB} \<or> \<not> control_char c) (shown_char c)"
proof -
  have "code c < 256"
    unfolding code_def by (metis mod_less_divisor of_char_mod_256 zero_less_numeral)
  then have "\<not> control_char (hex_digit (code c div 16))" "\<not> control_char (hex_digit (code c mod 16))"
    by (simp_all add: hex_digit_clean less_mult_imp_div_less)
  moreover have "\<not> control_char (CHR 0x5C)" "\<not> control_char (CHR ''r'')" "\<not> control_char (CHR ''x'')"
    by (simp_all add: control_char_def code_def)
  ultimately show ?thesis by (auto simp: shown_char_def hex2_def)
qed

subsection \<open>What the handler has checked\<close>

lemma run_git_Inr: "run_git env cwd args must w = (Inr r, w') \<Longrightarrow> \<exists>w1. sh_git env cwd args w = (Inr r, w1)"
  by (auto simp: run_git_def chain_def throw_def give_def split: prod.splits sum.splits if_splits)

lemma chain_Inr: "chain m f w = (Inr b, w') \<longleftrightarrow> (\<exists>a w1. m w = (Inr a, w1) \<and> f a w1 = (Inr b, w'))"
  by (auto simp: chain_def split: prod.splits sum.splits)

lemma act_Inr:
  "give a w = (Inr b, w') \<longleftrightarrow> b = a \<and> w' = w" "throw e w \<noteq> (Inr b, w')"
  "from_result r w = (Inr b, w') \<longleftrightarrow> r = Inr b \<and> w' = w"
  "look f w = (Inr b, w') \<longleftrightarrow> b = f w \<and> w' = w"
  "seq m n w = (Inr b, w') \<longleftrightarrow> (\<exists>u w1. m w = (Inr u, w1) \<and> n w1 = (Inr b, w'))"
  by (auto simp: give_def throw_def from_result_def look_def seq_def chain_Inr)

lemma arg_proposal [simp]:
  "arg (proposal_arguments p) ''repo'' = Inr (pr_repo p)"
  "arg (proposal_arguments p) ''branch'' = Inr (pr_branch p)"
  "arg (proposal_arguments p) ''commit'' = Inr (pr_commit p)"
  "arg (proposal_arguments p) ''base'' = Inr (pr_base p)"
  "arg (proposal_arguments p) ''base_ref'' = Inr (pr_base_ref p)"
  "arg (proposal_arguments p) ''diff_sha256'' = Inr (pr_diff_sha256 p)"
  "arg (proposal_arguments p) ''source'' = Inr (pr_workdir p)"
  by (simp_all add: arg_def proposal_arguments_def)

lemma create_branch_checked:
  assumes "create_branch env (proposal_arguments p) w = (Inr d, w')"
  shows "\<exists>w1 w2 w3 diff r. git_text env (pr_repo p) [''rev-parse'', pr_commit p @ ''^''] True w1 = (Inr (pr_base p), w2)
    \<and> diff_of env (pr_repo p) (pr_base p) (pr_commit p) w2 = (Inr diff, w3) \<and> sh_sha env diff = pr_diff_sha256 p
    \<and> check_ref env (pr_base_ref p) w3 = Inr (pr_base_ref p)
    \<and> sh_update env (pr_repo p) (transaction (pr_base_ref p) (pr_base p) (branch_ref (pr_branch p)) (pr_commit p)) w3
      = (Inr r, w') \<and> gr_code r = 0"
  using assms
  by (auto simp: create_branch_def chain_Inr act_Inr split: if_splits) (metis check_ref_word)

lemma describe_proposal:
  "describe_create_branch env (proposal_arguments p) w = Inr op \<Longrightarrow> proposal_operation (sh_sha env) p = Inr op
     \<and> validate_branch (pr_branch p) = Inr (pr_branch p) \<and> commit_shape (pr_commit p)
     \<and> check_ref env (pr_base_ref p) w = Inr (pr_base_ref p) \<and> commit_shape (pr_base p)"
  by (auto simp: describe_create_branch_def bind_res_Inr proposal_operation_def mk_operation_def
      split: if_splits dest: validate_branch_word check_ref_word)

subsection \<open>Checked paths, one transaction, approved arguments\<close>

lemma map_res_dec [simp]: "map_res (\<lambda>b. Inr b) xs = Inr xs"
  by (induction xs) simp_all

lemma printable_last_of_nine:
  "printable (join [LF] [a, b, c, d, e, f, g, i, h]) = s \<Longrightarrow> \<exists>front. s = printable (front @ LF # h)"
  by (rule exI [of _ "join [LF] [a, b, c, d, e, f, g, i]"]) simp



text \<open>C23. What the handler feeds to \<open>git update-ref --stdin\<close> is two instructions. For the arguments of a
  proposal that can be described for approval, splitting the transaction at line feeds and at
  spaces gives \<open>verify <base_ref> <base>\<close> and \<open>create <ref> <commit>\<close>, and nothing else: no argument
  smuggles in a further instruction or a further word, and the ref created is below
  \<open>refs/heads/atlas/\<close>.\<close>

theorem transaction_is_two_instructions:
  assumes "describe_create_branch env (proposal_arguments p) w = Inr op"
  shows "map (split_on (CHR '' '')) (split_on LF
      (transaction (pr_base_ref p) (pr_base p) (branch_ref (pr_branch p)) (pr_commit p))) =
    [[''verify'', pr_base_ref p, pr_base p], [''create'', op_ref op, pr_commit p], [[]]]
    \<and> starts_with (op_ref op) ''refs/heads/atlas/''"
proof -
  note d = describe_proposal [OF assms]
  then have r: "op_ref op = branch_ref (pr_branch p)"
    by (auto simp: proposal_operation_def mk_operation_def split: if_splits)
  have b: "word_text (branch_ref (pr_branch p))" "starts_with (pr_branch p) ''atlas/''"
    using d validate_branch_word [of "pr_branch p"] by (auto simp: branch_ref_def)
  have ws: "word_text (pr_base_ref p)" "word_text (pr_base p)" "word_text (pr_commit p)"
    using d commit_shape_word check_ref_word [of env "pr_base_ref p" w] by simp_all
  have v: "word_text ''verify''" "word_text ''create''" by simp_all
  show ?thesis
    using transaction_lines [OF ws(1,2) b(1) ws(3)] words_line [OF v(1) ws(1,2)] words_line [OF v(2) b(1) ws(3)] r
      starts_with_drop [OF b(2)] b(2)
    by (simp add: branch_ref_def)
qed

text \<open>C24. A branch that the handler creates is the approved one: when \<open>create_branch\<close> returns on the
  arguments of a proposal, the repository itself said, after the fetch, that the commit's parent is
  the approved base and that the digest of its diff is the approved digest, and git accepted the one
  transaction that creates the ref at that commit while the base branch still stands at the base.\<close>

theorem created_branch_is_the_approved_one:
  assumes "create_branch env (proposal_arguments p) w = (Inr d, w')"
  shows "\<exists>w1 w2 w3 diff r.
      git_text env (pr_repo p) [''rev-parse'', pr_commit p @ ''^''] True w1 = (Inr (pr_base p), w2)
    \<and> diff_of env (pr_repo p) (pr_base p) (pr_commit p) w2 = (Inr diff, w3) \<and> sh_sha env diff = pr_diff_sha256 p
    \<and> sh_update env (pr_repo p) (transaction (pr_base_ref p) (pr_base p) (branch_ref (pr_branch p)) (pr_commit p)) w3
      = (Inr r, w') \<and> gr_code r = 0"
  using create_branch_checked [OF assms] by blast

text \<open>What the person reads has no control or format character in it but line feeds and tabs,
  whatever the diff, the test output and the repository's names contain, and the digest to answer
  with is its last line.\<close>

theorem shown_text_is_clean:
  assumes "render_proposal env p = Inr shown"
  shows "list_all (\<lambda>c. c \<in> {LF, TAB} \<or> \<not> control_char c) shown
    \<and> (\<exists>op. proposal_operation (sh_sha env) p = Inr op
        \<and> ends_with shown (LF # printable (''operation  : '' @ op_sha256 op)))"
proof -
  obtain op where op: "proposal_operation (sh_sha env) p = Inr op" using assms
    by (auto simp: render_proposal_def bind_res_Inr)
  have clean: "list_all (\<lambda>c. c \<in> {LF, TAB} \<or> \<not> control_char c) (printable s)" for s
    using shown_char_clean by (auto simp: printable_def list_all_iff)
  have p: "printable (s @ LF # t) = printable s @ LF # printable t" for s t
    by (simp add: printable_def shown_char_def)
  have e: "ends_with (s @ t) t" for s t :: string
    by (simp add: ends_with_def)
  from assms have "\<exists>front. shown = printable (front @ LF # ''operation  : '' @ op_sha256 op)"
    unfolding render_proposal_def op bind_res_simps Let_def sum.inject by (rule printable_last_of_nine)
  then obtain front where "shown = printable (front @ LF # ''operation  : '' @ op_sha256 op)" ..
  then have "shown = printable front @ LF # printable (''operation  : '' @ op_sha256 op)" by (simp only: p)
  then show ?thesis using clean op e assms by (auto simp: render_proposal_def Let_def)
qed

end
