(* ===== verification/Proposed.thy ===== *)
theory Proposed
  imports Proposal_Facts
begin

section \<open>When anything is written\<close>

text \<open>Two hosts that differ only in what the reference transaction does.\<close>

lemma update_irrelevant:
  "sh_git (env\<lparr>sh_update := u\<rparr>) = sh_git env" "sh_ref_ok (env\<lparr>sh_update := u\<rparr>) = sh_ref_ok env"
  "sh_run (env\<lparr>sh_update := u\<rparr>) = sh_run env" "sh_mkdtemp (env\<lparr>sh_update := u\<rparr>) = sh_mkdtemp env"
  "sh_sha (env\<lparr>sh_update := u\<rparr>) = sh_sha env" "sh_write (env\<lparr>sh_update := u\<rparr>) = sh_write env"
  "sh_rmtree (env\<lparr>sh_update := u\<rparr>) = sh_rmtree env" "sh_host (env\<lparr>sh_update := u\<rparr>) = sh_host env"
  "sh_decode (env\<lparr>sh_update := u\<rparr>) = sh_decode env" "sh_float (env\<lparr>sh_update := u\<rparr>) = sh_float env"
  by simp_all

text \<open>The steps that do not run the transaction.\<close>

lemmas git_steps = run_git_def git_text_def diff_of_def run_tests_def patch_paths_def

lemma prepare_update: "prepare (env\<lparr>sh_update := u\<rparr>) = prepare env"
  by (intro ext) (unfold prepare_def build_commit_def git_steps update_irrelevant, rule refl)

lemma shown_update:
  "render_proposal (env\<lparr>sh_update := u\<rparr>) = render_proposal env"
  "summary_of (env\<lparr>sh_update := u\<rparr>) = summary_of env"
  unfolding render_proposal_def summary_of_def tests_json_def fun_eq_iff by simp_all

text \<open>The person was shown the proposal and answered with the first characters of its digest.\<close>

definition said_yes ::
  "'w shop_env \<Rightarrow> (string \<Rightarrow> ('w, string) act) option \<Rightarrow> proposal \<Rightarrow> 'w \<Rightarrow> bool" where
  "said_yes env ask p w \<longleftrightarrow> tests_passed (pr_tests p) \<and>
     (case (ask, proposal_operation (sh_sha env) p, render_proposal env p) of
        (Some f, Inr op, Inr shown) \<Rightarrow>
          (case fst (f shown w) of Inr answer \<Rightarrow> strip answer = take 12 (op_sha256 op) | Inl e \<Rightarrow> False)
      | _ \<Rightarrow> False)"

lemma request_world:
  "on_desk genv f g = (r, g') \<Longrightarrow> gw_world g' = gw_world g"
  by (auto simp: on_desk_def chain_def tick_def split: option.splits prod.splits sum.splits)

lemma ask_without_yes:
  assumes "\<not> said_yes env (Some f) p (gw_world g)" and "tests_passed (pr_tests p)"
    and "proposal_operation (sh_sha env) p = Inr op"
  shows "ask_person genv (env\<lparr>sh_update := u\<rparr>) f who token timeout p op i g =
    ask_person genv env f who token timeout p op i g"
  unfolding ask_person_def shown_update
proof (intro chain_cong refl)
  fix shown w answer w'
  assume s: "from_result (render_proposal env p) g = (Inr shown, w)" and a: "on_world (f shown) w = (Inr answer, w')"
  then have "fst (f shown (gw_world g)) = Inr answer" by (auto simp: on_world_def act_Inr split: prod.splits)
  with s assms have "strip answer \<noteq> take 12 (op_sha256 op)" by (simp add: said_yes_def act_Inr)
  then show "act_on_answer genv (env\<lparr>sh_update := u\<rparr>) who token timeout p op i answer w' =
      act_on_answer genv env who token timeout p op i answer w'"
    by (simp add: act_on_answer_def shown_update)
qed

lemma decide_without_yes:
  assumes "\<not> said_yes env ask p (gw_world g)"
  shows "decide_proposal genv (env\<lparr>sh_update := u\<rparr>) ask who token timeout p g =
    decide_proposal genv env ask who token timeout p g"
  unfolding decide_proposal_def update_irrelevant shown_update
proof (rule chain_cong [OF refl])
  fix op w assume "from_result (proposal_operation (sh_sha env) p) g = (Inr op, w)"
  then have op: "proposal_operation (sh_sha env) p = Inr op" "w = g" by (simp_all add: act_Inr)
  have asked: "seq (change (gw_desk_update (\<lambda>_. Some [])))
      (chain (on_desk genv (\<lambda>mo. request (ge_office genv) mo op 0)) (\<lambda>i. case ask of
         None \<Rightarrow> give (summary_of env p op (PStr i) @ [(''outcome'', PStr ''approval_required'')])
       | Some f \<Rightarrow> ask_person genv (env\<lparr>sh_update := u\<rparr>) f who token timeout p op i)) w =
    seq (change (gw_desk_update (\<lambda>_. Some [])))
      (chain (on_desk genv (\<lambda>mo. request (ge_office genv) mo op 0)) (\<lambda>i. case ask of
         None \<Rightarrow> give (summary_of env p op (PStr i) @ [(''outcome'', PStr ''approval_required'')])
       | Some f \<Rightarrow> ask_person genv env f who token timeout p op i)) w" if t: "tests_passed (pr_tests p)"
    unfolding seq_def
  proof (intro chain_cong refl)
    fix x w1 i w2
    assume c: "change (gw_desk_update (\<lambda>_. Some [])) w = (Inr x, w1)"
      and r: "on_desk genv (\<lambda>mo. request (ge_office genv) mo op 0) w1 = (Inr i, w2)"
    from c request_world [OF r] op(2) have "gw_world w2 = gw_world g" by (auto simp: change_def)
    then show "(case ask of
         None \<Rightarrow> give (summary_of env p op (PStr i) @ [(''outcome'', PStr ''approval_required'')])
       | Some f \<Rightarrow> ask_person genv (env\<lparr>sh_update := u\<rparr>) f who token timeout p op i) w2 =
      (case ask of
         None \<Rightarrow> give (summary_of env p op (PStr i) @ [(''outcome'', PStr ''approval_required'')])
       | Some f \<Rightarrow> ask_person genv env f who token timeout p op i) w2"
    proof (cases ask)
      case (Some f)
      with assms \<open>gw_world w2 = gw_world g\<close> have "\<not> said_yes env (Some f) p (gw_world w2)" by simp
      from ask_without_yes [OF this t op(1)] Some show ?thesis by simp
    qed simp
  qed
  then show "(if \<not> tests_passed (pr_tests p)
       then give (summary_of env p op PNone @ [(''outcome'', PStr ''tests_failed'')])
       else seq (change (gw_desk_update (\<lambda>_. Some [])))
        (chain (on_desk genv (\<lambda>mo. request (ge_office genv) mo op 0)) (\<lambda>i. case ask of
           None \<Rightarrow> give (summary_of env p op (PStr i) @ [(''outcome'', PStr ''approval_required'')])
         | Some f \<Rightarrow> ask_person genv (env\<lparr>sh_update := u\<rparr>) f who token timeout p op i))) w =
    (if \<not> tests_passed (pr_tests p)
       then give (summary_of env p op PNone @ [(''outcome'', PStr ''tests_failed'')])
       else seq (change (gw_desk_update (\<lambda>_. Some [])))
        (chain (on_desk genv (\<lambda>mo. request (ge_office genv) mo op 0)) (\<lambda>i. case ask of
           None \<Rightarrow> give (summary_of env p op (PStr i) @ [(''outcome'', PStr ''approval_required'')])
         | Some f \<Rightarrow> ask_person genv env f who token timeout p op i))) w"
    by simp
qed

lemma propose_without_yes:
  assumes "\<And>p w. prepare env rp patch br argv timeout (gw_world g) = (Inr p, w) \<Longrightarrow> \<not> said_yes env ask p w"
  shows "propose genv (env\<lparr>sh_update := u\<rparr>) rp patch br argv ask who token timeout g =
    propose genv env rp patch br argv ask who token timeout g"
  unfolding propose_def prepare_update update_irrelevant
proof (rule chain_cong [OF refl])
  fix p g1 assume "on_world (prepare env rp patch br argv timeout) g = (Inr p, g1)"
  then have "prepare env rp patch br argv timeout (gw_world g) = (Inr p, gw_world g1)"
    by (auto simp: on_world_def split: prod.splits)
  from decide_without_yes [OF assms [OF this]] show
    "ensuring (decide_proposal genv (env\<lparr>sh_update := u\<rparr>) ask who token timeout p)
      (\<lambda>g. g\<lparr>gw_world := sh_rmtree env (parent_dir (pr_workdir p)) (gw_world g)\<rparr>) g1 =
    ensuring (decide_proposal genv env ask who token timeout p)
      (\<lambda>g. g\<lparr>gw_world := sh_rmtree env (parent_dir (pr_workdir p)) (gw_world g)\<rparr>) g1"
    by (simp add: ensuring_def)
qed

section \<open>What a created branch has been through\<close>

text \<open>The repository, read again after the write.\<close>

definition reads_back :: "'w shop_env \<Rightarrow> proposal \<Rightarrow> repo_state \<Rightarrow> real \<Rightarrow> 'w \<Rightarrow> bool" where
  "reads_back env p before timeout w \<longleftrightarrow> (\<exists>w1 w2 w3 w4 w5 diff later t.
     git_text env (pr_repo p) [''rev-parse'', ''--verify'', ''--quiet'', branch_ref (pr_branch p)] False w
       = (Inr (pr_commit p), w1)
   \<and> git_text env (pr_repo p) [''rev-parse'', pr_commit p @ ''^''] True w1 = (Inr (pr_base p), w2)
   \<and> diff_of env (pr_repo p) (pr_base p) (pr_commit p) w2 = (Inr diff, w3) \<and> sh_sha env diff = pr_diff_sha256 p
   \<and> repo_state_of env (pr_repo p) w3 = (Inr later, w4)
   \<and> sort (splitlines (rp_refs later)) =
       sort (splitlines (rp_refs before) @ [branch_ref (pr_branch p) @ '' '' @ pr_commit p])
   \<and> same_but_refs later before
   \<and> retest env p (pr_commit p) timeout w4 = (Inr t, w5) \<and> tests_passed t)"

lemma verified_reads_back:
  assumes "verify_created env p before timeout w = (Inr (checks, t), w')" and "list_all ck_passed checks"
  shows "reads_back env p before timeout w"
  using assms unfolding reads_back_def
  by (auto simp: verify_created_def Let_def chain_Inr act_Inr did_check_def split: if_splits)

lemma summary_outcome [simp]: "map_of (summary_of env p op i) ''outcome'' = None"
  by (simp add: summary_of_def)

lemma conclude_created:
  assumes "conclude genv env p before timeout (summary_of env p op i) g = (Inr d, g')"
    and "map_of d ''outcome'' = Some (PStr ''branch_created'')"
  shows "reads_back env p before timeout (gw_world g)"
  using assms
  by (auto simp: conclude_def Let_def chain_Inr act_Inr on_world_def split: if_splits prod.splits
      intro: verified_reads_back)

lemma on_world_Inr: "on_world m g = (Inr a, g') \<longleftrightarrow> (\<exists>w. m (gw_world g) = (Inr a, w) \<and> g' = g\<lparr>gw_world := w\<rparr>)"
  by (auto simp: on_world_def split: prod.splits)

lemma write_approved_created:
  assumes "write_approved genv env who token timeout p i (summary_of env p op i') g = (Inr d, g')"
    and "map_of d ''outcome'' = Some (PStr ''branch_created'')"
  shows "\<exists>w0 w1 before w2. repo_state_of env (pr_repo p) w0 = (Inr before, w1) \<and> reads_back env p before timeout w2"
  using assms by (auto simp: write_approved_def chain_Inr act_Inr on_world_Inr) (blast intro: conclude_created)

definition written_and_read_back :: "'w shop_env \<Rightarrow> proposal \<Rightarrow> real \<Rightarrow> bool" where
  "written_and_read_back env p timeout \<longleftrightarrow> (\<exists>w0 w1 before w2.
     repo_state_of env (pr_repo p) w0 = (Inr before, w1) \<and> reads_back env p before timeout w2)"

lemma ask_created:
  assumes a: "ask_person genv env f who token timeout p op i g = (Inr d, g')"
    and d: "map_of d ''outcome'' = Some (PStr ''branch_created'')"
    and op: "proposal_operation (sh_sha env) p = Inr op" "tests_passed (pr_tests p)"
  shows "said_yes env (Some f) p (gw_world g) \<and> written_and_read_back env p timeout"
proof -
  from a obtain shown answer w where s: "render_proposal env p = Inr shown"
    and f: "f shown (gw_world g) = (Inr answer, w)"
    and act: "act_on_answer genv env who token timeout p op i answer (g\<lparr>gw_world := w\<rparr>) = (Inr d, g')"
    by (auto simp: ask_person_def chain_Inr act_Inr on_world_Inr)
  from act d have yes: "strip answer = take 12 (op_sha256 op)"
    by (auto simp: act_on_answer_def Let_def act_Inr split: if_splits)
  with act have "write_approved genv env who token timeout p i (summary_of env p op (PStr i))
      (g\<lparr>gw_world := w\<rparr>) = (Inr d, g')" by (simp add: act_on_answer_def Let_def)
  from write_approved_created [OF this d] s f yes op show ?thesis
    by (simp add: said_yes_def written_and_read_back_def)
qed

lemma decide_created:
  assumes a: "decide_proposal genv env ask who token timeout p g = (Inr d, g')"
    and d: "map_of d ''outcome'' = Some (PStr ''branch_created'')"
  shows "said_yes env ask p (gw_world g) \<and> written_and_read_back env p timeout"
proof -
  from a obtain op where op: "proposal_operation (sh_sha env) p = Inr op"
    by (auto simp: decide_proposal_def chain_Inr act_Inr)
  with a d have t: "tests_passed (pr_tests p)"
    by (auto simp: decide_proposal_def chain_Inr act_Inr split: if_splits)
  with a op obtain g1 g2 i where r: "on_desk genv (\<lambda>mo. request (ge_office genv) mo op 0) g1 = (Inr i, g2)"
    and g1: "gw_world g1 = gw_world g"
    and n: "(case ask of None \<Rightarrow> give (summary_of env p op (PStr i) @ [(''outcome'', PStr ''approval_required'')])
      | Some f \<Rightarrow> ask_person genv env f who token timeout p op i) g2 = (Inr d, g')"
    by (auto simp: decide_proposal_def chain_Inr act_Inr change_def)
  from n d obtain f where f: "ask = Some f" by (auto simp: act_Inr split: option.splits)
  with n have "ask_person genv env f who token timeout p op i g2 = (Inr d, g')" by simp
  from ask_created [OF this d op t] f request_world [OF r] g1 show ?thesis by simp
qed

lemma ensuring_Inr: "ensuring m f w = (Inr b, w') \<longleftrightarrow> (\<exists>w1. m w = (Inr b, w1) \<and> w' = f w1)"
  by (auto simp: ensuring_def split: prod.splits)

text \<open>C5. Nothing is written without the person's yes. When no prepared proposal both passes its tests
  and is answered with the first characters of its operation digest, \<open>propose\<close> does the same
  whatever the reference transaction would do: it is never run.\<close>

theorem no_write_without_yes:
  assumes "\<And>p w. prepare env rp patch br argv timeout (gw_world g) = (Inr p, w) \<Longrightarrow> \<not> said_yes env ask p w"
  shows "propose genv (env\<lparr>sh_update := u\<rparr>) rp patch br argv ask who token timeout g =
    propose genv env rp patch br argv ask who token timeout g"
  using assms by (rule propose_without_yes)


section \<open>One proposal, run\<close>

text \<open>A repository at one commit on \<open>main\<close>; the world is whether the new branch exists.\<close>

definition shop_commit :: string where "shop_commit = replicate 40 (CHR ''b'')"

definition shop_git :: "string \<Rightarrow> string list \<Rightarrow> (bool, git_result) act" where
  "shop_git cwd args made = (let said = (\<lambda>s. (Inr \<lparr>gr_code = 0, gr_out = s\<rparr>, made)) in
     case args of
       ''symbolic-ref'' # _ \<Rightarrow> said ''refs/heads/main''
     | [''rev-parse'', ''HEAD''] \<Rightarrow> said (if cwd = ''/t/clone'' then shop_commit else sample_commit)
     | [''rev-parse'', ''--verify'', _, _] \<Rightarrow>
         (Inr (if made then \<lparr>gr_code = 0, gr_out = shop_commit\<rparr> else \<lparr>gr_code = 1, gr_out = []\<rparr>), made)
     | [''rev-parse'', _] \<Rightarrow> said sample_commit
     | [''apply'', ''--numstat'', _, _] \<Rightarrow> said (entry_text (Changed ''1'' ''1'' ''a''))
     | ''for-each-ref'' # _ \<Rightarrow> said (if made then ''refs/heads/atlas/x '' @ shop_commit else [])
     | ''diff'' # _ \<Rightarrow> said ''+a''
     | _ \<Rightarrow> said [])"

definition shop :: "bool shop_env" where
  "shop = \<lparr>sh_git = shop_git, sh_update = (\<lambda>_ _ _. (Inr \<lparr>gr_code = 0, gr_out = []\<rparr>, True)),
     sh_ref_ok = (\<lambda>_ _. True), sh_run = (\<lambda>_ _ _ w. (Inr (Exited 0 ''ok'', 1), w)),
     sh_mkdtemp = (\<lambda>w. (Inr ''/t'', w)), sh_write = (\<lambda>_ _ w. (Inr (), w)), sh_rmtree = (\<lambda>_ w. w),
     sh_host = (\<lambda>_. sample_host\<lparr>git := \<lambda>_ args. Some (0,
        if args = [''rev-parse'', ''HEAD''] then sample_commit else [])\<rparr>),
     sh_decode = Inr, sh_sha = (\<lambda>_. ''0123456789abcdef''), sh_float = (\<lambda>_. ''1.0'')\<rparr>"

definition shop_run :: "(string \<Rightarrow> (bool, string) act) option \<Rightarrow> dict result \<times> (unit, bool) gateway" where
  "shop_run ask = propose gate_sample shop ''/r'' ''diff'' ''atlas/x'' [''make''] ask ''ada'' ''tok'' 300
     (gate_state 0 None [])"

lemma shop_created: "case shop_run (Some (\<lambda>_. give ''0123456789ab'')) of
    (Inr d, g) \<Rightarrow> map_of d ''outcome'' = Some (PStr ''branch_created'') \<and> gw_world g | _ \<Rightarrow> False"
  by code_simp

lemma shop_refused: "case shop_run (Some (\<lambda>_. give ''yes'')) of
    (Inr d, g) \<Rightarrow> map_of d ''outcome'' = Some (PStr ''refused'') \<and> \<not> gw_world g | _ \<Rightarrow> False"
  by code_simp

definition shop_proposal :: proposal where
  "shop_proposal = \<lparr>pr_repo = ''/r'', pr_base = sample_commit, pr_base_ref = ''refs/heads/main'',
     pr_branch = ''atlas/x'', pr_commit = shop_commit, pr_diff = ''+a'' @ [CR, CHR 0x1B],
     pr_diff_sha256 = ''0123456789abcdef'', pr_tests = \<lparr>tr_argv = [''make''], tr_exit = Some 0, tr_seconds = 1,
       tr_output = ''ok'', tr_timed_out = False\<rparr>, pr_workdir = ''/t/clone''\<rparr>"

lemma shop_described: "case describe_create_branch shop (proposal_arguments shop_proposal) False of
    Inr op \<Rightarrow> op_ref op = ''refs/heads/atlas/x'' | Inl e \<Rightarrow> False"
  by code_simp

lemma shop_handled: "case create_branch shop (proposal_arguments shop_proposal) False of
    (Inr d, made) \<Rightarrow> made | _ \<Rightarrow> False"
  by code_simp

lemma shop_rendered: "case render_proposal shop shop_proposal of Inr s \<Rightarrow> contains s [CHR 0x5C, CHR ''x''] | Inl e \<Rightarrow> False"
  by code_simp

theorem transaction_is_two_instructions_witness:
  "map (split_on (CHR '' '')) (split_on LF (transaction ''refs/heads/main'' sample_commit
     (branch_ref ''atlas/x'') shop_commit)) =
   [[''verify'', ''refs/heads/main'', sample_commit], [''create'', ''refs/heads/atlas/x'', shop_commit], [[]]]"
proof -
  from shop_described obtain op where op: "op_ref op = ''refs/heads/atlas/x''"
    "describe_create_branch shop (proposal_arguments shop_proposal) False = Inr op"
    by (auto split: sum.splits)
  from transaction_is_two_instructions [OF op(2)] op(1) show ?thesis by (simp add: shop_proposal_def)
qed

theorem created_branch_is_the_approved_one_witness:
  "\<exists>w1 w2 w3 diff. git_text shop ''/r'' [''rev-parse'', shop_commit @ ''^''] True w1 = (Inr sample_commit, w2)
     \<and> diff_of shop ''/r'' sample_commit shop_commit w2 = (Inr diff, w3) \<and> sh_sha shop diff = ''0123456789abcdef''"
proof -
  from shop_handled obtain d w where "create_branch shop (proposal_arguments shop_proposal) False = (Inr d, w)"
    by (auto split: prod.splits sum.splits)
  from created_branch_is_the_approved_one [OF this] show ?thesis by (simp add: shop_proposal_def) blast
qed

theorem shown_text_is_clean_witness:
  "\<exists>shown. render_proposal shop shop_proposal = Inr shown
     \<and> list_all (\<lambda>c. c \<in> {LF, TAB} \<or> \<not> control_char c) shown"
proof -
  from shop_rendered obtain shown where "render_proposal shop shop_proposal = Inr shown"
    by (auto split: sum.splits)
  with shown_text_is_clean [OF this] show ?thesis by blast
qed

theorem no_write_without_yes_witness:
  "propose gate_sample (shop\<lparr>sh_update := \<lambda>_ _ w. (Inl OSError, True)\<rparr>) ''/r'' ''diff'' ''atlas/x'' [''make''] None
     ''ada'' ''tok'' 300 (gate_state 0 None []) =
   propose gate_sample shop ''/r'' ''diff'' ''atlas/x'' [''make''] None ''ada'' ''tok'' 300 (gate_state 0 None [])"
  by (rule no_write_without_yes) (simp add: said_yes_def)


end
