(* ===== verification/Inspect.thy ===== *)
theory Inspect
  imports EventLog Schemas Observations
begin

section \<open>Inspecting one run of a log (atlas_core/inspect_run.py)\<close>

text \<open>
  The validation of a run's history, the report built from it and its text form. A record is the
  object read from its line; a field the code indexes without a default is a \<open>KeyError\<close> when it
  is missing, and a method of a value that is not an object an \<open>AttributeError\<close>. The parser of a
  line is a parameter, as in \<open>EventLog\<close>.
\<close>

definition no_attribute :: exc where "no_attribute = Foreign ''AttributeError'' []"

definition unique_strings :: "pyval list \<Rightarrow> string list" where
  "unique_strings vs = fold (\<lambda>v kept. let t = strip (str_val v) in
     if t \<noteq> [] \<and> t \<notin> set kept then kept @ [t] else kept) vs []"

definition payload_list :: "pyval \<Rightarrow> string \<Rightarrow> pyval list result" where
  "payload_list payload k = (case payload of
     PDict p \<Rightarrow> (case get_or p k (PList []) of PList xs \<Rightarrow> Inr xs | _ \<Rightarrow> Inl InspectError)
   | _ \<Rightarrow> Inl no_attribute)"

definition payload_get :: "pyval \<Rightarrow> string \<Rightarrow> pyval result" where
  "payload_get payload k = (case payload of PDict p \<Rightarrow> Inr (get_or p k PNone) | _ \<Rightarrow> Inl no_attribute)"

definition nonempty_text :: "pyval \<Rightarrow> string result" where
  "nonempty_text v = (case v of
     PStr s \<Rightarrow> if blank s then Inl InspectError else Inr s | _ \<Rightarrow> Inl InspectError)"

fun each_res :: "('a \<Rightarrow> unit result) \<Rightarrow> 'a list \<Rightarrow> unit result" where
  "each_res f [] = Inr ()"
| "each_res f (x # xs) = bind_res (f x) (\<lambda>_. each_res f xs)"

definition check_source :: "pyval \<Rightarrow> unit result" where
  "check_source item = (case item of
     PDict d \<Rightarrow> bind_res (nonempty_text (get_or d ''source_id'' PNone)) (\<lambda>_.
       case map_of d ''path'' of
         None \<Rightarrow> Inr () | Some p \<Rightarrow> bind_res (nonempty_text p) (\<lambda>_. Inr ()))
   | _ \<Rightarrow> Inl InspectError)"

definition check_texts :: "pyval \<Rightarrow> string \<Rightarrow> unit result" where
  "check_texts payload k = bind_res (payload_list payload k)
     (each_res (\<lambda>v. bind_res (nonempty_text v) (\<lambda>_. Inr ())))"

definition check_text :: "pyval \<Rightarrow> string \<Rightarrow> unit result" where
  "check_text payload k = bind_res (payload_get payload k) (\<lambda>v. bind_res (nonempty_text v) (\<lambda>_. Inr ()))"

text \<open>The payload shapes the report is derived from.\<close>

definition check_payload :: "pyval \<Rightarrow> pyval \<Rightarrow> unit result" where
  "check_payload kind payload =
     (if kind = PStr ''observation_recorded'' then
        bind_res (bind_res (payload_list payload ''added'') (each_res check_source)) (\<lambda>_.
        bind_res (bind_res (payload_list payload ''superseded'') (each_res check_source)) (\<lambda>_.
        check_texts payload ''unchanged''))
      else if kind = PStr ''decision_recorded'' then
        bind_res (check_texts payload ''evidence_gaps'') (\<lambda>_. check_texts payload ''unmet_criteria'')
      else if kind = PStr ''plan_selected'' then
        bind_res (payload_get payload ''route'') (\<lambda>v.
          if v = PNone then Inr () else bind_res (nonempty_text v) (\<lambda>_. Inr ()))
      else if kind = PStr ''run_stopped'' then
        bind_res (check_text payload ''status'') (\<lambda>_.
        bind_res (check_text payload ''stop_reason'') (\<lambda>_. check_text payload ''stop_class''))
      else Inr ())"

type_synonym call_sets = "string list \<times> string list"

definition check_calls :: "string \<Rightarrow> dict \<Rightarrow> pyval \<Rightarrow> call_sets \<Rightarrow> call_sets result" where
  "check_calls run r kind seen = (case seen of (started, finished) \<Rightarrow>
     if kind = PStr ''call_started'' then
       bind_res (nonempty_text (get_or r ''call_id'' PNone)) (\<lambda>c.
       bind_res (get_key r ''sequence'') (\<lambda>sq.
       if c \<noteq> run @ '':'' @ str_val sq then Inl InspectError
       else if c \<in> set started then Inl InspectError else Inr (c # started, finished)))
     else if kind = PStr ''call_finished'' then
       bind_res (nonempty_text (get_or r ''call_id'' PNone)) (\<lambda>c.
       if c \<notin> set started then Inl InspectError
       else if c \<in> set finished then Inl InspectError else Inr (started, c # finished))
     else Inr (started, finished))"

fun check_records :: "string \<Rightarrow> dict list \<Rightarrow> call_sets \<Rightarrow> call_sets result" where
  "check_records run [] seen = Inr seen"
| "check_records run (r # rs) seen =
     bind_res (get_key r ''kind'') (\<lambda>kind. bind_res (get_key r ''payload'') (\<lambda>payload.
     bind_res (check_calls run r kind seen) (\<lambda>seen'.
     bind_res (check_payload kind payload) (\<lambda>_. check_records run rs seen'))))"

definition check_event_id :: "string \<Rightarrow> dict \<Rightarrow> unit result" where
  "check_event_id run r = bind_res (get_key r ''sequence'') (\<lambda>sq.
     require (get_or r ''event_id'' PNone = PStr (run @ '':'' @ str_val sq)) InspectError)"

definition of_kind :: "string \<Rightarrow> dict list \<Rightarrow> dict list result" where
  "of_kind k rs = bind_res (map_res (\<lambda>r. bind_res (get_key r ''kind'') (\<lambda>v. Inr (v = PStr k, r))) rs)
     (\<lambda>ps. Inr (map snd (filter fst ps)))"

text \<open>One \<open>run_started\<close>, first; at most one \<open>run_stopped\<close>, last.\<close>

definition check_bounds :: "dict list \<Rightarrow> dict list \<Rightarrow> dict list \<Rightarrow> unit result" where
  "check_bounds starts stops records = (case starts of
     [s] \<Rightarrow> bind_res (get_key s ''sequence'') (\<lambda>sq.
       if \<not> py_eq sq (PInt 0) then Inl InspectError
       else (case stops of
           [] \<Rightarrow> Inr ()
         | [e] \<Rightarrow> require (get_or (last records) ''kind'' PNone = PStr ''run_stopped'') InspectError
         | _ \<Rightarrow> Inl InspectError))
   | _ \<Rightarrow> Inl InspectError)"

definition as_inspect_error :: "exc list \<Rightarrow> 'a result \<Rightarrow> 'a result" where
  "as_inspect_error es m = (case m of Inl e \<Rightarrow> Inl (if e \<in> set es then InspectError else e) | Inr x \<Rightarrow> Inr x)"

definition validate_history :: "string \<Rightarrow> dict list \<Rightarrow> unit event_log result" where
  "validate_history run records =
     bind_res (as_inspect_error [ResumeRefused, TypeError, ValueError] (mk_log run None records)) (\<lambda>log.
     bind_res (each_res (check_event_id run) records) (\<lambda>_.
     bind_res (of_kind ''run_started'' records) (\<lambda>starts.
     bind_res (of_kind ''run_stopped'' records) (\<lambda>stops.
     bind_res (check_bounds starts stops records) (\<lambda>_.
     bind_res (check_records run records ([], [])) (\<lambda>_. Inr log))))))"

subsection \<open>The report\<close>

record source_detail =
  sd_source :: string
  sd_path :: string
  sd_sha :: string

record report =
  ir_run :: string
  ir_status :: pyval
  ir_route :: pyval
  ir_iterations :: pyval
  ir_reason :: pyval
  ir_class :: pyval
  ir_sources :: "string list"
  ir_details :: "source_detail list"
  ir_uncertain :: "string list"
  ir_unfinished :: "string list"
  ir_calls :: "(string \<times> nat) list"
  ir_count :: nat
  ir_started :: pyval
  ir_finished :: pyval
  ir_events :: "dict list"

definition opt_or :: "pyval \<Rightarrow> string \<Rightarrow> string" where
  "opt_or v alt = (if truthy v then str_val v else alt)"

text \<open>The lists of a validated payload.\<close>

definition payload_of :: "dict \<Rightarrow> dict" where
  "payload_of r = (case get_or r ''payload'' PNone of PDict p \<Rightarrow> p | _ \<Rightarrow> [])"

definition items_of :: "dict \<Rightarrow> string \<Rightarrow> pyval list" where
  "items_of r k = (case get_or (payload_of r) k (PList []) of PList xs \<Rightarrow> xs | _ \<Rightarrow> [])"

definition added_detail :: "pyval \<Rightarrow> (string \<times> source_detail) list \<Rightarrow> (string \<times> source_detail) list" where
  "added_detail item ds = (case item of
     PDict d \<Rightarrow> (let i = str_val (get_or d ''source_id'' PNone) in dict_set i \<lparr>sd_source = i,
       sd_path = opt_or (get_or d ''path'' PNone) unknown, sd_sha = opt_or (get_or d ''sha256'' PNone) unknown\<rparr> ds)
   | _ \<Rightarrow> ds)"

definition superseded_detail :: "pyval \<Rightarrow> (string \<times> source_detail) list \<Rightarrow> (string \<times> source_detail) list" where
  "superseded_detail item ds = (case item of
     PDict d \<Rightarrow> (let i = str_val (get_or d ''source_id'' PNone);
         before = (case map_of ds i of None \<Rightarrow> unknown | Some x \<Rightarrow> if sd_path x = [] then unknown else sd_path x)
       in dict_set i \<lparr>sd_source = i, sd_path = opt_or (get_or d ''path'' PNone) before,
         sd_sha = opt_or (get_or d ''new_sha256'' PNone) unknown\<rparr> ds)
   | _ \<Rightarrow> ds)"

definition item_source :: "pyval \<Rightarrow> pyval list" where
  "item_source item = (case item of PDict d \<Rightarrow> [get_or d ''source_id'' (PStr [])] | _ \<Rightarrow> [])"

definition record_details :: "dict \<Rightarrow> (string \<times> source_detail) list \<Rightarrow> (string \<times> source_detail) list" where
  "record_details r ds = fold superseded_detail (items_of r ''superseded'') (fold added_detail (items_of r ''added'') ds)"

definition record_sources :: "dict \<Rightarrow> pyval list" where
  "record_sources r = concat (map item_source (items_of r ''added''))
     @ concat (map item_source (items_of r ''superseded'')) @ items_of r ''unchanged''"

text \<open>\<open>max\<close> of a non-empty list of numbers, or of texts.\<close>

definition py_greater :: "pyval \<Rightarrow> pyval \<Rightarrow> bool result" where
  "py_greater a b = (case (num_of a, num_of b, a, b) of
     (Some (Fin x), Some (Fin y), _, _) \<Rightarrow> Inr (y < x)
   | (_, _, PStr s, PStr t) \<Rightarrow> Inr (t < s)
   | _ \<Rightarrow> Inl TypeError)"

fun py_max :: "pyval \<Rightarrow> pyval list \<Rightarrow> pyval result" where
  "py_max m [] = Inr m"
| "py_max m (x # xs) = bind_res (py_greater x m) (\<lambda>g. py_max (if g then x else m) xs)"

definition how_many :: "string \<Rightarrow> (string \<times> string) list \<Rightarrow> nat" where
  "how_many st states = length (filter (\<lambda>(c, s). s = st) states)"

definition unfinished_in :: "(string \<times> string) list \<Rightarrow> string list" where
  "unfinished_in states = map fst (filter (\<lambda>(c, s). s = ''unknown'') states)"

definition call_counts :: "(string \<times> string) list \<Rightarrow> (string \<times> nat) list" where
  "call_counts states = [(''total'', length states), (''ok'', how_many ''ok'' states),
     (''denied'', how_many ''denied'' states), (''failed'', how_many ''failed'' states),
     (''unknown'', length (unfinished_in states))]"

definition uncertainties :: "dict list \<Rightarrow> string list \<Rightarrow> pyval list" where
  "uncertainties decisions unfinished =
     (if decisions = [] then []
      else items_of (last decisions) ''evidence_gaps'' @ items_of (last decisions) ''unmet_criteria'')
     @ map (\<lambda>c. PStr (''call '' @ c @ '' outcome unknown'')) unfinished"

definition build_report :: "string \<Rightarrow> dict list \<Rightarrow> unit event_log \<Rightarrow> report result" where
  "build_report run records lg =
     bind_res (of_kind ''run_stopped'' records) (\<lambda>stops.
     bind_res (of_kind ''plan_selected'' records) (\<lambda>plans.
     bind_res (of_kind ''decision_recorded'' records) (\<lambda>decisions.
     bind_res (of_kind ''observation_recorded'' records) (\<lambda>observed.
     bind_res (call_states (map event_dict (log_events lg))) (\<lambda>states.
     bind_res (map_res (\<lambda>r. get_key r ''iteration'') records) (\<lambda>its.
     bind_res (py_max (hd its) (tl its)) (\<lambda>it.
     bind_res (get_key (hd records) ''recorded_at'') (\<lambda>began.
     bind_res (if stops = [] then Inr PNone else get_key (last records) ''recorded_at'') (\<lambda>ended.
     let stopped = (if stops = [] then [] else payload_of (hd stops)); lost = unfinished_in states in
     Inr \<lparr>ir_run = run,
       ir_status = (if stops = [] then PStr ''interrupted'' else get_or stopped ''status'' PNone),
       ir_route = (if plans = [] then PNone else get_or (payload_of (last plans)) ''route'' PNone),
       ir_iterations = it, ir_reason = get_or stopped ''stop_reason'' PNone,
       ir_class = get_or stopped ''stop_class'' PNone,
       ir_sources = unique_strings (concat (map record_sources observed)),
       ir_details = map snd (fold record_details observed []),
       ir_uncertain = unique_strings (uncertainties decisions lost), ir_unfinished = lost,
       ir_calls = call_counts states, ir_count = length records, ir_started = began,
       ir_finished = ended, ir_events = records\<rparr>)))))))))"

definition of_run :: "string \<Rightarrow> dict list \<Rightarrow> dict list" where
  "of_run run rs = filter (\<lambda>r. get_or r ''run_id'' PNone = PStr run) rs"

definition dict_records :: "pyval list \<Rightarrow> dict list result" where
  "dict_records vs = (if list_all is_dict vs then Inr (map (\<lambda>v. case v of PDict d \<Rightarrow> d | _ \<Rightarrow> []) vs)
     else Inl InspectError)"

definition inspect_records :: "string \<Rightarrow> dict list \<Rightarrow> report result" where
  "inspect_records run records =
     (if records = [] then Inl InspectError
      else bind_res (validate_history run records) (build_report run records))"

text \<open>\<open>file\<close> is the text of the log, \<open>None\<close> when it cannot be opened.\<close>

definition inspect_run :: "(string \<Rightarrow> pyval result) \<Rightarrow> string option \<Rightarrow> string \<Rightarrow> report result" where
  "inspect_run loads content run =
     (if run = [] then Inl InspectError
      else bind_res (as_inspect_error [OSError, FileMissing, JSONDecodeError]
          (case content of None \<Rightarrow> Inl FileMissing | Some raw \<Rightarrow> read_jsonl loads raw)) (\<lambda>vs.
        bind_res (dict_records vs) (\<lambda>rs. inspect_records run (of_run run rs))))"

definition or_text :: "string list \<Rightarrow> string \<Rightarrow> string" where
  "or_text xs sep = (if join sep xs = [] then ''none recorded'' else join sep xs)"

definition detail_line :: "source_detail \<Rightarrow> string" where
  "detail_line d = ''  '' @ sd_path d @ ''  sha256:'' @ sd_sha d"

definition render_inspection :: "report \<Rightarrow> string" where
  "render_inspection r = (let why = opt_or (ir_reason r) ''not stopped'';
      stopped = why @ (if truthy (ir_class r) then '' ('' @ str_val (ir_class r) @ '')'' else []) in
     join [LF] ([''Run: '' @ ir_run r, ''Status: '' @ opt_or (ir_status r) ''unknown'',
       ''Route: '' @ opt_or (ir_route r) ''unknown'', ''Iterations: '' @ str_val (ir_iterations r),
       ''Sources: '' @ or_text (ir_sources r) '', '']
       @ map detail_line (ir_details r)
       @ [''Uncertainties: '' @ or_text (ir_uncertain r) ''; '', ''Stopped: '' @ stopped]) @ [LF])"

section \<open>Consistent histories\<close>

definition is_text :: "pyval \<Rightarrow> bool" where
  "is_text v \<longleftrightarrow> (\<exists>s. v = PStr s \<and> \<not> blank s)"

definition texts_in :: "dict \<Rightarrow> string \<Rightarrow> bool" where
  "texts_in p k \<longleftrightarrow> (\<exists>xs. get_or p k (PList []) = PList xs \<and> list_all is_text xs)"

definition source_fits :: "pyval \<Rightarrow> bool" where
  "source_fits v \<longleftrightarrow> (\<exists>d. v = PDict d \<and> is_text (get_or d ''source_id'' PNone)
     \<and> is_text (get_or d ''path'' (PStr ''p'')))"

definition sources_in :: "dict \<Rightarrow> string \<Rightarrow> bool" where
  "sources_in p k \<longleftrightarrow> (\<exists>xs. get_or p k (PList []) = PList xs \<and> list_all source_fits xs)"

text \<open>The payloads that the report can be derived from.\<close>

definition payload_fits :: "event \<Rightarrow> bool" where
  "payload_fits e \<longleftrightarrow> (let p = ev_payload e; k = ev_kind e in
     (k = ''observation_recorded'' \<longrightarrow> sources_in p ''added'' \<and> sources_in p ''superseded'' \<and> texts_in p ''unchanged'')
   \<and> (k = ''decision_recorded'' \<longrightarrow> texts_in p ''evidence_gaps'' \<and> texts_in p ''unmet_criteria'')
   \<and> (k = ''plan_selected'' \<longrightarrow> get_or p ''route'' PNone = PNone \<or> is_text (get_or p ''route'' PNone))
   \<and> (k = ''run_stopped'' \<longrightarrow> list_all (\<lambda>x. is_text (get_or p x PNone)) [''status'', ''stop_reason'', ''stop_class'']))"

text \<open>Each call carries the position of its start, and ends at most once, after it began.\<close>

definition calls_in_order :: "string \<Rightarrow> event list \<Rightarrow> bool" where
  "calls_in_order run evs \<longleftrightarrow> (\<forall>i < length evs.
     (ev_kind (evs ! i) = ''call_started'' \<longrightarrow> ev_call (evs ! i) = PStr (run @ '':'' @ str_nat i))
   \<and> (ev_kind (evs ! i) = ''call_finished'' \<longrightarrow> (\<exists>c. ev_call (evs ! i) = PStr c \<and> started_in c (take i evs)
        \<and> \<not> list_ex (call_event ''call_finished'' c) (take i evs))))"

text \<open>One start, first; at most one stop, last.\<close>

definition bounded_history :: "event list \<Rightarrow> bool" where
  "bounded_history evs \<longleftrightarrow> evs \<noteq> [] \<and> ev_kind (hd evs) = ''run_started''
     \<and> list_all (\<lambda>e. ev_kind e \<noteq> ''run_started'') (tl evs)
     \<and> list_all (\<lambda>e. ev_kind e \<noteq> ''run_stopped'') (butlast evs)"

definition consistent :: "string \<Rightarrow> event list \<Rightarrow> bool" where
  "consistent run evs \<longleftrightarrow> bounded_history evs \<and> calls_in_order run evs \<and> list_all payload_fits evs"

lemma nonempty_text_ok: "nonempty_text v = Inr s \<longleftrightarrow> v = PStr s \<and> \<not> blank s"
  by (cases v) (auto simp: nonempty_text_def)

lemma each_res_ok: "each_res f xs = Inr () \<longleftrightarrow> list_all (\<lambda>x. f x = Inr ()) xs"
  by (induction xs) (auto simp: bind_res_Inr)

lemma nonempty_text_ex: "(\<exists>s. nonempty_text v = Inr s) \<longleftrightarrow> is_text v"
  by (simp add: nonempty_text_ok is_text_def)

lemma check_text_ok:
  "bind_res (nonempty_text v) (\<lambda>_. Inr ()) = Inr () \<longleftrightarrow> is_text v"
  by (auto simp: bind_res_Inr nonempty_text_ok is_text_def)

lemma check_texts_ok: "check_texts (PDict p) k = Inr () \<longleftrightarrow> texts_in p k"
  by (auto simp: check_texts_def payload_list_def texts_in_def bind_res_Inr each_res_ok nonempty_text_ex
      split: pyval.splits)

lemma is_text_p: "is_text (PStr ''p'')"
proof -
  have "\<not> blank ''p''" by code_simp
  then show ?thesis by (simp add: is_text_def)
qed

lemma check_source_ok: "check_source v = Inr () \<longleftrightarrow> source_fits v"
proof (cases v)
  case (PDict d)
  then show ?thesis
    by (cases "map_of d ''path''")
       (auto simp: check_source_def source_fits_def bind_res_Inr nonempty_text_ok get_or_def is_text_p [unfolded is_text_def, simplified]
         is_text_def)
qed (auto simp: check_source_def source_fits_def)

lemma check_payload_ok: "check_payload (PStr (ev_kind e)) (PDict (ev_payload e)) = Inr () \<longleftrightarrow> payload_fits e"
proof -
  have s: "bind_res (payload_list (PDict p) k) (each_res check_source) = Inr () \<longleftrightarrow> sources_in p k" for p k
    by (auto simp: payload_list_def sources_in_def bind_res_Inr each_res_ok check_source_ok split: pyval.splits)
  have t: "check_text (PDict p) k = Inr () \<longleftrightarrow> is_text (get_or p k PNone)" for p k
    by (simp add: check_text_def payload_get_def check_text_ok)
  have b: "bind_res m (\<lambda>_. n) = Inr () \<longleftrightarrow> m = Inr () \<and> n = Inr ()" for m n :: "unit result"
    by (auto simp: bind_res_Inr)
  show ?thesis
    by (simp add: check_payload_def payload_fits_def Let_def b s t check_texts_ok check_text_ok payload_get_def)
qed

lemma event_dict_keys [simp]:
  "get_key (event_dict e) ''sequence'' = Inr (PInt (ev_seq e))" "get_key (event_dict e) ''kind'' = Inr (PStr (ev_kind e))"
  "get_key (event_dict e) ''payload'' = Inr (PDict (ev_payload e))"
  "get_key (event_dict e) ''iteration'' = Inr (PInt (ev_iteration e))"
  "get_key (event_dict e) ''recorded_at'' = Inr (PStr (ev_at e))"
  "get_or (event_dict e) ''event_id'' v = PStr (ev_run e @ '':'' @ str_int (ev_seq e))"
  "get_or (event_dict e) ''run_id'' v = PStr (ev_run e)"
  by (simp_all add: get_key_def get_or_def event_dict_def)

lemma map_res_pure: "map_res (\<lambda>x. Inr (f x)) xs = Inr (map f xs)"
  by (induction xs) simp_all

lemma of_kind_events: "of_kind k (map event_dict evs) = Inr (map event_dict (filter (\<lambda>e. ev_kind e = k) evs))"
  by (induction evs) (auto simp: of_kind_def bind_res_def split: sum.splits)

subsection \<open>Calls and payloads\<close>

definition check_record :: "string \<Rightarrow> dict \<Rightarrow> call_sets \<Rightarrow> call_sets result" where
  "check_record run r seen = bind_res (get_key r ''kind'') (\<lambda>kind. bind_res (get_key r ''payload'') (\<lambda>payload.
     bind_res (check_calls run r kind seen) (\<lambda>seen'. bind_res (check_payload kind payload) (\<lambda>_. Inr seen'))))"

lemma check_records_snoc:
  "check_records run (rs @ [r]) seen = bind_res (check_records run rs seen) (check_record run r)"
  by (induction rs arbitrary: seen) (auto simp: check_record_def bind_res_def split: sum.splits)

lemma str_int_nat: "str_int (int n) = str_nat n"
  by (simp add: str_int_def)

definition sees :: "call_sets \<Rightarrow> event list \<Rightarrow> bool" where
  "sees seen evs \<longleftrightarrow> set (fst seen) = {c. started_in c evs}
     \<and> set (snd seen) = {c. list_ex (call_event ''call_finished'' c) evs}"

lemma not_blank_id: "\<not> blank (run @ '':'' @ s)"
proof -
  have "\<not> is_space (CHR '':'')" by code_simp
  then show ?thesis by (simp add: blank_def)
qed

lemma calls_in_order_snoc:
  "calls_in_order run (evs @ [e]) \<longleftrightarrow> calls_in_order run evs
     \<and> (ev_kind e = ''call_started'' \<longrightarrow> ev_call e = PStr (run @ '':'' @ str_nat (length evs)))
     \<and> (ev_kind e = ''call_finished'' \<longrightarrow> (\<exists>c. ev_call e = PStr c \<and> started_in c evs
        \<and> \<not> list_ex (call_event ''call_finished'' c) evs))"
  by (auto simp: calls_in_order_def nth_append less_Suc_eq)

lemma started_ids: "calls_in_order run evs \<Longrightarrow> started_in c evs \<Longrightarrow> \<exists>i < length evs. c = run @ '':'' @ str_nat i"
  by (auto simp: started_in_def list_ex_iff call_event_def in_set_conv_nth calls_in_order_def) (metis pyval.inject(4))

lemma started_fresh: "calls_in_order run evs \<Longrightarrow> \<not> started_in (run @ '':'' @ str_nat (length evs)) evs"
  using started_ids [of run evs "run @ '':'' @ str_nat (length evs)"] str_nat_inj by fastforce

lemma check_record_event:
  assumes "sees seen evs" and "ev_seq e = int (length evs)" and "calls_in_order run evs"
  shows "(\<exists>seen'. check_record run (event_dict e) seen = Inr seen') \<longleftrightarrow>
      calls_in_order run (evs @ [e]) \<and> payload_fits e"
    and "check_record run (event_dict e) seen = Inr seen' \<Longrightarrow> sees seen' (evs @ [e])"
proof -
  obtain S F where seen: "seen = (S, F)" by (cases seen)
  have sf: "set S = {c. started_in c evs}" "set F = {c. list_ex (call_event ''call_finished'' c) evs}"
    using assms(1) seen by (simp_all add: sees_def)
  have p: "check_record run (event_dict e) (S, F) = bind_res (check_calls run (event_dict e) (PStr (ev_kind e)) (S, F))
      (\<lambda>seen'. bind_res (check_payload (PStr (ev_kind e)) (PDict (ev_payload e))) (\<lambda>_. Inr seen'))"
    by (simp add: check_record_def)
  have ids: "started_in c evs \<Longrightarrow> \<not> blank c" for c
    using started_ids [OF assms(3)] not_blank_id by blast
  show "(\<exists>seen'. check_record run (event_dict e) seen = Inr seen') \<longleftrightarrow>
      calls_in_order run (evs @ [e]) \<and> payload_fits e"
    unfolding seen p calls_in_order_snoc check_payload_ok [symmetric]
    using assms(2,3) sf ids started_fresh [OF assms(3)] not_blank_id
    by (auto simp: check_calls_def bind_res_Inr nonempty_text_ok str_val_def str_int_nat)
  show "check_record run (event_dict e) seen = Inr seen' \<Longrightarrow> sees seen' (evs @ [e])"
    unfolding seen p
    using sf by (auto simp: check_calls_def bind_res_Inr nonempty_text_ok sees_def started_in_def
        call_event_def split: if_splits)
qed

lemma check_records_events:
  assumes "map ev_seq evs = map int [0..<length evs]"
  shows "(\<exists>seen. check_records run (map event_dict evs) ([], []) = Inr seen)
      \<longleftrightarrow> calls_in_order run evs \<and> list_all payload_fits evs"
    and "check_records run (map event_dict evs) ([], []) = Inr seen \<Longrightarrow> sees seen evs"
  using assms
proof (induction evs arbitrary: seen rule: rev_induct)
  case Nil
  { case 1 show ?case by (simp add: calls_in_order_def) }
  { case 2 then show ?case by (auto simp: sees_def started_in_def) }
next
  case (snoc e evs)
  {
    case 1
    then have sq: "map ev_seq evs = map int [0..<length evs]" "ev_seq e = int (length evs)" by simp_all
    note IH = snoc.IH(1) [OF sq(1)] snoc.IH(2) [OF _ sq(1)]
    show ?case
      using IH check_record_event(1) [OF IH(2) sq(2)]
      by (auto simp: check_records_snoc bind_res_Inr calls_in_order_snoc) blast+
  }
  {
    case 2
    then have sq: "map ev_seq evs = map int [0..<length evs]" "ev_seq e = int (length evs)" by simp_all
    note IH = snoc.IH(1) [OF sq(1)] snoc.IH(2) [OF _ sq(1)]
    from 2 obtain sn where sn: "check_records run (map event_dict evs) ([], []) = Inr sn"
      "check_record run (event_dict e) sn = Inr seen" by (auto simp: check_records_snoc bind_res_Inr)
    with IH have "calls_in_order run evs" by blast
    from check_record_event(2) [OF IH(2) [OF sn(1)] sq(2) this sn(2)] show ?case .
  }
qed

subsection \<open>The whole validation\<close>

lemma each_res_map: "each_res f (map g xs) = each_res (\<lambda>x. f (g x)) xs"
  by (induction xs) simp_all

lemma event_ids_ok:
  "list_all (\<lambda>e. ev_run e = run) evs \<Longrightarrow> each_res (check_event_id run) (map event_dict evs) = Inr ()"
  by (simp add: each_res_map each_res_ok check_event_id_def list_all_iff str_val_def)

lemma filter_one_last: "filter P (xs @ [x]) = [y] \<Longrightarrow> P x \<Longrightarrow> filter P xs = []"
  by (induction xs arbitrary: y) (auto split: if_splits)

lemma filter_one_hd: "filter P (x # xs) = [y] \<Longrightarrow> P x \<Longrightarrow> filter P xs = []"
  by simp

lemma check_bounds_events:
  assumes "map ev_seq evs = map int [0..<length evs]" and "evs \<noteq> []"
  shows "check_bounds (map event_dict (filter (\<lambda>e. ev_kind e = ''run_started'') evs))
      (map event_dict (filter (\<lambda>e. ev_kind e = ''run_stopped'') evs)) (map event_dict evs) = Inr ()
    \<longleftrightarrow> bounded_history evs"
proof -
  obtain a as where evs: "evs = a # as" using assms(2) by (cases evs) auto
  have later: "ev_seq e \<noteq> 0" if "e \<in> set as" for e
  proof -
    from that obtain i where "i < length as" "e = evs ! Suc i" by (auto simp: in_set_conv_nth evs)
    then have "ev_seq e = map ev_seq evs ! Suc i" by (simp add: evs)
    also have "\<dots> = int (Suc i)" using \<open>i < length as\<close> unfolding assms(1) by (simp add: evs del: upt_Suc)
    finally show ?thesis by simp
  qed
  have first: "ev_seq a = 0" using arg_cong [OF assms(1), of hd] by (simp add: evs upt_conv_Cons del: upt_Suc)
  have starts: "(\<exists>s. filter (\<lambda>e. ev_kind e = ''run_started'') evs = [s] \<and> ev_seq s = 0) \<longleftrightarrow>
      ev_kind a = ''run_started'' \<and> list_all (\<lambda>e. ev_kind e \<noteq> ''run_started'') as"
  proof (cases "ev_kind a = ''run_started''")
    case True
    with first show ?thesis by (auto simp: evs filter_empty_conv list_all_iff)
  next
    case False
    have "ev_seq s \<noteq> 0" if "filter (\<lambda>e. ev_kind e = ''run_started'') as = [s]" for s
    proof -
      from that have "s \<in> set (filter (\<lambda>e. ev_kind e = ''run_started'') as)" by simp
      with later show ?thesis by simp
    qed
    with False show ?thesis by (auto simp: evs)
  qed
  have stops: "(filter (\<lambda>e. ev_kind e = ''run_stopped'') evs = [] \<or>
      (\<exists>e. filter (\<lambda>e. ev_kind e = ''run_stopped'') evs = [e] \<and> ev_kind (last evs) = ''run_stopped'')) \<longleftrightarrow>
      list_all (\<lambda>e. ev_kind e \<noteq> ''run_stopped'') (butlast evs)"
    using assms(2) by (cases evs rule: rev_cases) (auto simp: filter_empty_conv list_all_iff filter_eq_Cons_iff)
  have q: "py_eq (PInt i) (PInt 0) \<longleftrightarrow> i = 0" for i by simp
  show ?thesis
    unfolding bounded_history_def using starts stops assms(2)
    by (auto simp: check_bounds_def evs last_map split: list.splits if_splits)
qed

lemma validate_consistent:
  assumes "log_ok l"
  shows "validate_history (log_run l) (map event_dict (log_events l)) =
      Inr \<lparr>log_run = log_run l, log_sink = None, log_events = log_events l\<rparr>
    \<longleftrightarrow> consistent (log_run l) (log_events l)"
proof -
  let ?evs = "log_events l" and ?run = "log_run l"
  have ok: "map ev_seq ?evs = map int [0..<length ?evs]" "list_all (\<lambda>e. ev_run e = ?run) ?evs"
    using assms by (auto simp: log_ok_def list_all_iff)
  show ?thesis
  proof (cases "?evs = []")
    case True
    then show ?thesis
      by (simp add: validate_history_def mk_log_def as_inspect_error_def of_kind_def check_bounds_def
          consistent_def bounded_history_def split: if_splits)
  next
    case False
    show ?thesis
      using event_ids_ok [OF ok(2)] check_bounds_events [OF ok(1) False] check_records_events(1) [OF ok(1), of ?run]
      by (auto simp: validate_history_def mk_log_records [OF assms] as_inspect_error_def of_kind_events
          bind_res_Inr consistent_def)
  qed
qed

subsection \<open>Reports\<close>

lemma call_states_events: "\<exists>d. call_states (map event_dict evs) = Inr d"
proof -
  have "\<exists>d'. call_fold (map event_dict evs) d = Inr d'" for d
    by (induction evs arbitrary: d) (auto simp: call_step_def split: pyval.splits)
  then show ?thesis by (simp add: call_states_def)
qed

lemma py_max_ints: "py_max (PInt m) (map PInt xs) = Inr (PInt (fold max xs m))"
proof (induction xs arbitrary: m)
  case (Cons x xs)
  show ?case
  proof (cases "m < x")
    case True then show ?thesis using Cons [of x] by (simp add: py_greater_def max_def)
  next
    case False then show ?thesis using Cons [of m] by (auto simp: py_greater_def max_def)
  qed
qed simp

definition last_stop :: "event list \<Rightarrow> event option" where
  "last_stop evs = (if evs \<noteq> [] \<and> ev_kind (last evs) = ''run_stopped'' then Some (last evs) else None)"

definition top_iteration :: "event list \<Rightarrow> int" where
  "top_iteration evs = fold max (map ev_iteration (tl evs)) (ev_iteration (hd evs))"

text \<open>What a report says of the run it is about.\<close>

definition reports :: "report \<Rightarrow> string \<Rightarrow> event list \<Rightarrow> bool" where
  "reports r run evs \<longleftrightarrow> ir_run r = run \<and> ir_count r = length evs \<and> ir_iterations r = PInt (top_iteration evs)
     \<and> (case last_stop evs of
          None \<Rightarrow> ir_finished r = PNone \<and> ir_status r = PStr ''interrupted'' \<and> ir_reason r = PNone
        | Some e \<Rightarrow> ir_finished r = PStr (ev_at e) \<and> ir_status r = get_or (ev_payload e) ''status'' PNone
            \<and> ir_reason r = get_or (ev_payload e) ''stop_reason'' PNone)
     \<and> (\<forall>c. c \<in> set (ir_unfinished r) \<longleftrightarrow>
          started_in c evs \<and> \<not> list_ex (call_event ''call_finished'' c) evs)"

lemma stops_of: "bounded_history evs \<Longrightarrow>
    filter (\<lambda>e. ev_kind e = ''run_stopped'') evs = (case last_stop evs of None \<Rightarrow> [] | Some e \<Rightarrow> [e])"
  by (cases evs rule: rev_cases) (auto simp: bounded_history_def last_stop_def filter_empty_conv list_all_iff)

lemma log_ok_prefix: "log_ok \<lparr>log_run = r, log_sink = k, log_events = evs @ [e]\<rparr> \<Longrightarrow>
    log_ok \<lparr>log_run = r, log_sink = k, log_events = evs\<rparr> \<and> event_ok e \<and> ev_run e = r \<and> ev_seq e = int (length evs)"
  by (auto simp: log_ok_def)

lemma ordered_calls_ok:
  "log_ok \<lparr>log_run = r, log_sink = k, log_events = evs\<rparr> \<Longrightarrow> calls_in_order r evs
     \<Longrightarrow> calls_ok \<lparr>log_run = r, log_sink = k, log_events = evs\<rparr>"
proof (induction evs rule: rev_induct)
  case Nil
  then have "mk_log r k [] = Inr \<lparr>log_run = r, log_sink = k, log_events = []\<rparr>" by (simp add: mk_log_def log_ok_def)
  then show ?case by (rule new_log_calls_ok)
next
  case (snoc e evs)
  from log_ok_prefix [OF snoc.prems(1)] snoc.prems(2) have
    "adds \<lparr>log_run = r, log_sink = k, log_events = evs\<rparr> \<lparr>log_run = r, log_sink = k, log_events = evs @ [e]\<rparr> e"
    by (auto simp: adds_def calls_in_order_snoc call_name_def started_in_def)
  moreover have "calls_ok \<lparr>log_run = r, log_sink = k, log_events = evs\<rparr>"
    using snoc log_ok_prefix [OF snoc.prems(1)] by (simp add: calls_in_order_snoc)
  ultimately show ?case using adds_calls_ok by blast
qed

lemma call_spec_open: "calls_ok l \<Longrightarrow> call_spec (log_events l) c = Some ''unknown'' \<longleftrightarrow>
    started_in c (log_events l) \<and> \<not> list_ex (call_event ''call_finished'' c) (log_events l)"
proof -
  assume ok: "calls_ok l"
  have out: "outcome_of e \<noteq> ''unknown''" if "find (call_event ''call_finished'' c) (log_events l) = Some e" for e
  proof -
    from that have e: "e \<in> set (log_events l)" "ev_kind e = ''call_finished''"
      by (auto simp: find_Some_iff call_event_def)
    with ok have "event_ok e" by (auto simp: calls_ok_def log_ok_def list_all_iff)
    with e(2) show ?thesis by (auto simp: event_ok_def names_one_of_def outcome_of_def call_outcomes_def)
  qed
  show ?thesis
  proof (cases "find (call_event ''call_finished'' c) (log_events l)")
    case None
    then have "\<not> list_ex (call_event ''call_finished'' c) (log_events l)" by (metis find_none)
    moreover have "call_spec (log_events l) c = (if started_in c (log_events l) then Some ''unknown'' else None)"
      unfolding call_spec_def None by simp
    ultimately show ?thesis by simp
  next
    case (Some e)
    then have "list_ex (call_event ''call_finished'' c) (log_events l)" by (metis find_none option.distinct(1))
    with Some out [OF Some] show ?thesis by (simp add: call_spec_def)
  qed
qed

lemma call_step_distinct: "call_step r d = Inr d' \<Longrightarrow> distinct (map fst d) \<Longrightarrow> distinct (map fst d')"
  by (auto simp: call_step_def distinct_dict_set split: pyval.splits if_splits)

lemma call_states_distinct: "call_states rs = Inr d \<Longrightarrow> distinct (map fst d)"
proof -
  have "call_fold rs d0 = Inr d \<Longrightarrow> distinct (map fst d0) \<Longrightarrow> distinct (map fst d)" for d0
    by (induction rs arbitrary: d0) (auto simp: bind_res_Inr dest: call_step_distinct)
  then show "call_states rs = Inr d \<Longrightarrow> distinct (map fst d)" by (simp add: call_states_def)
qed

lemma unfinished_iff:
  assumes "calls_ok l" and "call_states (map event_dict (log_events l)) = Inr d"
  shows "c \<in> set (unfinished_in d) \<longleftrightarrow>
    started_in c (log_events l) \<and> \<not> list_ex (call_event ''call_finished'' c) (log_events l)"
proof -
  from assms have "map_of d c = call_spec (log_events l) c" by (auto simp: calls_ok_def attests_def)
  then show ?thesis
    using call_spec_open [OF assms(1), of c] map_of_is_SomeI [OF call_states_distinct [OF assms(2)]]
    by (auto simp: unfinished_in_def image_iff dest: map_of_SomeD)
qed

lemma payload_of_event [simp]: "payload_of (event_dict e) = ev_payload e"
  by (simp add: payload_of_def)

lemma map_res_iterations:
  "map_res (\<lambda>r. get_key r ''iteration'') (map event_dict evs) = Inr (map (PInt \<circ> ev_iteration) evs)"
  by (induction evs) simp_all

lemma inspect_consistent:
  assumes "log_ok l" and "consistent (log_run l) (log_events l)"
  shows "\<exists>r. inspect_records (log_run l) (map event_dict (log_events l)) = Inr r
    \<and> reports r (log_run l) (log_events l)"
proof -
  let ?evs = "log_events l" and ?run = "log_run l"
  obtain a as where evs: "?evs = a # as" using assms(2) by (cases ?evs) (auto simp: consistent_def bounded_history_def)
  have b: "bounded_history ?evs" "calls_in_order ?run ?evs" using assms(2) by (simp_all add: consistent_def)
  have ok: "calls_ok \<lparr>log_run = ?run, log_sink = None :: unit option, log_events = ?evs\<rparr>"
    using assms(1) b(2) by (intro ordered_calls_ok) (simp_all add: log_ok_def)
  obtain d where d: "call_states (map event_dict ?evs) = Inr d" using call_states_events by blast
  have its: "map_res (\<lambda>r. get_key r ''iteration'') (map event_dict ?evs) = Inr (map (PInt \<circ> ev_iteration) ?evs)"
    by (rule map_res_iterations)
  have top: "py_max (hd (map (PInt \<circ> ev_iteration) ?evs)) (tl (map (PInt \<circ> ev_iteration) ?evs)) =
      Inr (PInt (top_iteration ?evs))"
    using py_max_ints [of "ev_iteration a" "map ev_iteration as"] by (simp add: evs top_iteration_def)
  have ends: "?evs \<noteq> []" "get_key (last (map event_dict ?evs)) ''recorded_at'' = Inr (PStr (ev_at (last ?evs)))"
    "get_key (hd (map event_dict ?evs)) ''recorded_at'' = Inr (PStr (ev_at (hd ?evs)))"
    by (simp_all add: evs last_map)
  have v: "validate_history ?run (map event_dict ?evs) = Inr \<lparr>log_run = ?run, log_sink = None, log_events = ?evs\<rparr>"
    using validate_consistent [OF assms(1)] assms(2) by blast
  have stop: "last_stop ?evs = Some e \<Longrightarrow> last ?evs = e" for e by (simp add: last_stop_def split: if_splits)
  have open_calls: "c \<in> set (unfinished_in d) \<longleftrightarrow>
      started_in c ?evs \<and> \<not> list_ex (call_event ''call_finished'' c) ?evs" for c
    using unfinished_iff [OF ok, of d] d by simp
  show ?thesis
    by (cases "last_stop ?evs")
       (simp_all add: inspect_records_def v build_report_def of_kind_events d its top ends stops_of [OF b(1)]
        reports_def Let_def open_calls stop get_or_def)
qed

section \<open>Properties\<close>

text \<open>C29. Inspection reports exactly the consistent histories. For the records of a well-formed log
  it answers if and only if the run has one start, first, at most one stop, last, every call under
  the position of its start and ended at most once after it began, and payloads of the shapes the
  report is derived from; the report then has the run's last iteration, its end, status and stop
  reason exactly when it stopped, and as unfinished the calls that began and have no outcome.\<close>

theorem inspection_exact:
  assumes "log_ok l"
  shows "case inspect_records (log_run l) (map event_dict (log_events l)) of
      Inr r \<Rightarrow> consistent (log_run l) (log_events l) \<and> reports r (log_run l) (log_events l)
    | Inl e \<Rightarrow> \<not> consistent (log_run l) (log_events l)"
proof (cases "consistent (log_run l) (log_events l)")
  case True
  then show ?thesis using inspect_consistent [OF assms] by auto
next
  case False
  have "validate_history (log_run l) (map event_dict (log_events l)) = Inr v \<Longrightarrow> v =
      \<lparr>log_run = log_run l, log_sink = None, log_events = log_events l\<rparr>" for v
    by (auto simp: validate_history_def mk_log_records [OF assms] as_inspect_error_def bind_res_Inr)
  with False validate_consistent [OF assms] have "\<nexists>v. validate_history (log_run l) (map event_dict (log_events l)) = Inr v"
    by blast
  with False show ?thesis
    by (auto simp: inspect_records_def bind_res_Inr split: sum.splits)
qed

definition begun :: "unit event_log" where
  "begun = \<lparr>log_run = ''r'', log_sink = None, log_events = [\<lparr>ev_run = ''r'', ev_seq = 0, ev_kind = ''run_started'',
     ev_at = ''t'', ev_iteration = 0, ev_call = PNone, ev_payload = []\<rparr>]\<rparr>"

lemma begun_ok: "log_ok begun"
  by (simp add: log_ok_def begun_def event_ok_def event_kinds_def needs_call_def)

theorem inspection_exact_witness:
  "\<exists>r. inspect_records ''r'' (map event_dict (log_events begun)) = Inr r \<and> ir_status r = PStr ''interrupted''"
proof -
  have "consistent ''r'' (log_events begun)"
    by (simp add: consistent_def bounded_history_def calls_in_order_def payload_fits_def begun_def)
  with inspection_exact [OF begun_ok] show ?thesis
    by (auto simp: begun_def reports_def last_stop_def split: sum.splits)
qed

definition bare_record :: dict where
  "bare_record = [(''schema'', PStr event_schema), (''event_id'', PStr ''r:0''), (''run_id'', PStr ''r''),
     (''sequence'', PInt 0), (''kind'', PStr ''run_started'')]"

lemma zero_text: "str_int 0 = ''0''"
  by code_simp

text \<open>A record that the log itself reads back can make inspection raise \<open>KeyError\<close> instead of
  \<open>InspectError\<close>: the log reads a missing payload as an empty one, and inspection indexes it.\<close>

theorem record_without_payload_escapes:
  "(\<exists>l. mk_log ''r'' (None :: unit option) [bare_record] = Inr l)
   \<and> inspect_records ''r'' [bare_record] = Inl KeyError"
proof
  have m: "mk_log ''r'' None [bare_record] = Inr \<lparr>log_run = ''r'', log_sink = None, log_events =
      [\<lparr>ev_run = ''r'', ev_seq = 0, ev_kind = ''run_started'', ev_at = [], ev_iteration = 0, ev_call = PNone,
        ev_payload = []\<rparr>]\<rparr>" for s :: "unit option"
    by (simp add: mk_log_def bare_record_def event_from_record_def get_or_def py_int_def as_dict_def
        mk_event_def event_ok_def event_kinds_def needs_call_def)
  then show "\<exists>l. mk_log ''r'' (None :: unit option) [bare_record] = Inr l" by blast
  show "inspect_records ''r'' [bare_record] = Inl KeyError"
    by (simp add: inspect_records_def validate_history_def m as_inspect_error_def)
       (simp add: bare_record_def check_event_id_def get_key_def get_or_def of_kind_def check_bounds_def str_val_def
         zero_text)
qed

end
