(* ===== verification/Host_Api.thy ===== *)
theory Host_Api
  imports Controller Inspect Effects
begin

section \<open>Runs, locks and the log another process can use (atlas_core/host_api.py)\<close>

text \<open>
  The durable run of \<open>AtlasController.run\<close> and \<open>resume\<close> under their locks, and what a host reads
  and writes beside it: status, cancellation, the seal of a lost run and the stream of events.
  The store is what the processes share: the text of the log (\<open>None\<close> for no file), the lock files
  some process holds and the side files that exist. What other processes do while a lock is waited
  for, the clock and the parser are fields of the host's surroundings. Directories are created
  silently and a file that exists can be read.
\<close>

definition run_id_in_use :: exc where "run_id_in_use = Foreign ''RunIdInUse'' []"
definition log_in_use :: exc where "log_in_use = Foreign ''EventLogInUse'' []"
definition follow_ended :: "string \<Rightarrow> exc" where "follow_ended why = Foreign ''FollowEnded'' why"

text \<open>\<open>LockUnavailable\<close> is a \<open>ResumeRefused\<close>.\<close>

definition lock_refusal :: "exc \<Rightarrow> bool" where
  "lock_refusal e \<longleftrightarrow> e \<in> {ResumeRefused, LockUnavailable}"

record store =
  st_file :: "string option"
  st_held :: "string set"
  st_made :: "string set"

record host_env =
  he_flock :: bool
  he_loads :: "string \<Rightarrow> pyval result"
  he_hash :: "string \<Rightarrow> string"
  he_clock :: "string \<Rightarrow> nat \<Rightarrow> real"
  he_others :: "string \<Rightarrow> nat \<Rightarrow> store \<Rightarrow> store"
  he_stamp :: "nat \<Rightarrow> string"

subsection \<open>Names\<close>

definition id_char :: "char \<Rightarrow> bool" where
  "id_char c \<longleftrightarrow> ch_lower c \<or> ch_upper c \<or> ch_digit c"

definition run_id_shape :: "string \<Rightarrow> bool" where
  "run_id_shape s = (case s of [] \<Rightarrow> False | c # cs \<Rightarrow> id_char c \<and> length cs \<le> 127
     \<and> list_all (\<lambda>c. id_char c \<or> c \<in> {CHR ''.'', CHR ''_'', CHR '':'', CHR ''-''}) cs)"

definition validate_run_id :: "string \<Rightarrow> string result" where
  "validate_run_id run = (if run_id_shape run then Inr run else Inl ValueError)"

definition sidecar :: "host_env \<Rightarrow> string \<Rightarrow> string \<Rightarrow> string \<Rightarrow> string result" where
  "sidecar env p run suffix = bind_res (validate_run_id run) (\<lambda>r.
     Inr (p @ ''.'' @ digest (he_hash env) (PStr r) @ ''.'' @ suffix))"

definition lock_path :: "host_env \<Rightarrow> string \<Rightarrow> string \<Rightarrow> string result" where
  "lock_path env p run = sidecar env p run ''lock''"

definition cancel_path :: "host_env \<Rightarrow> string \<Rightarrow> string \<Rightarrow> string result" where
  "cancel_path env p run = sidecar env p run ''cancel''"

definition writer_lock_path :: "string \<Rightarrow> string" where "writer_lock_path p = p @ ''.writer.lock''"

subsection \<open>Locks\<close>

text \<open>\<open>RunLock(path).acquire()\<close>: the lock file is created by trying.\<close>

definition acquire :: "host_env \<Rightarrow> string \<Rightarrow> (store, unit) act" where
  "acquire env l st = (if \<not> he_flock env then (Inl LockUnavailable, st)
     else (let st' = st\<lparr>st_made := insert l (st_made st)\<rparr> in
       case lock_acquire True (st_held st) l of
         Inl e \<Rightarrow> (Inl e, st') | Inr h \<Rightarrow> (Inr (), st'\<lparr>st_held := h\<rparr>)))"

definition release :: "string \<Rightarrow> store \<Rightarrow> store" where
  "release l st = st\<lparr>st_held := lock_release (Some l) (st_held st)\<rparr>"

text \<open>\<open>hold(path, wait)\<close>: the \<open>k\<close>-th failure reads the clock, and other processes act in the sleep.\<close>

fun hold_from :: "nat \<Rightarrow> host_env \<Rightarrow> nat \<Rightarrow> real \<Rightarrow> string \<Rightarrow> (store, unit) act" where
  "hold_from fuel env k late l st = (case acquire env l st of
     (Inr u, st') \<Rightarrow> (Inr u, st')
   | (Inl e, st') \<Rightarrow>
       if late \<le> he_clock env l (Suc k) \<or> fuel = 0 then (Inl e, st')
       else hold_from (fuel - 1) env (Suc k) late l (he_others env l k st'))"

text \<open>The sleep is 0.05 seconds, so \<open>20 * wait\<close> tries reach the deadline.\<close>

definition hold :: "host_env \<Rightarrow> real \<Rightarrow> string \<Rightarrow> (store, unit) act" where
  "hold env wait l = hold_from (nat \<lceil>20 * wait\<rceil>) env 0 (he_clock env l 0 + wait) l"

definition with_writer :: "host_env \<Rightarrow> string \<Rightarrow> (store, 'a) act \<Rightarrow> (store, 'a) act" where
  "with_writer env p m = chain (guarded (hold env 0 (writer_lock_path p))) (\<lambda>r. case r of
     Inl e \<Rightarrow> throw (if lock_refusal e then log_in_use else e)
   | Inr u \<Rightarrow> ensuring m (release (writer_lock_path p)))"

subsection \<open>Reading the log\<close>

definition read_log :: "host_env \<Rightarrow> store \<Rightarrow> pyval list result" where
  "read_log env st = (case st_file st of None \<Rightarrow> Inr [] | Some raw \<Rightarrow> read_jsonl (he_loads env) raw)"

definition need_dicts :: "pyval list \<Rightarrow> dict list result" where
  "need_dicts vs = (if list_all is_dict vs then Inr (map (\<lambda>v. case v of PDict d \<Rightarrow> d | _ \<Rightarrow> []) vs)
     else Inl no_attribute)"

definition run_records :: "host_env \<Rightarrow> store \<Rightarrow> string \<Rightarrow> dict list result" where
  "run_records env st run = bind_res (read_log env st) (\<lambda>vs. bind_res (need_dicts vs) (\<lambda>rs. Inr (of_run run rs)))"

definition log_holds_a_run :: "host_env \<Rightarrow> store \<Rightarrow> bool result" where
  "log_holds_a_run env st = bind_res (read_log env st) (\<lambda>vs. Inr (vs \<noteq> []))"

text \<open>\<open>any(record.get("run_id") == run_id ...)\<close>, and with \<open>!=\<close>.\<close>

fun any_record :: "(dict \<Rightarrow> bool) \<Rightarrow> pyval list \<Rightarrow> bool result" where
  "any_record f [] = Inr False"
| "any_record f (v # vs) = (case v of
     PDict d \<Rightarrow> if f d then Inr True else any_record f vs | _ \<Rightarrow> Inl no_attribute)"

definition names_run :: "string \<Rightarrow> dict \<Rightarrow> bool" where
  "names_run run d \<longleftrightarrow> get_or d ''run_id'' PNone = PStr run"

subsection \<open>A fresh run\<close>

text \<open>\<open>_run\<close> with the log as its sink.\<close>

definition run_on_log :: "string env \<Rightarrow> string run_args \<Rightarrow> (store, string ctl) act" where
  "run_on_log env a st = (case run_all env (a\<lparr>ra_sink := Some (case st_file st of None \<Rightarrow> [] | Some s \<Rightarrow> s)\<rparr>) of
     (r, s) \<Rightarrow> (bind_res r (\<lambda>_. Inr s), (case c_log s of
        None \<Rightarrow> st
      | Some l \<Rightarrow> if log_sink l \<in> {None, Some []} then st else st\<lparr>st_file := log_sink l\<rparr>)))"

definition start_fresh :: "host_env \<Rightarrow> string env \<Rightarrow> bool \<Rightarrow> string \<Rightarrow> string run_args \<Rightarrow> (store, string ctl) act" where
  "start_fresh env cenv one run a =
     seq (if \<not> one then give () else chain (look (log_holds_a_run env)) (\<lambda>r. chain (from_result r) (\<lambda>b.
        if b then throw log_in_use else give ())))
     (chain (look (read_log env)) (\<lambda>r. chain (from_result r) (\<lambda>vs.
      chain (from_result (any_record (names_run run) vs)) (\<lambda>b.
      if b then throw run_id_in_use
      else run_on_log cenv (a\<lparr>ra_run_id := run, ra_previous := None\<rparr>)))))"

definition run_durable ::
  "host_env \<Rightarrow> string env \<Rightarrow> string \<Rightarrow> bool \<Rightarrow> string option \<Rightarrow> string \<Rightarrow> string run_args \<Rightarrow> (store, string ctl) act" where
  "run_durable env cenv p one wanted new_id a =
     seq (from_result (case wanted of None \<Rightarrow> Inr [] | Some r \<Rightarrow> validate_run_id r))
     (let run = (case wanted of None \<Rightarrow> new_id | Some r \<Rightarrow> r) in
      with_writer env p (chain (from_result (lock_path env p run)) (\<lambda>l. chain (guarded (acquire env l)) (\<lambda>r. case r of
         Inl e \<Rightarrow> throw (if lock_refusal e then run_id_in_use else e)
       | Inr u \<Rightarrow> ensuring (start_fresh env cenv one run a) (release l)))))"

subsection \<open>Resuming\<close>

definition refuse_unless :: "bool \<Rightarrow> unit result" where
  "refuse_unless b = require b ResumeRefused"

text \<open>The started calls without an outcome that were not declared idempotent.\<close>

fun unsafe_calls :: "string list \<Rightarrow> dict list \<Rightarrow> pyval list result" where
  "unsafe_calls un [] = Inr []"
| "unsafe_calls un (r # rs) =
     (if get_or r ''kind'' PNone \<noteq> PStr ''call_started'' then unsafe_calls un rs
      else (case get_or r ''call_id'' PNone of
          PStr c \<Rightarrow> if c \<notin> set un then unsafe_calls un rs
            else (case get_or r ''payload'' (PDict []) of
                PDict q \<Rightarrow> if get_or q ''idempotent'' PNone = PBool True then unsafe_calls un rs
                  else bind_res (unsafe_calls un rs) (\<lambda>cs. Inr (PStr c # cs))
              | _ \<Rightarrow> Inl no_attribute)
        | PList _ \<Rightarrow> Inl TypeError
        | PDict _ \<Rightarrow> Inl TypeError
        | _ \<Rightarrow> unsafe_calls un rs))"

definition started_record :: "dict list \<Rightarrow> dict option" where
  "started_record rs = find (\<lambda>r. get_or r ''kind'' PNone = PStr ''run_started'') rs"

text \<open>The initial inputs must be those the log was started with.\<close>

definition same_inputs :: "(string \<Rightarrow> string) \<Rightarrow> dict \<Rightarrow> string run_args \<Rightarrow> unit result" where
  "same_inputs f q a = (let ident = evidence_identity f (ra_evidence a) in
     bind_res (refuse_unless (get_or q ''task_sha256'' PNone = PStr (digest f (PStr (ra_task a))))) (\<lambda>_.
     bind_res (refuse_unless (py_eq (get_or q ''max_iterations'' PNone) (PInt (ra_max a)))) (\<lambda>_.
     bind_res (refuse_unless (get_or q ''observations_sha256'' PNone =
        PStr (digest f (pstrs (ra_observations a))))) (\<lambda>_.
     bind_res (refuse_unless (get_or q ''snapshot_id'' PNone = fst ident)) (\<lambda>_.
     refuse_unless (get_or q ''evidence_sha256'' PNone = snd ident))))))"

definition resumable :: "(string \<Rightarrow> string) \<Rightarrow> dict list \<Rightarrow> string run_args \<Rightarrow> unit result" where
  "resumable f rs a =
     bind_res (refuse_unless (rs \<noteq> [])) (\<lambda>_.
     bind_res (refuse_unless (\<not> list_ex (\<lambda>r. get_or r ''kind'' PNone = PStr ''run_stopped'') rs)) (\<lambda>_.
     case started_record rs of
       None \<Rightarrow> Inl ResumeRefused
     | Some s \<Rightarrow> (case get_or s ''payload'' (PDict []) of
         PDict q \<Rightarrow> bind_res (same_inputs f q a) (\<lambda>_. bind_res (unfinished_calls rs) (\<lambda>un.
           bind_res (unsafe_calls un rs) (\<lambda>cs. refuse_unless (cs = []))))
       | _ \<Rightarrow> Inl no_attribute)))"

definition resume_locked :: "host_env \<Rightarrow> string env \<Rightarrow> string \<Rightarrow> string run_args \<Rightarrow> (store, string ctl) act" where
  "resume_locked env cenv run a =
     chain (look (\<lambda>st. if st_file st = None then Inl FileMissing else run_records env st run)) (\<lambda>r.
     chain (from_result r) (\<lambda>rs. seq (from_result (resumable (he_hash env) rs a))
       (run_on_log cenv (a\<lparr>ra_run_id := run, ra_previous := Some rs\<rparr>))))"

definition resume ::
  "host_env \<Rightarrow> string env \<Rightarrow> string \<Rightarrow> string \<Rightarrow> bool \<Rightarrow> string run_args \<Rightarrow> (store, string ctl) act" where
  "resume env cenv p run writers a =
     (if writers \<or> run = [] then throw ResumeRefused
      else with_writer env p (chain (from_result (lock_path env p run)) (\<lambda>l.
        seq (acquire env l) (ensuring (resume_locked env cenv run a) (release l)))))"

subsection \<open>Status and cancellation\<close>

text \<open>The code opens the lock file, which must exist, and tries the lock.\<close>

definition is_locked :: "host_env \<Rightarrow> string \<Rightarrow> string \<Rightarrow> store \<Rightarrow> bool result" where
  "is_locked env p run st = (if \<not> he_flock env then Inl LockUnavailable
     else bind_res (lock_path env p run) (\<lambda>l. Inr (l \<in> st_made st \<and> l \<in> st_held st)))"

record status_report =
  so_run :: string
  so_state :: string
  so_status :: pyval
  so_reason :: pyval
  so_iteration :: pyval
  so_count :: nat
  so_last :: pyval
  so_cancel :: bool

definition run_states :: "string list" where
  "run_states = [''not_found'', ''running'', ''finished'', ''interrupted'']"

definition state_of_run :: "bool \<Rightarrow> report option \<Rightarrow> string" where
  "state_of_run running rep = (case rep of
     None \<Rightarrow> if running then ''running'' else ''not_found''
   | Some r \<Rightarrow> if ir_finished r \<noteq> PNone then ''finished'' else if running then ''running'' else ''interrupted'')"

text \<open>The four reads of the store happen one after the other; other processes run in between.\<close>

definition run_status :: "host_env \<Rightarrow> string \<Rightarrow> string \<Rightarrow> (nat \<Rightarrow> store) \<Rightarrow> status_report result" where
  "run_status env p run seen =
     bind_res (validate_run_id run) (\<lambda>_.
     bind_res (is_locked env p run (seen 0)) (\<lambda>running.
     bind_res (run_records env (seen 1) run) (\<lambda>rs.
     bind_res (if rs = [] then Inr None
       else bind_res (inspect_run (he_loads env) (st_file (seen 2)) run) (\<lambda>r. Inr (Some r))) (\<lambda>rep.
     bind_res (cancel_path env p run) (\<lambda>c.
     bind_res (if rs = [] then Inr PNone else get_key (last rs) ''kind'') (\<lambda>lst.
     let state = state_of_run running rep in
     Inr \<lparr>so_run = run, so_state = state,
       so_status = (case rep of None \<Rightarrow> PNone | Some r \<Rightarrow> if state = ''finished'' then ir_status r else PNone),
       so_reason = (case rep of None \<Rightarrow> PNone | Some r \<Rightarrow> ir_reason r),
       so_iteration = (case rep of None \<Rightarrow> PInt 0 | Some r \<Rightarrow> ir_iterations r),
       so_count = (case rep of None \<Rightarrow> 0 | Some r \<Rightarrow> ir_count r), so_last = lst,
       so_cancel = (c \<in> st_made (seen 3))\<rparr>))))))"

definition request_cancel :: "host_env \<Rightarrow> string \<Rightarrow> string \<Rightarrow> (store, string) act" where
  "request_cancel env p run = chain (from_result (cancel_path env p run)) (\<lambda>c.
     seq (change (\<lambda>st. st\<lparr>st_made := insert c (st_made st)\<rparr>)) (give c))"

definition cancel_requested :: "host_env \<Rightarrow> string \<Rightarrow> string \<Rightarrow> store \<Rightarrow> bool result" where
  "cancel_requested env p run st = bind_res (cancel_path env p run) (\<lambda>c. Inr (c \<in> st_made st))"

subsection \<open>Sealing a lost run\<close>

text \<open>An append to the log's own sink, which is the shared file.\<close>

definition seal_append ::
  "string \<Rightarrow> string \<Rightarrow> int \<Rightarrow> dict \<Rightarrow> string event_log \<Rightarrow> (store, string event_log) act" where
  "seal_append tm kind it payload lg st = (case log_append sink_write tm kind it PNone payload lg of
     (lg', Inl e) \<Rightarrow> (Inl e, st) | (lg', Inr ev) \<Rightarrow> (Inr lg', st\<lparr>st_file := log_sink lg'\<rparr>))"

definition parent_start :: "(string \<Rightarrow> string) \<Rightarrow> string \<Rightarrow> int \<Rightarrow> dict" where
  "parent_start f task n = [(''task_sha256'', PStr (digest f (PStr task))), (''max_iterations'', PInt n),
     (''observations_sha256'', PStr (digest f (PList []))), (''snapshot_id'', PNone),
     (''evidence_sha256'', PNone), (''recorded_by'', PStr ''cli_parent'')]"

definition parent_stop :: "stop_spec \<Rightarrow> string \<Rightarrow> dict" where
  "parent_stop sp detail = [(''stop_reason'', PStr (reason_name (spec_reason sp))),
     (''stop_class'', PStr (class_name (spec_class sp))), (''status'', PStr (status_name (spec_status sp))),
     (''recorded_by'', PStr ''cli_parent''), (''detail'', PStr detail)]"

definition logged_reason :: "dict \<Rightarrow> string result" where
  "logged_reason r = bind_res (get_key r ''payload'') (\<lambda>v. case v of
     PDict q \<Rightarrow> bind_res (get_key q ''stop_reason'') (\<lambda>x. Inr (str_val x)) | _ \<Rightarrow> Inl TypeError)"

definition stop_record :: "dict list \<Rightarrow> dict option" where
  "stop_record rs = find (\<lambda>r. get_or r ''kind'' PNone = PStr ''run_stopped'') rs"

definition last_iteration :: "dict list \<Rightarrow> int result" where
  "last_iteration rs = bind_res (map_res (\<lambda>r. py_int (get_or r ''iteration'' (PInt 0))) rs) (\<lambda>is.
     Inr (case is of [] \<Rightarrow> 0 | i # js \<Rightarrow> fold max js i))"

definition seal_open ::
  "host_env \<Rightarrow> string \<Rightarrow> stop_spec \<Rightarrow> string \<Rightarrow> string \<Rightarrow> int \<Rightarrow> dict list \<Rightarrow> (store, string \<times> bool) act" where
  "seal_open env run sp detail task n rs =
     chain (look (\<lambda>st. mk_log run (Some (case st_file st of None \<Rightarrow> [] | Some s \<Rightarrow> s)) rs)) (\<lambda>r.
     chain (from_result r) (\<lambda>lg.
     chain (if rs = [] then seal_append (he_stamp env 0) ''run_started'' 0 (parent_start (he_hash env) task n) lg
       else give lg) (\<lambda>lg.
     chain (from_result (last_iteration rs)) (\<lambda>it.
     seq (seal_append (he_stamp env 1) ''run_stopped'' it (parent_stop sp detail) lg)
       (give (reason_name (spec_reason sp), True))))))"

definition seal_locked ::
  "host_env \<Rightarrow> string \<Rightarrow> stop_spec \<Rightarrow> string \<Rightarrow> string \<Rightarrow> int \<Rightarrow> (store, string \<times> bool) act" where
  "seal_locked env run sp detail task n =
     chain (look (\<lambda>st. open_sink True (st_file st))) (\<lambda>r. chain (from_result r) (\<lambda>whole.
     seq (change (\<lambda>st. st\<lparr>st_file := map_option (\<lambda>_. whole) (st_file st)\<rparr>))
     (chain (look (read_log env)) (\<lambda>r. chain (from_result r) (\<lambda>vs.
      chain (from_result (any_record (\<lambda>d. \<not> names_run run d) vs)) (\<lambda>foreign.
      if foreign then throw log_in_use
      else chain (look (\<lambda>st. run_records env st run)) (\<lambda>r. chain (from_result r) (\<lambda>rs.
        case stop_record rs of
          Some s \<Rightarrow> chain (from_result (logged_reason s)) (\<lambda>why. give (why, False))
        | None \<Rightarrow> seal_open env run sp detail task n rs))))))))"

definition seal_lost_run ::
  "host_env \<Rightarrow> string \<Rightarrow> string \<Rightarrow> string \<Rightarrow> string \<Rightarrow> string \<Rightarrow> int \<Rightarrow> (store, string \<times> bool) act" where
  "seal_lost_run env p run reason detail task n =
     chain (from_result (spec_for reason)) (\<lambda>sp.
     seq (hold env 2 (writer_lock_path p))
     (ensuring (chain (from_result (lock_path env p run)) (\<lambda>l. seq (hold env 2 l)
         (ensuring (seal_locked env run sp detail task n) (release l))))
       (release (writer_lock_path p))))"

subsection \<open>Following the events\<close>

datatype ending = SawStop | Raised exc | StillFollowing

text \<open>What is yielded of the new records, and whether the stream ends there.\<close>

fun yield_records :: "dict list \<Rightarrow> dict list \<times> ending" where
  "yield_records [] = ([], StillFollowing)"
| "yield_records (r # rs) =
     (if get_or r ''schema'' PNone \<noteq> PStr event_schema then ([], Raised ValueError)
      else if get_or r ''kind'' PNone = PStr ''run_stopped'' then ([r], SawStop)
      else (case yield_records rs of (ys, e) \<Rightarrow> (r # ys, e)))"

record poll =
  po_lock :: store
  po_log :: store
  po_made :: store
  po_clock :: real

definition poll_end :: "host_env \<Rightarrow> string \<Rightarrow> string \<Rightarrow> real \<Rightarrow> bool \<Rightarrow> dict list \<Rightarrow> poll \<Rightarrow> ending" where
  "poll_end env p run late alive rs pl = (case lock_path env p run of
     Inl e \<Rightarrow> Raised e
   | Inr l \<Rightarrow> if rs \<noteq> [] \<and> \<not> alive \<and> l \<in> st_made (po_made pl) then Raised (follow_ended ''interrupted'')
       else if late \<le> po_clock pl then Raised (follow_ended ''timed out'') else StillFollowing)"

text \<open>One poll: the lock first, then the log, from the record after those already seen.\<close>

definition poll_once ::
  "host_env \<Rightarrow> string \<Rightarrow> string \<Rightarrow> real \<Rightarrow> nat \<Rightarrow> poll \<Rightarrow> dict list \<times> nat \<times> ending" where
  "poll_once env p run late seen pl =
     (case bind_res (is_locked env p run (po_lock pl)) (\<lambda>alive.
        bind_res (run_records env (po_log pl) run) (\<lambda>rs. Inr (alive, rs))) of
      Inl e \<Rightarrow> ([], seen, Raised e)
    | Inr (alive, rs) \<Rightarrow> (case yield_records (drop seen rs) of
        (ys, StillFollowing) \<Rightarrow> (ys, length rs, poll_end env p run late alive rs pl)
      | (ys, e) \<Rightarrow> (ys, seen, e)))"

fun follow_polls ::
  "host_env \<Rightarrow> string \<Rightarrow> string \<Rightarrow> real \<Rightarrow> nat \<Rightarrow> poll list \<Rightarrow> dict list \<times> ending" where
  "follow_polls env p run late seen [] = ([], StillFollowing)"
| "follow_polls env p run late seen (pl # pls) = (case poll_once env p run late seen pl of
     (ys, seen', StillFollowing) \<Rightarrow> (case follow_polls env p run late seen' pls of (zs, e) \<Rightarrow> (ys @ zs, e))
   | (ys, seen', e) \<Rightarrow> (ys, e))"

definition follow_events ::
  "host_env \<Rightarrow> string \<Rightarrow> string \<Rightarrow> real \<Rightarrow> real \<Rightarrow> poll list \<Rightarrow> dict list \<times> ending" where
  "follow_events env p run start timeout pls = (case validate_run_id run of
     Inl e \<Rightarrow> ([], Raised e) | Inr _ \<Rightarrow> follow_polls env p run (start + timeout) 0 pls)"

definition dump_jsonl :: "dict \<Rightarrow> string" where "dump_jsonl r = dumps (PDict r)"

end
