(* ===== verification/Host_Facts.thy ===== *)
theory Host_Facts
  imports Host_Api
begin

section \<open>What the locks and the seal guarantee\<close>

text \<open>
  Proofs about \<open>Host_Api\<close>: every operation gives back the locks it took, none writes a log another
  process writes, a resumed run is the run that was interrupted, a sealed run reads as finished, and
  a follower sees every event once.
\<close>

subsection \<open>Locks\<close>

named_theorems keeps \<open>computations that leave the set of held locks as it was\<close>

definition keeps_locks :: "(store, 'a) act \<Rightarrow> bool" where
  "keeps_locks m \<longleftrightarrow> (\<forall>st. st_held (snd (m st)) = st_held st)"

lemma keeps_locks_basic [keeps]: "keeps_locks (give a)" "keeps_locks (throw e)" "keeps_locks (from_result r)" "keeps_locks (look f)"
  by (simp_all add: keeps_locks_def give_def throw_def from_result_def look_def)

lemma keeps_change [keeps]: "(\<And>st. st_held (f st) = st_held st) \<Longrightarrow> keeps_locks (change f)"
  by (simp add: keeps_locks_def change_def)

lemma keeps_chain [keeps]: "keeps_locks m \<Longrightarrow> (\<And>a. keeps_locks (f a)) \<Longrightarrow> keeps_locks (chain m f)"
  by (simp add: keeps_locks_def chain_def case_prod_beta split: sum.split)

lemma keeps_seq [keeps]: "keeps_locks m \<Longrightarrow> keeps_locks n \<Longrightarrow> keeps_locks (seq m n)"
  by (simp add: seq_def keeps)

lemma keeps_guarded [keeps]: "keeps_locks m \<Longrightarrow> keeps_locks (guarded m)"
  by (simp add: keeps_locks_def guarded_def case_prod_beta)

lemma keeps_if [keeps]: "(c \<Longrightarrow> keeps_locks m) \<Longrightarrow> (\<not> c \<Longrightarrow> keeps_locks n) \<Longrightarrow> keeps_locks (if c then m else n)"
  by simp

lemma keeps_option [keeps]:
  "(v = None \<Longrightarrow> keeps_locks m) \<Longrightarrow> (\<And>x. v = Some x \<Longrightarrow> keeps_locks (f x))
     \<Longrightarrow> keeps_locks (case v of None \<Rightarrow> m | Some x \<Rightarrow> f x)"
  by (cases v) simp_all

lemma keeps_run [keeps]: "keeps_locks (run_on_log cenv a)"
  by (simp add: keeps_locks_def run_on_log_def split: prod.split option.split)

lemma keeps_fresh [keeps]: "keeps_locks (start_fresh env cenv one run a)"
  unfolding start_fresh_def by (intro keeps)

lemma keeps_resume [keeps]: "keeps_locks (resume_locked env cenv run a)"
  unfolding resume_locked_def by (intro keeps)

text \<open>Taking a lock, and releasing it however the work under it ends.\<close>

lemma acquire_cases:
  "acquire env l st = (r, st') \<Longrightarrow> st_file st' = st_file st \<and>
     (case r of Inl e \<Rightarrow> lock_refusal e \<and> st_held st' = st_held st
      | Inr u \<Rightarrow> l \<notin> st_held st \<and> st_held st' = insert l (st_held st))"
  by (auto simp: acquire_def lock_acquire_def Let_def lock_refusal_def split: if_splits)

lemma acquire_held: "l \<in> st_held st \<Longrightarrow> \<exists>e st'. acquire env l st = (Inl e, st') \<and> lock_refusal e
    \<and> st_file st' = st_file st \<and> st_held st' = st_held st"
  by (auto simp: acquire_def lock_acquire_def Let_def lock_refusal_def)

lemma hold_now: "hold env 0 l = acquire env l"
  by (rule ext) (auto simp: hold_def split: prod.split sum.split)

lemma keeps_under [keeps]:
  assumes "keeps_locks m" shows "keeps_locks (seq (acquire env l) (ensuring m (release l)))"
  unfolding keeps_locks_def
proof
  fix st
  obtain r st1 where a: "acquire env l st = (r, st1)" by (cases "acquire env l st")
  show "st_held (snd (seq (acquire env l) (ensuring m (release l)) st)) = st_held st"
  proof (cases r)
    case (Inl e)
    with acquire_cases [OF a] a show ?thesis by (simp add: seq_def chain_def)
  next
    case (Inr u)
    obtain x st2 where m: "m st1 = (x, st2)" by (cases "m st1")
    with assms have "st_held st2 = st_held st1" unfolding keeps_locks_def by (metis snd_conv)
    with acquire_cases [OF a] a m Inr show ?thesis
      by (simp add: seq_def chain_def ensuring_def release_def lock_release_def)
  qed
qed

lemma guarded_under:
  "chain (guarded (acquire env l)) (\<lambda>r. case r of Inl e \<Rightarrow> throw (g e) | Inr u \<Rightarrow> ensuring m (release l)) st =
     (case acquire env l st of (Inl e, st') \<Rightarrow> (Inl (g e), st')
      | (Inr u, st') \<Rightarrow> seq (acquire env l) (ensuring m (release l)) st)"
  by (simp add: chain_def guarded_def seq_def throw_def split: prod.split sum.split)

lemma keeps_guarded_under [keeps]:
  assumes "keeps_locks m"
  shows "keeps_locks (chain (guarded (acquire env l)) (\<lambda>r. case r of
     Inl e \<Rightarrow> throw (g e) | Inr u \<Rightarrow> ensuring m (release l)))"
  using keeps_under [OF assms, of env l] unfolding keeps_locks_def
  by (auto simp: guarded_under split: prod.split sum.split dest: acquire_cases)

lemma keeps_writer [keeps]: "keeps_locks m \<Longrightarrow> keeps_locks (with_writer env p m)"
  unfolding with_writer_def hold_now by (intro keeps)

text \<open>A durable run and a resumed one give back every lock they took and no other, however
  they end: with the result, refused, or by an exception of the run.\<close>

theorem locks_given_back:
  "st_held (snd (run_durable env cenv p one wanted new_id a st)) = st_held st
   \<and> st_held (snd (resume env cenv p run writers a st)) = st_held st"
proof -
  have "keeps_locks (run_durable env cenv p one wanted new_id a)"
    unfolding run_durable_def Let_def by (intro keeps)
  moreover have "keeps_locks (resume env cenv p run writers a)"
    unfolding resume_def by (intro keeps)
  ultimately show ?thesis by (simp add: keeps_locks_def)
qed

subsection \<open>One writer\<close>

lemma with_writer_held:
  "writer_lock_path p \<in> st_held st \<Longrightarrow> \<exists>st'. with_writer env p m st = (Inl log_in_use, st') \<and> st_file st' = st_file st"
  using acquire_held [of "writer_lock_path p" st env]
  by (auto simp: with_writer_def hold_now chain_def guarded_def throw_def)

text \<open>\<open>touches_not m l\<close>: while another process holds \<open>l\<close>, \<open>m\<close> raises and leaves the log as it is.\<close>

definition yields_to :: "string \<Rightarrow> (store, 'a) act \<Rightarrow> bool" where
  "yields_to l m \<longleftrightarrow> (\<forall>st. l \<in> st_held st \<longrightarrow> (\<exists>e st'. m st = (Inl e, st') \<and> st_file st' = st_file st))"

lemma yields_under: "yields_to l (seq (acquire env l) m)"
  unfolding yields_to_def
proof (intro allI impI)
  fix st :: store assume "l \<in> st_held st"
  from acquire_held [OF this, of env] show "\<exists>e st'. seq (acquire env l) m st = (Inl e, st') \<and> st_file st' = st_file st"
    by (auto simp: seq_def chain_def)
qed

lemma yields_guarded_under:
  "yields_to l (chain (guarded (acquire env l)) (\<lambda>r. case r of Inl e \<Rightarrow> throw (g e) | Inr u \<Rightarrow> m))"
  unfolding yields_to_def
proof (intro allI impI)
  fix st :: store assume "l \<in> st_held st"
  from acquire_held [OF this, of env] show "\<exists>e st'. chain (guarded (acquire env l))
      (\<lambda>r. case r of Inl e \<Rightarrow> throw (g e) | Inr u \<Rightarrow> m) st = (Inl e, st') \<and> st_file st' = st_file st"
    by (auto simp: chain_def guarded_def throw_def)
qed

lemma yields_writer: "yields_to (writer_lock_path p) (with_writer env p m)"
  using with_writer_held by (fastforce simp: yields_to_def)

lemma yields_inside:
  assumes "yields_to l m" shows "yields_to l (with_writer env p m)"
  unfolding yields_to_def
proof (intro allI impI)
  fix st :: store assume l: "l \<in> st_held st"
  obtain r st1 where a: "acquire env (writer_lock_path p) st = (r, st1)" by (cases "acquire env (writer_lock_path p) st")
  show "\<exists>e st'. with_writer env p m st = (Inl e, st') \<and> st_file st' = st_file st"
  proof (cases r)
    case (Inl e)
    with a acquire_cases [OF a] show ?thesis
      by (auto simp: with_writer_def hold_now chain_def guarded_def throw_def)
  next
    case (Inr u)
    with acquire_cases [OF a] l have "l \<in> st_held st1" "st_file st1 = st_file st" by simp_all
    with assms obtain e st2 where "m st1 = (Inl e, st2)" "st_file st2 = st_file st"
      unfolding yields_to_def by metis
    with a Inr show ?thesis
      by (simp add: with_writer_def hold_now chain_def guarded_def ensuring_def release_def)
  qed
qed

lemma yields_from: "(\<And>x. r = Inr x \<Longrightarrow> yields_to l (f x)) \<Longrightarrow> yields_to l (chain (from_result r) f)"
  by (cases r) (auto simp: yields_to_def chain_def from_result_def)

lemma yields_seq_from: "yields_to l m \<Longrightarrow> yields_to l (seq (from_result r) m)"
  by (simp add: seq_def yields_from)

text \<open>C15. One writer per log and one process per run: while another process holds the log's writer
  lock or the run's lock, a durable run and a resume raise and leave the log as it is.\<close>

theorem one_writer:
  assumes "l = writer_lock_path p \<or> lock_path env p run = Inr l" and "l \<in> st_held st"
  shows "(\<exists>e st'. run_durable env cenv p one (Some run) new_id a st = (Inl e, st') \<and> st_file st' = st_file st)
    \<and> (\<exists>e st'. resume env cenv p run writers a st = (Inl e, st') \<and> st_file st' = st_file st)"
proof -
  have writer: "yields_to l (with_writer env p (chain (from_result (lock_path env p run)) f))"
    if "\<And>l. yields_to l (f l)" for f :: "string \<Rightarrow> (store, string ctl) act"
    using assms(1)
  proof
    assume "l = writer_lock_path p" then show ?thesis by (simp add: yields_writer)
  next
    assume "lock_path env p run = Inr l" with that show ?thesis by (auto intro: yields_inside yields_from)
  qed
  have "yields_to l (run_durable env cenv p one (Some run) new_id a)"
    unfolding run_durable_def Let_def option.case
    by (intro yields_seq_from writer yields_guarded_under)
  moreover
  have "yields_to l (resume env cenv p run writers a)"
  proof (cases "writers \<or> run = []")
    case True
    then show ?thesis by (simp add: resume_def yields_to_def throw_def)
  next
    case False
    then show ?thesis
      by (simp add: resume_def) (intro writer yields_under)
  qed
  ultimately show ?thesis using assms(2) by (simp add: yields_to_def)
qed

subsection \<open>What a resumed run is\<close>

lemma refuse_unless_ok: "refuse_unless b = Inr u \<longleftrightarrow> b"
  by (simp add: refuse_unless_def)

lemma unsafe_calls_none:
  "unsafe_calls un rs = Inr [] \<Longrightarrow> r \<in> set rs \<Longrightarrow> get_or r ''kind'' PNone = PStr ''call_started''
     \<Longrightarrow> get_or r ''call_id'' PNone = PStr c \<Longrightarrow> c \<in> set un
     \<Longrightarrow> \<exists>q. get_or r ''payload'' (PDict []) = PDict q \<and> get_or q ''idempotent'' PNone = PBool True"
  by (induction rs) (auto simp: bind_res_Inr split: if_splits pyval.splits)

text \<open>The history a resume may replay: not stopped, begun with the same inputs, and no lost call that
  was not declared idempotent.\<close>

definition replayable :: "(string \<Rightarrow> string) \<Rightarrow> dict list \<Rightarrow> string run_args \<Rightarrow> bool" where
  "replayable f rs a \<longleftrightarrow>
     (\<forall>r \<in> set rs. get_or r ''kind'' PNone \<noteq> PStr ''run_stopped'')
   \<and> (\<exists>s q. started_record rs = Some s \<and> get_or s ''payload'' (PDict []) = PDict q
       \<and> get_or q ''task_sha256'' PNone = PStr (digest f (PStr (ra_task a)))
       \<and> get_or q ''observations_sha256'' PNone = PStr (digest f (pstrs (ra_observations a)))
       \<and> get_or q ''snapshot_id'' PNone = fst (evidence_identity f (ra_evidence a))
       \<and> get_or q ''evidence_sha256'' PNone = snd (evidence_identity f (ra_evidence a))
       \<and> py_eq (get_or q ''max_iterations'' PNone) (PInt (ra_max a)))
   \<and> (\<exists>un. unfinished_calls rs = Inr un \<and> (\<forall>r \<in> set rs. \<forall>c \<in> set un.
       get_or r ''kind'' PNone = PStr ''call_started'' \<and> get_or r ''call_id'' PNone = PStr c \<longrightarrow>
         (\<exists>q. get_or r ''payload'' (PDict []) = PDict q \<and> get_or q ''idempotent'' PNone = PBool True)))"

lemma resumable_ok:
  assumes "resumable f rs a = Inr u" shows "rs \<noteq> [] \<and> replayable f rs a"
proof -
  from assms obtain s where s: "rs \<noteq> []" "\<not> list_ex (\<lambda>r. get_or r ''kind'' PNone = PStr ''run_stopped'') rs"
    "started_record rs = Some s" by (auto simp: resumable_def bind_res_Inr refuse_unless_ok split: option.splits)
  with assms obtain q where q: "get_or s ''payload'' (PDict []) = PDict q"
    by (auto simp: resumable_def bind_res_Inr refuse_unless_ok split: pyval.splits)
  with assms s obtain un where u: "same_inputs f q a = Inr ()" "unfinished_calls rs = Inr un" "unsafe_calls un rs = Inr []"
    by (auto simp: resumable_def bind_res_Inr refuse_unless_ok)
  from u(1) s q u(2) unsafe_calls_none [OF u(3)] show ?thesis
    by (auto simp: replayable_def same_inputs_def Let_def bind_res_Inr refuse_unless_ok list_ex_iff)
qed

lemma under_lock_result:
  assumes "seq (acquire env l) (ensuring m (release l)) st = (r, st')" and "st_file st' \<noteq> st_file st \<or> (\<exists>c. r = Inr c)"
  shows "\<exists>st1 st2. st_file st1 = st_file st \<and> m st1 = (r, st2) \<and> st_file st' = st_file st2"
proof -
  obtain x st1 where a: "acquire env l st = (x, st1)" by (cases "acquire env l st")
  obtain y st2 where m: "m st1 = (y, st2)" by (cases "m st1")
  from acquire_cases [OF a] have f: "st_file st1 = st_file st" by simp
  from assms a m f show ?thesis
    by (cases x) (auto simp: seq_def chain_def ensuring_def release_def)
qed

lemma in_writer_result:
  assumes "with_writer env p m st = (r, st')" and "st_file st' \<noteq> st_file st \<or> (\<exists>c. r = Inr c)"
  shows "\<exists>st1 st2. st_file st1 = st_file st \<and> m st1 = (r, st2) \<and> st_file st' = st_file st2"
proof -
  obtain x st1 where a: "acquire env (writer_lock_path p) st = (x, st1)" by (cases "acquire env (writer_lock_path p) st")
  obtain y st2 where m: "m st1 = (y, st2)" by (cases "m st1")
  from acquire_cases [OF a] have f: "st_file st1 = st_file st" by simp
  from assms a m f show ?thesis
    by (cases x) (auto simp: with_writer_def hold_now chain_def guarded_def throw_def ensuring_def release_def)
qed

lemma chain_result:
  "chain (from_result r) f st = (x, st') \<Longrightarrow> st_file st' \<noteq> st_file st \<or> (\<exists>c. x = Inr c) \<Longrightarrow>
     \<exists>y. r = Inr y \<and> f y st = (x, st')"
  by (cases r) (auto simp: chain_def from_result_def)

text \<open>C6. A resume only continues the run it names. When it returns, or writes anything to the log,
  the log holds records of that run, none of them a stop, begun with the digests of the very task,
  observations, evidence and iteration bound it was given, and every call that began without an
  outcome had been declared idempotent.\<close>

theorem resume_is_pinned:
  assumes "resume env cenv p run writers a st = (r, st')"
    and "st_file st' \<noteq> st_file st \<or> (\<exists>c. r = Inr c)"
  shows "\<exists>rs. run_records env st run = Inr rs \<and> rs \<noteq> [] \<and> replayable (he_hash env) rs a"
proof -
  from assms have nw: "\<not> writers \<and> run \<noteq> []" by (auto simp: resume_def throw_def split: if_splits)
  with assms(1) have "with_writer env p (chain (from_result (lock_path env p run)) (\<lambda>l.
        seq (acquire env l) (ensuring (resume_locked env cenv run a) (release l)))) st = (r, st')"
    by (simp add: resume_def)
  from in_writer_result [OF this assms(2)] obtain st1 st2 where w: "st_file st1 = st_file st" "st_file st' = st_file st2"
    "chain (from_result (lock_path env p run)) (\<lambda>l.
        seq (acquire env l) (ensuring (resume_locked env cenv run a) (release l))) st1 = (r, st2)"
    by blast
  then obtain l where "seq (acquire env l) (ensuring (resume_locked env cenv run a) (release l)) st1 = (r, st2)"
    using chain_result [OF w(3)] assms(2) w(1,2) by auto
  from under_lock_result [OF this] assms(2) w obtain st3 st4 where m: "st_file st3 = st_file st"
    "resume_locked env cenv run a st3 = (r, st4)" "st_file st' = st_file st4" by auto
  have same: "run_records env st3 run = run_records env st run"
    using m(1) by (simp add: run_records_def read_log_def)
  have changed: "st_file st4 \<noteq> st_file st3 \<or> (\<exists>c. r = Inr c)" using assms(2) m by simp
  from m(2) have c: "chain (from_result (if st_file st3 = None then Inl FileMissing else run_records env st3 run)) (\<lambda>rs.
      seq (from_result (resumable (he_hash env) rs a)) (run_on_log cenv (a\<lparr>ra_run_id := run, ra_previous := Some rs\<rparr>))) st3
      = (r, st4)" by (simp add: resume_locked_def chain_def look_def)
  from chain_result [OF c changed] obtain rs where rs: "run_records env st3 run = Inr rs"
    "seq (from_result (resumable (he_hash env) rs a)) (run_on_log cenv (a\<lparr>ra_run_id := run, ra_previous := Some rs\<rparr>)) st3
      = (r, st4)" by (auto split: if_splits)
  from chain_result [OF rs(2) [unfolded seq_def] changed] obtain u where "resumable (he_hash env) rs a = Inr u" by blast
  from resumable_ok [OF this] rs(1) same show ?thesis by auto
qed

lemma any_record_known:
  assumes "list_all is_dict vs" and "of_run run (map (\<lambda>v. case v of PDict d \<Rightarrow> d | _ \<Rightarrow> []) vs) \<noteq> []"
  shows "any_record (names_run run) vs = Inr True"
  using assms by (induction vs) (auto simp: of_run_def names_run_def split: pyval.splits)

lemma known_run:
  "run_records env st run = Inr rs \<Longrightarrow> rs \<noteq> [] \<Longrightarrow>
     \<exists>vs. read_log env st = Inr vs \<and> any_record (names_run run) vs = Inr True"
  by (auto simp: run_records_def bind_res_Inr need_dicts_def any_record_known split: if_splits)

lemma start_fresh_known:
  assumes "run_records env st run = Inr rs" and "rs \<noteq> []"
  shows "\<exists>e. start_fresh env cenv one run a st = (Inl e, st)"
proof -
  from known_run [OF assms] obtain vs where "read_log env st = Inr vs" "any_record (names_run run) vs = Inr True"
    by blast
  then show ?thesis
    by (auto simp: start_fresh_def seq_def chain_def look_def from_result_def give_def throw_def
        split: sum.splits prod.splits if_splits)
qed

text \<open>An id is used once: a fresh run whose id the log already holds is refused before
  anything is written.\<close>

theorem known_id_refused:
  assumes "run_records env st run = Inr rs" and "rs \<noteq> []"
  shows "\<exists>e st'. run_durable env cenv p one (Some run) new_id a st = (Inl e, st') \<and> st_file st' = st_file st"
proof (rule ccontr)
  let ?in = "\<lambda>l. chain (guarded (acquire env l)) (\<lambda>r. case r of
      Inl e \<Rightarrow> throw (if lock_refusal e then run_id_in_use else e)
    | Inr u \<Rightarrow> ensuring (start_fresh env cenv one run a) (release l))"
  assume no: "\<nexists>e st'. run_durable env cenv p one (Some run) new_id a st = (Inl e, st') \<and> st_file st' = st_file st"
  obtain r st' where r: "run_durable env cenv p one (Some run) new_id a st = (r, st')"
    by (cases "run_durable env cenv p one (Some run) new_id a st")
  with no have ch: "st_file st' \<noteq> st_file st \<or> (\<exists>c. r = Inr c)" by (cases r) auto
  from r have "chain (from_result (validate_run_id run)) (\<lambda>_. with_writer env p
      (chain (from_result (lock_path env p run)) ?in)) st = (r, st')"
    by (simp add: run_durable_def Let_def seq_def)
  from chain_result [OF this ch] have "with_writer env p (chain (from_result (lock_path env p run)) ?in) st = (r, st')"
    by blast
  from in_writer_result [OF this ch] obtain st1 st2 where w: "st_file st1 = st_file st" "st_file st' = st_file st2"
    "chain (from_result (lock_path env p run)) ?in st1 = (r, st2)" by blast
  with ch have ch1: "st_file st2 \<noteq> st_file st1 \<or> (\<exists>c. r = Inr c)" by simp
  from chain_result [OF w(3) ch1] obtain l where "?in l st1 = (r, st2)" by blast
  moreover obtain x st3 where a: "acquire env l st1 = (x, st3)" by (cases "acquire env l st1")
  ultimately have "seq (acquire env l) (ensuring (start_fresh env cenv one run a) (release l)) st1 = (r, st2)"
    using ch1 acquire_cases [OF a] by (cases x) (auto simp: guarded_under)
  from under_lock_result [OF this ch1] obtain st4 st5 where m: "st_file st4 = st_file st1"
    "start_fresh env cenv one run a st4 = (r, st5)" "st_file st2 = st_file st5" by blast
  have "run_records env st4 run = Inr rs" using assms(1) m(1) w(1) by (simp add: run_records_def read_log_def)
  from start_fresh_known [OF this assms(2), of cenv one a] m ch1 show False by auto
qed

section \<open>One interrupted run\<close>

definition durable_env :: "string env" where
  "durable_env = \<lparr>host_at = (\<lambda>_. \<lparr>sha = (\<lambda>s. s), git = (\<lambda>_ _. None), resolve = (\<lambda>p. p),
       resolve_under = (\<lambda>r p. r @ p), open_file = (\<lambda>_. Inl (OpenError FileMissing))\<rparr>),
     reading_at = (\<lambda>_. \<lparr>cancelled = True, now = 0\<rparr>), stamp_at = (\<lambda>_. ''t''), sink_wr = sink_write,
     json_loads = (\<lambda>_. Inl JSONDecodeError), hash = (\<lambda>s. s), input_json = (\<lambda>_. PNone),
     request_json = (\<lambda>_. PNone), adapter = None, adapter_name = [], adapter_idempotent = False,
     observer = None, readers = [], memory_reader = None, memory_writer = (\<lambda>_. Inr None),
     float_text = (\<lambda>_. []), tools = False\<rparr>"

definition durable_args :: "string run_args" where
  "durable_args = \<lparr>ra_task = ''look'', ra_observations = [], ra_evidence = None, ra_limits = None,
     ra_read_first = False, ra_run_id = ''r'', ra_max = 2, ra_previous = None, ra_sink = None\<rparr>"

definition start_record :: dict where
  "start_record = event_dict \<lparr>ev_run = ''r'', ev_seq = 0, ev_kind = ''run_started'', ev_at = ''t'',
     ev_iteration = 0, ev_call = PNone, ev_payload = started_payload durable_env durable_args\<rparr>"

definition durable_host :: host_env where
  "durable_host = \<lparr>he_flock = True, he_loads = (\<lambda>l. if l = line_of start_record then Inr (PDict start_record)
       else Inl JSONDecodeError), he_hash = (\<lambda>s. s), he_clock = (\<lambda>_ k. 0), he_others = (\<lambda>_ _ st. st),
     he_stamp = (\<lambda>_. ''t'')\<rparr>"

definition interrupted_store :: store where
  "interrupted_store = \<lparr>st_file = Some (line_of start_record), st_held = {}, st_made = {}\<rparr>"

lemma interrupted_records: "run_records durable_host interrupted_store ''r'' = Inr [start_record]"
  by code_simp

lemma interrupted_resumes: "case resume durable_host durable_env ''log'' ''r'' False durable_args interrupted_store of
    (r, st) \<Rightarrow> st_file st \<noteq> st_file interrupted_store \<and> st_held st = {}"
  by code_simp

theorem one_writer_witness:
  "\<forall>cenv a. \<exists>e st'. run_durable durable_host cenv ''log'' True (Some ''r'') [] a
     (interrupted_store\<lparr>st_held := {''log.writer.lock''}\<rparr>) = (Inl e, st') \<and> st_file st' = st_file interrupted_store"
proof (intro allI)
  fix cenv a
  show "\<exists>e st'. run_durable durable_host cenv ''log'' True (Some ''r'') [] a
     (interrupted_store\<lparr>st_held := {''log.writer.lock''}\<rparr>) = (Inl e, st') \<and> st_file st' = st_file interrupted_store"
    using one_writer [of "''log.writer.lock''" "''log''" durable_host "''r''"
      "interrupted_store\<lparr>st_held := {''log.writer.lock''}\<rparr>" cenv True "[]" a False]
    by (simp add: writer_lock_path_def)
qed

theorem resume_is_pinned_witness:
  "\<exists>rs. run_records durable_host interrupted_store ''r'' = Inr rs \<and> replayable (he_hash durable_host) rs durable_args"
proof -
  obtain r st where "resume durable_host durable_env ''log'' ''r'' False durable_args interrupted_store = (r, st)"
    "st_file st \<noteq> st_file interrupted_store" using interrupted_resumes by (auto split: prod.splits)
  from resume_is_pinned [OF this(1)] this(2) show ?thesis by blast
qed

theorem known_id_refused_witness:
  "\<forall>cenv a. \<exists>e st'. run_durable durable_host cenv ''log'' False (Some ''r'') [] a interrupted_store = (Inl e, st')
     \<and> st_file st' = st_file interrupted_store"
  using known_id_refused [OF interrupted_records] by simp

end
