(* ===== verification/Following.thy ===== *)
theory Following
  imports Host_Facts
begin

section \<open>What a follower sees\<close>

text \<open>
  A follower polls a log that other processes append to. Its polls see records that only grow; what it
  yields is the beginning of the last records it read, each once, and it does not call a run
  interrupted whose process held the lock or had written its stop.
\<close>

fun growing :: "host_env \<Rightarrow> string \<Rightarrow> dict list \<Rightarrow> poll list \<Rightarrow> bool" where
  "growing env run old [] \<longleftrightarrow> True"
| "growing env run old (pl # pls) \<longleftrightarrow>
     (\<exists>rs. run_records env (po_log pl) run = Inr (old @ rs) \<and> growing env run (old @ rs) pls)"

fun last_records :: "host_env \<Rightarrow> string \<Rightarrow> dict list \<Rightarrow> poll list \<Rightarrow> dict list" where
  "last_records env run old [] = old"
| "last_records env run old (pl # pls) = (case run_records env (po_log pl) run of
     Inl e \<Rightarrow> old | Inr rs \<Rightarrow> last_records env run rs pls)"

definition stops :: "dict \<Rightarrow> bool" where
  "stops r \<longleftrightarrow> get_or r ''kind'' PNone = PStr ''run_stopped''"

text \<open>The run's process held its lock when the lock was tested, or the log read afterwards shows no
  record yet or the stop.\<close>

definition attended :: "host_env \<Rightarrow> string \<Rightarrow> string \<Rightarrow> poll \<Rightarrow> bool" where
  "attended env p run pl \<longleftrightarrow> is_locked env p run (po_lock pl) = Inr True
     \<or> (\<exists>rs. run_records env (po_log pl) run = Inr rs \<and> (rs = [] \<or> (\<exists>r \<in> set rs. stops r)))"

lemma last_records_extend: "growing env run old pls \<Longrightarrow> \<exists>zs. last_records env run old pls = old @ zs"
proof (induction pls arbitrary: old)
  case (Cons pl pls)
  then obtain rs where "run_records env (po_log pl) run = Inr (old @ rs)" "growing env run (old @ rs) pls" by auto
  with Cons.IH [of "old @ rs"] show ?case by auto
qed simp

lemma yield_prefix: "yield_records rs = (ys, e) \<Longrightarrow> \<exists>zs. rs = ys @ zs"
  by (induction rs arbitrary: ys) (auto split: if_splits prod.splits)

lemma yield_all: "yield_records rs = (ys, StillFollowing) \<Longrightarrow> ys = rs \<and> list_all (\<lambda>r. \<not> stops r) rs"
  by (induction rs arbitrary: ys) (auto simp: stops_def split: if_splits prod.splits)

lemma yield_stop: "yield_records rs = (ys, SawStop) \<Longrightarrow> ys \<noteq> [] \<and> stops (last ys)"
  by (induction rs arbitrary: ys) (auto simp: stops_def split: if_splits prod.splits)

lemma yield_end: "yield_records rs = (ys, e) \<Longrightarrow> e \<in> {SawStop, StillFollowing, Raised ValueError}"
  by (induction rs arbitrary: ys) (auto split: if_splits prod.splits)

lemma lock_raises: "is_locked env p run st = Inl e \<Longrightarrow> e \<noteq> follow_ended why"
  by (auto simp: is_locked_def lock_path_def sidecar_def validate_run_id_def bind_res_Inl follow_ended_def
      split: if_splits)

lemma path_raises: "lock_path env p run = Inl e \<Longrightarrow> e \<noteq> follow_ended why"
  by (auto simp: lock_path_def sidecar_def validate_run_id_def bind_res_Inl follow_ended_def split: if_splits)

text \<open>One poll after \<open>old\<close> was yielded.\<close>

lemma poll_once_cases:
  assumes "poll_once env p run late (length old) pl = (ys, n, e)"
    and "run_records env (po_log pl) run = Inr (old @ rs)"
  shows "(\<exists>zs. rs = ys @ zs) \<and> (e = StillFollowing \<longrightarrow> ys = rs \<and> n = length (old @ rs) \<and> list_all (\<lambda>r. \<not> stops r) rs)
    \<and> (e = SawStop \<longrightarrow> ys \<noteq> [] \<and> stops (last ys))
    \<and> (attended env p run pl \<and> list_all (\<lambda>r. \<not> stops r) old \<longrightarrow> e \<noteq> Raised (follow_ended ''interrupted''))"
proof (cases "is_locked env p run (po_lock pl)")
  case (Inl x)
  with assms lock_raises [OF Inl, of "''interrupted''"] show ?thesis by (auto simp: poll_once_def)
next
  case (Inr alive)
  obtain zs f where y: "yield_records rs = (zs, f)" by (cases "yield_records rs")
  show ?thesis
  proof (cases "f = StillFollowing")
    case False
    with assms Inr y have eq: "ys = zs" "e = f" by (auto simp: poll_once_def split: ending.splits)
    have "f \<noteq> Raised (follow_ended ''interrupted'')" using yield_end [OF y] by (auto simp: follow_ended_def)
    moreover have "f = SawStop \<longrightarrow> zs \<noteq> [] \<and> stops (last zs)" using yield_stop [of rs zs] y by blast
    ultimately show ?thesis using False yield_prefix [OF y] unfolding eq by blast
  next
    case True
    with assms Inr y have eq: "ys = zs" "n = length (old @ rs)" "e = poll_end env p run late alive (old @ rs) pl"
      by (auto simp: poll_once_def)
    have all: "zs = rs" "list_all (\<lambda>r. \<not> stops r) rs" using yield_all [of rs zs] y True by simp_all
    have "e \<noteq> SawStop" unfolding eq poll_end_def by (auto split: sum.splits)
    moreover have "e \<noteq> Raised (follow_ended ''interrupted'')"
      if "attended env p run pl" "list_all (\<lambda>r. \<not> stops r) old"
    proof -
      have "alive \<or> old @ rs = []"
        using that all(2) assms(2) Inr unfolding attended_def by (auto simp: list_all_iff)
      then show ?thesis
        unfolding eq poll_end_def using path_raises [of env p run]
        by (auto simp: follow_ended_def split: sum.splits)
    qed
    ultimately show ?thesis using eq all by simp
  qed
qed

lemma follow_polls_faithful:
  assumes "growing env run old pls" and "follow_polls env p run late (length old) pls = (ys, e)"
    and "list_all (\<lambda>r. \<not> stops r) old"
  shows "(\<exists>zs. last_records env run old pls = old @ ys @ zs) \<and> (e = SawStop \<longrightarrow> ys \<noteq> [] \<and> stops (last ys))
    \<and> ((\<forall>pl \<in> set pls. attended env p run pl) \<longrightarrow> e \<noteq> Raised (follow_ended ''interrupted''))"
  using assms
proof (induction pls arbitrary: old ys)
  case (Cons pl pls)
  from Cons.prems(1) obtain rs where rs: "run_records env (po_log pl) run = Inr (old @ rs)"
    "growing env run (old @ rs) pls" by auto
  obtain xs n f where o: "poll_once env p run late (length old) pl = (xs, n, f)"
    by (cases "poll_once env p run late (length old) pl")
  note one = poll_once_cases [OF o rs(1)]
  have lr: "last_records env run old (pl # pls) = last_records env run (old @ rs) pls" using rs(1) by simp
  show ?case
  proof (cases "f = StillFollowing")
    case True
    with one have x: "xs = rs" "n = length (old @ rs)" "list_all (\<lambda>r. \<not> stops r) (old @ rs)"
      using Cons.prems(3) by simp_all
    obtain ws where w: "follow_polls env p run late (length (old @ rs)) pls = (ws, e)" "ys = rs @ ws"
      using Cons.prems(2) o True x by (auto split: prod.splits)
    from Cons.IH [OF rs(2) w(1) x(3)] w(2) lr show ?thesis by auto
  next
    case False
    with Cons.prems(2) o have eq: "ys = xs" "e = f" by (auto split: ending.splits)
    obtain zs where z: "last_records env run (old @ rs) pls = (old @ rs) @ zs"
      using last_records_extend [OF rs(2)] by blast
    with one eq lr Cons.prems(3) show ?thesis by auto
  qed
qed simp

text \<open>C26. A follower of a log that only grows yields the beginning of the run's records, each once and in
  order; it ends by itself only with the stop as its last record; and when at every poll the run's
  process held the lock, or the log read afterwards was still empty or held the stop, it never
  reports the run as interrupted: the lock is tested before the log is read.\<close>

theorem follow_is_faithful:
  assumes "growing env run [] pls" and "follow_events env p run began timeout pls = (ys, e)"
  shows "(\<exists>zs. last_records env run [] pls = ys @ zs) \<and> (e = SawStop \<longrightarrow> ys \<noteq> [] \<and> stops (last ys))
    \<and> ((\<forall>pl \<in> set pls. attended env p run pl) \<longrightarrow> e \<noteq> Raised (follow_ended ''interrupted''))"
proof (cases "validate_run_id run")
  case (Inl x)
  with assms show ?thesis
    using last_records_extend [OF assms(1)]
    by (auto simp: follow_events_def validate_run_id_def follow_ended_def split: if_splits)
next
  case (Inr x)
  with assms follow_polls_faithful [OF assms(1), of p "began + timeout" ys e] show ?thesis
    by (simp add: follow_events_def)
qed

definition sample_poll :: poll where
  "sample_poll = \<lparr>po_lock = interrupted_store, po_log = interrupted_store, po_made = interrupted_store, po_clock = 0\<rparr>"

theorem follow_is_faithful_witness:
  "\<exists>ys e zs. follow_events durable_host ''log'' ''r'' 0 10 [sample_poll, sample_poll] = (ys, e)
     \<and> [start_record] = ys @ zs"
proof -
  obtain ys e where f: "follow_events durable_host ''log'' ''r'' 0 10 [sample_poll, sample_poll] = (ys, e)"
    by (cases "follow_events durable_host ''log'' ''r'' 0 10 [sample_poll, sample_poll]")
  have "growing durable_host ''r'' [] [sample_poll, sample_poll]"
    by (simp add: sample_poll_def interrupted_records)
  from follow_is_faithful [OF this f] f show ?thesis
    by (simp add: sample_poll_def interrupted_records)
qed

end
