(* ===== verification/Sealing.thy ===== *)
theory Sealing
  imports Host_Facts
begin

section \<open>A sealed run reads as finished\<close>

text \<open>
  The parent of a lost worker seals its run in the log; inspection and status, which read the file
  again, then report the run as finished for the reason it was sealed with, and a second seal
  changes nothing. The records must be lines the parser reads back.
\<close>

definition readable :: "host_env \<Rightarrow> event list \<Rightarrow> bool" where
  "readable env evs \<longleftrightarrow> (\<forall>e \<in> set evs. plain_record (event_dict e)
     \<and> he_loads env (line_of (event_dict e)) = Inr (PDict (event_dict e)))"

definition log_text :: "event list \<Rightarrow> string" where
  "log_text evs = concat (map line_of (map event_dict evs))"

text \<open>The text of a whole log, with at most one unfinished line after it.\<close>

definition torn_text :: "event list \<Rightarrow> string \<Rightarrow> bool" where
  "torn_text evs raw \<longleftrightarrow> (\<exists>frag. raw = log_text evs @ frag \<and> (\<forall>c \<in> set frag. \<not> is_linebreak c))"

lemma log_text_snoc: "log_text (evs @ [e]) = log_text evs @ line_of (event_dict e)"
  by (simp add: log_text_def)

lemma whole_log: "whole_lines (log_text evs)"
  by (cases evs rule: rev_cases) (simp_all add: log_text_def whole_lines_def)

lemma read_log_text: "readable env evs \<Longrightarrow> read_jsonl (he_loads env) (log_text evs) = Inr (map PDict (map event_dict evs))"
  unfolding log_text_def by (rule read_whole_records) (simp add: readable_def)

lemma open_torn: "torn_text evs raw \<Longrightarrow> open_sink True (Some raw) = Inr (log_text evs)"
proof -
  assume "torn_text evs raw"
  then obtain frag where f: "raw = log_text evs @ frag" "\<forall>c \<in> set frag. \<not> is_linebreak c" by (auto simp: torn_text_def)
  show ?thesis
  proof (cases "frag = []")
    case True
    then show ?thesis using whole_log [of evs] f(1) by (auto simp: open_sink_def whole_lines_def)
  next
    case False
    from torn_tail_truncation [OF whole_log this f(2)] f(1) show ?thesis by simp
  qed
qed

lemma run_records_text:
  assumes "st_file st = Some (log_text evs)" and "readable env evs" and "\<forall>e \<in> set evs. ev_run e = run"
  shows "read_log env st = Inr (map PDict (map event_dict evs))"
    and "run_records env st run = Inr (map event_dict evs)"
    and "any_record (\<lambda>d. \<not> names_run run d) (map PDict (map event_dict evs)) = Inr False"
proof -
  show r: "read_log env st = Inr (map PDict (map event_dict evs))"
    using assms by (simp add: read_log_def read_log_text)
  have "of_run run (map event_dict evs) = map event_dict evs"
    using assms(3) by (simp add: of_run_def filter_id_conv)
  then show "run_records env st run = Inr (map event_dict evs)"
    by (simp add: run_records_def r need_dicts_def list_all_iff comp_def)
  show "any_record (\<lambda>d. \<not> names_run run d) (map PDict (map event_dict evs)) = Inr False"
    using assms(3) by (induction evs) (simp_all add: names_run_def)
qed

subsection \<open>The stop that is written\<close>

definition sealed_event :: "host_env \<Rightarrow> string \<Rightarrow> stop_spec \<Rightarrow> string \<Rightarrow> event list \<Rightarrow> event" where
  "sealed_event env run sp detail evs = \<lparr>ev_run = run, ev_seq = int (length evs), ev_kind = ''run_stopped'',
     ev_at = he_stamp env 1, ev_iteration = top_iteration evs, ev_call = PNone,
     ev_payload = redact_payload (parent_stop sp detail)\<rparr>"

text \<open>A text no pattern matches, seen without running the patterns: each is longer than the text or
  asks for a character that the text does not have.\<close>

fun needs :: "char \<Rightarrow> rx \<Rightarrow> bool" where
  "needs c (Lit w) \<longleftrightarrow> c \<in> set w"
| "needs c (Seq a b) \<longleftrightarrow> needs c a \<or> needs c b"
| "needs c (Alt a b) \<longleftrightarrow> needs c a \<and> needs c b"
| "needs c (Rep g lo hi r) \<longleftrightarrow> 0 < lo \<and> needs c r"
| "needs c r \<longleftrightarrow> False"

lemma reps_first: "j \<in> set (reps g lo hi f n k i) \<Longrightarrow> k < lo \<Longrightarrow> \<exists>i'. i' \<in> set (f i)"
  by (cases n) (auto simp: Let_def split: if_splits)

lemma ends_need: "j \<in> set (ends r s i) \<Longrightarrow> needs c r \<Longrightarrow> c \<in> set s"
proof (induction r arbitrary: i j)
  case (Lit w)
  then have "take (length w) (drop i s) = w" "c \<in> set w" by (simp_all split: if_splits)
  then show ?case by (metis in_set_dropD in_set_takeD)
next
  case (Rep g lo hi r)
  then show ?case using reps_first [of j g lo hi "ends r s" "length s + 1 - i" 0 i] by auto
qed auto

lemma reps_le:
  assumes "\<And>i j. j \<in> set (f i) \<Longrightarrow> i \<le> m \<Longrightarrow> j \<le> m"
  shows "j \<in> set (reps g lo hi f n k i) \<Longrightarrow> i \<le> m \<Longrightarrow> j \<le> m"
  using assms by (induction n arbitrary: k i) (fastforce simp: Let_def split: if_splits)+

lemma ends_le: "j \<in> set (ends r s i) \<Longrightarrow> i \<le> length s \<Longrightarrow> j \<le> length s"
proof (induction r arbitrary: i j)
  case (Lit w)
  then show ?case by (auto split: if_splits dest: arg_cong [of _ _ length])
next
  case (LitI w)
  then show ?case by (auto simp: lower_def split: if_splits dest: arg_cong [of _ _ length])
next
  case (Rep g lo hi r)
  from Rep.prems reps_le [of "ends r s" "length s" j, OF Rep.IH] show ?case by simp
qed (auto split: if_splits)

definition out_of_reach :: "string \<Rightarrow> rx \<Rightarrow> bool" where
  "out_of_reach s r \<longleftrightarrow> length s < min_len r \<or> list_ex (\<lambda>c. c \<notin> set s \<and> needs c r) ''-_/@AJ''"

lemma unreached:
  assumes "out_of_reach s r" shows "\<not> searches r s"
proof
  assume "searches r s"
  then have "\<exists>i \<le> length s. ends r s i \<noteq> []" by (auto simp: searches_def list_ex_iff) (metis less_imp_le)
  then obtain i where i: "i \<le> length s" "ends r s i \<noteq> []" by blast
  then obtain j where j: "j \<in> set (ends r s i)" by (meson list.set_sel(1))
  from ends_le [OF j i(1)] ends_min [OF j] have "\<not> length s < min_len r" by simp
  with assms obtain c where "c \<notin> set s" "needs c r" by (auto simp: out_of_reach_def list_ex_iff)
  with ends_need [OF j] show False by blast
qed

definition kept_name :: "string \<Rightarrow> bool" where
  "kept_name s \<longleftrightarrow> list_all (out_of_reach s) (home_path # email # secret_patterns) \<and> \<not> blank s"

lemma kept_name: "kept_name s \<Longrightarrow> redact_text s = s \<and> \<not> blank s"
  using unreached [of s]
  by (auto simp: kept_name_def classify_confidentiality_def list_all_iff list_ex_iff intro!: redact_text_unknown)

lemma names_evaluated:
  "list_all (\<lambda>r. kept_name (reason_name r)) all_reasons \<and> list_all (\<lambda>s. kept_name (status_name s)) all_statuses
   \<and> list_all (\<lambda>c. kept_name (class_name c)) [Evaluation, Runtime, Control]"
  by code_simp

lemma reason_kept: "redact_text (reason_name r) = reason_name r \<and> \<not> blank (reason_name r)"
  using names_evaluated by (cases r) (simp_all add: kept_name all_reasons_def del: reason_name.simps)

lemma class_kept: "redact_text (class_name c) = class_name c \<and> \<not> blank (class_name c)"
  using names_evaluated by (cases c) (simp_all add: kept_name del: class_name.simps)

lemma status_kept: "redact_text (status_name s) = status_name s \<and> \<not> blank (status_name s)"
  using names_evaluated by (cases s) (simp_all add: kept_name all_statuses_def del: status_name.simps)

lemmas names_kept = reason_kept class_kept status_kept

lemma sealed_payload:
  "get_or (ev_payload (sealed_event env run sp detail evs)) ''stop_reason'' v = PStr (reason_name (spec_reason sp))"
  "get_or (ev_payload (sealed_event env run sp detail evs)) ''stop_class'' v = PStr (class_name (spec_class sp))"
  "get_or (ev_payload (sealed_event env run sp detail evs)) ''status'' v = PStr (status_name (spec_status sp))"
  "get_key (ev_payload (sealed_event env run sp detail evs)) ''stop_reason'' = Inr (PStr (reason_name (spec_reason sp)))"
  by (simp_all add: sealed_event_def parent_stop_def redact_payload_def get_or_def get_key_def names_kept)

lemma specs_name_reasons: "list_all (\<lambda>(k, sp). spec_reason sp = k) stop_reasons"
  by code_simp

lemma spec_for_reason:
  assumes "spec_for reason = Inr sp"
  shows "reason_name (spec_reason sp) = reason"
proof -
  from assms obtain k where f: "find (\<lambda>(k, _). reason_name k = reason) stop_reasons = Some (k, sp)"
    by (auto simp: spec_for_def split: option.splits)
  then have "(k, sp) \<in> set stop_reasons" "reason_name k = reason"
    by (auto simp: find_Some_iff in_set_conv_nth)
  with specs_name_reasons show ?thesis by (auto simp: list_all_iff)
qed

lemma fold_max_le: "(m :: int) \<le> fold max xs m"
proof (induction xs arbitrary: m)
  case (Cons x xs)
  from Cons.IH [of "max x m"] show ?case by simp
qed simp

lemma top_iteration_nonneg:
  assumes "list_all event_ok evs" and "evs \<noteq> []"
  shows "0 \<le> top_iteration evs"
proof (cases evs)
  case (Cons e es)
  with assms(1) have "0 \<le> ev_iteration e" by (simp add: event_ok_def)
  with Cons show ?thesis using fold_max_le [of "ev_iteration e" "map ev_iteration es"] by (simp add: top_iteration_def)
qed (use assms in simp)

text \<open>A history that began, is consistent and has not stopped.\<close>

definition interrupted_history :: "string \<Rightarrow> event list \<Rightarrow> bool" where
  "interrupted_history run evs \<longleftrightarrow> log_ok \<lparr>log_run = run, log_sink = None :: unit option, log_events = evs\<rparr>
     \<and> consistent run evs \<and> last_stop evs = None"

lemma interrupted_facts:
  assumes "interrupted_history run evs"
  shows "evs \<noteq> []" and "list_all event_ok evs" and "\<forall>e \<in> set evs. ev_run e = run" and "run \<noteq> []"
    and "\<forall>e \<in> set evs. ev_kind e \<noteq> ''run_stopped''"
proof -
  show ne: "evs \<noteq> []" using assms by (auto simp: interrupted_history_def consistent_def bounded_history_def)
  show "list_all event_ok evs" "\<forall>e \<in> set evs. ev_run e = run" "run \<noteq> []"
    using assms by (auto simp: interrupted_history_def log_ok_def list_all_iff)
  have "list_all (\<lambda>e. ev_kind e \<noteq> ''run_stopped'') (butlast evs)" "ev_kind (last evs) \<noteq> ''run_stopped''"
    using assms ne by (auto simp: interrupted_history_def consistent_def bounded_history_def last_stop_def)
  then show "\<forall>e \<in> set evs. ev_kind e \<noteq> ''run_stopped''"
    using ne by (cases evs rule: rev_cases) (auto simp: list_all_iff)
qed

lemma sealed_ok:
  assumes "interrupted_history run evs"
  shows "event_ok (sealed_event env run sp detail evs)"
  using top_iteration_nonneg [OF interrupted_facts(2,1) [OF assms]] interrupted_facts(4) [OF assms]
  by (simp add: event_ok_def sealed_event_def event_kinds_def needs_call_def)

lemma sealed_consistent:
  assumes "interrupted_history run evs"
  shows "log_ok \<lparr>log_run = run, log_sink = None :: unit option, log_events = evs @ [sealed_event env run sp detail evs]\<rparr>
    \<and> consistent run (evs @ [sealed_event env run sp detail evs])"
proof
  let ?e = "sealed_event env run sp detail evs"
  have k: "ev_kind ?e = ''run_stopped''" "ev_run ?e = run" "ev_seq ?e = int (length evs)" by (simp_all add: sealed_event_def)
  show "log_ok \<lparr>log_run = run, log_sink = None :: unit option, log_events = evs @ [?e]\<rparr>"
    using assms sealed_ok [OF assms] k by (auto simp: interrupted_history_def log_ok_def)
  have "payload_fits ?e"
    unfolding payload_fits_def Let_def k(1) by (simp add: sealed_payload is_text_def names_kept)
  moreover have "bounded_history (evs @ [?e])"
    using assms interrupted_facts(1,5) [OF assms] k(1)
    by (cases evs) (auto simp: interrupted_history_def consistent_def bounded_history_def list_all_iff)
  ultimately show "consistent run (evs @ [?e])"
    using assms k(1) by (auto simp: interrupted_history_def consistent_def calls_in_order_snoc)
qed

subsection \<open>Sealing\<close>

lemma acquire_free:
  "he_flock env \<Longrightarrow> l \<notin> st_held st \<Longrightarrow>
     acquire env l st = (Inr (), st\<lparr>st_made := insert l (st_made st), st_held := insert l (st_held st)\<rparr>)"
  by (simp add: acquire_def lock_acquire_def Let_def)

lemma hold_free:
  "he_flock env \<Longrightarrow> l \<notin> st_held st \<Longrightarrow>
     hold env w l st = (Inr (), st\<lparr>st_made := insert l (st_made st), st_held := insert l (st_held st)\<rparr>)"
  unfolding hold_def by (subst hold_from.simps) (simp add: acquire_free)

text \<open>Both locks are free, and different.\<close>

definition locks_free :: "host_env \<Rightarrow> string \<Rightarrow> string \<Rightarrow> store \<Rightarrow> bool" where
  "locks_free env p run st \<longleftrightarrow> he_flock env \<and> writer_lock_path p \<notin> st_held st
     \<and> (case lock_path env p run of Inl e \<Rightarrow> False | Inr l \<Rightarrow> l \<notin> st_held st \<and> l \<noteq> writer_lock_path p)"

lemma seal_lost_locks:
  assumes "locks_free env p run st" and "spec_for reason = Inr sp"
    and "\<And>st2. st_file st2 = st_file st \<Longrightarrow> seal_locked env run sp detail task n st2 = (r, st2\<lparr>st_file := f\<rparr>)"
  shows "\<exists>st'. seal_lost_run env p run reason detail task n st = (r, st') \<and> st_file st' = f \<and> st_held st' = st_held st"
proof -
  let ?w = "writer_lock_path p"
  from assms(1) obtain l where l: "lock_path env p run = Inr l" "l \<notin> st_held st" "l \<noteq> ?w" "he_flock env" "?w \<notin> st_held st"
    by (auto simp: locks_free_def split: sum.splits)
  show ?thesis
    using l assms(2)
    by (auto simp: seal_lost_run_def seq_def chain_def from_result_def hold_free ensuring_def release_def
        lock_release_def assms(3) split: prod.splits sum.splits)
qed

lemma seal_append_event:
  assumes "log_events lg = evs" and "log_run lg = run" and "log_sink lg = Some raw"
    and "event_ok \<lparr>ev_run = run, ev_seq = int (length evs), ev_kind = kind, ev_at = tm, ev_iteration = it,
      ev_call = PNone, ev_payload = redact_payload payload\<rparr>"
  shows "\<exists>lg'. seal_append tm kind it payload lg st = (Inr lg', st\<lparr>st_file := Some (raw @ line_of (event_dict
     \<lparr>ev_run = run, ev_seq = int (length evs), ev_kind = kind, ev_at = tm, ev_iteration = it,
      ev_call = PNone, ev_payload = redact_payload payload\<rparr>))\<rparr>)"
  using assms by (simp add: seal_append_def log_append_def mk_event_def Let_def sink_write_line)

lemma iteration_numbers:
  "map_res (\<lambda>r. py_int (get_or r ''iteration'' (PInt 0))) (map event_dict evs) = Inr (map ev_iteration evs)"
proof (induction evs)
  case (Cons e evs)
  have "get_or (event_dict e) ''iteration'' (PInt 0) = PInt (ev_iteration e)" by (simp add: event_dict_def get_or_def)
  with Cons show ?case by (simp add: py_int_def)
qed simp

lemma last_iteration_events: "evs \<noteq> [] \<Longrightarrow> last_iteration (map event_dict evs) = Inr (top_iteration evs)"
  unfolding last_iteration_def iteration_numbers by (cases evs) (simp_all add: top_iteration_def)

lemma seal_locked_open:
  assumes h: "interrupted_history run evs" and rd: "readable env evs" and raw: "st_file st = Some raw" "torn_text evs raw"
    and sp: "spec_reason sp = r"
  shows "seal_locked env run sp detail task n st = (Inr (reason_name r, True),
     st\<lparr>st_file := Some (log_text (evs @ [sealed_event env run sp detail evs]))\<rparr>)"
proof -
  let ?st = "st\<lparr>st_file := Some (log_text evs)\<rparr>"
  have f: "st_file ?st = Some (log_text evs)" by simp
  note rs = run_records_text [OF f rd interrupted_facts(3) [OF h]]
  have none: "stop_record (map event_dict evs) = None"
    using interrupted_facts(5) [OF h] by (auto simp: stop_record_def find_None_iff)
  have lg: "mk_log run (Some (log_text evs)) (map event_dict evs) =
      Inr \<lparr>log_run = run, log_sink = Some (log_text evs), log_events = evs\<rparr>"
    using mk_log_records [of "\<lparr>log_run = run, log_sink = None :: unit option, log_events = evs\<rparr>" "Some (log_text evs)"] h
    by (simp add: interrupted_history_def)
  obtain lg' where app: "seal_append (he_stamp env 1) ''run_stopped'' (top_iteration evs) (parent_stop sp detail)
      \<lparr>log_run = run, log_sink = Some (log_text evs), log_events = evs\<rparr> ?st =
      (Inr lg', ?st\<lparr>st_file := Some (log_text evs @ line_of (event_dict (sealed_event env run sp detail evs)))\<rparr>)"
    using seal_append_event [of "\<lparr>log_run = run, log_sink = Some (log_text evs), log_events = evs\<rparr>" evs run
        "log_text evs" "''run_stopped''" "he_stamp env 1" "top_iteration evs" "parent_stop sp detail" ?st]
      sealed_ok [OF h, of env sp detail] unfolding sealed_event_def by auto
  have "seal_open env run sp detail task n (map event_dict evs) ?st = (Inr (reason_name r, True),
      st\<lparr>st_file := Some (log_text (evs @ [sealed_event env run sp detail evs]))\<rparr>)"
    using interrupted_facts(1) [OF h] lg app sp
    by (simp add: seal_open_def chain_def seq_def look_def from_result_def give_def last_iteration_events log_text_snoc)
  then show ?thesis
    using raw rs none open_torn [OF raw(2)]
    by (simp add: seal_locked_def chain_def seq_def look_def from_result_def change_def)
qed

subsection \<open>Reading the run again\<close>

definition sealed_history :: "host_env \<Rightarrow> string \<Rightarrow> stop_spec \<Rightarrow> string \<Rightarrow> event list \<Rightarrow> event list" where
  "sealed_history env run sp detail evs = evs @ [sealed_event env run sp detail evs]"

lemma sealed_run_of: "interrupted_history run evs \<Longrightarrow> \<forall>e \<in> set (sealed_history env run sp detail evs). ev_run e = run"
  using interrupted_facts(3) [of run evs] by (auto simp: sealed_history_def sealed_event_def)

lemma seal_locked_closed:
  assumes h: "interrupted_history run evs" and rd: "readable env (sealed_history env run sp detail evs)"
    and st: "st_file st = Some (log_text (sealed_history env run sp detail evs))"
  shows "seal_locked env run sp2 detail2 task n st = (Inr (reason_name (spec_reason sp), False), st)"
proof -
  let ?evs = "sealed_history env run sp detail evs" and ?e = "sealed_event env run sp detail evs"
  note rs = run_records_text [OF st rd sealed_run_of [OF h]]
  have "\<forall>d \<in> set (map event_dict evs). get_or d ''kind'' PNone \<noteq> PStr ''run_stopped''"
    using interrupted_facts(5) [OF h] by simp
  then have "find (\<lambda>r. get_or r ''kind'' PNone = PStr ''run_stopped'') (map event_dict evs) = None"
    by (simp add: find_None_iff)
  then have "stop_record (map event_dict ?evs) = Some (event_dict ?e)"
    by (simp add: stop_record_def sealed_history_def find_snoc sealed_event_def)
  moreover have "logged_reason (event_dict ?e) = Inr (reason_name (spec_reason sp))"
    using sealed_payload(4) [of env run sp detail evs] by (simp add: logged_reason_def)
  moreover have "open_sink True (st_file st) = Inr (log_text ?evs)"
    using open_torn [of ?evs "log_text ?evs"] st by (simp add: torn_text_def)
  moreover have same: "st\<lparr>st_file := Some (log_text ?evs)\<rparr> = st" using st by (cases st) simp
  ultimately show ?thesis
    using rs st by (simp add: same seal_locked_def chain_def seq_def look_def from_result_def change_def give_def)
qed

lemma sealed_report:
  assumes h: "interrupted_history run evs" and rd: "readable env (sealed_history env run sp detail evs)"
  shows "\<exists>r. inspect_run (he_loads env) (Some (log_text (sealed_history env run sp detail evs))) run = Inr r
    \<and> ir_finished r \<noteq> PNone \<and> ir_status r = PStr (status_name (spec_status sp))
    \<and> ir_reason r = PStr (reason_name (spec_reason sp))"
proof -
  let ?evs = "sealed_history env run sp detail evs" and ?e = "sealed_event env run sp detail evs"
  have stop: "last_stop ?evs = Some ?e" by (simp add: last_stop_def sealed_history_def sealed_event_def)
  from inspect_consistent [of "\<lparr>log_run = run, log_sink = None :: unit option, log_events = ?evs\<rparr>"] sealed_consistent [OF h]
  obtain r where r: "inspect_records run (map event_dict ?evs) = Inr r" "reports r run ?evs"
    by (auto simp: sealed_history_def)
  have "of_run run (map event_dict ?evs) = map event_dict ?evs"
    using sealed_run_of [OF h] by (simp add: of_run_def filter_id_conv)
  then have "inspect_run (he_loads env) (Some (log_text ?evs)) run = Inr r"
    using read_log_text [OF rd] r(1) interrupted_facts(4) [OF h]
    by (simp add: inspect_run_def as_inspect_error_def dict_records_def list_all_iff comp_def)
  then show ?thesis using r(2) stop sealed_payload [of env run sp detail evs] by (simp add: reports_def)
qed

lemma sealed_status:
  assumes h: "interrupted_history run evs" and rd: "readable env (sealed_history env run sp detail evs)"
    and st: "st_file st = Some (log_text (sealed_history env run sp detail evs))" and free: "locks_free env p run st0"
  shows "\<exists>r. run_status env p run (\<lambda>_. st) = Inr r \<and> so_state r = ''finished''
    \<and> so_reason r = PStr (reason_name (spec_reason sp)) \<and> so_status r = PStr (status_name (spec_status sp))"
proof -
  let ?evs = "sealed_history env run sp detail evs"
  from free obtain l where l: "lock_path env p run = Inr l" "he_flock env" by (auto simp: locks_free_def split: sum.splits)
  then have v: "validate_run_id run = Inr run" by (auto simp: lock_path_def sidecar_def bind_res_Inr validate_run_id_def split: if_splits)
  have ne: "?evs \<noteq> []" by (simp add: sealed_history_def)
  have k: "get_key (last (map event_dict ?evs)) ''kind'' = Inr (PStr (ev_kind (last ?evs)))"
    using ne by (simp add: last_map)
  from sealed_report [OF h rd] obtain r where "inspect_run (he_loads env) (st_file st) run = Inr r"
    "ir_finished r \<noteq> PNone" "ir_status r = PStr (status_name (spec_status sp))" "ir_reason r = PStr (reason_name (spec_reason sp))"
    using st by auto
  then show ?thesis
    using v l ne k run_records_text(2) [OF st rd sealed_run_of [OF h]]
    by (simp add: run_status_def is_locked_def cancel_path_def sidecar_def state_of_run_def)
qed

subsection \<open>The sealed run\<close>

text \<open>C11. A lost run that is sealed is over, for the reason it was sealed with. When the log holds the
  consistent records of a run that began and did not stop, with at most one unfinished line after
  them, and nobody holds the locks, sealing appends exactly one stop record to the whole records, gives both
  locks back, and whoever reads the run's status from the log then finds it finished with that
  reason and its declared status. A second seal, whatever its reason, returns the first one's reason
  and leaves the log as it is.\<close>

theorem sealed_run_is_finished:
  assumes "interrupted_history run evs" and "st_file st = Some raw" and "torn_text evs raw"
    and "locks_free env p run st" and "spec_for reason = Inr sp"
    and "readable env (sealed_history env run sp detail evs)"
  shows "\<exists>st'. seal_lost_run env p run reason detail task n st = (Inr (reason, True), st')
    \<and> st_file st' = Some (log_text (sealed_history env run sp detail evs)) \<and> st_held st' = st_held st
    \<and> (\<exists>r. run_status env p run (\<lambda>_. st') = Inr r \<and> so_state r = ''finished'' \<and> so_reason r = PStr reason
          \<and> so_status r = PStr (status_name (spec_status sp)))
    \<and> (\<forall>k detail2. \<exists>st''. seal_lost_run env p run (reason_name k) detail2 task n st' = (Inr (reason, False), st'')
          \<and> st_file st'' = st_file st')"
proof -
  let ?evs = "sealed_history env run sp detail evs"
  have rd: "readable env evs" using assms(6) by (simp add: readable_def sealed_history_def)
  note nm = spec_for_reason [OF assms(5)]
  have "seal_locked env run sp detail task n st2 = (Inr (reason, True), st2\<lparr>st_file := Some (log_text ?evs)\<rparr>)"
    if "st_file st2 = st_file st" for st2 :: store
    using seal_locked_open [OF assms(1) rd, of st2 raw sp "spec_reason sp"] that assms(2,3) nm by (simp add: sealed_history_def)
  from seal_lost_locks [OF assms(4,5) this] obtain st' where st':
    "seal_lost_run env p run reason detail task n st = (Inr (reason, True), st')"
    "st_file st' = Some (log_text ?evs)" "st_held st' = st_held st" by blast
  have free: "locks_free env p run st'" using assms(4) st'(3) by (simp add: locks_free_def split: sum.splits)
  have "\<exists>st''. seal_lost_run env p run (reason_name k) detail2 task n st' = (Inr (reason, False), st'')
      \<and> st_file st'' = st_file st'" for k detail2
  proof -
    obtain sp2 where sp2: "spec_for (reason_name k) = Inr sp2" using spec_for_name by blast
    have "seal_locked env run sp2 detail2 task n st2 = (Inr (reason, False), st2\<lparr>st_file := st_file st'\<rparr>)"
      if "st_file st2 = st_file st'" for st2 :: store
      using seal_locked_closed [OF assms(1,6), of st2 sp2 detail2 task n] that st'(2) nm by simp
    from seal_lost_locks [OF free sp2 this] show ?thesis by blast
  qed
  with st' sealed_status [OF assms(1,6) st'(2) assms(4)] nm show ?thesis by blast
qed

definition start_event :: event where
  "start_event = \<lparr>ev_run = ''r'', ev_seq = 0, ev_kind = ''run_started'', ev_at = ''t'', ev_iteration = 0,
     ev_call = PNone, ev_payload = started_payload durable_env durable_args\<rparr>"

definition lost_event :: event where
  "lost_event = sealed_event durable_host ''r'' (spec_of ToolError) ''gone'' [start_event]"

definition sealing_host :: host_env where
  "sealing_host = durable_host\<lparr>he_loads := (\<lambda>l.
     if l = line_of (event_dict start_event) then Inr (PDict (event_dict start_event))
     else if l = line_of (event_dict lost_event) then Inr (PDict (event_dict lost_event))
     else Inl JSONDecodeError)\<rparr>"

definition torn_store :: store where
  "torn_store = \<lparr>st_file = Some (line_of (event_dict start_event) @ ''{run''), st_held = {}, st_made = {}\<rparr>"

lemma begun_valid: "case validate_history ''r'' [event_dict start_event] of Inr v \<Rightarrow> True | Inl e \<Rightarrow> False"
  by code_simp

lemma begun_history: "interrupted_history ''r'' [start_event]"
proof -
  let ?log = "\<lparr>log_run = ''r'', log_sink = None :: unit option, log_events = [start_event]\<rparr>"
  have ok: "log_ok ?log"
    by (simp add: start_event_def log_ok_def event_ok_def event_kinds_def needs_call_def)
  then have "consistent ''r'' [start_event]"
    using validate_consistent [OF ok] begun_valid
    by (auto simp: mk_log_records [OF ok, simplified] validate_history_def as_inspect_error_def bind_res_Inr split: sum.splits)
  with ok show ?thesis by (simp add: interrupted_history_def last_stop_def start_event_def)
qed

lemma lines_differ: "line_of (event_dict lost_event) \<noteq> line_of (event_dict start_event)"
  by code_simp

lemma lost_plain: "plain_record (event_dict start_event) \<and> plain_record (event_dict lost_event)"
  by code_simp

lemma lost_history: "sealed_history sealing_host ''r'' (spec_of ToolError) ''gone'' [start_event] = [start_event, lost_event]"
  by (simp add: sealed_history_def lost_event_def sealed_event_def sealing_host_def)

lemma torn_free: "locks_free sealing_host ''log'' ''r'' torn_store"
  by code_simp

theorem sealed_run_is_finished_witness:
  "\<exists>st'. seal_lost_run sealing_host ''log'' ''r'' ''tool_error'' ''gone'' ''look'' 2 torn_store = (Inr (''tool_error'', True), st')
    \<and> st_file st' = Some (log_text [start_event, lost_event]) \<and> st_held st' = {}
    \<and> (\<exists>r. run_status sealing_host ''log'' ''r'' (\<lambda>_. st') = Inr r \<and> so_state r = ''finished'')"
proof -
  have "torn_text [start_event] (line_of (event_dict start_event) @ ''{run'')"
    unfolding torn_text_def by (rule exI [of _ "''{run''"]) (simp add: log_text_def is_linebreak_def)
  moreover have "readable sealing_host [start_event, lost_event]"
    using lost_plain lines_differ by (simp add: readable_def sealing_host_def)
  ultimately show ?thesis
    using sealed_run_is_finished [OF begun_history, of torn_store _ sealing_host "''log''" "''tool_error''" "spec_of ToolError"
      "''gone''" "''look''" 2, unfolded lost_history]
      torn_free spec_for_name [of ToolError] by (simp add: torn_store_def) blast
qed

end
