(* ===== verification/Feedback.thy ===== *)
theory Feedback
  imports Host_Api Approval Schemas "HOL-Library.Product_Lexorder"
begin

section \<open>A person's verdict on a run (atlas_core/feedback.py)\<close>

text \<open>
  A verdict becomes a candidate, the gate checks it against its schema and the run's log, and a
  promotion appends it to the learnings, once. The store is two JSON-lines files (\<open>None\<close> for a
  file that does not exist) and the promotion lock. A promotion holds the lock from its first read
  to its last write, and the others wait for it, so operations are functions of the store; the log is written by
  other processes and read twice, so it is given per read. The parser, the hash, the clock and what
  \<open>os.write\<close> managed to write of a line are the environment's.
\<close>

record feedback_env =
  fe_flock :: bool
  fe_loads :: "string \<Rightarrow> pyval result"
  fe_sha :: "string \<Rightarrow> string"
  fe_stamp :: string
  fe_wrote :: "string \<Rightarrow> string result"

record shelf =
  sf_candidates :: "string option"
  sf_learnings :: "string option"

definition candidate_schema_name :: string where "candidate_schema_name = ''atlas-learning-candidate.v1''"
definition learning_schema_name :: string where "learning_schema_name = ''atlas-learning.v1''"
definition outcome_names :: "string list" where "outcome_names = [''confirmed'', ''rejected'']"
definition max_lesson :: int where "max_lesson = 2000"

subsection \<open>The schema of a candidate\<close>

abbreviation jtype :: "string \<Rightarrow> string \<times> pyval" where "jtype t \<equiv> (''type'', PStr t)"
abbreviation jobj :: "string list \<Rightarrow> (string \<times> pyval) list \<Rightarrow> (string \<times> pyval) list" where
  "jobj req props \<equiv> [jtype ''object'', (''additionalProperties'', PBool False),
     (''required'', PList (map PStr req)), (''properties'', PDict props)]"

definition hex_32 :: string where "hex_32 = ''^[0-9a-f]{32}$''"
definition hex_64 :: string where "hex_64 = ''^[0-9a-f]{64}$''"

definition text_or_null :: pyval where
  "text_or_null = PDict [(''type'', PList [PStr ''string'', PStr ''null''])]"

definition plain_text :: pyval where "plain_text = PDict [jtype ''string'']"
definition some_text :: pyval where "some_text = PDict [jtype ''string'', (''minLength'', PInt 1)]"

definition source_schema :: dict where
  "source_schema = jobj [''source_id'', ''path'', ''sha256'']
     [(''source_id'', plain_text), (''path'', plain_text), (''sha256'', plain_text)]"

definition provenance_schema :: dict where
  "provenance_schema = jobj [''event_log_sha256'', ''run_stopped_event_id'', ''stop_reason'', ''task_sha256'',
       ''route'', ''sources'']
     [(''event_log_sha256'', PDict [jtype ''string'', (''pattern'', PStr hex_64)]),
      (''run_stopped_event_id'', plain_text), (''stop_reason'', text_or_null),
      (''task_sha256'', text_or_null), (''route'', text_or_null),
      (''sources'', PDict [jtype ''array'', (''items'', PDict source_schema)])]"

text \<open>The keywords of \<open>CANDIDATE_JSON_SCHEMA\<close> that \<open>schema_errors\<close> reads; the \<open>$schema\<close>, \<open>$id\<close>, \<open>title\<close>
  and \<open>description\<close> it skips are left out.\<close>

definition candidate_schema :: dict where
  "candidate_schema = jobj [''schema'', ''candidate_id'', ''run_id'', ''outcome'', ''lesson'', ''provenance'',
       ''recorded_by'', ''recorded_at'']
     [(''schema'', PDict [(''const'', PStr candidate_schema_name)]),
      (''candidate_id'', PDict [jtype ''string'', (''pattern'', PStr hex_32)]),
      (''run_id'', some_text), (''outcome'', PDict [(''enum'', PList (map PStr outcome_names))]),
      (''lesson'', PDict [jtype ''string'', (''minLength'', PInt 1), (''maxLength'', PInt max_lesson)]),
      (''provenance'', PDict provenance_schema), (''recorded_by'', some_text), (''recorded_at'', plain_text)]"

definition hex_char :: "char \<Rightarrow> bool" where
  "hex_char c \<longleftrightarrow> ch_digit c \<or> 97 \<le> code c \<and> code c \<le> 102"

text \<open>\<open>re.search\<close> of the two patterns the schema has: \<open>$\<close> also matches before a last line feed.\<close>

definition hex_search :: "nat \<Rightarrow> string \<Rightarrow> bool" where
  "hex_search n s \<longleftrightarrow> list_all hex_char (take n s) \<and> (length s = n \<or> length s = Suc n \<and> last s = LF)"

definition pattern_found :: "string \<Rightarrow> string \<Rightarrow> bool" where
  "pattern_found p s \<longleftrightarrow> (if p = hex_32 then hex_search 32 s else p = hex_64 \<and> hex_search 64 s)"

definition known_keywords :: "string list" where
  "known_keywords = [''$schema'', ''$id'', ''title'', ''description'', ''type'', ''const'', ''enum'', ''pattern'',
     ''minLength'', ''maxLength'', ''required'', ''properties'', ''additionalProperties'', ''items'']"

text \<open>The texts of a list of names; Python fails in its own way where another value stands.\<close>

definition names_in :: "pyval \<Rightarrow> string list result" where
  "names_in v = (case v of
     PList xs \<Rightarrow> map_res (\<lambda>x. case x of PStr s \<Rightarrow> Inr s | _ \<Rightarrow> Inl TypeError) xs | _ \<Rightarrow> Inl TypeError)"

definition wanted_types :: "pyval \<Rightarrow> string list result" where
  "wanted_types v = (case v of PStr s \<Rightarrow> Inr [s] | _ \<Rightarrow> names_in v)"

definition bound_of :: "pyval \<Rightarrow> int result" where
  "bound_of v = (case v of PInt i \<Rightarrow> Inr i | _ \<Rightarrow> Inl TypeError)"

definition shown_names :: "string list \<Rightarrow> string" where
  "shown_names ts = repr_val (PList (map PStr ts))"

text \<open>The keywords about the value itself: \<open>const\<close>, \<open>enum\<close> and those of strings.\<close>

definition const_errors :: "string \<Rightarrow> pyval \<Rightarrow> dict \<Rightarrow> string list" where
  "const_errors p v s = (case map_of s ''const'' of
     None \<Rightarrow> [] | Some c \<Rightarrow> if py_eq v c then [] else [p @ '': not '' @ repr_val c])"

definition enum_errors :: "string \<Rightarrow> pyval \<Rightarrow> dict \<Rightarrow> string list result" where
  "enum_errors p v s = (case map_of s ''enum'' of
     None \<Rightarrow> Inr []
   | Some c \<Rightarrow> bind_res (py_in v c) (\<lambda>b. Inr (if b then [] else [p @ '': not one of '' @ str_val c])))"

definition text_errors :: "(string \<Rightarrow> string \<Rightarrow> bool) \<Rightarrow> string \<Rightarrow> string \<Rightarrow> dict \<Rightarrow> string list result" where
  "text_errors found p t s =
     bind_res (case map_of s ''minLength'' of None \<Rightarrow> Inr [] | Some m \<Rightarrow> bind_res (bound_of m) (\<lambda>n.
       Inr (if int (length t) < n then [p @ '': shorter than '' @ str_val m] else []))) (\<lambda>short.
     bind_res (case map_of s ''maxLength'' of None \<Rightarrow> Inr [] | Some m \<Rightarrow> bind_res (bound_of m) (\<lambda>n.
       Inr (if n < int (length t) then [p @ '': longer than '' @ str_val m] else []))) (\<lambda>long.
     bind_res (case map_of s ''pattern'' of None \<Rightarrow> Inr [] | Some (PStr r) \<Rightarrow>
         Inr (if found r t then [] else [p @ '': does not match '' @ r]) | Some v \<Rightarrow> Inl TypeError) (\<lambda>shape.
     Inr (short @ long @ shape))))"

definition sub_schemas :: "dict \<Rightarrow> dict result" where
  "sub_schemas s = (case get_or s ''properties'' (PDict []) of PDict d \<Rightarrow> Inr d | _ \<Rightarrow> Inl TypeError)"

definition name_errors :: "string \<Rightarrow> dict \<Rightarrow> dict \<Rightarrow> dict \<Rightarrow> string list result" where
  "name_errors p d s props = bind_res (names_in (get_or s ''required'' (PList []))) (\<lambda>req.
     Inr (map (\<lambda>k. p @ ''.'' @ k @ '': missing'') (filter (\<lambda>k. k \<notin> fst ` set d) req)
       @ (if get_or s ''additionalProperties'' PNone = PBool False
          then map (\<lambda>k. p @ ''.'' @ k @ '': not allowed'')
            (sorted_set (filter (\<lambda>k. k \<notin> fst ` set props) (map fst d)))
          else [])))"

text \<open>What is said of a value before its parts are looked at: \<open>Inl\<close> ends the check with it.\<close>

definition head_errors :: "string \<Rightarrow> pyval \<Rightarrow> dict \<Rightarrow> (string list + unit) result" where
  "head_errors p v s =
     (let odd = filter (\<lambda>k. k \<notin> set known_keywords) (map fst s) in
      if odd \<noteq> [] then Inr (Inl [p @ '': schema uses unsupported keywords '' @ shown_names (sorted_set odd)])
      else (case map_of s ''type'' of None \<Rightarrow> Inr (Inr ()) | Some t \<Rightarrow> bind_res (wanted_types t) (\<lambda>ts.
        Inr (if \<not> list_all (\<lambda>n. n \<in> set schema_types) ts
             then Inl [p @ '': schema uses unsupported type '' @ shown_names ts]
             else if \<not> list_ex (\<lambda>n. has_type n v) ts then Inl [p @ '': not '' @ shown_names ts]
             else Inr ()))))"

definition own_errors :: "(string \<Rightarrow> string \<Rightarrow> bool) \<Rightarrow> string \<Rightarrow> pyval \<Rightarrow> dict \<Rightarrow> string list result" where
  "own_errors found p v s = bind_res (enum_errors p v s) (\<lambda>es.
     bind_res (case v of PStr t \<Rightarrow> text_errors found p t s | _ \<Rightarrow> Inr []) (\<lambda>ts.
     bind_res (case v of PDict d \<Rightarrow> bind_res (sub_schemas s) (name_errors p d s) | _ \<Rightarrow> Inr []) (\<lambda>ns.
     Inr (const_errors p v s @ es @ ts @ ns))))"

text \<open>\<open>f"{path}[{index}]"\<close>.\<close>

definition indexed :: "string \<Rightarrow> nat \<Rightarrow> string" where "indexed p i = p @ ''['' @ str_nat i @ '']''"

definition as_schema :: "pyval \<Rightarrow> dict result" where
  "as_schema w = (case w of PDict c \<Rightarrow> Inr c | _ \<Rightarrow> Inl TypeError)"

definition sub_schema :: "dict \<Rightarrow> string \<Rightarrow> dict result" where
  "sub_schema props k = (case map_of props k of Some w \<Rightarrow> as_schema w | None \<Rightarrow> Inl KeyError)"

lemma size_in_object [termination_simp]: "(k, x) \<in> set d \<Longrightarrow> size x < Suc (size_list (size_prod (\<lambda>_. 0) size) d)"
  by (drule size_list_estimation [of _ _ "size x" "size_prod (\<lambda>_. 0) size"]) (simp_all add: less_Suc_eq_le)

lemma size_in_array [termination_simp]: "(i, x) \<in> set (enumerate n xs) \<Longrightarrow> size x < Suc (size_list size xs)"
  by (auto simp: enumerate_eq_zip less_Suc_eq_le intro: size_list_estimation' dest: set_zip_rightD)

function schema_errors :: "(string \<Rightarrow> string \<Rightarrow> bool) \<Rightarrow> pyval \<Rightarrow> dict \<Rightarrow> string \<Rightarrow> string list result" where
  "schema_errors found v s p = bind_res (head_errors p v s) (\<lambda>h. case h of
     Inl stop \<Rightarrow> Inr stop
   | Inr u \<Rightarrow> bind_res (own_errors found p v s) (\<lambda>own.
       bind_res (case v of
           PDict d \<Rightarrow> bind_res (sub_schemas s) (\<lambda>props. map_res (\<lambda>(k, x).
             if k \<in> fst ` set props
             then bind_res (sub_schema props k) (\<lambda>c. schema_errors found x c (p @ ''.'' @ k)) else Inr []) d)
         | PList xs \<Rightarrow> (case map_of s ''items'' of None \<Rightarrow> Inr []
             | Some w \<Rightarrow> bind_res (as_schema w) (\<lambda>c.
                 map_res (\<lambda>(i, x). schema_errors found x c (indexed p i)) (enumerate 0 xs)))
         | _ \<Rightarrow> Inr []) (\<lambda>parts. Inr (own @ concat parts))))"
  by pat_completeness auto
termination
  by (relation "measure (\<lambda>(_, v, _, _). size v)") (auto simp: termination_simp)

declare schema_errors.simps [simp del]

subsection \<open>What the log says of a run\<close>

text \<open>\<open>read_jsonl\<close> of a file and the digest of its bytes.\<close>

definition read_file :: "feedback_env \<Rightarrow> string option \<Rightarrow> pyval list result" where
  "read_file env file = (case file of None \<Rightarrow> Inl FileMissing | Some raw \<Rightarrow> read_jsonl (fe_loads env) raw)"

definition sha256_file :: "feedback_env \<Rightarrow> string option \<Rightarrow> string result" where
  "sha256_file env file = (case file of None \<Rightarrow> Inl FileMissing | Some raw \<Rightarrow> Inr (fe_sha env raw))"

definition need_dict :: "pyval \<Rightarrow> dict result" where
  "need_dict v = (case v of PDict d \<Rightarrow> Inr d | _ \<Rightarrow> Inl no_attribute)"

definition kind_is :: "string \<Rightarrow> dict \<Rightarrow> bool" where
  "kind_is k r \<longleftrightarrow> get_or r ''kind'' PNone = PStr k"

text \<open>\<open>(r.get("payload") or {})\<close>, and \<open>r.get("payload", {})\<close>.\<close>

definition payload_or_empty :: "dict \<Rightarrow> dict result" where
  "payload_or_empty r = (let v = get_or r ''payload'' PNone in if truthy v then need_dict v else Inr [])"

definition payload_given :: "dict \<Rightarrow> dict result" where
  "payload_given r = need_dict (get_or r ''payload'' (PDict []))"

text \<open>\<open>for added in (...).get("added") or []\<close>, each read with \<open>get\<close>.\<close>

definition added_sources :: "dict \<Rightarrow> dict list result" where
  "added_sources r = bind_res (payload_or_empty r) (\<lambda>q. let v = get_or q ''added'' PNone in
     if \<not> truthy v then Inr []
     else (case v of PList xs \<Rightarrow> need_dicts xs | PStr _ \<Rightarrow> Inl no_attribute | PDict _ \<Rightarrow> Inl no_attribute
         | _ \<Rightarrow> Inl TypeError))"

record read_source =
  re_id :: string
  re_path :: string
  re_sha :: string

definition source_of :: "dict \<Rightarrow> read_source" where
  "source_of d = \<lparr>re_id = str_val (get_or d ''source_id'' PNone), re_path = str_val (get_or d ''path'' PNone),
     re_sha = str_val (get_or d ''sha256'' PNone)\<rparr>"

definition source_key :: "dict \<Rightarrow> string" where
  "source_key d = re_id (source_of d) @ '':'' @ re_sha (source_of d)"

definition source_entry :: "read_source \<Rightarrow> pyval" where
  "source_entry r = PDict [(''source_id'', PStr (re_id r)), (''path'', PStr (re_path r)), (''sha256'', PStr (re_sha r))]"

definition sources_read :: "dict list \<Rightarrow> read_source list result" where
  "sources_read rs = bind_res (map_res added_sources (filter (kind_is ''observation_recorded'') rs)) (\<lambda>dss.
     Inr (sort_key (\<lambda>s. (re_path s, re_sha s)) (map snd (dict_of source_key source_of (concat dss)))))"

definition last_route :: "dict list \<Rightarrow> pyval result" where
  "last_route rs = bind_res (map_res payload_or_empty (filter (kind_is ''plan_selected'') rs)) (\<lambda>qs.
     Inr (if qs = [] then PNone else get_or (last qs) ''route'' PNone))"

text \<open>The log is read for its records, and again for its digest.\<close>

definition provenance :: "feedback_env \<Rightarrow> (nat \<Rightarrow> string option) \<Rightarrow> string \<Rightarrow> dict result" where
  "provenance env seen run =
     bind_res (read_file env (seen 0)) (\<lambda>vs. bind_res (need_dicts vs) (\<lambda>all.
     let rs = of_run run all; stopped = filter (kind_is ''run_stopped'') rs; started = filter (kind_is ''run_started'') rs in
     if started = [] \<or> stopped = [] then Inl ValueError
     else bind_res (last_route rs) (\<lambda>rt. bind_res (sources_read rs) (\<lambda>srcs.
       bind_res (sha256_file env (seen 1)) (\<lambda>sha.
       bind_res (payload_given (last stopped)) (\<lambda>q. bind_res (payload_given (hd started)) (\<lambda>q0.
       Inr [(''event_log_sha256'', PStr sha),
         (''run_stopped_event_id'', PStr (run @ '':'' @ str_val (get_or (last stopped) ''sequence'' PNone))),
         (''stop_reason'', get_or q ''stop_reason'' PNone), (''task_sha256'', get_or q0 ''task_sha256'' PNone),
         (''route'', rt), (''sources'', PList (map source_entry srcs))])))))))"

subsection \<open>Recording an outcome\<close>

definition candidate_id_of :: "(string \<Rightarrow> string) \<Rightarrow> dict \<Rightarrow> string" where
  "candidate_id_of f body = take 32 (f (dumps (PDict body)))"

text \<open>\<open>_append\<close>: the file is opened, then the line is handed to one \<open>os.write\<close>.\<close>

definition append_line :: "feedback_env \<Rightarrow> dict \<Rightarrow> string option \<Rightarrow> unit result \<times> string option" where
  "append_line env r file = (let old = (case file of None \<Rightarrow> [] | Some t \<Rightarrow> t) in
     case fe_wrote env (line_of r) of Inl e \<Rightarrow> (Inl e, Some old) | Inr w \<Rightarrow> (Inr (), Some (old @ w)))"

definition append_candidate :: "feedback_env \<Rightarrow> dict \<Rightarrow> (shelf, unit) act" where
  "append_candidate env r sf = (case append_line env r (sf_candidates sf) of
     (x, file) \<Rightarrow> (x, sf\<lparr>sf_candidates := file\<rparr>))"

definition append_learning :: "feedback_env \<Rightarrow> dict \<Rightarrow> (shelf, unit) act" where
  "append_learning env r sf = (case append_line env r (sf_learnings sf) of
     (x, file) \<Rightarrow> (x, sf\<lparr>sf_learnings := file\<rparr>))"

definition outcome_body :: "string \<Rightarrow> string \<Rightarrow> string \<Rightarrow> dict \<Rightarrow> dict" where
  "outcome_body run outcome lesson prov = [(''run_id'', PStr run), (''outcome'', PStr outcome),
     (''lesson'', PStr lesson), (''provenance'', PDict prov)]"

definition mk_candidate :: "feedback_env \<Rightarrow> dict \<Rightarrow> string \<Rightarrow> dict" where
  "mk_candidate env body recorder = [(''schema'', PStr candidate_schema_name),
     (''candidate_id'', PStr (candidate_id_of (fe_sha env) body))] @ body
     @ [(''recorded_by'', PStr recorder), (''recorded_at'', PStr (fe_stamp env))]"

definition record_outcome ::
  "feedback_env \<Rightarrow> (nat \<Rightarrow> string option) \<Rightarrow> string \<Rightarrow> string \<Rightarrow> string \<Rightarrow> string \<Rightarrow> (shelf, dict) act" where
  "record_outcome env seen run outcome lesson recorder =
     (let masked = redact_text (strip lesson) in
      seq (from_result (require (outcome \<in> set outcome_names) ValueError))
      (seq (from_result (require (\<not> blank masked) ValueError))
      (seq (from_result (require (int (length masked) \<le> max_lesson) ValueError))
      (seq (from_result (require (\<not> blank recorder) ValueError))
      (chain (from_result (provenance env seen run)) (\<lambda>prov.
        let c = mk_candidate env (outcome_body run outcome masked prov) recorder in
        seq (append_candidate env c) (give c)))))))"

subsection \<open>The gate\<close>

definition read_failure :: "exc \<Rightarrow> bool" where
  "read_failure e \<longleftrightarrow> e \<in> {ValueError, JSONDecodeError, OSError, FileMissing}"

definition blank_fields :: "dict \<Rightarrow> string list result" where
  "blank_fields c = bind_res (map_res (\<lambda>k. bind_res (get_key c k) (\<lambda>v.
       Inr (if blank (str_val v) then [''$.'' @ k @ '': blank''] else [])))
     [''run_id'', ''lesson'', ''recorded_by'']) (\<lambda>xs. Inr (concat xs))"

definition wrong_id :: "feedback_env \<Rightarrow> dict \<Rightarrow> string list result" where
  "wrong_id env c = bind_res (map_res (\<lambda>k. bind_res (get_key c k) (\<lambda>v. Inr (k, v)))
       [''run_id'', ''outcome'', ''lesson'', ''provenance'']) (\<lambda>body.
     bind_res (get_key c ''candidate_id'') (\<lambda>v.
     Inr (if py_eq (PStr (candidate_id_of (fe_sha env) body)) v then []
       else [''candidate_id does not match its content''])))"

definition pinned_keys :: "string list" where
  "pinned_keys = [''run_stopped_event_id'', ''stop_reason'', ''task_sha256'', ''route'', ''sources'']"

definition same_entry :: "dict \<Rightarrow> dict \<Rightarrow> string \<Rightarrow> bool" where
  "same_entry log_now prov k \<longleftrightarrow> py_eq (get_or log_now k PNone) (get_or prov k PNone)"

definition moved_provenance :: "dict \<Rightarrow> dict \<Rightarrow> string list" where
  "moved_provenance log_now prov =
     (if same_entry log_now prov ''event_log_sha256'' then []
      else [''event log changed since the outcome was recorded''])
     @ map (\<lambda>k. ''provenance.'' @ k @ '' does not match the event log'')
         (filter (\<lambda>k. \<not> same_entry log_now prov k) pinned_keys)"

definition check_log :: "feedback_env \<Rightarrow> (nat \<Rightarrow> string option) \<Rightarrow> dict \<Rightarrow> string list result" where
  "check_log env seen c = bind_res (get_key c ''provenance'') (\<lambda>pv. bind_res (get_key c ''run_id'') (\<lambda>rv.
     case provenance env seen (str_val rv) of
       Inl e \<Rightarrow> if read_failure e then Inr [''event log unreadable: '' @ exc_name e] else Inl e
     | Inr log_now \<Rightarrow> bind_res (need_dict pv) (\<lambda>prov. Inr (moved_provenance log_now prov))))"

definition gate :: "feedback_env \<Rightarrow> (nat \<Rightarrow> string option) \<Rightarrow> dict \<Rightarrow> string list result" where
  "gate env seen c = bind_res (schema_errors pattern_found (PDict c) candidate_schema ''$'') (\<lambda>shape.
     if shape \<noteq> [] then Inr shape
     else bind_res (blank_fields c) (\<lambda>blanks. bind_res (wrong_id env c) (\<lambda>wrong.
       if blanks @ wrong \<noteq> [] then Inr (blanks @ wrong) else check_log env seen c)))"

subsection \<open>Promotion\<close>

definition promotion_refused :: "string list \<Rightarrow> exc" where
  "promotion_refused reasons = Foreign ''PromotionRefused'' (join ''; '' reasons)"

definition named :: "string \<Rightarrow> dict \<Rightarrow> bool" where
  "named cid c \<longleftrightarrow> get_or c ''candidate_id'' PNone = PStr cid"

definition read_shelf :: "feedback_env \<Rightarrow> string option \<Rightarrow> pyval list result" where
  "read_shelf env file = (case file of None \<Rightarrow> Inr [] | Some raw \<Rightarrow> read_jsonl (fe_loads env) raw)"

text \<open>\<open>any(learning.get("candidate", {}).get("candidate_id") == candidate_id ...)\<close>.\<close>

fun promoted_in :: "string \<Rightarrow> pyval list \<Rightarrow> bool result" where
  "promoted_in cid [] = Inr False"
| "promoted_in cid (v # vs) = bind_res (need_dict v) (\<lambda>l. bind_res (need_dict (get_or l ''candidate'' (PDict []))) (\<lambda>c.
     if named cid c then Inr True else promoted_in cid vs))"

definition mk_learning :: "feedback_env \<Rightarrow> dict \<Rightarrow> string \<Rightarrow> dict" where
  "mk_learning env c promoter = [(''schema'', PStr learning_schema_name), (''candidate'', PDict c),
     (''promoted_by'', PStr promoter), (''promoted_at'', PStr (fe_stamp env))]"

definition refuse_if :: "bool \<Rightarrow> string \<Rightarrow> (shelf, unit) act" where
  "refuse_if b why = (if b then throw (promotion_refused [why]) else give ())"

definition promote_locked ::
  "feedback_env \<Rightarrow> (nat \<Rightarrow> string option) \<Rightarrow> string \<Rightarrow> string \<Rightarrow> (shelf, dict) act" where
  "promote_locked env seen cid promoter =
     chain (look (\<lambda>sf. read_shelf env (sf_candidates sf))) (\<lambda>r. chain (from_result r) (\<lambda>vs.
     chain (from_result (need_dicts vs)) (\<lambda>cs. let found = filter (named cid) cs in
     seq (refuse_if (found = []) (''no candidate '' @ py_repr cid))
     (seq (refuse_if (1 < length found) (''candidate '' @ py_repr cid @ '' is recorded more than once''))
     (chain (look (\<lambda>sf. read_shelf env (sf_learnings sf))) (\<lambda>r. chain (from_result r) (\<lambda>ls.
     chain (from_result (promoted_in cid ls)) (\<lambda>again.
     seq (refuse_if again (''candidate '' @ py_repr cid @ '' is already promoted''))
     (chain (from_result (gate env seen (hd found))) (\<lambda>problems.
      if problems \<noteq> [] then throw (promotion_refused problems)
      else let l = mk_learning env (hd found) promoter in
        seq (append_learning env l) (give l)))))))))))"

definition promote ::
  "feedback_env \<Rightarrow> (nat \<Rightarrow> string option) \<Rightarrow> string \<Rightarrow> string \<Rightarrow> (shelf, dict) act" where
  "promote env seen cid promoter =
     seq (refuse_if (blank promoter) ''a promotion names who made it'')
     (seq (refuse_if (\<not> fe_flock env) ''safe cross-process promotion locking is unavailable on this platform'')
       (promote_locked env seen cid promoter))"

end
