(* ===== verification/Promotion.thy ===== *)
theory Promotion
  imports Feedback
begin

section \<open>Nothing is learned by itself\<close>

text \<open>
  What a promotion that returns has established, what the gate's silence means, and the
  invariant of the store under any sequence of operations.
\<close>

definition old_text :: "string option \<Rightarrow> string" where
  "old_text file = (case file of None \<Rightarrow> [] | Some t \<Rightarrow> t)"

text \<open>A promotion that returned \<open>l\<close>.\<close>

definition promotes ::
  "feedback_env \<Rightarrow> (nat \<Rightarrow> string option) \<Rightarrow> string \<Rightarrow> string \<Rightarrow> shelf \<Rightarrow> dict \<Rightarrow> shelf \<Rightarrow> bool" where
  "promotes env seen cid promoter sf l sf' \<longleftrightarrow> \<not> blank promoter \<and> fe_flock env
     \<and> (\<exists>vs cs c ls w. read_shelf env (sf_candidates sf) = Inr vs \<and> need_dicts vs = Inr cs
          \<and> filter (named cid) cs = [c] \<and> read_shelf env (sf_learnings sf) = Inr ls
          \<and> promoted_in cid ls = Inr False \<and> gate env seen c = Inr [] \<and> l = mk_learning env c promoter
          \<and> fe_wrote env (line_of l) = Inr w
          \<and> sf' = sf\<lparr>sf_learnings := Some (old_text (sf_learnings sf) @ w)\<rparr>)"

definition unchanged :: "shelf \<Rightarrow> shelf \<Rightarrow> bool" where
  "unchanged sf sf' \<longleftrightarrow> old_text (sf_candidates sf') = old_text (sf_candidates sf)
     \<and> old_text (sf_learnings sf') = old_text (sf_learnings sf)"

lemma unchanged_refl [simp]: "unchanged sf sf" by (simp add: unchanged_def)

lemma one_found: "xs \<noteq> [] \<Longrightarrow> \<not> Suc 0 < length xs \<Longrightarrow> xs = [hd xs]"
  by (cases xs) auto

lemma after_refuse [afters]:
  "after (refuse_if b why) Q E w = (if b then E (promotion_refused [why]) w else Q () w)"
  by (simp add: refuse_if_def afters)

lemma after_append_learning [afters]:
  "after (append_learning env l) Q E sf = (case fe_wrote env (line_of l) of
     Inl e \<Rightarrow> E e (sf\<lparr>sf_learnings := Some (old_text (sf_learnings sf))\<rparr>)
   | Inr w \<Rightarrow> Q () (sf\<lparr>sf_learnings := Some (old_text (sf_learnings sf) @ w)\<rparr>))"
  by (simp add: after_def append_learning_def append_line_def old_text_def Let_def split: sum.splits option.splits)

lemma after_append_candidate [afters]:
  "after (append_candidate env l) Q E sf = (case fe_wrote env (line_of l) of
     Inl e \<Rightarrow> E e (sf\<lparr>sf_candidates := Some (old_text (sf_candidates sf))\<rparr>)
   | Inr w \<Rightarrow> Q () (sf\<lparr>sf_candidates := Some (old_text (sf_candidates sf) @ w)\<rparr>))"
  by (simp add: after_def append_candidate_def append_line_def old_text_def Let_def split: sum.splits option.splits)

lemma old_text_Some [simp]: "old_text (Some t) = t" by (simp add: old_text_def)

lemma promote_after:
  "after (promote env seen cid promoter) (promotes env seen cid promoter sf) (\<lambda>e. unchanged sf) sf"
  unfolding promote_def promote_locked_def Let_def
  by (auto simp: afters promotes_def unchanged_def split: sum.splits dest: one_found)

subsection \<open>A silent schema check\<close>

lemma parts_silent: "map_res f d = Inr parts \<Longrightarrow> concat parts = [] \<Longrightarrow> x \<in> set d \<Longrightarrow> f x = Inr []"
  by (induction d arbitrary: parts) (auto simp: bind_res_Inr)

lemma head_speaks: "head_errors p v s = Inr (Inl stop) \<Longrightarrow> stop \<noteq> []"
  by (auto simp: head_errors_def Let_def bind_res_Inr split: if_splits option.splits)

lemma silent_own:
  assumes "schema_errors found v s p = Inr []"
  shows "head_errors p v s = Inr (Inr ())" and "own_errors found p v s = Inr []"
  using assms head_speaks [of p v s]
  by (cases "head_errors p v s"; cases "projr (head_errors p v s)";
      auto simp: schema_errors.simps [of found v] bind_res_Inr)+

lemma silent_object:
  assumes "schema_errors found (PDict d) s p = Inr []" and "sub_schemas s = Inr props"
  shows "name_errors p d s props = Inr []"
    and "(k, x) \<in> set d \<Longrightarrow> k \<in> fst ` set props \<Longrightarrow>
      \<exists>c. sub_schema props k = Inr c \<and> schema_errors found x c (p @ ''.'' @ k) = Inr []"
proof -
  note own = silent_own [OF assms(1)]
  from assms own obtain ps where parts: "map_res (\<lambda>(k, x). if k \<in> fst ` set props
        then bind_res (sub_schema props k) (\<lambda>c. schema_errors found x c (p @ ''.'' @ k)) else Inr []) d = Inr ps" "concat ps = []"
    by (auto simp: schema_errors.simps [of found "PDict d"] bind_res_Inr)
  from own(2) assms(2) show "name_errors p d s props = Inr []" by (auto simp: own_errors_def bind_res_Inr)
  show "\<exists>c. sub_schema props k = Inr c \<and> schema_errors found x c (p @ ''.'' @ k) = Inr []"
    if "(k, x) \<in> set d" "k \<in> fst ` set props"
    using parts_silent [OF parts that(1)] that(2) by (auto simp: bind_res_Inr)
qed

lemma has_type_text: "has_type ''string'' v \<longleftrightarrow> is_str v"
  by (cases v) (simp_all add: has_type_def)

lemma silent_type:
  assumes "schema_errors found v s p = Inr []" and "map_of s ''type'' = Some (PStr t)"
  shows "has_type t v"
  using silent_own(1) [OF assms(1)] assms(2)
  by (auto simp: head_errors_def Let_def wanted_types_def split: if_splits)

lemma silent_text:
  assumes "schema_errors found v s p = Inr []" and "map_of s ''type'' = Some (PStr ''string'')"
  shows "\<exists>t. v = PStr t \<and> text_errors found p t s = Inr []"
  using silent_type [OF assms] silent_own(2) [OF assms(1)]
  by (cases v) (auto simp: has_type_text own_errors_def bind_res_Inr)

lemma silent_enum: "schema_errors found v s p = Inr [] \<Longrightarrow> enum_errors p v s = Inr []"
  by (drule silent_own(2)) (auto simp: own_errors_def bind_res_Inr)

lemma names_in_texts: "names_in (PList (map PStr ns)) = Inr ns"
proof -
  have "map_res (\<lambda>x. case x of PStr s \<Rightarrow> Inr s | _ \<Rightarrow> Inl TypeError) (map PStr ns) = Inr ns" by (induction ns) simp_all
  then show ?thesis by (simp add: names_in_def)
qed

lemma silent_names:
  assumes "name_errors p d (jobj req props) props = Inr []"
  shows "set req \<subseteq> fst ` set d" and "fst ` set d \<subseteq> fst ` set props"
  using assms unfolding name_errors_def
  by (auto simp: get_or_def names_in_texts filter_empty_conv)

text \<open>The keys a candidate has, and the values they hold.\<close>

definition hex_text :: "nat \<Rightarrow> pyval \<Rightarrow> bool" where
  "hex_text n v \<longleftrightarrow> (\<exists>t. v = PStr t \<and> hex_search n t)"

definition nonempty_string :: "pyval \<Rightarrow> bool" where
  "nonempty_string v \<longleftrightarrow> (\<exists>t. v = PStr t \<and> t \<noteq> [])"

definition candidate_shape :: "dict \<Rightarrow> bool" where
  "candidate_shape c \<longleftrightarrow>
     fst ` set c = {''schema'', ''candidate_id'', ''run_id'', ''outcome'', ''lesson'', ''provenance'', ''recorded_by'',
       ''recorded_at''}
   \<and> hex_text 32 (get_or c ''candidate_id'' PNone) \<and> nonempty_string (get_or c ''run_id'' PNone)
   \<and> get_or c ''outcome'' PNone \<in> {PStr ''confirmed'', PStr ''rejected''}
   \<and> (\<exists>t. get_or c ''lesson'' PNone = PStr t \<and> t \<noteq> [] \<and> int (length t) \<le> max_lesson)
   \<and> (\<exists>prov. get_or c ''provenance'' PNone = PDict prov
        \<and> fst ` set prov = {''event_log_sha256'', ''run_stopped_event_id'', ''stop_reason'', ''task_sha256'', ''route'',
            ''sources''}
        \<and> hex_text 64 (get_or prov ''event_log_sha256'' PNone))"

lemma known_key: "k \<in> fst ` set d \<Longrightarrow> \<exists>v. map_of d k = Some v \<and> (k, v) \<in> set d \<and> get_or d k PNone = v"
  by (cases "map_of d k") (auto simp: map_of_eq_None_iff get_or_def dest: map_of_SomeD)

lemma get_known: "k \<in> fst ` set d \<Longrightarrow> (k, get_or d k PNone) \<in> set d"
  using known_key by blast

lemma text_length:
  "text_errors found p t s = Inr [] \<Longrightarrow> map_of s ''minLength'' = Some (PInt m) \<Longrightarrow> m \<le> int (length t)"
  "text_errors found p t s = Inr [] \<Longrightarrow> map_of s ''maxLength'' = Some (PInt n) \<Longrightarrow> int (length t) \<le> n"
  "text_errors found p t s = Inr [] \<Longrightarrow> map_of s ''pattern'' = Some (PStr r) \<Longrightarrow> found r t"
  by (auto simp: text_errors_def bind_res_Inr bound_of_def split: if_splits)

lemma nonempty_given:
  assumes "schema_errors f v s p = Inr []" and "map_of s ''type'' = Some (PStr ''string'')"
    and "map_of s ''minLength'' = Some (PInt 1)"
  shows "nonempty_string v"
proof -
  from silent_text [OF assms(1,2)] obtain t where t: "v = PStr t" "text_errors f p t s = Inr []" by blast
  from text_length(1) [OF t(2) assms(3)] have "t \<noteq> []" by auto
  with t(1) show ?thesis by (simp add: nonempty_string_def)
qed

lemma hex_given:
  assumes "schema_errors pattern_found v [jtype ''string'', (''pattern'', PStr r)] p = Inr []"
    and "r = hex_32 \<and> n = 32 \<or> r = hex_64 \<and> n = 64"
  shows "hex_text n v"
proof -
  from silent_text [OF assms(1)] obtain t where
    t: "v = PStr t" "text_errors pattern_found p t [jtype ''string'', (''pattern'', PStr r)] = Inr []" by auto
  from text_length(3) [OF t(2)] have "pattern_found r t" by simp
  with assms(2) t(1) show ?thesis by (auto simp: hex_text_def pattern_found_def hex_32_def hex_64_def split: if_splits)
qed

lemma schema_given:
  assumes "schema_errors found (PDict d) (jobj req props) p = Inr []" and "k \<in> fst ` set d"
  shows "\<exists>c. sub_schema props k = Inr c \<and> schema_errors found (get_or d k PNone) c (p @ ''.'' @ k) = Inr []"
proof -
  have sub: "sub_schemas (jobj req props) = Inr props" by (simp add: sub_schemas_def get_or_def)
  note n = silent_names [OF silent_object(1) [OF assms(1) sub]]
  with assms(2) have "k \<in> fst ` set props" by blast
  from silent_object(2) [OF assms(1) sub get_known [OF assms(2)] this] show ?thesis .
qed

lemma keys_given:
  assumes "schema_errors found (PDict d) (jobj req props) p = Inr []" and "set req = fst ` set props"
  shows "fst ` set d = set req"
proof -
  have sub: "sub_schemas (jobj req props) = Inr props" by (simp add: sub_schemas_def get_or_def)
  from silent_names [OF silent_object(1) [OF assms(1) sub]] assms(2) show ?thesis by simp
qed

lemma provenance_given:
  assumes "schema_errors pattern_found v provenance_schema p = Inr []"
  shows "\<exists>prov. v = PDict prov
    \<and> fst ` set prov = {''event_log_sha256'', ''run_stopped_event_id'', ''stop_reason'', ''task_sha256'', ''route'',
        ''sources''} \<and> hex_text 64 (get_or prov ''event_log_sha256'' PNone)"
proof -
  have "has_type ''object'' v" using silent_type [OF assms] by (simp add: provenance_schema_def)
  then obtain prov where v: "v = PDict prov" by (cases v) (auto simp: has_type_def)
  note given = assms [unfolded v provenance_schema_def]
  have k: "fst ` set prov = {''event_log_sha256'', ''run_stopped_event_id'', ''stop_reason'', ''task_sha256'', ''route'',
        ''sources''}"
    using keys_given [OF given] by simp
  have "hex_text 64 (get_or prov ''event_log_sha256'' PNone)"
    using schema_given [OF given, of "''event_log_sha256''"] k
    by (auto simp: sub_schema_def as_schema_def intro: hex_given)
  with v k show ?thesis by blast
qed

lemma candidate_given:
  assumes "schema_errors pattern_found (PDict c) candidate_schema p = Inr []"
  shows "candidate_shape c"
proof -
  note given = assms [unfolded candidate_schema_def]
  have k: "fst ` set c = {''schema'', ''candidate_id'', ''run_id'', ''outcome'', ''lesson'', ''provenance'', ''recorded_by'',
       ''recorded_at''}"
    using keys_given [OF given] by simp
  have "hex_text 32 (get_or c ''candidate_id'' PNone)"
    using schema_given [OF given, of "''candidate_id''"] k by (auto simp: sub_schema_def as_schema_def intro: hex_given)
  moreover have "nonempty_string (get_or c ''run_id'' PNone)"
  proof -
    from schema_given [OF given, of "''run_id''"] k obtain q where
      "schema_errors pattern_found (get_or c ''run_id'' PNone) [jtype ''string'', (''minLength'', PInt 1)] q = Inr []"
      by (auto simp: sub_schema_def as_schema_def some_text_def)
    from nonempty_given [OF this] show ?thesis by simp
  qed
  moreover have "get_or c ''outcome'' PNone \<in> {PStr ''confirmed'', PStr ''rejected''}"
  proof -
    from schema_given [OF given, of "''outcome''"] k obtain q where
      "schema_errors pattern_found (get_or c ''outcome'' PNone) [(''enum'', PList (map PStr outcome_names))] q = Inr []"
      by (auto simp: sub_schema_def as_schema_def)
    from silent_enum [OF this] show ?thesis
      by (simp add: enum_errors_def py_in_def outcome_names_def split: if_splits)
  qed
  moreover have "\<exists>t. get_or c ''lesson'' PNone = PStr t \<and> t \<noteq> [] \<and> int (length t) \<le> max_lesson"
  proof -
    from schema_given [OF given, of "''lesson''"] k obtain q where
      l: "schema_errors pattern_found (get_or c ''lesson'' PNone)
        [jtype ''string'', (''minLength'', PInt 1), (''maxLength'', PInt max_lesson)] q = Inr []"
      by (auto simp: sub_schema_def as_schema_def)
    from silent_text [OF l] obtain t where t: "get_or c ''lesson'' PNone = PStr t" "text_errors pattern_found q t
        [jtype ''string'', (''minLength'', PInt 1), (''maxLength'', PInt max_lesson)] = Inr []" by auto
    from text_length(1,2) [OF t(2)] have "1 \<le> int (length t)" "int (length t) \<le> max_lesson" by simp_all
    with t(1) show ?thesis by auto
  qed
  moreover have "\<exists>prov. get_or c ''provenance'' PNone = PDict prov
        \<and> fst ` set prov = {''event_log_sha256'', ''run_stopped_event_id'', ''stop_reason'', ''task_sha256'', ''route'',
            ''sources''}
        \<and> hex_text 64 (get_or prov ''event_log_sha256'' PNone)"
    using schema_given [OF given, of "''provenance''"] k
    by (auto simp: sub_schema_def as_schema_def intro: provenance_given)
  ultimately show ?thesis using k unfolding candidate_shape_def by blast
qed

subsection \<open>The gate\<close>

lemma gate_silent:
  "gate env seen c = Inr [] \<longleftrightarrow> schema_errors pattern_found (PDict c) candidate_schema ''$'' = Inr []
     \<and> blank_fields c = Inr [] \<and> wrong_id env c = Inr [] \<and> check_log env seen c = Inr []"
  by (auto simp: gate_def bind_res_Inr)

definition content_of :: "dict \<Rightarrow> dict" where
  "content_of c = map (\<lambda>k. (k, get_or c k PNone)) [''run_id'', ''outcome'', ''lesson'', ''provenance'']"

lemma get_key_or: "get_key d k = Inr v \<Longrightarrow> get_or d k u = v"
  by (auto simp: get_key_def get_or_def split: option.splits)

lemma right_id:
  assumes "wrong_id env c = Inr []"
  shows "get_or c ''candidate_id'' PNone = PStr (candidate_id_of (fe_sha env) (content_of c))"
  using assms by (auto simp: wrong_id_def bind_res_Inr content_of_def get_key_or split: if_splits)

lemma log_agrees:
  assumes "check_log env seen c = Inr []"
  shows "\<exists>log_now prov. get_or c ''provenance'' PNone = PDict prov
    \<and> provenance env seen (str_val (get_or c ''run_id'' PNone)) = Inr log_now
    \<and> (\<forall>k \<in> insert ''event_log_sha256'' (set pinned_keys). same_entry log_now prov k)"
proof -
  from assms obtain pv rv where k: "get_key c ''provenance'' = Inr pv" "get_key c ''run_id'' = Inr rv"
    by (auto simp: check_log_def bind_res_Inr)
  show ?thesis
  proof (cases "provenance env seen (str_val rv)")
    case (Inl e)
    with assms k show ?thesis by (simp add: check_log_def split: if_splits)
  next
    case (Inr log_now)
    with assms k obtain prov where "pv = PDict prov" "moved_provenance log_now prov = []"
      by (cases pv) (simp_all add: check_log_def need_dict_def)
    with Inr k show ?thesis by (auto simp: get_key_or moved_provenance_def filter_empty_conv split: if_splits)
  qed
qed


subsection \<open>The store\<close>

text \<open>A line that the JSON library reads back as it was written, in the order \<open>sort_keys\<close> gives and with no
  line break inside; an \<open>os.write\<close> that writes a whole line or fails.\<close>

definition read_back :: "feedback_env \<Rightarrow> dict \<Rightarrow> bool" where
  "read_back env r \<longleftrightarrow> plain_record r \<and> fe_loads env (line_of r) = Inr (sort_keys (PDict r))"

definition whole_writes :: "feedback_env \<Rightarrow> bool" where
  "whole_writes env \<longleftrightarrow> (\<forall>t w. fe_wrote env t = Inr w \<longrightarrow> w = t)"

text \<open>The stores that people reach, in any order and number, by recording outcomes and promoting; the clock
  and the log move on between the operations, and every appended line reads back.\<close>

inductive reaches :: "feedback_env \<Rightarrow> shelf \<Rightarrow> bool" for env where
  start: "reaches env \<lparr>sf_candidates = None, sf_learnings = None\<rparr>"
| recorded: "reaches env sf \<Longrightarrow> record_outcome (env\<lparr>fe_stamp := t\<rparr>) seen run outcome lesson who sf = (r, sf')
    \<Longrightarrow> (\<And>c. r = Inr c \<Longrightarrow> read_back env c) \<Longrightarrow> reaches env sf'"
| promoted: "reaches env sf \<Longrightarrow> promote (env\<lparr>fe_stamp := t\<rparr>) seen cid who sf = (r, sf')
    \<Longrightarrow> (\<And>l. r = Inr l \<Longrightarrow> read_back env l) \<Longrightarrow> reaches env sf'"

definition in_order :: "dict \<Rightarrow> dict" where
  "in_order r = sort_key fst (map (\<lambda>(k, v). (k, sort_keys v)) r)"

lemma map_of_insort: "map_of (insort_key fst x d) = map_of (x # d)"
  by (induction d) (cases x; auto simp: fun_eq_iff)+

lemma map_of_sorted: "map_of (sort_key fst d) = map_of d"
  by (induction d) (auto simp: map_of_insort)

lemma map_of_in_order: "map_of (in_order r) k = map_option sort_keys (map_of r k)"
  unfolding in_order_def map_of_sorted by (induction r) auto

lemma sort_keys_dict: "sort_keys (PDict r) = PDict (in_order r)" by (simp add: in_order_def)

declare sort_keys.simps(2) [simp del]

lemma named_in_order: "named cid (in_order r) = named cid r"
proof -
  have "sort_keys v = PStr cid \<longleftrightarrow> v = PStr cid" for v by (cases v) (simp_all add: sort_keys_dict)
  then show ?thesis by (auto simp: named_def get_or_def map_of_in_order split: option.splits)
qed

lemma read_whole_values:
  assumes "\<forall>x \<in> set xs. plain_record x \<and> loads (line_of x) = Inr (f x)"
  shows "read_jsonl loads (concat (map line_of xs)) = Inr (map f xs)"
proof -
  have "fold (\<lambda>r m. bind_res m (\<lambda>s. sink_write s r)) xs (Inr []) = Inr (concat (map line_of xs))"
    using write_records_file [of xs "[]"] by (simp add: write_records_def)
  then have "splitlines_keep (concat (map line_of xs)) = map line_of xs"
    using jsonl.write_all [of "[]" xs "concat (map line_of xs)"] assms by (simp add: whole_lines_def)
  moreover have "CR \<notin> set (concat (map line_of xs))" using assms plain_no_CR by auto
  moreover have "read_lines loads (map line_of xs) = Inr (map f xs)"
    using assms
  proof (induction xs)
    case (Cons r rs)
    have "ends_with (line_of r) [LF]" by (simp add: ends_with_LF)
    moreover have "\<not> blank (line_of r)" by (simp add: line_of_def blank_def is_space_def)
    ultimately show ?case using Cons by simp
  qed simp
  ultimately show ?thesis by (simp add: read_jsonl_def universal_newlines_id)
qed

definition holds :: "feedback_env \<Rightarrow> string option \<Rightarrow> dict list \<Rightarrow> bool" where
  "holds env file rs \<longleftrightarrow> old_text file = concat (map line_of rs) \<and> list_all (read_back env) rs"

lemma read_shelf_holds:
  assumes "holds env page rs" and "fe_loads env' = fe_loads env"
  shows "read_shelf env' page = Inr (map PDict (map in_order rs))"
proof (cases page)
  case None
  with assms(1) have "concat (map line_of rs) = []" by (simp add: holds_def old_text_def)
  then have "rs = []" by (cases rs) simp_all
  with None show ?thesis by (simp add: read_shelf_def)
next
  case (Some raw)
  then have "raw = concat (map line_of rs)" using assms(1) by (simp add: holds_def)
  with assms Some read_whole_values [of rs "fe_loads env" "\<lambda>r. PDict (in_order r)"] show ?thesis
    by (simp add: read_shelf_def read_back_def holds_def list_all_iff sort_keys_dict comp_def)
qed

text \<open>The id of the candidate that a learning carries.\<close>

definition promoted_id :: "dict \<Rightarrow> pyval" where
  "promoted_id l = (case get_or l ''candidate'' PNone of PDict c \<Rightarrow> get_or c ''candidate_id'' PNone | _ \<Rightarrow> PNone)"

definition shelf_ok :: "feedback_env \<Rightarrow> shelf \<Rightarrow> bool" where
  "shelf_ok env sf \<longleftrightarrow> (\<exists>cs ls. holds env (sf_candidates sf) cs \<and> holds env (sf_learnings sf) ls
     \<and> distinct (map promoted_id ls)
     \<and> (\<forall>l \<in> set ls. \<exists>cid. promoted_id l = PStr cid \<and> (\<exists>c \<in> set cs. named cid c)))"

lemma promoted_in_ids:
  assumes "promoted_in cid (map PDict ls) = Inr False" and "\<forall>l \<in> set ls. \<exists>c. get_or l ''candidate'' PNone = PDict c"
  shows "PStr cid \<notin> promoted_id ` set ls"
  using assms
proof (induction ls)
  case (Cons l ls)
  then obtain c where c: "get_or l ''candidate'' PNone = PDict c" by auto
  then have "get_or l ''candidate'' (PDict []) = PDict c" by (auto simp: get_or_def split: option.splits)
  with Cons c show ?case by (auto simp: need_dict_def promoted_id_def named_def split: if_splits)
qed simp

lemma candidate_text: "promoted_id l = PStr cid \<Longrightarrow> \<exists>c. get_or l ''candidate'' PNone = PDict c \<and> named cid c"
  by (auto simp: promoted_id_def named_def split: pyval.splits)

lemma promoted_id_in_order: "promoted_id l = PStr cid \<Longrightarrow> promoted_id (in_order l) = PStr cid"
proof -
  assume "promoted_id l = PStr cid"
  from candidate_text [OF this] obtain c where c: "get_or l ''candidate'' PNone = PDict c" "named cid c" by blast
  then have "get_or (in_order l) ''candidate'' PNone = PDict (in_order c)"
    by (auto simp: get_or_def map_of_in_order sort_keys_dict split: option.splits)
  moreover have "named cid (in_order c)" using c(2) by (simp add: named_in_order)
  ultimately show ?thesis by (simp add: promoted_id_def named_def)
qed

lemma holds_snoc: "holds env file rs \<Longrightarrow> read_back env r \<Longrightarrow> holds env (Some (old_text file @ line_of r)) (rs @ [r])"
  by (simp add: holds_def)

lemma recorded_cases:
  assumes "record_outcome env seen run outcome lesson who sf = (r, sf')"
  shows "sf_learnings sf' = sf_learnings sf
    \<and> (case r of Inl e \<Rightarrow> old_text (sf_candidates sf') = old_text (sf_candidates sf)
       | Inr c \<Rightarrow> \<exists>w. fe_wrote env (line_of c) = Inr w \<and> sf_candidates sf' = Some (old_text (sf_candidates sf) @ w))"
proof -
  have "after (record_outcome env seen run outcome lesson who)
    (\<lambda>c sf'. sf_learnings sf' = sf_learnings sf
      \<and> (\<exists>w. fe_wrote env (line_of c) = Inr w \<and> sf_candidates sf' = Some (old_text (sf_candidates sf) @ w)))
    (\<lambda>e sf'. sf_learnings sf' = sf_learnings sf \<and> old_text (sf_candidates sf') = old_text (sf_candidates sf)) sf"
    unfolding record_outcome_def Let_def by (auto simp: afters split: sum.splits)
  from after_run [OF this assms] show ?thesis by (cases r) simp_all
qed

lemma record_keeps:
  assumes "shelf_ok env sf" and "whole_writes env" and "record_outcome (env\<lparr>fe_stamp := t\<rparr>) seen run outcome lesson who sf = (r, sf')"
    and "\<And>c. r = Inr c \<Longrightarrow> read_back env c"
  shows "shelf_ok env sf'"
proof -
  from assms(1) obtain cs ls where h: "holds env (sf_candidates sf) cs" "holds env (sf_learnings sf) ls"
    "distinct (map promoted_id ls)" "\<forall>l \<in> set ls. \<exists>cid. promoted_id l = PStr cid \<and> (\<exists>c \<in> set cs. named cid c)"
    by (auto simp: shelf_ok_def)
  note rc = recorded_cases [OF assms(3)]
  show ?thesis
  proof (cases r)
    case (Inl e)
    with rc h(1) have "holds env (sf_candidates sf') cs" "sf_learnings sf' = sf_learnings sf" by (simp_all add: holds_def)
    with h show ?thesis unfolding shelf_ok_def by metis
  next
    case (Inr c)
    with rc assms(2) have "sf_candidates sf' = Some (old_text (sf_candidates sf) @ line_of c)"
      by (auto simp: whole_writes_def)
    moreover have "\<forall>l \<in> set ls. \<exists>cid. promoted_id l = PStr cid \<and> (\<exists>d \<in> set (cs @ [c]). named cid d)"
      using h(4) by fastforce
    ultimately show ?thesis
      using holds_snoc [OF h(1) assms(4) [OF Inr]] rc h(2,3) unfolding shelf_ok_def
      by - (rule exI [of _ "cs @ [c]"], rule exI [of _ ls], auto)
  qed
qed

lemma promote_keeps:
  assumes "shelf_ok env sf" and "whole_writes env" and "promote (env\<lparr>fe_stamp := t\<rparr>) seen cid who sf = (r, sf')"
    and "\<And>l. r = Inr l \<Longrightarrow> read_back env l"
  shows "shelf_ok env sf'"
proof -
  from assms(1) obtain cs ls where h: "holds env (sf_candidates sf) cs" "holds env (sf_learnings sf) ls"
    "distinct (map promoted_id ls)" "\<forall>l \<in> set ls. \<exists>cid. promoted_id l = PStr cid \<and> (\<exists>c \<in> set cs. named cid c)"
    by (auto simp: shelf_ok_def)
  note ar = after_run [OF promote_after assms(3)]
  show ?thesis
  proof (cases r)
    case (Inl e)
    with ar h(1,2) have "holds env (sf_candidates sf') cs" "holds env (sf_learnings sf') ls" by (simp_all add: holds_def unchanged_def)
    with h(3,4) show ?thesis unfolding shelf_ok_def by blast
  next
    case (Inr l)
    let ?env = "env\<lparr>fe_stamp := t\<rparr>"
    have same: "fe_loads ?env = fe_loads env" by simp
    from ar Inr obtain c w where p: "filter (named cid) (map in_order cs) = [c]"
      "promoted_in cid (map PDict (map in_order ls)) = Inr False" "l = mk_learning ?env c who"
      "fe_wrote env (line_of l) = Inr w"
      "sf' = sf\<lparr>sf_learnings := Some (old_text (sf_learnings sf) @ w)\<rparr>"
      by (auto simp: promotes_def read_shelf_holds [OF h(1) same] read_shelf_holds [OF h(2) same]
          need_dicts_def list_all_iff comp_def)
    then have w: "w = line_of l" using assms(2) by (simp add: whole_writes_def)
    have "c \<in> set (filter (named cid) (map in_order cs))" using p(1) by simp
    then have c: "named cid c" "\<exists>c0 \<in> set cs. named cid c0" by (auto simp: named_in_order)
    have id: "promoted_id l = PStr cid"
      using c(1) p(3) by (simp add: promoted_id_def mk_learning_def get_or_def named_def)
    have "\<forall>l \<in> set (map in_order ls). \<exists>c. get_or l ''candidate'' PNone = PDict c"
      using h(4) promoted_id_in_order candidate_text by fastforce
    from promoted_in_ids [OF p(2) this] have fresh: "PStr cid \<notin> promoted_id ` in_order ` set ls" by simp
    have "PStr cid \<notin> promoted_id ` set ls"
    proof
      assume "PStr cid \<in> promoted_id ` set ls"
      then obtain l0 where "l0 \<in> set ls" "promoted_id l0 = PStr cid" by auto
      with promoted_id_in_order [of l0] fresh show False by (metis imageI)
    qed
    then have "distinct (map promoted_id (ls @ [l]))" using h(3) id by simp
    moreover have "holds env (sf_learnings sf') (ls @ [l])" "holds env (sf_candidates sf') cs"
      using holds_snoc [OF h(2) assms(4) [OF Inr]] h(1) p(5) w by simp_all
    ultimately show ?thesis using h(4) id c(2) unfolding shelf_ok_def
      by - (rule exI [of _ cs], rule exI [of _ "ls @ [l]"], auto)
  qed
qed

lemma reaches_ok: "reaches env sf \<Longrightarrow> whole_writes env \<Longrightarrow> shelf_ok env sf"
proof (induction rule: reaches.induct)
  case start
  show ?case by (simp add: shelf_ok_def holds_def old_text_def)
next
  case (recorded sf t seen run outcome lesson who r sf')
  show ?case by (rule record_keeps [OF recorded.IH [OF recorded.prems] recorded.prems recorded.hyps(2)]) (rule recorded.hyps(3))
next
  case (promoted sf t seen cid who r sf')
  show ?case by (rule promote_keeps [OF promoted.IH [OF promoted.prems] promoted.prems promoted.hyps(2)]) (rule promoted.hyps(3))
qed

text \<open>C13. A candidate is promoted at most once. In every store that recording outcomes and promoting
  can reach, whoever does it, in whatever order and however the log moves in between, both files
  can be read, the learnings carry pairwise different candidate ids, and every learning carries the id of
  a candidate that was recorded.\<close>

theorem promoted_at_most_once:
  assumes "reaches env sf" and "whole_writes env"
  shows "\<exists>cs ls. read_shelf env (sf_candidates sf) = Inr (map PDict cs)
    \<and> read_shelf env (sf_learnings sf) = Inr (map PDict ls) \<and> distinct (map promoted_id ls)
    \<and> (\<forall>l \<in> set ls. \<exists>cid. promoted_id l = PStr cid \<and> (\<exists>c \<in> set cs. named cid c))"
proof -
  from reaches_ok [OF assms] obtain cs ls where h: "holds env (sf_candidates sf) cs" "holds env (sf_learnings sf) ls"
    "distinct (map promoted_id ls)" "\<forall>l \<in> set ls. \<exists>cid. promoted_id l = PStr cid \<and> (\<exists>c \<in> set cs. named cid c)"
    by (auto simp: shelf_ok_def)
  have same: "map (promoted_id \<circ> in_order) ls = map promoted_id ls"
    using h(4) promoted_id_in_order by fastforce
  then have "distinct (map promoted_id (map in_order ls))" using h(3) by (simp only: map_map)
  moreover have "\<forall>l \<in> set (map in_order ls). \<exists>cid. promoted_id l = PStr cid \<and> (\<exists>c \<in> set (map in_order cs). named cid c)"
    using h(4) promoted_id_in_order by (fastforce simp: named_in_order)
  ultimately show ?thesis
    using read_shelf_holds [OF h(1) refl] read_shelf_holds [OF h(2) refl] by blast
qed

subsection \<open>One verdict\<close>

definition sample_started :: dict where
  "sample_started = [(''run_id'', PStr ''r''), (''kind'', PStr ''run_started''),
     (''payload'', PDict [(''task_sha256'', PStr ''t'')])]"

definition sample_stopped :: dict where
  "sample_stopped = [(''run_id'', PStr ''r''), (''kind'', PStr ''run_stopped''), (''sequence'', PInt 1),
     (''payload'', PDict [(''stop_reason'', PStr ''passed'')])]"

definition sample_log :: "nat \<Rightarrow> string option" where
  "sample_log = (\<lambda>_. Some (line_of sample_started @ line_of sample_stopped))"

definition aaaa :: string where "aaaa = replicate 64 CHR ''a''"

definition bare_env :: feedback_env where
  "bare_env = \<lparr>fe_flock = True, fe_loads = (\<lambda>l. if l = line_of sample_started then Inr (PDict sample_started)
       else if l = line_of sample_stopped then Inr (PDict sample_stopped) else Inl JSONDecodeError),
     fe_sha = (\<lambda>_. aaaa), fe_stamp = ''t'', fe_wrote = Inr\<rparr>"

definition no_shelf :: shelf where "no_shelf = \<lparr>sf_candidates = None, sf_learnings = None\<rparr>"

definition sample_prov :: dict where
  "sample_prov = [(''event_log_sha256'', PStr aaaa), (''run_stopped_event_id'', PStr ''r:1''),
     (''stop_reason'', PStr ''passed''), (''task_sha256'', PStr ''t''), (''route'', PNone), (''sources'', PList [])]"

definition sample_candidate :: dict where
  "sample_candidate = mk_candidate bare_env (outcome_body ''r'' ''confirmed'' ''ok'' sample_prov) ''ada''"

definition sample_learning :: dict where
  "sample_learning = mk_learning bare_env (in_order sample_candidate) ''bob''"

definition verdict_env :: feedback_env where
  "verdict_env = bare_env\<lparr>fe_loads := (\<lambda>l. if l = line_of sample_candidate then Inr (PDict (in_order sample_candidate))
     else if l = line_of sample_learning then Inr (PDict (in_order sample_learning)) else fe_loads bare_env l)\<rparr>"

definition one_candidate :: shelf where
  "one_candidate = \<lparr>sf_candidates = Some (line_of sample_candidate), sf_learnings = None\<rparr>"

lemma sample_recorded:
  "record_outcome verdict_env sample_log ''r'' ''confirmed'' '' ok '' ''ada'' no_shelf = (Inr sample_candidate, one_candidate)"
  by code_simp

lemma sample_promoted:
  "promote verdict_env sample_log (take 32 aaaa) ''bob'' one_candidate =
     (Inr sample_learning, one_candidate\<lparr>sf_learnings := Some (line_of sample_learning)\<rparr>)"
  by code_simp

lemma sample_plain: "plain_record sample_candidate \<and> plain_record sample_learning"
  by code_simp

lemma sample_reads_back: "read_back verdict_env sample_candidate" "read_back verdict_env sample_learning"
proof -
  have "line_of sample_learning \<noteq> line_of sample_candidate" by code_simp
  then show "read_back verdict_env sample_candidate" "read_back verdict_env sample_learning"
    using sample_plain by (simp_all add: read_back_def verdict_env_def sort_keys_dict)
qed


lemma sample_reached: "reaches verdict_env (one_candidate\<lparr>sf_learnings := Some (line_of sample_learning)\<rparr>)"
proof -
  have "verdict_env\<lparr>fe_stamp := ''t''\<rparr> = verdict_env" by (simp add: verdict_env_def bare_env_def)
  then have r: "record_outcome (verdict_env\<lparr>fe_stamp := ''t''\<rparr>) sample_log ''r'' ''confirmed'' '' ok '' ''ada'' no_shelf
      = (Inr sample_candidate, one_candidate)"
    and p: "promote (verdict_env\<lparr>fe_stamp := ''t''\<rparr>) sample_log (take 32 aaaa) ''bob'' one_candidate
      = (Inr sample_learning, one_candidate\<lparr>sf_learnings := Some (line_of sample_learning)\<rparr>)"
    using sample_recorded sample_promoted by simp_all
  have "reaches verdict_env no_shelf" unfolding no_shelf_def by (rule reaches.start)
  from reaches.recorded [OF this r] have "reaches verdict_env one_candidate" using sample_reads_back(1) by simp
  from reaches.promoted [OF this p] show ?thesis using sample_reads_back(2) by simp
qed

theorem promoted_at_most_once_witness:
  "\<exists>ls. read_shelf verdict_env (Some (line_of sample_learning)) = Inr (map PDict ls) \<and> distinct (map promoted_id ls)"
proof -
  have "whole_writes verdict_env" by (simp add: whole_writes_def verdict_env_def bare_env_def)
  from promoted_at_most_once [OF sample_reached this] show ?thesis by auto
qed

end
