(* ===== verification/Isolation.thy ===== *)
theory Isolation
  imports Run_State EventLog Budget Controller
begin

section \<open>Runs in a process of their own (atlas_core/isolation.py, atlas_core/process_guard.py)\<close>

text \<open>
  The parent of an isolated run polls a pipe under a deadline, and the guard of the command line's worker
  reads two pipes under caps. What the operating system answers (clock, pipe, exit) is a list of
  observations, one per turn of the loop; a list that ends before the loop does is a loop that still
  waits, so the result is an option. Signals are recorded as whether the process group was killed.
\<close>

subsection \<open>The worker\<close>

text \<open>\<open>encode\<close> is \<open>json.dumps\<close> and the pipe's \<open>send_bytes\<close>: a failure of either sends nothing.\<close>

definition mark_isolated :: "dict \<Rightarrow> dict result" where
  "mark_isolated run = (case get_or run ''metadata'' (PDict []) of
     PDict m \<Rightarrow> Inr (dict_set ''metadata'' (PDict (dict_set ''isolation'' (PStr ''spawned_process'') m)) run)
   | _ \<Rightarrow> Inl TypeError)"

definition worker_payload :: "dict result \<Rightarrow> pyval" where
  "worker_payload outcome = (case bind_res outcome mark_isolated of
     Inr run \<Rightarrow> PDict [(''kind'', PStr ''run''), (''run'', PDict run)]
   | Inl e \<Rightarrow> PDict [(''kind'', PStr ''error''), (''error'', PStr (exc_name e))])"

definition run_worker :: "(pyval \<Rightarrow> string result) \<Rightarrow> dict result \<Rightarrow> string option" where
  "run_worker encode outcome = (case encode (worker_payload outcome) of Inl e \<Rightarrow> None | Inr raw \<Rightarrow> Some raw)"

subsection \<open>A failure of the parent's own\<close>

definition failure_metadata :: "string \<Rightarrow> string \<Rightarrow> dict" where
  "failure_metadata reason detail =
     (if reason = ''budget_exhausted'' then [(''budget_exhausted'', PStr detail)]
      else [(''failure'', PDict [(''stage'', PStr ''isolated_controller''), (''error'', PStr (take 128 detail)),
        (''message'', PStr ''Isolated worker did not return a verified run document.'')])])
     @ [(''isolation'', PStr ''spawned_process'')]"

definition own_stop :: "string \<Rightarrow> stop_reason" where
  "own_stop reason = (if reason = ''cancelled'' then StopCancelled
     else if reason = ''budget_exhausted'' then BudgetExhausted else ToolError)"

text \<open>\<open>_failure\<close>, up to the rendering of the state as a document.\<close>

definition failure_run :: "string \<Rightarrow> string \<Rightarrow> int \<Rightarrow> string \<Rightarrow> string \<Rightarrow> run_state result" where
  "failure_run task new_id mx reason detail =
     bind_res (enter Observing (new_run task new_id mx)) (\<lambda>s.
       stop_run (own_stop reason) (s\<lparr>rs_metadata := failure_metadata reason detail\<rparr>))"

subsection \<open>The parent\<close>

datatype isolated = FromWorker dict | OwnFailure run_state

record parent_turn =
  tk_cancel :: "bool result"
  tk_clock :: real
  tk_arrival :: "string result option"
  tk_exited :: bool

record parent =
  pt_posix :: bool
  pt_limits :: "run_limits option"
  pt_start :: "exc option"
  pt_began :: real
  pt_loads :: "string \<Rightarrow> pyval result"
  pt_task :: string
  pt_max :: int
  pt_new_id :: string

definition fail_run :: "parent \<Rightarrow> string \<Rightarrow> string \<Rightarrow> isolated result" where
  "fail_run pt reason detail =
     bind_res (failure_run (pt_task pt) (pt_new_id pt) (pt_max pt) reason detail) (\<lambda>s. Inr (OwnFailure s))"

text \<open>\<open>EOFError\<close>, \<open>OSError\<close>, \<open>UnicodeError\<close> and \<open>ValueError\<close>, with the subclasses the parser raises.\<close>

definition transport_failure :: "exc \<Rightarrow> bool" where
  "transport_failure e \<longleftrightarrow> e \<in> {OSError, ValueError, JSONDecodeError}
     \<or> exc_name e \<in> {''EOFError'', ''UnicodeDecodeError''}"

definition transport_cap :: "int \<Rightarrow> int" where
  "transport_cap nbytes = min 16777216 (max 262144 (nbytes * 8 + 65536))"

text \<open>\<open>recv_bytes(maxlength=cap)\<close>, decoded and parsed.\<close>

definition received :: "parent \<Rightarrow> int \<Rightarrow> string result \<Rightarrow> pyval result" where
  "received pt cap arrival = bind_res arrival (\<lambda>raw.
     if cap < int (utf8_len raw) then Inl OSError else pt_loads pt raw)"

text \<open>\<open>reason not in STOP_REASONS or run.get("status") != ...\<close>: a list or an object cannot be looked up.\<close>

definition coherent_stop :: "dict \<Rightarrow> bool result" where
  "coherent_stop run = (case get_or run ''stop_reason'' PNone of
     PStr r \<Rightarrow> (case spec_for r of Inl e \<Rightarrow> Inr False
       | Inr sp \<Rightarrow> Inr (get_or run ''status'' PNone = PStr (status_name (spec_status sp))))
   | PList _ \<Rightarrow> Inl TypeError | PDict _ \<Rightarrow> Inl TypeError | _ \<Rightarrow> Inr False)"

definition judge_run :: "parent \<Rightarrow> pyval \<Rightarrow> isolated result" where
  "judge_run pt v = (case v of
     PDict run \<Rightarrow> if get_or run ''schema'' PNone \<noteq> PStr ''atlas-run.v1'' then fail_run pt ''tool_error'' ''WorkerProtocolError''
       else bind_res (coherent_stop run) (\<lambda>good.
         if good then Inr (FromWorker run) else fail_run pt ''tool_error'' ''WorkerProtocolError'')
   | _ \<Rightarrow> fail_run pt ''tool_error'' ''WorkerProtocolError'')"

definition judge :: "parent \<Rightarrow> int \<Rightarrow> string result \<Rightarrow> isolated result" where
  "judge pt cap arrival = (case received pt cap arrival of
     Inl e \<Rightarrow> if transport_failure e then fail_run pt ''tool_error'' (exc_name e) else Inl e
   | Inr (PDict p) \<Rightarrow> if get_or p ''kind'' PNone = PStr ''run'' then judge_run pt (get_or p ''run'' PNone)
       else fail_run pt ''tool_error'' (take 128 (str_val (get_or p ''error'' (PStr ''WorkerProtocolError''))))
   | Inr v \<Rightarrow> fail_run pt ''tool_error'' ''WorkerProtocolError'')"

fun watch :: "parent \<Rightarrow> real \<Rightarrow> int \<Rightarrow> parent_turn list \<Rightarrow> isolated result option" where
  "watch pt late cap [] = None"
| "watch pt late cap (t # ts) = (case tk_cancel t of
     Inl e \<Rightarrow> Some (Inl e)
   | Inr True \<Rightarrow> Some (fail_run pt ''cancelled'' ''external_cancel'')
   | Inr False \<Rightarrow>
       if late - tk_clock t \<le> 0 then Some (fail_run pt ''budget_exhausted'' ''wall_seconds'')
       else (case tk_arrival t of
           Some a \<Rightarrow> Some (judge pt cap a)
         | None \<Rightarrow> if tk_exited t then Some (fail_run pt ''tool_error'' ''WorkerExitedWithoutResult'')
             else watch pt late cap ts))"

text \<open>The result, and whether the worker's process group was killed on the way out.\<close>

definition isolated_run :: "parent \<Rightarrow> parent_turn list \<Rightarrow> isolated result option \<times> bool" where
  "isolated_run pt ts =
     (if \<not> pt_posix pt then (Some (fail_run pt ''tool_error'' ''POSIX_process_isolation_required''), False)
      else (case pt_limits pt of
          None \<Rightarrow> (Some (Inl TypeError), False)
        | Some l \<Rightarrow> (case pt_start pt of
            Some e \<Rightarrow> (Some (fail_run pt ''tool_error'' (exc_name e)), False)
          | None \<Rightarrow> (let r = watch pt (pt_began pt + wall_seconds l) (transport_cap (max_output_bytes l)) ts in (r, r \<noteq> None)))))"

subsection \<open>The guard of the command line's worker\<close>

datatype pipe_end = Stdout | Stderr

record guard =
  gd_out :: string
  gd_err :: string
  gd_open :: "pipe_end list"

definition worker_deadline :: exc where "worker_deadline = Foreign ''WorkerDeadlineExceeded'' ''wall_seconds''"

definition pipe_name :: "pipe_end \<Rightarrow> string" where
  "pipe_name p = (case p of Stdout \<Rightarrow> ''stdout'' | Stderr \<Rightarrow> ''stderr'')"

definition output_exceeded :: "pipe_end \<Rightarrow> exc" where
  "output_exceeded p = Foreign ''WorkerOutputExceeded'' (pipe_name p)"

definition kept :: "pipe_end \<Rightarrow> guard \<Rightarrow> string" where
  "kept p g = (case p of Stdout \<Rightarrow> gd_out g | Stderr \<Rightarrow> gd_err g)"

definition keep :: "pipe_end \<Rightarrow> string \<Rightarrow> guard \<Rightarrow> guard" where
  "keep p block g = (case p of Stdout \<Rightarrow> g\<lparr>gd_out := gd_out g @ block\<rparr> | Stderr \<Rightarrow> g\<lparr>gd_err := gd_err g @ block\<rparr>)"

definition cap_of :: "nat \<times> nat \<Rightarrow> pipe_end \<Rightarrow> nat" where
  "cap_of caps p = (case p of Stdout \<Rightarrow> fst caps | Stderr \<Rightarrow> snd caps)"

text \<open>One \<open>os.read\<close> of a ready pipe in which \<open>offered\<close> waits; nothing waits at its end.\<close>

definition wanted_bytes :: "nat \<times> nat \<Rightarrow> pipe_end \<Rightarrow> guard \<Rightarrow> nat" where
  "wanted_bytes caps p g = min 65536 (cap_of caps p - length (kept p g) + 1)"

definition guard_read :: "nat \<times> nat \<Rightarrow> pipe_end \<times> string \<Rightarrow> guard \<Rightarrow> guard result" where
  "guard_read caps ready g = (case ready of (p, offered) \<Rightarrow>
     let block = take (wanted_bytes caps p g) offered in
     if block = [] then Inr (g\<lparr>gd_open := removeAll p (gd_open g)\<rparr>)
     else if cap_of caps p < length (kept p g) + length block then Inl (output_exceeded p)
     else Inr (keep p block g))"

fun guard_reads :: "nat \<times> nat \<Rightarrow> (pipe_end \<times> string) list \<Rightarrow> guard \<Rightarrow> guard result" where
  "guard_reads caps [] g = Inr g"
| "guard_reads caps (r # rs) g = bind_res (guard_read caps r g) (guard_reads caps rs)"

record turn =
  tn_clock :: real
  tn_ready :: "(pipe_end \<times> string) list"

text \<open>The selector reports registered pipes only. The loop ends when both pipes have ended.\<close>

definition reported :: "guard \<Rightarrow> turn \<Rightarrow> (pipe_end \<times> string) list" where
  "reported g t = filter (\<lambda>r. fst r \<in> set (gd_open g)) (tn_ready t)"

fun guard_loop :: "nat \<times> nat \<Rightarrow> real \<Rightarrow> turn list \<Rightarrow> guard \<Rightarrow> guard result option" where
  "guard_loop caps late ts g = (if gd_open g = [] then Some (Inr g)
     else (case ts of
         [] \<Rightarrow> None
       | t # ts' \<Rightarrow> if late - tn_clock t \<le> 0 then Some (Inl worker_deadline)
           else (case guard_reads caps (reported g t) g of
               Inl e \<Rightarrow> Some (Inl e) | Inr g' \<Rightarrow> guard_loop caps late ts' g')))"

record worker_result =
  wr_stdout :: string
  wr_stderr :: string
  wr_code :: int

text \<open>\<open>ended\<close> is what \<open>process.wait\<close> answers at the second clock reading: the exit code, or that the time ran out.\<close>

definition finish_worker :: "real \<Rightarrow> real \<Rightarrow> int option \<Rightarrow> guard \<Rightarrow> worker_result result" where
  "finish_worker late clock ended g =
     (if late - clock \<le> 0 then Inl worker_deadline
      else (case ended of None \<Rightarrow> Inl worker_deadline
        | Some c \<Rightarrow> Inr \<lparr>wr_stdout = gd_out g, wr_stderr = gd_err g, wr_code = c\<rparr>))"

text \<open>The result, and whether the process group was killed: by every exception after the start.\<close>

definition run_bounded_process ::
  "bool \<Rightarrow> string list \<Rightarrow> real \<Rightarrow> int \<Rightarrow> int \<Rightarrow> real \<Rightarrow> turn list \<Rightarrow> real \<Rightarrow> int option \<Rightarrow>
     worker_result result option \<times> bool" where
  "run_bounded_process posix argv timeout out_limit err_limit began ts clock ended =
     (if \<not> posix then (Some (Inl RuntimeError), False)
      else if argv = [] \<or> timeout \<le> 0 \<or> out_limit < 1 \<or> err_limit < 1 then (Some (Inl ValueError), False)
      else (case guard_loop (nat out_limit, nat err_limit) (began + timeout) ts
              \<lparr>gd_out = [], gd_err = [], gd_open = [Stdout, Stderr]\<rparr> of
          None \<Rightarrow> (None, False)
        | Some r \<Rightarrow> (case bind_res r (finish_worker (began + timeout) clock ended) of
            Inl e \<Rightarrow> (Some (Inl e), True) | Inr w \<Rightarrow> (Some (Inr w), False))))"

end
