(* ===== verification/Supervision.thy ===== *)
theory Supervision
  imports Isolation
begin

section \<open>What the parent of a worker returns\<close>

text \<open>
  The parent never makes up a verdict: what it returns is the document the worker's controller
  returned or a stop of its own, it returns by its deadline, and the guard holds no more output than
  its caps.
\<close>

lemma fail_returns:
  "fail_run pt reason detail = Inr r \<Longrightarrow> \<exists>s. r = OwnFailure s \<and> rs_stop_reason s = Some (own_stop reason)
     \<and> rs_status s = spec_status (spec_of (own_stop reason)) \<and> rs_outputs s = [] \<and> rs_evaluations s = []"
  by (auto simp: fail_run_def failure_run_def bind_res_Inr enter_Inr stop_run_Inr new_run_def)

lemma own_stops: "own_stop r \<in> {ToolError, StopCancelled, BudgetExhausted}"
  by (simp add: own_stop_def)

definition own_failure :: "isolated \<Rightarrow> bool" where
  "own_failure r \<longleftrightarrow> (\<exists>s. r = OwnFailure s
     \<and> (\<exists>q \<in> {ToolError, StopCancelled, BudgetExhausted}. rs_stop_reason s = Some q \<and> rs_status s = spec_status (spec_of q))
     \<and> rs_outputs s = [] \<and> rs_evaluations s = [])"

lemma fail_own: "fail_run pt reason detail = Inr r \<Longrightarrow> own_failure r"
  using fail_returns [of pt reason detail r] own_stops [of reason]
  by (auto simp: own_failure_def)

definition coherent_run :: "dict \<Rightarrow> bool" where
  "coherent_run run \<longleftrightarrow> get_or run ''schema'' PNone = PStr ''atlas-run.v1''
     \<and> (\<exists>q. get_or run ''stop_reason'' PNone = PStr (reason_name q)
          \<and> get_or run ''status'' PNone = PStr (status_name (spec_status (spec_of q))))"

lemma spec_for_known: "spec_for r = Inr sp \<Longrightarrow> \<exists>q. r = reason_name q \<and> sp = spec_of q"
proof -
  assume s: "spec_for r = Inr sp"
  then obtain k where "reason_name k = r"
    by (auto simp: spec_for_def find_Some_iff split: option.splits)
  with s spec_for_name [of k] show ?thesis by auto
qed

lemma coherent_stop_run:
  "coherent_stop run = Inr True \<Longrightarrow> \<exists>q. get_or run ''stop_reason'' PNone = PStr (reason_name q)
     \<and> get_or run ''status'' PNone = PStr (status_name (spec_status (spec_of q)))"
  by (auto simp: coherent_stop_def dest: spec_for_known split: pyval.splits sum.splits)

lemma judge_returns:
  assumes "judge pt cap a = Inr r"
  shows "own_failure r \<or> (\<exists>run raw p. r = FromWorker run \<and> a = Inr raw \<and> pt_loads pt raw = Inr (PDict p)
    \<and> get_or p ''kind'' PNone = PStr ''run'' \<and> get_or p ''run'' PNone = PDict run \<and> coherent_run run)"
proof (cases "received pt cap a")
  case (Inl e)
  with assms fail_own show ?thesis by (auto simp: judge_def split: if_splits)
next
  case (Inr v)
  show ?thesis
  proof (cases "\<exists>p run. v = PDict p \<and> get_or p ''kind'' PNone = PStr ''run'' \<and> get_or p ''run'' PNone = PDict run")
    case False
    with assms Inr fail_own show ?thesis by (auto simp: judge_def judge_run_def split: pyval.splits if_splits)
  next
    case True
    then obtain p run where p: "v = PDict p" "get_or p ''kind'' PNone = PStr ''run''" "get_or p ''run'' PNone = PDict run"
      by blast
    from Inr obtain raw where raw: "a = Inr raw" "pt_loads pt raw = Inr v"
      by (auto simp: received_def bind_res_Inr split: if_splits)
    show ?thesis
    proof (cases "get_or run ''schema'' PNone = PStr ''atlas-run.v1'' \<and> coherent_stop run = Inr True")
      case True
      with assms Inr p raw coherent_stop_run [of run] show ?thesis
        by (simp add: judge_def judge_run_def coherent_run_def)
    next
      case False
      with assms Inr p fail_own show ?thesis by (auto simp: judge_def judge_run_def bind_res_Inr split: if_splits)
    qed
  qed
qed

lemma watch_returns:
  assumes "watch pt late cap ts = Some (Inr r)"
  shows "own_failure r \<or> (\<exists>t \<in> set ts. \<exists>a. tk_arrival t = Some a \<and> judge pt cap a = Inr r)"
  using assms
  by (induction ts) (auto dest: fail_own split: sum.splits bool.splits option.splits if_splits)

text \<open>C14. The parent never infers a verdict. When everything that arrives on the pipe is what the
  worker sent, and the parser reads back what was encoded, a run that \<open>run_isolated\<close> returns is
  either the very document the worker's controller returned, marked as isolated, with the published
  schema and a status that its stop reason declares, and the worker has been killed; or a stop of the
  parent's own for a tool error, a cancellation or the deadline, with no answer and no grade in it. A
  controller that raised never gives a run.\<close>

theorem isolated_run_is_the_workers:
  assumes "isolated_run pt ts = (Some (Inr r), killed)"
    and "\<forall>t \<in> set ts. \<forall>raw. tk_arrival t = Some (Inr raw) \<longrightarrow> run_worker encode outcome = Some raw"
    and "\<forall>raw. encode (worker_payload outcome) = Inr raw \<longrightarrow> pt_loads pt raw = Inr (worker_payload outcome)"
  shows "own_failure r \<or> (\<exists>run0 run. outcome = Inr run0 \<and> mark_isolated run0 = Inr run \<and> r = FromWorker run
    \<and> coherent_run run \<and> killed)"
proof (cases "own_failure r")
  case False
  then have no: "fail_run pt reason detail \<noteq> Inr r" for reason detail using fail_own by blast
  with assms(1) obtain l where pt: "pt_posix pt" "pt_start pt = None" "pt_limits pt = Some l"
    by (auto simp: isolated_run_def split: if_splits option.splits)
  with assms(1) have l: "watch pt (pt_began pt + wall_seconds l) (transport_cap (max_output_bytes l)) ts = Some (Inr r)"
    "killed" by (auto simp: isolated_run_def Let_def)
  from watch_returns [OF l(1)] False obtain t a where t: "t \<in> set ts" "tk_arrival t = Some a"
    "judge pt (transport_cap (max_output_bytes l)) a = Inr r" by blast
  from judge_returns [OF t(3)] False obtain run raw p where j: "r = FromWorker run" "a = Inr raw"
    "pt_loads pt raw = Inr (PDict p)" "get_or p ''kind'' PNone = PStr ''run''" "get_or p ''run'' PNone = PDict run"
    "coherent_run run" by blast
  from assms(2) t j(2) have "run_worker encode outcome = Some raw" by simp
  then have "encode (worker_payload outcome) = Inr raw" by (simp add: run_worker_def split: sum.splits)
  with assms(3) j(3) have w: "worker_payload outcome = PDict p" by simp
  show ?thesis
  proof (cases "bind_res outcome mark_isolated")
    case (Inl e)
    with w j(4) show ?thesis by (auto simp: worker_payload_def get_or_def)
  next
    case (Inr run1)
    with w j(5) have "run1 = run" by (auto simp: worker_payload_def get_or_def)
    with Inr j l(2) show ?thesis by (auto simp: bind_res_Inr)
  qed
qed simp


subsection \<open>The guard\<close>

definition in_caps :: "nat \<times> nat \<Rightarrow> guard \<Rightarrow> bool" where
  "in_caps caps g \<longleftrightarrow> (\<forall>p. length (kept p g) \<le> cap_of caps p)"

lemma kept_keep: "kept q (keep p block g) = (if q = p then kept q g @ block else kept q g)"
  by (cases p; cases q) (simp_all add: kept_def keep_def)

lemma kept_open [simp]: "kept q (g\<lparr>gd_open := ps\<rparr>) = kept q g"
  by (cases q) (simp_all add: kept_def)

lemma wanted_positive: "0 < wanted_bytes caps p g" by (simp add: wanted_bytes_def)

lemma open_keep [simp]: "gd_open (keep p block g) = gd_open g"
  by (cases p) (simp_all add: keep_def)

lemma guard_read_caps: "guard_read caps r g = Inr g' \<Longrightarrow> in_caps caps g \<Longrightarrow> in_caps caps g'"
  by (cases r) (auto simp: guard_read_def Let_def in_caps_def kept_keep split: if_splits)

text \<open>A pipe is closed by the read that finds its end.\<close>

lemma guard_read_closed:
  "guard_read caps r g = Inr g' \<Longrightarrow> q \<in> set (gd_open g) \<Longrightarrow> q \<notin> set (gd_open g') \<Longrightarrow> r = (q, [])"
  using wanted_positive [of caps q g] by (cases r) (auto simp: guard_read_def Let_def split: if_splits)

lemma guard_reads_caps: "guard_reads caps rs g = Inr g' \<Longrightarrow> in_caps caps g \<Longrightarrow> in_caps caps g'"
  by (induction rs arbitrary: g) (auto simp: bind_res_Inr dest: guard_read_caps)

lemma guard_reads_closed:
  "guard_reads caps rs g = Inr g' \<Longrightarrow> q \<in> set (gd_open g) \<Longrightarrow> q \<notin> set (gd_open g') \<Longrightarrow> (q, []) \<in> set rs"
proof (induction rs arbitrary: g)
  case (Cons r rs)
  then obtain h where h: "guard_read caps r g = Inr h" "guard_reads caps rs h = Inr g'" by (auto simp: bind_res_Inr)
  with Cons guard_read_closed [OF h(1) Cons.prems(2)] show ?case by (cases "q \<in> set (gd_open h)") auto
qed simp

lemma guard_loop_returns:
  assumes "guard_loop caps late ts g = Some (Inr g')" and "in_caps caps g"
  shows "in_caps caps g' \<and> gd_open g' = []
    \<and> (\<forall>q \<in> set (gd_open g). \<exists>t \<in> set ts. (q, []) \<in> set (tn_ready t) \<and> tn_clock t < late)"
  using assms
proof (induction ts arbitrary: g)
  case (Cons t ts)
  show ?case
  proof (cases "gd_open g = []")
    case False
    with Cons.prems obtain h where h: "tn_clock t < late" "guard_reads caps (reported g t) g = Inr h"
      "guard_loop caps late ts h = Some (Inr g')"
      by (auto simp: guard_loop.simps [of caps late "t # ts"] split: if_splits sum.splits)
    note ih = Cons.IH [OF h(3) guard_reads_caps [OF h(2) Cons.prems(2)]]
    have "\<exists>u \<in> set (t # ts). (q, []) \<in> set (tn_ready u) \<and> tn_clock u < late" if q: "q \<in> set (gd_open g)" for q
    proof (cases "q \<in> set (gd_open h)")
      case True
      with ih show ?thesis by auto
    next
      case False
      from guard_reads_closed [OF h(2) q False] h(1) show ?thesis by (auto simp: reported_def)
    qed
    with ih show ?thesis by blast
  qed (use Cons.prems in simp)
qed (simp split: if_splits)


subsection \<open>One worker\<close>

definition worker_run :: dict where
  "worker_run = [(''schema'', PStr ''atlas-run.v1''), (''stop_reason'', PStr ''passed''), (''status'', PStr ''done'')]"

definition worker_wire :: "pyval \<Rightarrow> string result" where
  "worker_wire v = (if v = worker_payload (Inr worker_run) then Inr ''run'' else Inl TypeError)"

definition sample_parent :: parent where
  "sample_parent = \<lparr>pt_posix = True, pt_limits = Some \<lparr>wall_seconds = 10, max_model_calls = 1, max_tool_calls = 1,
     max_tokens = 1, max_output_bytes = 1\<rparr>, pt_start = None, pt_began = 0,
     pt_loads = (\<lambda>s. if s = ''run'' then Inr (worker_payload (Inr worker_run)) else Inl JSONDecodeError),
     pt_task = ''look'', pt_max = 2, pt_new_id = ''r''\<rparr>"

definition waiting :: parent_turn where
  "waiting = \<lparr>tk_cancel = Inr False, tk_clock = 1, tk_arrival = None, tk_exited = False\<rparr>"

lemma sample_isolated: "\<exists>run. isolated_run sample_parent [waiting, waiting\<lparr>tk_arrival := Some (Inr ''run'')\<rparr>] = (Some (Inr (FromWorker run)), True)"
proof -
  have "spec_for ''passed'' = Inr (spec_of Passed)" "status_name (spec_status (spec_of Passed)) = ''done''"
    using spec_for_name [of Passed] by (simp_all add: spec_of_def stop_reasons_def mk_spec_def)
  then show ?thesis
    by (simp add: isolated_run_def sample_parent_def waiting_def transport_cap_def judge_def received_def judge_run_def
        worker_payload_def mark_isolated_def worker_run_def get_or_def coherent_stop_def utf8_len_def utf8_width_def em_dash_def)
qed

theorem isolated_run_is_the_workers_witness:
  "\<exists>run. isolated_run sample_parent [waiting, waiting\<lparr>tk_arrival := Some (Inr ''run'')\<rparr>] = (Some (Inr (FromWorker run)), True)
     \<and> mark_isolated worker_run = Inr run \<and> coherent_run run"
proof -
  obtain run where r: "isolated_run sample_parent [waiting, waiting\<lparr>tk_arrival := Some (Inr ''run'')\<rparr>]
      = (Some (Inr (FromWorker run)), True)" using sample_isolated by blast
  have "run_worker worker_wire (Inr worker_run) = Some ''run''" by (simp add: run_worker_def worker_wire_def)
  with isolated_run_is_the_workers [OF r, of worker_wire "Inr worker_run"] r show ?thesis
    by (auto simp: waiting_def worker_wire_def sample_parent_def own_failure_def)
qed


definition last_turn :: turn where
  "last_turn = \<lparr>tn_clock = 1, tn_ready = [(Stdout, []), (Stderr, [])]\<rparr>"

lemma sample_guarded:
  "run_bounded_process True [''w''] 5 3 3 0 [\<lparr>tn_clock = 1, tn_ready = [(Stdout, ''abc'')]\<rparr>, last_turn] 2 (Some 0) =
     (Some (Inr \<lparr>wr_stdout = ''abc'', wr_stderr = [], wr_code = 0\<rparr>), False)"
  by (simp add: run_bounded_process_def last_turn_def reported_def guard_read_def wanted_bytes_def cap_of_def kept_def
      keep_def finish_worker_def Let_def)


end
