(* ===== verification/Finalizer.thy ===== *)
theory Finalizer
  imports Feedback
begin

section \<open>The text of a run (atlas_core/finalizer.py)\<close>

text \<open>
  \<open>render_run_text\<close> of a run document: the last answer, a trailer of facts about the run and the ledger that
  says of each claim whether it was settled. The document is a JSON object whose parts may have
  any shape; what Python raises on another shape is raised here. The ellipsis is written as the
  unassigned control character 0x9A, as the dash is as 0x97.
\<close>

definition ellipsis :: string where "ellipsis = [CHR 0x9A]"

definition fact_label :: string where "fact_label = ''FACT      ''"
definition refuted_label :: string where "refuted_label = ''REFUTED   ''"
definition hypothesis_label :: string where "hypothesis_label = ''HYPOTHESIS''"
definition max_ledger_claim :: nat where "max_ledger_claim = 100"

subsection \<open>Reading a document\<close>

text \<open>\<open>(v or {})\<close> read with \<open>get\<close>, \<open>(v or [])[-1]\<close>, iteration, and \<open>v[k]\<close>.\<close>

definition dict_or_empty :: "pyval \<Rightarrow> dict result" where
  "dict_or_empty v = (if truthy v then need_dict v else Inr [])"

definition last_item :: "pyval \<Rightarrow> pyval option result" where
  "last_item v = (if \<not> truthy v then Inr None
     else (case v of PList xs \<Rightarrow> Inr (Some (last xs)) | PStr s \<Rightarrow> Inr (Some (PStr [last s]))
       | PDict d \<Rightarrow> Inl KeyError | _ \<Rightarrow> Inl TypeError))"

definition iter_items :: "pyval \<Rightarrow> pyval list result" where
  "iter_items v = (case v of PList xs \<Rightarrow> Inr xs | PStr s \<Rightarrow> Inr (map (\<lambda>c. PStr [c]) s)
     | PDict d \<Rightarrow> Inr (map (\<lambda>x. PStr (fst x)) d) | _ \<Rightarrow> Inl TypeError)"

definition items_or_empty :: "pyval \<Rightarrow> pyval list result" where
  "items_or_empty v = (if truthy v then iter_items v else Inr [])"

definition subscript :: "pyval \<Rightarrow> string \<Rightarrow> pyval result" where
  "subscript v k = (case v of PDict d \<Rightarrow> get_key d k | _ \<Rightarrow> Inl TypeError)"

text \<open>\<open>", ".join(v)\<close>.\<close>

definition joined :: "pyval \<Rightarrow> string result" where
  "joined v = bind_res (iter_items v) (\<lambda>xs. bind_res (names_in (PList xs)) (\<lambda>ns. Inr (join '', '' ns)))"

text \<open>Membership in \<open>set(v or [])\<close>; a list or an object cannot be in a set.\<close>

definition hashable :: "pyval \<Rightarrow> bool" where
  "hashable v \<longleftrightarrow> (case v of PList _ \<Rightarrow> False | PDict _ \<Rightarrow> False | _ \<Rightarrow> True)"

definition set_has :: "string \<Rightarrow> pyval \<Rightarrow> bool result" where
  "set_has k v = bind_res (items_or_empty v) (\<lambda>xs.
     if list_all hashable xs then Inr (PStr k \<in> set xs) else Inl TypeError)"

subsection \<open>Reading an evaluation\<close>

definition asserted_nothing :: "dict \<Rightarrow> bool result" where
  "asserted_nothing e =
     bind_res (set_has ''claims_are_settled'' (get_or e ''met_criteria'' PNone)) (\<lambda>a.
     bind_res (set_has ''claims_are_settled'' (get_or e ''unmet_criteria'' PNone)) (\<lambda>b.
     Inr (truthy (get_or e ''passed'' PNone) \<and> (a \<or> b) \<and> \<not> truthy (get_or e ''citation_checks'' PNone)
       \<and> \<not> truthy (get_or e ''unverified_claims'' PNone))))"

text \<open>The path a settled absence rests on without the whole file having been read.\<close>

definition partial_path :: "pyval \<Rightarrow> string option result" where
  "partial_path rv = bind_res (need_dict rv) (\<lambda>r.
     if get_or r ''verdict'' PNone \<noteq> PStr ''verified'' then Inr None
     else bind_res (dict_or_empty (get_or r ''claim_check'' PNone)) (\<lambda>cc.
       bind_res (dict_or_empty (get_or cc ''checked'' PNone)) (\<lambda>checked.
       if get_or checked ''kind'' PNone \<noteq> PStr ''source_lacks_literal'' \<or> get_or checked ''read_in_full'' PNone = PBool True
       then Inr None
       else let p = get_or checked ''path'' PNone; t = (if truthy p then str_val p else []) in
         Inr (if t = [] then None else Some t))))"

definition absence_from_partial :: "dict \<Rightarrow> string list result" where
  "absence_from_partial e = bind_res (items_or_empty (get_or e ''citation_checks'' PNone)) (\<lambda>rs.
     bind_res (map_res partial_path rs) (\<lambda>ps.
     Inr (fold (\<lambda>p acc. case p of None \<Rightarrow> acc | Some t \<Rightarrow> if t \<in> set acc then acc else acc @ [t]) ps [])))"

subsection \<open>The ledger\<close>

definition clip :: "string \<Rightarrow> string" where
  "clip t = (let u = join '' '' (split_ws t) in
     if length u \<le> max_ledger_claim then u else take (max_ledger_claim - 1) u @ ellipsis)"

definition ledger_row :: "string \<Rightarrow> string \<Rightarrow> string" where
  "ledger_row label t = ''  '' @ label @ ''  '' @ clip t"

definition claim_text :: "dict \<Rightarrow> string" where "claim_text r = str_val (get_or r ''claim'' (PStr []))"

definition label_of :: "dict \<Rightarrow> string" where
  "label_of r = (let v = get_or r ''verdict'' PNone in
     if v = PStr ''verified'' then fact_label else if v = PStr ''contradicted'' then refuted_label else hypothesis_label)"

definition ledger_rows :: "dict list \<Rightarrow> pyval list \<Rightarrow> string list" where
  "ledger_rows rs us = map (\<lambda>r. ledger_row (label_of r) (claim_text r)) rs
     @ map (\<lambda>u. ledger_row hypothesis_label (str_val u)) (filter (\<lambda>u. str_val u \<notin> claim_text ` set rs) us)"

definition ledger_head :: "string list" where
  "ledger_head = [[], ''Claim ledger (from the run document, not from the text above):'']"

definition ledger_tail :: "string list" where
  "ledger_tail = [''  FACT is settled against observed lines. REFUTED means the source says'',
     ''  otherwise. HYPOTHESIS was not established, whatever the text implies.'',
     ''  Recommendations are advice, not findings, and are not listed here.'']"

definition ledger_frame :: "string list \<Rightarrow> string list" where
  "ledger_frame rows = (if rows = [] then [] else ledger_head @ rows @ ledger_tail)"

text \<open>What the ledger of a run is made of: the records and the unverified claims of its last evaluation.\<close>

definition ledger_claims :: "dict \<Rightarrow> (dict list \<times> pyval list) result" where
  "ledger_claims run = bind_res (last_item (get_or run ''evaluations'' PNone)) (\<lambda>latest. case latest of
     None \<Rightarrow> Inr ([], [])
   | Some ev \<Rightarrow> bind_res (need_dict ev) (\<lambda>e.
       bind_res (items_or_empty (get_or e ''citation_checks'' PNone)) (\<lambda>cs. bind_res (need_dicts cs) (\<lambda>rs.
       bind_res (items_or_empty (get_or e ''unverified_claims'' PNone)) (\<lambda>us. Inr (rs, us))))))"

definition claim_ledger :: "dict \<Rightarrow> string list result" where
  "claim_ledger run = bind_res (ledger_claims run) (\<lambda>(rs, us). Inr (ledger_frame (ledger_rows rs us)))"

subsection \<open>The trailer\<close>

definition or_unknown :: "pyval \<Rightarrow> string" where
  "or_unknown v = (if truthy v then str_val v else ''unknown'')"

definition run_lines :: "dict \<Rightarrow> dict \<Rightarrow> string list" where
  "run_lines run route = [''Atlas route: '' @ or_unknown (get_or route ''name'' PNone),
     ''Iterations: '' @ str_val (get_or run ''iteration'' (PInt 0)) @ ''/'' @ str_val (get_or run ''max_iterations'' (PInt 0)),
     ''Stop reason: '' @ or_unknown (get_or run ''stop_reason'' PNone)
       @ (let c = get_or run ''stop_class'' PNone in if truthy c then '' ('' @ str_val c @ '')'' else [])]"

definition drift_lines :: "dict \<Rightarrow> string list result" where
  "drift_lines run = bind_res (dict_or_empty (get_or run ''metadata'' PNone)) (\<lambda>m.
     let dr = get_or m ''drift'' PNone in
     if \<not> truthy dr then Inr []
     else bind_res (need_dict dr) (\<lambda>d. let ps = get_or d ''paths'' PNone in
       bind_res (if truthy ps then joined ps else Inr []) (\<lambda>moved.
       Inr [''Sources moved during the run: '' @ (if moved = [] then ''the snapshot itself'' else moved)
         @ ''. Any grade below describes the state that was read, not the state now.''])))"

definition list_line :: "dict \<Rightarrow> string \<Rightarrow> string \<Rightarrow> string list result" where
  "list_line e k title = (let v = get_or e k PNone in
     if truthy v then bind_res (joined v) (\<lambda>t. Inr [title @ t]) else Inr [])"

definition nothing_line :: string where
  "nothing_line = ''This run asserted no finding, so it met its criteria without establishing anything. ''
     @ ''That is not a statement that the sources are sound; it is the absence of any statement.''"

definition grade_lines :: "pyval \<Rightarrow> string list result" where
  "grade_lines ev = bind_res (subscript ev ''quality_score'') (\<lambda>q. bind_res (subscript ev ''passed'') (\<lambda>p.
     bind_res (need_dict ev) (\<lambda>e.
     bind_res (list_line e ''unmet_criteria'' ''Not met: '') (\<lambda>unmet.
     bind_res (list_line e ''evidence_gaps'' ''Evidence gaps: '') (\<lambda>gaps.
     bind_res (asserted_nothing e) (\<lambda>silent.
     bind_res (absence_from_partial e) (\<lambda>partial.
     bind_res (subscript ev ''requires_user_approval'') (\<lambda>approval.
     Inr ([''Criteria met: '' @ str_val q, ''Status: '' @ (if truthy p then ''passed'' else ''provisional'')] @ unmet @ gaps
       @ (if silent then [nothing_line] else [])
       @ (if partial = [] then [] else [''Absence was established only over the lines read, not over the ''
           @ ''whole source, for: '' @ join '', '' partial @ ''.''])
       @ (if truthy approval then [''Write approval required before any mutation.''] else []))))))))))"

definition failure_lines :: "dict \<Rightarrow> bool \<Rightarrow> string list result" where
  "failure_lines run judged =
     (if get_or run ''stop_class'' PNone \<noteq> PStr ''runtime'' then Inr []
      else bind_res (dict_or_empty (get_or run ''metadata'' PNone)) (\<lambda>m.
        bind_res (dict_or_empty (get_or m ''failure'' PNone)) (\<lambda>f.
        Inr [''Failure: '' @ str_val (get_or f ''stage'' (PStr ''unknown'')) @ '' raised ''
          @ str_val (get_or f ''error'' (PStr ''an error'')) @ ''. ''
          @ (if judged then ''The failed iteration was not graded; earlier evaluations are history, ''
               @ ''not this run outcome; not a verdict on the answer.''
             else ''No answer was graded; not a verdict on the answer.'')])))"

definition given :: "pyval option \<Rightarrow> bool" where
  "given v = (case v of None \<Rightarrow> False | Some x \<Rightarrow> truthy x)"

definition render_run_text :: "dict \<Rightarrow> string result" where
  "render_run_text run =
     bind_res (dict_or_empty (get_or run ''route'' PNone)) (\<lambda>route.
     bind_res (last_item (get_or run ''outputs'' PNone)) (\<lambda>out.
     bind_res (last_item (get_or run ''evaluations'' PNone)) (\<lambda>ev.
     bind_res (drift_lines run) (\<lambda>drift.
     bind_res (if given ev then grade_lines (the ev) else Inr []) (\<lambda>grade.
     bind_res (claim_ledger run) (\<lambda>ledger.
     bind_res (failure_lines run (given ev)) (\<lambda>failure.
     case out of
       None \<Rightarrow> Inr (''No output.'' @ [LF, LF] @ ''---'' @ [LF] @ join [LF] (run_lines run route @ drift @ grade @ failure @ ledger) @ [LF])
     | Some (PStr t) \<Rightarrow> Inr (rstrip t @ [LF, LF] @ ''---'' @ [LF]
         @ join [LF] (run_lines run route @ drift @ grade @ failure @ ledger) @ [LF])
     | Some v \<Rightarrow> Inl no_attribute)))))))"

definition finalize :: "dict \<Rightarrow> bool \<Rightarrow> (dict + string) result" where
  "finalize document json_mode =
     (if json_mode then Inr (Inl document) else bind_res (render_run_text document) (\<lambda>t. Inr (Inr t)))"

end
