(* ===== verification/Ledger.thy ===== *)
theory Ledger
  imports Finalizer
begin

section \<open>What the ledger says\<close>

text \<open>
  A row of the ledger is one line of text whatever the claim contains, and its label is a fact's
  exactly for the claims whose record was verified.
\<close>

lemma break_is_space: "is_linebreak c \<Longrightarrow> is_space c"
  by (auto simp: is_linebreak_def is_space_def)

lemma split_ws_words:
  "list_all (\<lambda>c. \<not> is_space c) acc \<Longrightarrow> w \<in> set (split_ws_aux acc s) \<Longrightarrow> list_all (\<lambda>c. \<not> is_space c) w"
  by (induction acc s rule: split_ws_aux.induct) (auto split: if_splits)

lemma set_join: "c \<in> set (join sep ws) \<Longrightarrow> c \<in> set sep \<or> (\<exists>w \<in> set ws. c \<in> set w)"
  by (induction sep ws rule: join.induct) auto

definition one_line :: "string \<Rightarrow> bool" where "one_line s \<longleftrightarrow> list_all (\<lambda>c. \<not> is_linebreak c) s"

lemma one_line_append [simp]: "one_line (s @ t) \<longleftrightarrow> one_line s \<and> one_line t"
  by (simp add: one_line_def)

lemma clip_line: "one_line (clip t)"
proof -
  have "\<not> is_linebreak c" if "c \<in> set (join '' '' (split_ws t))" for c
  proof
    assume b: "is_linebreak c"
    from set_join [OF that] show False
    proof
      assume "c \<in> set '' ''" with b show False by (simp add: is_linebreak_def)
    next
      assume "\<exists>w \<in> set (split_ws t). c \<in> set w"
      with split_ws_words [of "[]" _ t] break_is_space [OF b] show False by (auto simp: split_ws_def list_all_iff)
    qed
  qed
  then have "one_line (join '' '' (split_ws t))" by (simp add: one_line_def list_all_iff)
  moreover from this have "one_line (take n (join '' '' (split_ws t)))" for n
    by (auto simp: one_line_def list_all_iff dest: in_set_takeD)
  ultimately show ?thesis by (simp add: clip_def Let_def one_line_def ellipsis_def is_linebreak_def)
qed

lemma labels:
  "one_line fact_label" "one_line refuted_label" "one_line hypothesis_label"
  "length fact_label = 10" "length refuted_label = 10" "length hypothesis_label = 10"
  "fact_label \<noteq> refuted_label" "fact_label \<noteq> hypothesis_label" "refuted_label \<noteq> hypothesis_label"
  by (simp_all add: fact_label_def refuted_label_def hypothesis_label_def one_line_def is_linebreak_def)

lemma row_line: "label \<in> {fact_label, refuted_label, hypothesis_label} \<Longrightarrow> one_line (ledger_row label t)"
  using labels clip_line [of t] by (auto simp: ledger_row_def) (simp_all add: one_line_def is_linebreak_def)

text \<open>The label that a line of the text carries.\<close>

definition labelled :: "string \<Rightarrow> string \<Rightarrow> bool" where
  "labelled line label \<longleftrightarrow> take 12 line = ''  '' @ label"

lemma labelled_row:
  "length label = 10 \<Longrightarrow> length label' = 10 \<Longrightarrow> labelled (ledger_row label t) label' \<longleftrightarrow> label = label'"
  by (auto simp: labelled_def ledger_row_def)

lemma label_of_cases: "label_of r \<in> {fact_label, refuted_label, hypothesis_label}"
  by (auto simp: label_of_def Let_def)

lemma label_of_fact: "label_of r = fact_label \<longleftrightarrow> get_or r ''verdict'' PNone = PStr ''verified''"
  using labels by (auto simp: label_of_def Let_def)

lemma label_of_length: "length (label_of r) = 10"
  using label_of_cases [of r] labels by auto

lemma frame_lines: "list_all (\<lambda>l. one_line l \<and> \<not> labelled l fact_label) (ledger_head @ ledger_tail)"
  by code_simp

text \<open>C25. The ledger calls a fact exactly what was verified. Every line of the ledger is one
  line of the text, whatever the claims contain; a line carries the label of a fact exactly
  when it is the row of a record of the last evaluation whose verdict is \<open>verified\<close>; and every
  claim, whether it was checked or never reached the checker, has a row.\<close>

theorem fact_means_verified:
  assumes "claim_ledger run = Inr ls" and "ledger_claims run = Inr (rs, us)"
  shows "list_all one_line ls
    \<and> (\<forall>l. l \<in> set ls \<and> labelled l fact_label \<longleftrightarrow>
        (\<exists>r \<in> set rs. get_or r ''verdict'' PNone = PStr ''verified'' \<and> l = ledger_row fact_label (claim_text r)))
    \<and> (\<forall>t \<in> claim_text ` set rs \<union> str_val ` set us. \<exists>label. ledger_row label t \<in> set ls)"
proof -
  let ?rows = "ledger_rows rs us"
  have ls: "ls = ledger_frame ?rows" using assms by (simp add: claim_ledger_def)
  have rows: "l \<in> set ?rows \<longleftrightarrow> (\<exists>r \<in> set rs. l = ledger_row (label_of r) (claim_text r))
      \<or> (\<exists>u \<in> set us. str_val u \<notin> claim_text ` set rs \<and> l = ledger_row hypothesis_label (str_val u))" for l
    by (auto simp: ledger_rows_def)
  have facts: "l \<in> set ?rows \<and> labelled l fact_label \<longleftrightarrow>
      (\<exists>r \<in> set rs. get_or r ''verdict'' PNone = PStr ''verified'' \<and> l = ledger_row fact_label (claim_text r))" for l
  proof
    assume "l \<in> set ?rows \<and> labelled l fact_label"
    then show "\<exists>r \<in> set rs. get_or r ''verdict'' PNone = PStr ''verified'' \<and> l = ledger_row fact_label (claim_text r)"
      unfolding rows using labels label_of_fact label_of_length by (auto simp: labelled_row) metis
  next
    assume "\<exists>r \<in> set rs. get_or r ''verdict'' PNone = PStr ''verified'' \<and> l = ledger_row fact_label (claim_text r)"
    then obtain r where r: "r \<in> set rs" "l = ledger_row (label_of r) (claim_text r)" "label_of r = fact_label"
      using label_of_fact by metis
    then have "labelled l fact_label" using labels by (simp add: labelled_row)
    with r(1,2) show "l \<in> set ?rows \<and> labelled l fact_label" unfolding rows by blast
  qed
  have framed: "l \<in> set ls \<Longrightarrow> l \<in> set ?rows \<or> one_line l \<and> \<not> labelled l fact_label" for l
    unfolding ls ledger_frame_def using frame_lines by (auto simp: list_all_iff split: if_splits)
  have kept: "set ?rows \<subseteq> set ls" by (auto simp: ls ledger_frame_def)
  have "one_line l" if "l \<in> set ?rows" for l
    using that row_line label_of_cases unfolding rows by blast
  with framed have "list_all one_line ls" by (auto simp: list_all_iff)
  moreover have "l \<in> set ls \<and> labelled l fact_label \<longleftrightarrow>
      (\<exists>r \<in> set rs. get_or r ''verdict'' PNone = PStr ''verified'' \<and> l = ledger_row fact_label (claim_text r))" for l
    using facts [of l] framed [of l] kept by blast
  moreover have "\<exists>label. ledger_row label t \<in> set ls" if t: "t \<in> claim_text ` set rs \<union> str_val ` set us" for t
  proof (cases "t \<in> claim_text ` set rs")
    case True
    then obtain r where r: "r \<in> set rs" "t = claim_text r" by blast
    then have "ledger_row (label_of r) t \<in> set ?rows" unfolding rows by blast
    with kept show ?thesis by blast
  next
    case False
    with t obtain u where u: "u \<in> set us" "t = str_val u" by blast
    with False have "ledger_row hypothesis_label t \<in> set ?rows" unfolding rows by blast
    with kept show ?thesis by blast
  qed
  ultimately show ?thesis by blast
qed

definition ledger_run :: dict where
  "ledger_run = [(''evaluations'', PList [PDict [(''citation_checks'', PList
       [PDict [(''claim'', PStr ''a b''), (''verdict'', PStr ''verified'')],
        PDict [(''claim'', PStr (''x'' @ [LF] @ ''  FACT        y''))]]),
     (''unverified_claims'', PList [PStr ''z'', PStr ''a b''])]])]"

lemma ledger_evaluated: "case claim_ledger ledger_run of Inl e \<Rightarrow> False
    | Inr ls \<Rightarrow> length (filter (\<lambda>l. labelled l fact_label) ls) = 1"
  by code_simp

theorem fact_means_verified_witness:
  "\<exists>ls. claim_ledger ledger_run = Inr ls \<and> length (filter (\<lambda>l. labelled l fact_label) ls) = 1 \<and> list_all one_line ls"
proof -
  obtain ls where l: "claim_ledger ledger_run = Inr ls" "length (filter (\<lambda>l. labelled l fact_label) ls) = 1"
    using ledger_evaluated by (auto split: sum.splits)
  obtain rs us where "ledger_claims ledger_run = Inr (rs, us)"
    using l(1) by (auto simp: claim_ledger_def bind_res_Inr)
  from fact_means_verified [OF l(1) this] l show ?thesis by blast
qed

end
