(* ===== verification/Contracts.thy ===== *)
theory Contracts
  imports PyValue
begin

section \<open>Documents and who may write their fields (atlas_core/contracts.py)\<close>

text \<open>
  The table of contracts and the two lookups. A contract that drops
  nothing and a first version have the defaults of their fields.
\<close>

definition owners :: "string list" where
  "owners = [''core'', ''host'', ''producer'', ''checker'', ''derived'']"

definition owner_meaning :: "(string \<times> string) list" where
  "owner_meaning =
       [(''core'', ''the Atlas loop''), (''host'', ''trusted host code''),
        (''producer'', ''whatever produced the answer''),
        (''checker'', ''the deterministic evidence check''),
        (''derived'', ''computed from other fields'')]"

record contract =
  ct_name :: string
  ct_version :: nat
  ct_schema_file :: string
  ct_succeeds :: "string option"
  ct_dropped :: "(string \<times> string) list"
  ct_owners :: "(string \<times> string) list"

definition contract_id :: "contract \<Rightarrow> string" where
  "contract_id c = ct_name c @ ''.v'' @ str_nat (ct_version c)"

definition schema_id :: "contract \<Rightarrow> string" where
  "schema_id c = ''atlas-'' @ lower (ct_name c) @ ''.v'' @ str_nat (ct_version c) @ ''.json''"

definition observation_contract :: contract where
  "observation_contract = \<lparr>ct_name = ''Observation'', ct_version = 1, ct_schema_file = ''atlas-observation.v1.json'',
     ct_succeeds = None, ct_dropped = [], ct_owners =
       [(''schema'', ''core''), (''source_id'', ''derived''), (''source_type'', ''host''),
        (''path'', ''host''), (''collected_at'', ''host''), (''content_sha256'', ''host''),
        (''excerpt'', ''host''), (''line_start'', ''host''), (''line_end'', ''host''),
        (''snapshot_id'', ''host''), (''repo'', ''host''), (''ref'', ''host''), (''commit'', ''host''),
        (''worktree_state'', ''host''), (''confidentiality'', ''derived''), (''total_lines'', ''host''),
        (''read_in_full'', ''derived'')]\<rparr>"

definition finding_contract :: contract where
  "finding_contract = \<lparr>ct_name = ''Finding'', ct_version = 1, ct_schema_file = ''atlas-finding.v1.json'',
     ct_succeeds = None, ct_dropped = [], ct_owners =
       [(''schema'', ''core''), (''finding_id'', ''derived''), (''claim'', ''producer''),
        (''scope'', ''producer''), (''severity'', ''checker''), (''severity_rationale'', ''producer''),
        (''declared_severity'', ''producer''), (''evidence'', ''producer''),
        (''verification_method'', ''checker''), (''verdict'', ''checker''),
        (''limitations'', ''producer''), (''reproducible_command'', ''producer'')]\<rparr>"

definition evaluation_contract :: contract where
  "evaluation_contract = \<lparr>ct_name = ''Evaluation'', ct_version = 2, ct_schema_file = ''atlas-evaluation.v2.json'',
     ct_succeeds = Some ''Evaluation.v1'', ct_dropped = [], ct_owners =
       [(''schema'', ''core''), (''evaluation_id'', ''derived''), (''run_id'', ''core''),
        (''iteration'', ''core''), (''quality_score'', ''checker''), (''score_method'', ''checker''),
        (''passed'', ''checker''), (''met_criteria'', ''checker''), (''unmet_criteria'', ''checker''),
        (''reasons'', ''checker''), (''missing'', ''checker''), (''missing_sections'', ''checker''),
        (''requires_user_approval'', ''core''), (''should_retry'', ''checker''),
        (''retry_is_possible'', ''checker''), (''suggested_adjustment'', ''checker''),
        (''next_action'', ''checker''), (''evidence_gaps'', ''checker''),
        (''unverified_claims'', ''checker''), (''evidence_coverage'', ''checker''),
        (''citation_checks'', ''checker''), (''blocked_by'', ''checker'')]\<rparr>"

definition action_contract :: contract where
  "action_contract = \<lparr>ct_name = ''Action'', ct_version = 1, ct_schema_file = ''atlas-action.v1.json'',
     ct_succeeds = None, ct_dropped = [], ct_owners =
       [(''schema'', ''core''), (''action_id'', ''derived''), (''run_id'', ''core''),
        (''iteration'', ''core''), (''kind'', ''core''), (''started_at'', ''core''),
        (''capability'', ''core''), (''target'', ''core''), (''input_sha256'', ''core''),
        (''outcome'', ''core''), (''error'', ''core'')]\<rparr>"

definition approval_contract :: contract where
  "approval_contract = \<lparr>ct_name = ''Approval'', ct_version = 1, ct_schema_file = ''atlas-approval.v1.json'',
     ct_succeeds = None, ct_dropped = [], ct_owners =
       [(''schema'', ''core''), (''approval_id'', ''derived''), (''run_id'', ''core''),
        (''iteration'', ''core''), (''required'', ''core''), (''reason'', ''core''),
        (''granted'', ''host''), (''granted_by'', ''host''), (''granted_at'', ''host''),
        (''binds_to'', ''host'')]\<rparr>"

definition event_contract :: contract where
  "event_contract = \<lparr>ct_name = ''Event'', ct_version = 1, ct_schema_file = ''atlas-event.v1.json'',
     ct_succeeds = None, ct_dropped = [], ct_owners =
       [(''schema'', ''core''), (''event_id'', ''derived''), (''run_id'', ''core''),
        (''sequence'', ''derived''), (''iteration'', ''core''), (''kind'', ''core''),
        (''recorded_at'', ''core''), (''call_id'', ''derived''), (''payload'', ''core'')]\<rparr>"

definition inspect_contract :: contract where
  "inspect_contract = \<lparr>ct_name = ''Inspect'', ct_version = 1, ct_schema_file = ''atlas-inspect.v1.json'',
     ct_succeeds = None, ct_dropped = [], ct_owners =
       [(''schema'', ''core''), (''run_id'', ''core''), (''status'', ''derived''),
        (''route'', ''derived''), (''iterations'', ''derived''), (''stop_reason'', ''derived''),
        (''stop_class'', ''derived''), (''sources'', ''derived''), (''source_details'', ''derived''),
        (''uncertainties'', ''derived''), (''unfinished_calls'', ''derived''), (''calls'', ''derived''),
        (''event_count'', ''derived''), (''started_at'', ''derived''), (''finished_at'', ''derived''),
        (''events'', ''core'')]\<rparr>"

definition status_contract :: contract where
  "status_contract = \<lparr>ct_name = ''Status'', ct_version = 1, ct_schema_file = ''atlas-status.v1.json'',
     ct_succeeds = None, ct_dropped = [], ct_owners =
       [(''schema'', ''core''), (''run_id'', ''core''), (''state'', ''derived''),
        (''status'', ''derived''), (''stop_reason'', ''derived''), (''iteration'', ''derived''),
        (''event_count'', ''derived''), (''last_event_kind'', ''derived''),
        (''cancel_requested'', ''derived'')]\<rparr>"

definition run_contract :: contract where
  "run_contract = \<lparr>ct_name = ''Run'', ct_version = 2, ct_schema_file = ''atlas-run.v2.json'',
     ct_succeeds = Some ''Run.v1'', ct_dropped = [], ct_owners =
       [(''schema'', ''core''), (''contracts'', ''core''), (''run_id'', ''core''), (''task'', ''core''),
        (''created_at'', ''core''), (''status'', ''core''), (''stop_reason'', ''core''),
        (''stop_class'', ''derived''), (''state_machine'', ''core''), (''iteration'', ''core''),
        (''max_iterations'', ''core''), (''route'', ''core''), (''plan'', ''core''),
        (''observations'', ''host''), (''evidence_manifest'', ''host''), (''outputs'', ''producer''),
        (''evaluations'', ''checker''), (''actions'', ''core''), (''approvals'', ''core''),
        (''memory_candidates'', ''core''), (''metadata'', ''core''), (''migration'', ''core'')]\<rparr>"

definition contracts :: "(string \<times> contract) list" where
  "contracts = map (\<lambda>c. (contract_id c, c)) [observation_contract, finding_contract, evaluation_contract,
     action_contract, approval_contract, event_contract, inspect_contract, status_contract, run_contract]"

definition run_v2_contracts :: "(string \<times> string) list" where
  "run_v2_contracts =
       [(''observation'', ''atlas-observation.v1''), (''finding'', ''atlas-finding.v1''),
        (''evaluation'', ''atlas-evaluation.v2''), (''action'', ''atlas-action.v1''),
        (''approval'', ''atlas-approval.v1''), (''event'', ''atlas-event.v1''),
        (''route'', ''atlas-route.v1''), (''memory_candidate'', ''atlas-memory-candidate.v1'')]"

definition predecessor_of :: "string \<Rightarrow> string option result" where
  "predecessor_of cid = (case map_of contracts cid of None \<Rightarrow> Inl KeyError | Some c \<Rightarrow> Inr (ct_succeeds c))"

definition owner_of :: "string \<Rightarrow> string \<Rightarrow> string result" where
  "owner_of cid field = (case map_of contracts cid of
     None \<Rightarrow> Inl KeyError
   | Some c \<Rightarrow> (case map_of (ct_owners c) field of None \<Rightarrow> Inl KeyError | Some who \<Rightarrow> Inr who))"

section \<open>Lemmas\<close>

text \<open>No field has two owners, every owner is a known one, and every successor follows its own first version.\<close>

definition contract_ok :: "contract \<Rightarrow> bool" where
  "contract_ok c \<longleftrightarrow> distinct (map fst (ct_owners c)) \<and> list_all (\<lambda>(k, who). who \<in> set owners) (ct_owners c)
     \<and> (case ct_succeeds c of None \<Rightarrow> ct_version c = 1
        | Some p \<Rightarrow> p = ct_name c @ ''.v'' @ str_nat (ct_version c - 1))"

lemma contracts_ok: "distinct (map fst contracts) \<and> list_all (\<lambda>(cid, c). cid = contract_id c \<and> contract_ok c) contracts"
  by code_simp

lemma owner_known: "owner_of cid field = Inr who \<Longrightarrow> who \<in> set owners"
  using contracts_ok
  by (fastforce simp: owner_of_def list_all_iff contract_ok_def split: option.splits dest!: map_of_SomeD)

end
