(* ===== verification/Migration.thy ===== *)
theory Migration
  imports Contracts EventLog Routing
begin

section \<open>From atlas-run.v1 to atlas-run.v2 (atlas_core/migrate.py)\<close>

text \<open>
  A migration maps a run document to one of the second version and a report of what it cost. The
  document is a JSON object; the hash of \<open>_stable_id\<close> and the time are parameters.
\<close>

definition source_schema_name :: string where "source_schema_name = ''atlas-run.v1''"
definition target_schema_name :: string where "target_schema_name = ''atlas-run.v2''"
definition evaluation_schema :: string where "evaluation_schema = ''atlas-evaluation.v2''"
definition approval_schema :: string where "approval_schema = ''atlas-approval.v1''"

definition v1_required :: "string list" where
  "v1_required = [''schema'', ''task'', ''run_id'', ''created_at'', ''status'', ''stop_reason'', ''iteration'',
     ''max_iterations'', ''route'', ''plan'', ''observations'', ''outputs'', ''evaluations'', ''memory_candidates'',
     ''metadata'']"

definition v2_required :: "string list" where
  "v2_required = [''schema'', ''contracts'', ''task'', ''run_id'', ''created_at'', ''status'', ''stop_reason'',
     ''iteration'', ''max_iterations'', ''route'', ''plan'', ''observations'', ''outputs'', ''evaluations'', ''actions'',
     ''approvals'', ''memory_candidates'', ''metadata'']"

definition carried :: "string list" where
  "carried = [''run_id'', ''task'', ''created_at'', ''status'', ''stop_reason'', ''stop_class'', ''state_machine'',
     ''iteration'', ''max_iterations'', ''route'', ''plan'', ''observations'', ''evidence_manifest'', ''outputs'',
     ''memory_candidates'', ''metadata'']"

definition not_recorded_in_v1 :: "string list" where "not_recorded_in_v1 = [''actions'']"

record migration_report =
  mr_mapped :: "string list"
  mr_unmapped :: dict
  mr_missing :: "string list"
  mr_unfilled :: "string list"
  mr_not_recorded :: "string list"
  mr_inconsistent :: "string list"

definition is_complete :: "migration_report \<Rightarrow> bool" where "is_complete r \<longleftrightarrow> mr_unfilled r = []"
definition is_lossless :: "migration_report \<Rightarrow> bool" where "is_lossless r \<longleftrightarrow> mr_unmapped r = []"

definition texts :: "string list \<Rightarrow> pyval" where "texts ss = PList (map PStr ss)"

definition report_dict :: "migration_report \<Rightarrow> string \<Rightarrow> string \<Rightarrow> dict" where
  "report_dict r source now = [(''from'', PStr source), (''to'', PStr target_schema_name), (''migrated_at'', PStr now),
     (''unmapped'', PDict (mr_unmapped r)), (''missing'', texts (mr_missing r)), (''unfilled'', texts (mr_unfilled r)),
     (''not_recorded'', texts (mr_not_recorded r))]"

definition unknown_source_schema :: exc where "unknown_source_schema = Foreign ''UnknownSourceSchema'' []"

text \<open>\<open>json.dumps\<close> of a list of strings, here with \<open>ensure_ascii\<close>.\<close>

definition ascii_char :: "char \<Rightarrow> string" where
  "ascii_char c = (if code c < 127 then json_char c
     else CHR 0x5C # (if [c] = em_dash then ''u2014'' else ''u00'' @ hex2 c))"

definition stable_id :: "(string \<Rightarrow> string) \<Rightarrow> string list \<Rightarrow> string" where
  "stable_id f parts = take 16 (f (''['' @ join '', ''
     (map (\<lambda>p. CHR 0x22 # concat (map ascii_char p) @ [CHR 0x22]) parts) @ '']''))"

subsection \<open>Evaluations and approvals\<close>

definition migrate_evaluation :: "(string \<Rightarrow> string) \<Rightarrow> pyval \<Rightarrow> pyval \<Rightarrow> nat \<Rightarrow> dict result" where
  "migrate_evaluation f item run i = bind_res (as_dict item) (\<lambda>d.
     let identified = dict_set ''evaluation_id'' (PStr (stable_id f [str_val run, str_nat i]))
         (dict_set ''iteration'' (PInt (int i)) (dict_set ''run_id'' run (dict_set ''schema'' (PStr evaluation_schema) d)))
     in Inr (if truthy (get_or identified ''score_method'' PNone) then identified
             else dict_set ''score_method'' (PStr ''unknown'') identified))"

fun migrate_evaluations :: "(string \<Rightarrow> string) \<Rightarrow> pyval \<Rightarrow> nat \<Rightarrow> pyval list \<Rightarrow> dict list result" where
  "migrate_evaluations f run i [] = Inr []"
| "migrate_evaluations f run i (x # xs) = bind_res (migrate_evaluation f x run i) (\<lambda>d.
     bind_res (migrate_evaluations f run (Suc i) xs) (\<lambda>ds. Inr (d # ds)))"

definition approval_reason :: "pyval \<Rightarrow> string" where
  "approval_reason task = (case task of
     PStr t \<Rightarrow> if requires_write_approval t then ''task_matches_write_keyword'' else ''not_recorded''
   | _ \<Rightarrow> ''not_recorded'')"

definition approval_record :: "(string \<Rightarrow> string) \<Rightarrow> pyval \<Rightarrow> pyval \<Rightarrow> nat \<Rightarrow> dict" where
  "approval_record f run task i = [(''schema'', PStr approval_schema),
     (''approval_id'', PStr (stable_id f [str_val run, str_nat i, ''approval''])), (''run_id'', run),
     (''iteration'', PInt (int i)), (''required'', PBool True), (''reason'', PStr (approval_reason task)),
     (''granted'', PNone), (''granted_by'', PNone), (''granted_at'', PNone), (''binds_to'', PNone)]"

definition asks_approval :: "pyval \<Rightarrow> bool" where
  "asks_approval item = (case item of PDict d \<Rightarrow> truthy (get_or d ''requires_user_approval'' PNone) | _ \<Rightarrow> False)"

fun approvals_from :: "(string \<Rightarrow> string) \<Rightarrow> pyval \<Rightarrow> pyval \<Rightarrow> nat \<Rightarrow> pyval list \<Rightarrow> dict list" where
  "approvals_from f run task i [] = []"
| "approvals_from f run task i (x # xs) =
     (if asks_approval x then [approval_record f run task i] else []) @ approvals_from f run task (Suc i) xs"

definition approval_is_well_formed :: "dict \<Rightarrow> bool" where
  "approval_is_well_formed r \<longleftrightarrow> (if get_or r ''granted'' PNone \<noteq> PBool True then True
     else (case get_or r ''binds_to'' PNone of
         PDict b \<Rightarrow> truthy (get_or b ''kind'' PNone) \<and> truthy (get_or b ''sha256'' PNone) | _ \<Rightarrow> False))"

subsection \<open>The document\<close>

definition too_many :: "pyval \<Rightarrow> nat \<Rightarrow> bool" where
  "too_many iteration n \<longleftrightarrow> (case iteration of
     PInt i \<Rightarrow> i < int n | PBool b \<Rightarrow> (if b then 1 else 0) < n | _ \<Rightarrow> False)"

definition carried_entries :: "dict \<Rightarrow> dict" where
  "carried_entries doc = map (\<lambda>k. (k, get_or doc k PNone)) (filter (\<lambda>k. k \<in> fst ` set doc) carried)"

text \<open>The entries of the result that come from the evaluations, the keys they account for and what contradicts.\<close>

definition graded_entries :: "(string \<Rightarrow> string) \<Rightarrow> dict \<Rightarrow> (dict \<times> string list \<times> string list) result" where
  "graded_entries f doc = (let run = get_or doc ''run_id'' (PStr []) in
     case get_or doc ''evaluations'' PNone of
       PList xs \<Rightarrow> bind_res (migrate_evaluations f run 1 xs) (\<lambda>ds.
         Inr ([(''evaluations'', PList (map PDict ds)),
               (''approvals'', PList (map PDict (approvals_from f run (get_or doc ''task'' PNone) 1 xs)))],
             [''evaluations''],
             if too_many (get_or doc ''iteration'' PNone) (length xs) then [''evaluations longer than iteration count''] else []))
     | _ \<Rightarrow> Inr ([(''approvals'', PNone)], [], []))"

definition migrate_run :: "(string \<Rightarrow> string) \<Rightarrow> string \<Rightarrow> dict \<Rightarrow> (dict \<times> migration_report) result" where
  "migrate_run f now doc =
     (if get_or doc ''schema'' PNone \<noteq> PStr source_schema_name then Inl unknown_source_schema
      else bind_res (graded_entries f doc) (\<lambda>(entries, graded_keys, clash).
        let target = [(''schema'', PStr target_schema_name),
              (''contracts'', PDict (map (\<lambda>(k, v). (k, PStr v)) run_v2_contracts))]
              @ carried_entries doc @ entries @ map (\<lambda>k. (k, PNone)) not_recorded_in_v1;
            mapped = ''schema'' # map fst (carried_entries doc) @ graded_keys;
            r = \<lparr>mr_mapped = mapped, mr_unmapped = filter (\<lambda>(k, v). k \<notin> set mapped) doc,
                mr_missing = filter (\<lambda>k. k \<notin> fst ` set doc) v1_required,
                mr_unfilled = filter (\<lambda>k. k \<notin> fst ` set target) v2_required,
                mr_not_recorded = not_recorded_in_v1, mr_inconsistent = clash\<rparr>
        in Inr (target @ [(''migration'', PDict (report_dict r source_schema_name now))], r)))"

section \<open>Lemmas\<close>

text \<open>One evaluation: its own entries, but the four of its identity and a score method without a value.\<close>

definition identity_keys :: "string list" where
  "identity_keys = [''schema'', ''run_id'', ''iteration'', ''evaluation_id'']"

definition same_grade :: "pyval \<Rightarrow> dict \<Rightarrow> bool" where
  "same_grade x d \<longleftrightarrow> (case as_dict x of Inl e \<Rightarrow> False
     | Inr g \<Rightarrow> (\<forall>k. k \<in> set identity_keys \<or> map_of d k = map_of g k
         \<or> k = ''score_method'' \<and> \<not> truthy (get_or g k PNone) \<and> map_of d k = Some (PStr ''unknown'')))"

lemma migrate_evaluation_same: "migrate_evaluation f x run i = Inr d \<Longrightarrow> same_grade x d"
  by (auto simp: migrate_evaluation_def same_grade_def identity_keys_def bind_res_Inr Let_def get_or_def
      split: if_splits)

lemma migrate_evaluations_same: "migrate_evaluations f run i xs = Inr ds \<Longrightarrow> list_all2 same_grade xs ds"
  by (induction f run i xs arbitrary: ds rule: migrate_evaluations.induct)
    (auto simp: bind_res_Inr dest: migrate_evaluation_same)

lemma approvals_from_cases:
  "a \<in> set (approvals_from f run task i xs) \<Longrightarrow> \<exists>j < length xs. asks_approval (xs ! j) \<and> a = approval_record f run task (i + j)"
proof (induction xs arbitrary: i)
  case (Cons x xs)
  then consider "asks_approval x" "a = approval_record f run task i" | "a \<in> set (approvals_from f run task (Suc i) xs)"
    by (auto split: if_splits)
  then show ?case
  proof cases
    case 1
    then show ?thesis by (intro exI [of _ 0]) simp
  next
    case 2
    from Cons.IH [OF this] obtain j where "j < length xs" "asks_approval (xs ! j)"
      "a = approval_record f run task (Suc i + j)" by blast
    then show ?thesis by (intro exI [of _ "Suc j"]) simp
  qed
qed simp

lemma approvals_from_asked:
  "j < length xs \<Longrightarrow> asks_approval (xs ! j) \<Longrightarrow> approval_record f run task (i + j) \<in> set (approvals_from f run task i xs)"
proof (induction xs arbitrary: i j)
  case (Cons x xs)
  show ?case
  proof (cases j)
    case 0
    with Cons.prems show ?thesis by simp
  next
    case (Suc m)
    with Cons.prems Cons.IH [of m "Suc i"] show ?thesis by simp
  qed
qed simp

lemma approval_record_open: "get_or (approval_record f run task i) ''granted'' PNone = PNone"
  "approval_is_well_formed (approval_record f run task i)"
  by (simp_all add: approval_record_def get_or_def approval_is_well_formed_def)

lemma map_of_carried: "map_of (carried_entries doc) k = (if k \<in> set carried then map_of doc k else None)"
proof (cases "map_of doc k")
  case None
  then have "k \<notin> fst ` set doc" by (simp add: map_of_eq_None_iff)
  with None show ?thesis by (simp add: carried_entries_def map_of_map_restrict restrict_map_def)
next
  case (Some v)
  then have "k \<in> fst ` set doc" by (force dest: map_of_SomeD)
  with Some show ?thesis by (simp add: carried_entries_def map_of_map_restrict restrict_map_def get_or_def)
qed

lemma keys_carried: "fst ` set (carried_entries doc) = set carried \<inter> fst ` set doc"
  by (auto simp: carried_entries_def image_image)

section \<open>What a migration keeps and what it adds\<close>

lemma get_list: "get_or doc k PNone = PList xs \<longleftrightarrow> map_of doc k = Some (PList xs)"
  by (simp add: get_or_def split: option.splits)

lemma graded_entries_Inr:
  assumes "graded_entries f doc = Inr (es, gk, clash)"
  obtains (graded) xs ds where "map_of doc ''evaluations'' = Some (PList xs)" "list_all2 same_grade xs ds"
      "es = [(''evaluations'', PList (map PDict ds)), (''approvals'', PList (map PDict
         (approvals_from f (get_or doc ''run_id'' (PStr [])) (get_or doc ''task'' PNone) 1 xs)))]"
      "gk = [''evaluations'']"
  | (ungraded) "\<forall>xs. map_of doc ''evaluations'' \<noteq> Some (PList xs)" "es = [(''approvals'', PNone)]" "gk = []"
proof (cases "\<exists>xs. get_or doc ''evaluations'' PNone = PList xs")
  case True
  then obtain xs where xs: "get_or doc ''evaluations'' PNone = PList xs" by blast
  with assms that(1) show ?thesis
    by (auto simp: graded_entries_def Let_def bind_res_Inr get_list dest: migrate_evaluations_same)
next
  case False
  with assms have "es = [(''approvals'', PNone)]" "gk = []"
    by (auto simp: graded_entries_def Let_def split: pyval.splits)
  with False that(2) show ?thesis by (simp add: get_list)
qed

lemma migrate_run_Inr:
  assumes "migrate_run f now doc = Inr (t, r)"
  obtains es gk clash where "graded_entries f doc = Inr (es, gk, clash)"
    "mr_mapped r = ''schema'' # map fst (carried_entries doc) @ gk"
    "mr_unmapped r = filter (\<lambda>(k, v). k \<notin> set (mr_mapped r)) doc"
    "t = [(''schema'', PStr target_schema_name), (''contracts'', PDict (map (\<lambda>(k, v). (k, PStr v)) run_v2_contracts))]
       @ carried_entries doc @ es @ [(''actions'', PNone), (''migration'', PDict (report_dict r source_schema_name now))]"
    "mr_unfilled r = filter (\<lambda>k. k \<notin> {''schema'', ''contracts'', ''actions''} \<union> fst ` set (carried_entries doc) \<union> fst ` set es) v2_required"
  using assms by (auto simp: migrate_run_def Let_def bind_res_Inr not_recorded_in_v1_def image_Un split: if_splits
      cong: filter_cong)

lemma not_carried: "k \<in> {''schema'', ''contracts'', ''evaluations'', ''approvals'', ''actions'', ''migration''} \<Longrightarrow> k \<notin> set carried"
  by (auto simp: carried_def)

text \<open>The entries of the result, one group of keys at a time.\<close>

lemma migrated_lookup:
  assumes "migrate_run f now doc = Inr (t, r)"
  shows "k \<in> set carried \<Longrightarrow> map_of doc k = Some v \<Longrightarrow> map_of t k = Some v"
    and "map_of t ''actions'' = Some PNone"
    and "map_of t ''migration'' = Some (PDict (report_dict r source_schema_name now))"
    and "graded_entries f doc = Inr (es, gk, clash) \<Longrightarrow> k \<in> {''evaluations'', ''approvals''} \<Longrightarrow> map_of t k = map_of es k"
    and "fst ` set t \<subseteq> {''schema'', ''contracts'', ''approvals'', ''actions'', ''migration''} \<union> fst ` set doc"
proof -
  from migrate_run_Inr [OF assms] obtain es' gk' clash' where e: "graded_entries f doc = Inr (es', gk', clash')"
    and t: "t = [(''schema'', PStr target_schema_name), (''contracts'', PDict (map (\<lambda>(k, v). (k, PStr v)) run_v2_contracts))]
       @ carried_entries doc @ es' @ [(''actions'', PNone), (''migration'', PDict (report_dict r source_schema_name now))]"
    by metis
  have es: "fst ` set es' \<subseteq> {''evaluations'', ''approvals''}" "map_of es' ''actions'' = None" "map_of es' ''migration'' = None"
    "fst ` set es' \<subseteq> insert ''approvals'' (fst ` set doc)"
    using e by (auto elim!: graded_entries_Inr dest!: map_of_SomeD intro: rev_image_eqI)
  show "k \<in> set carried \<Longrightarrow> map_of doc k = Some v \<Longrightarrow> map_of t k = Some v"
    using not_carried [of k] by (auto simp: t map_add_def map_of_carried)
  show "map_of t ''actions'' = Some PNone" "map_of t ''migration'' = Some (PDict (report_dict r source_schema_name now))"
    using es by (simp_all add: t map_add_def map_of_carried not_carried)
  show "graded_entries f doc = Inr (es, gk, clash) \<Longrightarrow> k \<in> {''evaluations'', ''approvals''} \<Longrightarrow> map_of t k = map_of es k"
    using e by (auto simp: t map_add_def map_of_carried not_carried split: option.splits)
  show "fst ` set t \<subseteq> {''schema'', ''contracts'', ''approvals'', ''actions'', ''migration''} \<union> fst ` set doc"
    unfolding t set_append image_Un keys_carried using es(4) by auto
qed


text \<open>C40. A migration grants nothing and claims no action: the approvals of the result are the
  passes of the source that asked for one, each without a grant, and the actions are null.\<close>

theorem migration_grants_nothing:
  assumes run: "migrate_run f now doc = Inr (t, r)" and xs: "map_of doc ''evaluations'' = Some (PList xs)"
  shows "map_of t ''actions'' = Some PNone \<and> (\<exists>as. map_of t ''approvals'' = Some (PList (map PDict as))
     \<and> set as = {approval_record f (get_or doc ''run_id'' (PStr [])) (get_or doc ''task'' PNone) (Suc j) |j.
         j < length xs \<and> asks_approval (xs ! j)}
     \<and> (\<forall>a \<in> set as. get_or a ''granted'' PNone = PNone \<and> approval_is_well_formed a))"
proof -
  let ?as = "approvals_from f (get_or doc ''run_id'' (PStr [])) (get_or doc ''task'' PNone) 1 xs"
  from migrate_run_Inr [OF run] obtain es gk clash where e: "graded_entries f doc = Inr (es, gk, clash)" by metis
  from e have "map_of es ''approvals'' = Some (PList (map PDict ?as))"
    by (cases rule: graded_entries_Inr) (use xs in auto)
  with migrated_lookup(4) [OF run e] have "map_of t ''approvals'' = Some (PList (map PDict ?as))" by simp
  moreover have "set ?as = {approval_record f (get_or doc ''run_id'' (PStr [])) (get_or doc ''task'' PNone) (Suc j) |j.
         j < length xs \<and> asks_approval (xs ! j)}"
    by (auto dest!: approvals_from_cases intro: approvals_from_asked [where i = 1, simplified])
  moreover have "\<forall>a \<in> set ?as. get_or a ''granted'' PNone = PNone \<and> approval_is_well_formed a"
    using approval_record_open by (auto dest!: approvals_from_cases)
  ultimately show ?thesis using migrated_lookup(2) [OF run] by blast
qed

section \<open>A document of the first version\<close>

definition sample_source :: dict where
  "sample_source = [(''schema'', PStr ''atlas-run.v1''), (''run_id'', PStr ''r''), (''task'', PStr ''delete the notes''),
     (''iteration'', PInt 1), (''evaluations'', PList [PDict [(''passed'', PBool False),
        (''requires_user_approval'', PBool True), (''run_id'', PStr ''other'')]]),
     (''note'', PStr ''kept'')]"

definition sample_target :: "dict \<times> migration_report" where
  "sample_target = sum.projr (migrate_run (\<lambda>s. s) ''noon'' sample_source)"

lemma sample_migrates: "migrate_run (\<lambda>s. s) ''noon'' sample_source = Inr (fst sample_target, snd sample_target)"
proof -
  have "\<not> isl (migrate_run (\<lambda>s. s) ''noon'' sample_source)" by code_simp
  then show ?thesis by (cases "migrate_run (\<lambda>s. s) ''noon'' sample_source") (simp_all add: sample_target_def)
qed


theorem migration_grants_nothing_witness:
  "\<exists>as. map_of (fst sample_target) ''approvals'' = Some (PList (map PDict as))
     \<and> (\<exists>a \<in> set as. get_or a ''reason'' PNone = PStr ''task_matches_write_keyword'')
     \<and> (\<forall>a \<in> set as. get_or a ''granted'' PNone = PNone)"
proof -
  let ?x = "PDict [(''passed'', PBool False), (''requires_user_approval'', PBool True), (''run_id'', PStr ''other'')]"
  have xs: "map_of sample_source ''evaluations'' = Some (PList [?x])" by (simp add: sample_source_def)
  have "asks_approval ([?x] ! 0)" "0 < length [?x]" by (simp_all add: asks_approval_def get_or_def)
  moreover have "get_or (approval_record f run (get_or sample_source ''task'' PNone) (Suc 0)) ''reason'' PNone
      = PStr ''task_matches_write_keyword''" for f run
  proof -
    have "approval_reason (get_or sample_source ''task'' PNone) = ''task_matches_write_keyword''" by code_simp
    then show ?thesis by (simp add: approval_record_def get_or_def)
  qed
  ultimately show ?thesis using migration_grants_nothing [OF sample_migrates xs] by blast
qed

text \<open>What the source says of its own identity does not survive, and an evaluation that is null ends the migration.\<close>

lemma own_run_id_overwritten:
  "map_of (sum.projr (migrate_evaluation f (PDict [(''run_id'', PStr ''other'')]) (PStr ''r'') 1)) ''run_id'' = Some (PStr ''r'')"
  by (simp add: migrate_evaluation_def as_dict_def Let_def get_or_def)

lemma null_evaluation_escapes:
  "migrate_run f now [(''schema'', PStr ''atlas-run.v1''), (''evaluations'', PList [PNone])] = Inl TypeError"
  by (simp add: migrate_run_def source_schema_name_def graded_entries_def Let_def get_or_def migrate_evaluation_def
      as_dict_def)

end
