(* ===== verification/Spec2Isabelle.thy ===== *)
theory Spec2Isabelle
  imports Redaction_Limits Producing Runs Proposed Following Sealing Promotion Supervision Ledger Migration
begin

text \<open>
  \<^bold>\<open>Atlas core.\<close> A bounded task loop that observes a repository, routes a task, plans, executes,
  evaluates and either retries or stops. Every finding is checked against sources that can be read again,
  every step is an event of an append-only log, and nothing is written without a person's approval
  of the very operation. This development models that program, component by component, as executable functions
  on explicit states, and proves what each component promises and what they promise together.
  Paths are below \<open>src/atlas_core/\<close>.

  \<^bold>\<open>How the parts work together.\<close> \<open>controller.py\<close> runs the loop over a run state (\<open>state.py\<close>)
  whose status moves by the table of \<open>machine.py\<close>. A pass observes through rounds of readers
  (\<open>observer.py\<close>) into an evidence base (\<open>evidence_base.py\<close>) of observations (\<open>observation.py\<close>)
  collected from one snapshot (\<open>snapshot.py\<close>) by contained reads (\<open>containment.py\<close>); it routes and plans
  (\<open>router.py\<close>, \<open>planner.py\<close>, \<open>safety.py\<close>, \<open>review_plan.py\<close>), lets a model or the rule-based executor
  answer (\<open>executor.py\<close>, \<open>review_producers.py\<close>), reads the findings out of the answer (\<open>evidence.py\<close>,
  \<open>finding.py\<close>), settles their claims (\<open>claim_check.py\<close>) and grades the result (\<open>evaluator.py\<close>), all
  under one budget (\<open>budget.py\<close>) and logged in \<open>eventlog.py\<close>. \<open>tool_gateway.py\<close> runs tools for it,
  writes only on an approval of \<open>approval.py\<close>; \<open>patch_proposal.py\<close> is the one write there is.
  \<open>host_api.py\<close> lets other processes see, cancel, seal and resume runs, \<open>isolation.py\<close> and
  \<open>process_guard.py\<close> put a run in a process of its own, \<open>inspect_run.py\<close> reports on a log,
  \<open>finalizer.py\<close> renders a run and \<open>feedback.py\<close> turns a person's verdict into a learning.

  \<^bold>\<open>Foundations.\<close>
  \<^item> \<open>Prelude\<close>: exceptions and results (\<open>exc + 'a\<close>), dictionaries in insertion order, the collections
    \<open>guards\<close>, \<open>ops\<close> and \<open>returning\<close>. \<open>PyText\<close>: Python strings as Latin-1 texts (two characters
    beyond it are kept as unassigned control codes), their methods, \<open>repr\<close>, JSON strings and
    \<open>fnmatch\<close>. \<open>PyValue\<close>: what \<open>json.loads\<close> returns; finite floats are reals, rounding is not modelled.
  \<^item> \<open>Effects\<close>: computations with exceptions over a state and their weakest preconditions
    (\<open>afters\<close>). \<open>Histories\<close>: the locales for sequences of operations and for permissions that are spent once.
    \<open>Errors\<close>: which computations never report an illegal move (\<open>orderly\<close>).

  \<^bold>\<open>The run.\<close>
  \<^item> \<open>Machine\<close> (\<open>machine.py\<close>), \<open>Run_State\<close> (\<open>state.py\<close>): statuses, transitions, stop reasons with
    their class and status, \<open>enter\<close> and \<open>stop\<close>; a stop is atomic and final.
  \<^item> \<open>Budget\<close> (\<open>budget.py\<close>): \<open>budget\<close> is \<open>RunBudget\<close>; reservations, charges, deadline and cancellation, with the clock an
    argument. Never overspent along any sequence of operations.
  \<^item> \<open>Controller\<close> (\<open>controller.py\<close>): every stage of \<open>_run\<close> as a step on the run, budget and log (the
    record \<open>ctl\<close>); \<open>run_loop\<close> iterates \<open>one_pass\<close>. \<open>Loop_Facts\<close>, \<open>Passes\<close>, \<open>Samples\<close>,
    \<open>Runs\<close>: it never makes an illegal move, ends with one reason and its status, the reason is
    borne out by the last evaluation, the evidence stays that of one snapshot, and the passes are
    paths of an abstract machine in which the statement after the loop is unreachable.
  \<^item> \<open>EventLog\<close> (\<open>eventlog.py\<close>): events, the log, the JSON-lines sink and its reader, torn tails,
    the run lock, the states of calls; the locale \<open>event_sink\<close> is what a log relies on and is
    interpreted on the sink. A crash loses at most the record being written.
  \<^item> \<open>Inspect\<close> (\<open>inspect_run.py\<close>): the validation of a history equals the declarative
    \<open>consistent\<close>, and the report says what the history says.

  \<^bold>\<open>Evidence.\<close>
  \<^item> \<open>Containment\<close>, \<open>Redaction\<close>, \<open>Redaction_Limits\<close>, \<open>Observations\<close>, \<open>Snapshots\<close>,
    \<open>Evidence_Base\<close>, \<open>Findings\<close>: the files of the same names; hashing, git and the file system are
    the record \<open>host\<close>. The patterns of \<open>redaction.py\<close> are terms of a small matcher whose
    backtracking follows Python's. Contained reads stay below the root, collecting and verifying are a round trip,
    citations are sound exactly when the sources say so.
  \<^item> \<open>Observer\<close> (\<open>observer.py\<close>): requests, rounds and the merge, which loses nothing untouched.
  \<^item> \<open>Claim_Check\<close> (\<open>claim_check.py\<close>), \<open>Evidence\<close> (\<open>evidence.py\<close>): typed claims, their rendered
    sentences, and the exact condition under which each kind is verified or contradicted.
  \<^item> \<open>Review_Plan\<close>, \<open>Routing\<close>, \<open>Review_Producers\<close>, \<open>Executor\<close>, \<open>Producing\<close>: plans and routes, the four
    deterministic producers and the route bodies; what a producer writes for a marker settles when
    it is read back.
  \<^item> \<open>Evaluator\<close>, \<open>Grading\<close> (\<open>evaluator.py\<close>): both grading paths, exit criteria and the
    next action; a review passes only on settled claims.

  \<^bold>\<open>Writing.\<close>
  \<^item> \<open>Approval\<close> (\<open>approval.py\<close>): operations, requests, grants and their consumption (\<open>authority\<close> is
    \<open>ApprovalAuthority\<close>); it refines an abstract permission that is spent at most once, by a
    person's token, for the operation whose digest was granted.
  \<^item> \<open>Schemas\<close>, \<open>Tool_Gateway\<close>, \<open>Gateway_Calls\<close> (\<open>tool_gateway.py\<close>): the schema check and a type
    system for it, read calls with retries, calls on workers, write calls; a write handler runs only after an approval was
    spent and every started call is settled.
  \<^item> \<open>Patch_Proposal\<close>, \<open>Proposal_Facts\<close>, \<open>Proposed\<close> (\<open>patch_proposal.py\<close>): from a patch to a
    branch read back from the repository; without the person's digest nothing is written, and the reference
    transaction is exactly one verify and one create.

  \<^bold>\<open>Other processes and people.\<close>
  \<^item> \<open>Host_Api\<close>, \<open>Host_Facts\<close> (\<open>host_api.py\<close>, and \<open>run\<close> and \<open>resume\<close> of \<open>controller.py\<close>): the store
    is the log's text, the locks held and the side files. One writer, pinned resumes, locks given
    back. \<open>Sealing\<close>: a lost run that is sealed reads as finished. \<open>Following\<close>: a follower yields
    the beginning of the records and does not call an attended run interrupted.
  \<^item> \<open>Isolation\<close>, \<open>Supervision\<close> (\<open>isolation.py\<close>, \<open>process_guard.py\<close>): the parent returns the
    worker's document or a stop of its own, by its deadline, and the guard's memory is bounded.
  \<^item> \<open>Feedback\<close>, \<open>Promotion\<close> (\<open>feedback.py\<close>): the gate, and that a candidate is promoted at most
    once and only on what the log says now.
  \<^item> \<open>Finalizer\<close>, \<open>Ledger\<close> (\<open>finalizer.py\<close>): the text of a run; the ledger calls a fact exactly
    what was verified.
  \<^item> \<open>Contracts\<close> (\<open>contracts.py\<close>), \<open>Migration\<close> (\<open>migrate.py\<close>): the table of documents and who may write
    their fields, and the step from the first version of a run document to the second, which drops, makes up and
    grants nothing.

  \<^bold>\<open>Bounds and fuel.\<close> \<open>run_loop\<close> has \<open>nat max_iterations\<close> passes, and more change nothing
  (\<open>loop_terminates\<close>). The gateway's \<open>attempts\<close> has the declared number of tries as its count. Waiting for
  a lock (\<open>hold\<close>) tries once per twentieth of a second of its wait, as the code's deadline allows. A
  repetition of a pattern goes on only after it consumed something, so the length of the text is
  enough. The loops of a follower, of the parent of a worker and of the guard run over the list of what they
  observe; one that has not ended at the end of the list is an open result (\<open>StillFollowing\<close>, \<open>None\<close>), and
  that they end is a theorem where the code sets a deadline.

  \<^bold>\<open>Parameters.\<close> Hashes, clocks, identifiers, \<open>json.loads\<close>, git, the file system, the model, the readers, the
  person and what other processes do are fields of environment records; what is relied on of them is a
  premise of the theorem that needs it, and each such theorem is applied to a concrete instance.

  \<^bold>\<open>Not modelled.\<close> The command line (\<open>cli.py\<close>, \<open>worker_cli.py\<close>) parses arguments and prints. The
  adapters under \<open>adapters/\<close> talk to model providers and repositories; the controller takes them as
  parameters. \<open>integrity.py\<close> wraps the modelled containment, collection and masking for an exported manifest.
  \<open>telemetry.py\<close> and \<open>benchmark.py\<close> aggregate over finished runs, \<open>ci.py\<close> and \<open>skill_generator.py\<close>
  render files, and the scripts build and smoke-test. \<open>to_dict\<close> methods list the fields of their record. Threads, signals and
  the interleaving inside one operation of a process are not modelled: operations are atomic, and what others do happens
  between them; encodings other than Latin-1 texts and floating-point rounding are outside the model.
\<close>

end
